(* ===== verification/Prelude.thy ===== *)
theory Prelude
  imports Complex_Main
begin

text \<open>
  What every component of the model shares: the names of the basic types, the errors the
  Python code raises, the result combinators that stand for raising and returning, a
  database transaction that is rolled back when its body raises, database tables as lists
  of rows in primary-key order, and two interfaces (locales) that the ledgers and the
  state machines of the components instantiate.
\<close>

named_theorems table_simps and result_simps

subsection \<open>Basic types\<close>

type_synonym ident = nat
type_synonym paise = int
type_synonym timestamp = int
type_synonym day = int

text \<open>
  A raised exception: the class, with the code (and HTTP status) that the application's
  own exception classes carry, or the message where the code inspects it.
\<close>

datatype exn =
    ValueError string
  | ValidationError
  | InvalidOperation
  | IntegrityError
  | DoesNotExist
  | PeerTransferError string
  | WalletCreditError string nat
  | ProcurementError string nat

subsection \<open>Raising and returning\<close>

definition and_then :: "'e + 'a \<Rightarrow> ('a \<Rightarrow> 'e + 'b) \<Rightarrow> 'e + 'b" where
  "and_then r f = (case r of Inl e \<Rightarrow> Inl e | Inr x \<Rightarrow> f x)"

definition ensure :: "bool \<Rightarrow> 'e \<Rightarrow> 'e + unit" where
  "ensure b e = (if b then Inr () else Inl e)"

lemma and_then_simps [simp]:
  "and_then (Inl e) f = Inl e"
  "and_then (Inr x) f = f x"
  by (simp_all add: and_then_def)

lemma and_then_eq_Inr [result_simps]:
  "and_then r f = Inr y \<longleftrightarrow> (\<exists>x. r = Inr x \<and> f x = Inr y)"
  by (cases r) auto

lemma and_then_eq_Inl [result_simps]:
  "and_then r f = Inl e \<longleftrightarrow> r = Inl e \<or> (\<exists>x. r = Inr x \<and> f x = Inl e)"
  by (cases r) auto

lemma and_then_cong [fundef_cong]:
  "r = r' \<Longrightarrow> (\<And>x. r' = Inr x \<Longrightarrow> f x = g x) \<Longrightarrow> and_then r f = and_then r' g"
  by (cases r') auto

lemma ensure_eq_Inr [simp]: "ensure b e = Inr u \<longleftrightarrow> b"
  by (simp add: ensure_def)

lemma ensure_eq_Inl [simp]: "ensure b e = Inl e' \<longleftrightarrow> \<not> b \<and> e' = e"
  by (auto simp: ensure_def)

lemma ensure_True [simp]: "ensure True e = Inr ()"
  and ensure_False [simp]: "ensure False e = Inl e"
  by (simp_all add: ensure_def)

lemma succeeded: "\<not> isl r \<Longrightarrow> r = Inr (fst (projr r), snd (projr r))"
  by (cases r) auto

text \<open>
  Django's \<^verbatim>\<open>transaction.atomic\<close> around a body that writes as it goes: when the body
  raises, every write it made is undone and the exception goes on to the caller.
\<close>

definition atomic :: "('s \<Rightarrow> 's \<times> ('e + 'a)) \<Rightarrow> 's \<Rightarrow> 's \<times> ('e + 'a)" where
  "atomic body s = (case body s of (t, Inl e) \<Rightarrow> (s, Inl e) | (t, Inr x) \<Rightarrow> (t, Inr x))"

lemma atomic_Inl: "snd (atomic body s) = Inl e \<Longrightarrow> fst (atomic body s) = s"
  by (auto simp: atomic_def split: prod.splits sum.splits)

lemma atomic_eq_Inr: "atomic body s = (t, Inr x) \<longleftrightarrow> body s = (t, Inr x)"
  by (auto simp: atomic_def split: prod.splits sum.splits)

lemma atomic_eq_Inl:
  "atomic body s = (t, Inl e) \<longleftrightarrow> t = s \<and> (\<exists>u. body s = (u, Inl e))"
  by (auto simp: atomic_def split: prod.splits sum.splits)


subsection \<open>Database tables\<close>

text \<open>
  A table is the list of its rows in primary-key order. \<open>row_of\<close> is \<^verbatim>\<open>get(pk=...)\<close>,
  \<open>update_row\<close> is \<^verbatim>\<open>filter(pk=...).update(...)\<close> or the \<^verbatim>\<open>save()\<close> of one row, and
  \<open>fresh_pk\<close> a key no row has. The selector of the key is the first argument.
\<close>

definition row_of :: "('r \<Rightarrow> ident) \<Rightarrow> ident \<Rightarrow> 'r list \<Rightarrow> 'r option" where
  "row_of pk i rows = find (\<lambda>r. pk r = i) rows"

definition update_row :: "('r \<Rightarrow> ident) \<Rightarrow> ident \<Rightarrow> ('r \<Rightarrow> 'r) \<Rightarrow> 'r list \<Rightarrow> 'r list" where
  "update_row pk i f rows = map (\<lambda>r. if pk r = i then f r else r) rows"

definition fresh_pk :: "('r \<Rightarrow> ident) \<Rightarrow> 'r list \<Rightarrow> ident" where
  "fresh_pk pk rows = Suc (fold max (map pk rows) 0)"

definition unique_keys :: "('r \<Rightarrow> ident) \<Rightarrow> 'r list \<Rightarrow> bool" where
  "unique_keys pk rows = distinct (map pk rows)"

lemma find_Some_set: "find P xs = Some x \<Longrightarrow> x \<in> set xs \<and> P x"
  by (induction xs) (auto split: if_splits)

lemma find_append_case [table_simps]:
  "find P (xs @ ys) = (case find P xs of None \<Rightarrow> find P ys | Some x \<Rightarrow> Some x)"
  by (induction xs) auto

lemma row_of_Nil [simp]: "row_of pk i [] = None"
  by (simp add: row_of_def)

lemma row_of_Cons [simp]:
  "row_of pk i (r # rows) = (if pk r = i then Some r else row_of pk i rows)"
  by (simp add: row_of_def)

lemma update_row_simps [simp]:
  "update_row pk i f [] = []"
  "update_row pk i f (r # rows) = (if pk r = i then f r else r) # update_row pk i f rows"
  by (simp_all add: update_row_def)

lemma length_update_row [simp]: "length (update_row pk i f rows) = length rows"
  by (simp add: update_row_def)

lemma row_of_SomeD: "row_of pk i rows = Some r \<Longrightarrow> r \<in> set rows \<and> pk r = i"
  by (auto simp: row_of_def dest: find_Some_set)

lemma row_of_None: "row_of pk i rows = None \<longleftrightarrow> i \<notin> pk ` set rows"
  by (induction rows) auto

lemma row_of_unique:
  "unique_keys pk rows \<Longrightarrow> r \<in> set rows \<Longrightarrow> row_of pk (pk r) rows = Some r"
  by (induction rows) (auto simp: unique_keys_def rev_image_eqI)

lemma update_row_keys:
  "(\<And>r. pk (f r) = pk r) \<Longrightarrow> map pk (update_row pk i f rows) = map pk rows"
  by (induction rows) auto

lemma unique_keys_update_row:
  "(\<And>r. pk (f r) = pk r) \<Longrightarrow> unique_keys pk (update_row pk i f rows) = unique_keys pk rows"
  by (simp add: unique_keys_def update_row_keys)

lemma row_of_update_row:
  "(\<And>r. pk (f r) = pk r) \<Longrightarrow>
   row_of pk j (update_row pk i f rows) =
     (if i = j then map_option f (row_of pk j rows) else row_of pk j rows)"
  by (induction rows) auto

lemma update_row_absent: "i \<notin> pk ` set rows \<Longrightarrow> update_row pk i f rows = rows"
  by (induction rows) auto

lemma row_of_append [table_simps]:
  "row_of pk i (rows @ rows') =
     (case row_of pk i rows of None \<Rightarrow> row_of pk i rows' | Some r \<Rightarrow> Some r)"
  by (induction rows) auto

lemma fold_max_upper: "x \<in> set xs \<or> x \<le> m \<Longrightarrow> x \<le> fold max xs m" for m :: nat
proof (induction xs arbitrary: m)
  case (Cons y ys)
  from Cons.prems have "x \<in> set ys \<or> x \<le> max y m" by auto
  then show ?case using Cons.IH by simp
qed simp

lemma fresh_pk_notin: "fresh_pk pk rows \<notin> pk ` set rows"
proof
  assume "fresh_pk pk rows \<in> pk ` set rows"
  then have "fresh_pk pk rows \<le> fold max (map pk rows) 0"
    by (intro fold_max_upper) simp
  then show False by (simp add: fresh_pk_def)
qed

lemma row_of_fresh [simp]: "row_of pk (fresh_pk pk rows) rows = None"
  by (simp add: row_of_None fresh_pk_notin)

lemma fresh_pk_pos [simp]: "0 < fresh_pk pk rows"
  by (simp add: fresh_pk_def)

lemma unique_keys_append:
  "unique_keys pk rows \<Longrightarrow> pk r \<notin> pk ` set rows \<Longrightarrow> unique_keys pk (rows @ [r])"
  by (auto simp: unique_keys_def)

text \<open>Saving one row: the table is the old one but for the row with that key.\<close>

lemma update_row_const:
  assumes "unique_keys pk rows" "r \<in> set rows"
  obtains xs ys where "rows = xs @ r # ys" "update_row pk (pk r) (\<lambda>_. r') rows = xs @ r' # ys"
proof -
  from assms(2) obtain xs ys where rows: "rows = xs @ r # ys"
    by (auto simp: in_set_conv_decomp)
  with assms(1) have "pk r \<notin> pk ` set xs" "pk r \<notin> pk ` set ys"
    by (auto simp: unique_keys_def)
  then have "update_row pk (pk r) (\<lambda>_. r') xs = xs" "update_row pk (pk r) (\<lambda>_. r') ys = ys"
    by (simp_all add: update_row_absent)
  with rows show thesis by (intro that [of xs ys]) (simp_all add: update_row_def)
qed

lemma map_update_row_const:
  assumes "unique_keys pk rows" "r \<in> set rows" "f r' = f r"
  shows "map f (update_row pk (pk r) (\<lambda>_. r') rows) = map f rows"
  by (rule update_row_const [OF assms(1,2), of r']) (simp add: assms(3))

lemma length_filter_update_row:
  assumes "unique_keys pk rows" "r \<in> set rows" "\<not> P r" "P r'"
  shows "length (filter P (update_row pk (pk r) (\<lambda>_. r') rows)) = Suc (length (filter P rows))"
  by (rule update_row_const [OF assms(1,2), of r']) (simp add: assms(3,4))

lemma list_all2_update_row:
  assumes "unique_keys pk rows" "r \<in> set rows" "P r r'" "\<And>x. P x x"
  shows "list_all2 P rows (update_row pk (pk r) (\<lambda>_. r') rows)"
  by (rule update_row_const [OF assms(1,2), of r'])
    (simp add: assms(3,4) list_all2_refl list_all2_appendI)

subsection \<open>Strings\<close>

text \<open>
  Python's \<^verbatim>\<open>str.strip()\<close> on characters below code point 256: the white space is that of
  \<^verbatim>\<open>str.isspace\<close>.
\<close>

definition is_space :: "char \<Rightarrow> bool" where
  "is_space c = (let n = (of_char c :: nat) in
     9 \<le> n \<and> n \<le> 13 \<or> 28 \<le> n \<and> n \<le> 32 \<or> n = 133 \<or> n = 160)"

definition strip :: "string \<Rightarrow> string" where
  "strip s = rev (dropWhile is_space (rev (dropWhile is_space s)))"

lemma strip_Nil [simp]: "strip [] = []"
  by (simp add: strip_def)

lemma length_strip: "length (strip s) \<le> length s"
proof -
  have "length (dropWhile is_space (rev t)) \<le> length t" for t
    using length_dropWhile_le [of is_space "rev t"] by simp
  then show ?thesis
    unfolding strip_def length_rev
    using length_dropWhile_le [of is_space s] order_trans by blast
qed

lemma strip_strip [simp]: "strip (strip s) = strip s"
proof -
  define t where "t = dropWhile is_space s"
  define u where "u = dropWhile is_space (rev t)"
  have stripped: "strip s = rev u" by (simp add: strip_def t_def u_def)
  have "takeWhile is_space (rev t) @ u = rev t" by (simp add: u_def)
  then have "t = rev u @ rev (takeWhile is_space (rev t))" by (metis rev_append rev_rev_ident)
  then obtain q where t: "t = rev u @ q" by blast
  have "dropWhile is_space (rev u) = rev u"
  proof (cases "rev u")
    case (Cons c cs)
    then have "dropWhile is_space s \<noteq> []" "hd (dropWhile is_space s) = c"
      using t unfolding t_def [symmetric] by simp_all
    then have "\<not> is_space c" using hd_dropWhile by metis
    then show ?thesis by (simp add: Cons)
  qed simp
  moreover have "dropWhile is_space u = u" by (simp add: u_def dropWhile_idem)
  ultimately show ?thesis unfolding stripped by (simp add: strip_def)
qed

text \<open>Python's \<^verbatim>\<open>pat in s\<close>.\<close>

fun contains :: "string \<Rightarrow> string \<Rightarrow> bool" where
  "contains pat [] = (pat = [])"
| "contains pat (c # cs) = (take (length pat) (c # cs) = pat \<or> contains pat cs)"

subsection \<open>Interfaces\<close>

text \<open>
  A ledger: accounts with a balance, an append-only list of signed postings, and steps.
  Whatever a step does, the balance of every account moves by exactly what the step
  posts to it. Then a ledger that is reconciled stays reconciled however long it runs.
\<close>

definition posted :: "'k \<Rightarrow> ('k \<times> int) list \<Rightarrow> int" where
  "posted k es = sum_list (map snd (filter (\<lambda>e. fst e = k) es))"

lemma posted_simps [simp]:
  "posted k [] = 0"
  "posted k (e # es) = (if fst e = k then snd e else 0) + posted k es"
  "posted k (es @ es') = posted k es + posted k es'"
  by (simp_all add: posted_def)

locale ledger =
  fixes balance :: "'s \<Rightarrow> 'k \<Rightarrow> int"
    and entries :: "'s \<Rightarrow> ('k \<times> int) list"
    and step :: "'s \<Rightarrow> 's \<Rightarrow> bool"
  assumes step_posts:
    "step s t \<Longrightarrow> \<exists>new. entries t = entries s @ new \<and>
       (\<forall>k. balance t k = balance s k + posted k new)"
begin

lemma step_reconciles:
  assumes "step s t" and "\<forall>k. balance s k = posted k (entries s)"
  shows "\<forall>k. balance t k = posted k (entries t)"
  using step_posts [OF assms(1)] assms(2) by auto

lemma run_reconciles:
  assumes "step\<^sup>*\<^sup>* s t" and "\<forall>k. balance s k = posted k (entries s)"
  shows "\<forall>k. balance t k = posted k (entries t)"
  using assms by (induction rule: rtranclp_induct) (auto dest: step_reconciles)

lemma run_appends:
  assumes "step\<^sup>*\<^sup>* s t"
  shows "\<exists>new. entries t = entries s @ new"
  using assms by (induction rule: rtranclp_induct) (auto dest: step_posts)

end

text \<open>
  A state machine with an invariant: what every step keeps holds in every state the
  machine reaches, and a relation every step establishes that is reflexive and transitive
  holds between the ends of a run.
\<close>

locale machine =
  fixes step :: "'s \<Rightarrow> 's \<Rightarrow> bool"
    and inv :: "'s \<Rightarrow> bool"
  assumes step_inv: "inv s \<Longrightarrow> step s t \<Longrightarrow> inv t"
begin

lemma run_inv: "step\<^sup>*\<^sup>* s t \<Longrightarrow> inv s \<Longrightarrow> inv t"
  by (induction rule: rtranclp_induct) (auto intro: step_inv)

end

end
