(* ===== verification/Users.thy ===== *)
theory Users
  imports Prelude
begin

text \<open>
  Accounts: the user types of \<^verbatim>\<open>users/models/user_type.py\<close> with the groups of types the wallet
  code asks about, and the part of a user row the model reads. A user row whose
  \<^verbatim>\<open>user_type\<close> is empty has \<open>None\<close>.
\<close>

datatype user_type =
    ADMIN | DEPT_ADMIN | MANAGER | OPERATOR | FINANCE | ORG_ADMIN | EXTERNAL_RELATIONS
  | OC_STORES | HOD
  | STUDENT | INDIVIDUAL_STUDENT | FACULTY | EXTERNAL | RND | INSTITUTE
  | STARTUP_INCUBATED_IITR | EXTERNAL_STARTUP_MSME | OTHER

definition get_admin_panel_codes :: "user_type set" where
  "get_admin_panel_codes = {ADMIN, DEPT_ADMIN, MANAGER, OPERATOR, FINANCE, EXTERNAL_RELATIONS}"

definition get_wallet_eligible_codes :: "user_type set" where
  "get_wallet_eligible_codes =
     {INDIVIDUAL_STUDENT, FACULTY, EXTERNAL, RND, INSTITUTE, STARTUP_INCUBATED_IITR,
      EXTERNAL_STARTUP_MSME, OTHER}"

definition get_internal_user_codes :: "user_type set" where
  "get_internal_user_codes = {STUDENT, INDIVIDUAL_STUDENT, FACULTY, STARTUP_INCUBATED_IITR}"

definition get_external_user_codes :: "user_type set" where
  "get_external_user_codes = {EXTERNAL, RND, INSTITUTE, EXTERNAL_STARTUP_MSME, OTHER}"

definition get_management_user_codes :: "user_type set" where
  "get_management_user_codes =
     {ADMIN, DEPT_ADMIN, MANAGER, OPERATOR, FINANCE, EXTERNAL_RELATIONS, ORG_ADMIN}"

definition is_internal_user :: "user_type \<Rightarrow> bool" where
  "is_internal_user ut = (ut \<in> get_internal_user_codes)"

definition is_external_user :: "user_type \<Rightarrow> bool" where
  "is_external_user ut = (ut \<in> get_external_user_codes)"

definition is_management_user :: "user_type \<Rightarrow> bool" where
  "is_management_user ut = (ut \<in> get_management_user_codes)"

datatype degree_kind = UNDERGRADUATE | POSTGRADUATE | RESEARCH | OTHER_DEGREE

text \<open>
  \<open>u_degree\<close> is the classification of the user's degree, where the degree is known and
  classified; \<open>u_force_inactive\<close> marks an account disabled at the end of its life cycle.
\<close>

record user =
  u_id :: ident
  u_name :: string
  u_email :: string
  u_type :: "user_type option"
  u_is_active :: bool
  u_department :: "ident option"
  u_joining_date :: "day option"
  u_force_inactive :: bool
  u_degree :: "degree_kind option"
  u_is_superuser :: bool

text \<open>
  \<^verbatim>\<open>UserType.is_end_user_booking_type\<close>, and the groups of types by how they sign in.
\<close>

definition is_end_user_booking_type :: "user_type option \<Rightarrow> bool" where
  "is_end_user_booking_type ut = (case ut of
     None \<Rightarrow> False
   | Some t \<Rightarrow> t \<in> {STUDENT, INDIVIDUAL_STUDENT, FACULTY, EXTERNAL, RND, INSTITUTE,
       STARTUP_INCUBATED_IITR, EXTERNAL_STARTUP_MSME})"

definition get_omniport_codes :: "user_type set" where
  "get_omniport_codes =
     {STUDENT, INDIVIDUAL_STUDENT, FACULTY, DEPT_ADMIN, MANAGER, OPERATOR, FINANCE}"

definition get_email_login_toggle_codes :: "user_type set" where
  "get_email_login_toggle_codes = {STUDENT, INDIVIDUAL_STUDENT, FACULTY, MANAGER, OPERATOR}"

definition get_email_login_default_off_codes :: "user_type set" where
  "get_email_login_default_off_codes = {STUDENT, INDIVIDUAL_STUDENT, FACULTY}"

definition get_email_auth_codes :: "user_type set" where
  "get_email_auth_codes =
     {EXTERNAL, RND, INSTITUTE, STARTUP_INCUBATED_IITR, EXTERNAL_STARTUP_MSME, OTHER, ORG_ADMIN,
      EXTERNAL_RELATIONS}"

text \<open>\<^verbatim>\<open>User.can_have_wallet\<close> of \<^verbatim>\<open>users/models/user.py\<close>.\<close>

definition can_have_wallet :: "user \<Rightarrow> bool" where
  "can_have_wallet u = (case u_type u of
     None \<Rightarrow> False
   | Some t \<Rightarrow> t \<in> get_wallet_eligible_codes)"

lemmas user_group_defs =
  get_admin_panel_codes_def get_wallet_eligible_codes_def get_internal_user_codes_def
  get_external_user_codes_def get_management_user_codes_def is_internal_user_def
  is_external_user_def is_management_user_def

text \<open>The groups do not overlap: internal, external and management types are disjoint.\<close>

lemma user_groups_disjoint:
  "\<not> (is_internal_user t \<and> is_external_user t)"
  "\<not> (is_internal_user t \<and> is_management_user t)"
  "\<not> (is_external_user t \<and> is_management_user t)"
  by (cases t; simp add: user_group_defs)+

text \<open>
  Nobody signs in both ways, the users who may switch e-mail sign-in on or off sign in through
  Channel i, and every type but the main administrator and the two procurement-only ones signs
  in one way.
\<close>

lemma sign_in_ways:
  "get_omniport_codes \<inter> get_email_auth_codes = {}"
  "get_email_login_default_off_codes \<subseteq> get_email_login_toggle_codes"
  "get_email_login_toggle_codes \<subseteq> get_omniport_codes"
  "t \<in> get_omniport_codes \<union> get_email_auth_codes \<longleftrightarrow> t \<notin> {ADMIN, OC_STORES, HOD}"
  by (cases t; auto simp: get_omniport_codes_def get_email_auth_codes_def
      get_email_login_toggle_codes_def get_email_login_default_off_codes_def)+

lemma regular_student_has_no_wallet: "u_type u = Some STUDENT \<Longrightarrow> \<not> can_have_wallet u"
  by (simp add: can_have_wallet_def user_group_defs)

lemma external_can_have_wallet: "u_type u = Some t \<Longrightarrow> is_external_user t \<Longrightarrow> can_have_wallet u"
  by (auto simp: can_have_wallet_def user_group_defs)

lemma faculty_can_have_wallet: "u_type u = Some FACULTY \<Longrightarrow> can_have_wallet u"
  by (simp add: can_have_wallet_def user_group_defs)

end
