(* ===== verification/Money.thy ===== *)
theory Money
  imports Prelude
begin

text \<open>
  Amounts of money. A stored amount is a \<^verbatim>\<open>DecimalField\<close> with two decimal places; the model
  keeps it as an integer number of paise (hundredths of a rupee), which is exact. An amount
  that arrives from outside is a \<^verbatim>\<open>Decimal\<close> of any precision, a rational here, and becomes
  paise by \<^verbatim>\<open>quantize(Decimal("0.01"))\<close>: with the default rounding (half to even) in
  \<^verbatim>\<open>wallet_peer_transfer.py\<close> and with \<^verbatim>\<open>ROUND_HALF_UP\<close> (half away from zero) in
  \<^verbatim>\<open>wallet_credit_facility_v2.py\<close>. \<^verbatim>\<open>quantize\<close> raises \<^verbatim>\<open>InvalidOperation\<close> when the result
  needs more than the 28 digits of the default context.
\<close>

named_theorems money_simps

definition round_half_even :: "rat \<Rightarrow> int" where
  "round_half_even x = (let f = \<lfloor>x\<rfloor>; d = x - of_int f in
     if d < 1/2 then f else if 1/2 < d then f + 1 else if even f then f else f + 1)"

definition round_half_up :: "rat \<Rightarrow> int" where
  "round_half_up x = (if 0 \<le> x then \<lfloor>x + 1/2\<rfloor> else - \<lfloor>- x + 1/2\<rfloor>)"

text \<open>
  What a caller hands to \<^verbatim>\<open>Decimal(str(value))\<close>: nothing (\<^verbatim>\<open>None\<close>, an empty string), text that
  is no number, a NaN, an infinity, or a finite decimal.
\<close>

datatype decimal_in = Missing | Not_Number | NaN | Infinite | Finite rat

definition decimal_digits :: int where
  "decimal_digits = 10 ^ 28"

text \<open>\<^verbatim>\<open>_as_money\<close> of \<^verbatim>\<open>wallet_peer_transfer.py\<close>, in paise.\<close>

definition as_money :: "decimal_in \<Rightarrow> exn + paise" where
  "as_money v = (case v of
     Finite x \<Rightarrow> (let amount = round_half_even (x * 100) in
       if decimal_digits \<le> \<bar>amount\<bar> then Inl (PeerTransferError ''invalid_amount'')
       else if amount \<le> 0 then Inl (PeerTransferError ''invalid_amount'')
       else if 10000000 < amount then Inl (PeerTransferError ''amount_too_large'')
       else Inr amount)
   | NaN \<Rightarrow> Inl InvalidOperation
   | _ \<Rightarrow> Inl (PeerTransferError ''invalid_amount''))"

text \<open>
  \<^verbatim>\<open>money\<close> of \<^verbatim>\<open>wallet_credit_facility_v2.py\<close>, in paise. A NaN passes through \<^verbatim>\<open>quantize\<close> and
  makes the first comparison after it raise \<^verbatim>\<open>InvalidOperation\<close>; every caller compares the
  result before it does anything else, so the model raises here.
\<close>

definition money :: "decimal_in \<Rightarrow> exn + paise" where
  "money v = (case v of
     Missing \<Rightarrow> Inr 0
   | Finite x \<Rightarrow> (let amount = round_half_up (x * 100) in
       if decimal_digits \<le> \<bar>amount\<bar> then Inl InvalidOperation else Inr amount)
   | _ \<Rightarrow> Inl InvalidOperation)"

subsection \<open>Rounding\<close>

lemma round_half_even_of_int [simp]: "round_half_even (of_int n) = n"
  by (simp add: round_half_even_def)

lemma round_half_up_of_int [simp]: "round_half_up (of_int n) = n"
proof -
  have "\<lfloor>of_int m + 1/2 :: rat\<rfloor> = m" for m :: int
    by (rule floor_unique) simp_all
  from this [of n] this [of "- n"] show ?thesis
    by (simp add: round_half_up_def)
qed

lemma round_half_even_error: "\<bar>of_int (round_half_even x) - x\<bar> \<le> 1/2"
proof -
  define d where "d = x - of_int \<lfloor>x\<rfloor>"
  have d: "0 \<le> d" "d < 1" and x: "x = of_int \<lfloor>x\<rfloor> + d"
    unfolding d_def by linarith+
  have "round_half_even x = \<lfloor>x\<rfloor> \<and> d \<le> 1/2 \<or> round_half_even x = \<lfloor>x\<rfloor> + 1 \<and> 1/2 \<le> d"
    unfolding round_half_even_def Let_def d_def by auto
  then show ?thesis
    using d x by (auto simp: abs_le_iff)
qed

lemma round_half_up_error: "\<bar>of_int (round_half_up x) - x\<bar> \<le> 1/2"
proof -
  have *: "\<bar>of_int \<lfloor>y + 1/2\<rfloor> - y\<bar> \<le> 1/2" for y :: rat
    by linarith
  show ?thesis
  proof (cases "0 \<le> x")
    case True
    then show ?thesis using * [of x] by (simp add: round_half_up_def)
  next
    case False
    then have "of_int (round_half_up x) = - (of_int \<lfloor>- x + 1/2\<rfloor> :: rat)"
      by (simp add: round_half_up_def)
    then show ?thesis using * [of "- x"] by linarith
  qed
qed

text \<open>The two roundings differ by at most one paisa, and only on an exact half.\<close>

lemma rounding_agrees:
  assumes "x - of_int \<lfloor>x\<rfloor> \<noteq> 1/2"
  shows "round_half_even x = round_half_up x"
proof -
  let ?n = "round_half_even x" and ?m = "round_half_up x"
  have e: "\<bar>of_int ?n - x\<bar> \<le> 1/2" "\<bar>of_int ?m - x\<bar> \<le> 1/2"
    by (rule round_half_even_error round_half_up_error)+
  show ?thesis
  proof (rule ccontr)
    assume "?n \<noteq> ?m"
    then consider "?n + 1 \<le> ?m" | "?m + 1 \<le> ?n" by linarith
    then show False
    proof cases
      case 1
      then have "(of_int ?n :: rat) + 1 \<le> of_int ?m" by linarith
      with e have "x = of_int ?n + 1/2" by (simp add: abs_le_iff)
      moreover from this have "\<lfloor>x\<rfloor> = ?n" by (intro floor_unique) simp_all
      ultimately show False using assms by simp
    next
      case 2
      then have "(of_int ?m :: rat) + 1 \<le> of_int ?n" by linarith
      with e have "x = of_int ?m + 1/2" by (simp add: abs_le_iff)
      moreover from this have "\<lfloor>x\<rfloor> = ?m" by (intro floor_unique) simp_all
      ultimately show False using assms by simp
    qed
  qed
qed

subsection \<open>Amounts that are accepted\<close>

lemma as_money_range: "as_money v = Inr a \<Longrightarrow> 0 < a \<and> a \<le> 10000000"
  by (auto simp: as_money_def Let_def split: decimal_in.splits if_splits)

lemma as_money_exact: "0 < n \<Longrightarrow> n \<le> 10000000 \<Longrightarrow> as_money (Finite (of_int n / 100)) = Inr n"
  by (simp add: as_money_def Let_def decimal_digits_def)

lemma as_money_error:
  assumes "as_money (Finite x) = Inr a"
  shows "\<bar>of_int a / 100 - x\<bar> \<le> 1/200"
proof -
  from assms have "a = round_half_even (x * 100)"
    by (auto simp: as_money_def Let_def split: if_splits)
  then have "\<bar>of_int a - x * 100\<bar> \<le> 1/2"
    using round_half_even_error [of "x * 100"] by simp
  then show ?thesis by linarith
qed

lemma money_exact:
  "\<bar>n\<bar> < decimal_digits \<Longrightarrow> money (Finite (of_int n / 100)) = Inr n"
  by (simp add: money_def Let_def)

lemma money_error:
  assumes "money (Finite x) = Inr a"
  shows "\<bar>of_int a / 100 - x\<bar> \<le> 1/200"
proof -
  from assms have "a = round_half_up (x * 100)"
    by (auto simp: money_def Let_def split: if_splits)
  then have "\<bar>of_int a - x * 100\<bar> \<le> 1/2"
    using round_half_up_error [of "x * 100"] by simp
  then show ?thesis by linarith
qed

lemma as_money_errors:
  "as_money v = Inl e \<Longrightarrow>
   e \<in> {InvalidOperation, PeerTransferError ''invalid_amount'', PeerTransferError ''amount_too_large''}"
  by (auto simp: as_money_def Let_def split: decimal_in.splits if_splits)

end
