(* ===== verification/Wallet_Db.thy ===== *)
theory Wallet_Db
  imports Users Money
begin

text \<open>
  The tables of the wallet: one container (\<open>wallet\<close>) per user, the sub-wallets that hold the
  money (one per wallet and internal department), the transaction log of the sub-wallets,
  the requests of students to use a faculty member's wallet, and the settings, facilities
  and audit log of the department faculty credit facility. All of them are fields of one
  extensible record, so that a component with tables of its own extends it.
\<close>

subsection \<open>Rows\<close>

record department =
  d_id :: ident
  d_name :: string
  d_internal :: bool
  d_grant_code :: string
  d_enable_wallet_credit :: bool

record wallet =
  w_id :: ident
  w_user :: ident

record sub_wallet =
  sw_id :: ident
  sw_wallet :: ident
  sw_department :: ident
  sw_balance :: paise

datatype txn_type = CREDIT | DEBIT

record sub_wallet_txn =
  tx_id :: ident
  tx_sub_wallet :: ident
  tx_type :: txn_type
  tx_amount :: paise
  tx_description :: string
  tx_related_user :: "ident option"

datatype join_status = JR_PENDING | JR_APPROVED | JR_REJECTED | JR_CANCELLED

record join_request =
  jr_id :: ident
  jr_student :: ident
  jr_faculty :: ident
  jr_wallet :: "ident option"
  jr_status :: join_status
  jr_faculty_response :: string
  jr_responded_at :: "timestamp option"

datatype dept_facility_status = FD_ACTIVE | FD_EXHAUSTED | FD_CLOSED

datatype dept_facility_event =
    CONFIG_UPDATED | ACTIVATED | OUTSTANDING_CHANGED | RECHARGE_RECOVERY | STATUS_CHANGED | CLOSED

record dept_credit_settings =
  ds_id :: ident
  ds_department :: ident
  ds_enabled :: bool
  ds_joining_date_cutoff :: "day option"
  ds_max_credit_limit :: paise
  ds_updated_by :: "ident option"

record dept_facility =
  fd_id :: ident
  fd_user :: ident
  fd_department :: ident
  fd_status :: dept_facility_status
  fd_credit_limit :: paise
  fd_availed_at :: timestamp
  fd_closed_at :: "timestamp option"

text \<open>A JSON value of an audit entry's metadata.\<close>

datatype jval = JText string | JMoney paise | JNat nat | JBool bool | JDate "day option"
  | JStatus dept_facility_status | JObj "(string \<times> jval) list"

record dept_credit_audit =
  da_facility :: "ident option"
  da_department :: ident
  da_faculty_user :: "ident option"
  da_actor :: "ident option"
  da_event_type :: dept_facility_event
  da_metadata :: "(string \<times> jval) list"

record wallet_db =
  users :: "user list"
  departments :: "department list"
  sric_grant_code :: string
  wallets :: "wallet list"
  sub_wallets :: "sub_wallet list"
  sub_wallet_txns :: "sub_wallet_txn list"
  join_requests :: "join_request list"
  dept_settings :: "dept_credit_settings list"
  dept_facilities :: "dept_facility list"
  dept_audit :: "dept_credit_audit list"

subsection \<open>Balances and the transaction log\<close>

definition balance_of :: "'z wallet_db_scheme \<Rightarrow> ident \<Rightarrow> paise" where
  "balance_of db i = (case row_of sw_id i (sub_wallets db) of
     None \<Rightarrow> 0
   | Some sw \<Rightarrow> sw_balance sw)"

definition signed_amount :: "sub_wallet_txn \<Rightarrow> int" where
  "signed_amount t = (case tx_type t of CREDIT \<Rightarrow> tx_amount t | DEBIT \<Rightarrow> - tx_amount t)"

definition postings :: "'z wallet_db_scheme \<Rightarrow> (ident \<times> int) list" where
  "postings db = map (\<lambda>t. (tx_sub_wallet t, signed_amount t)) (sub_wallet_txns db)"

text \<open>\<^verbatim>\<open>Wallet.total_balance\<close>: the sum over the wallet's sub-wallets.\<close>

definition total_balance :: "'z wallet_db_scheme \<Rightarrow> ident \<Rightarrow> paise" where
  "total_balance db w =
     sum_list (map sw_balance (filter (\<lambda>sw. sw_wallet sw = w) (sub_wallets db)))"

definition wallet_by_user :: "'z wallet_db_scheme \<Rightarrow> ident \<Rightarrow> wallet option" where
  "wallet_by_user db u = find (\<lambda>w. w_user w = u) (wallets db)"

definition sub_wallet_for :: "'z wallet_db_scheme \<Rightarrow> ident \<Rightarrow> ident \<Rightarrow> sub_wallet option" where
  "sub_wallet_for db w d = find (\<lambda>sw. sw_wallet sw = w \<and> sw_department sw = d) (sub_wallets db)"

text \<open>The user behind a sub-wallet: \<^verbatim>\<open>sub.wallet.user\<close>; \<open>None\<close> where following it raises.\<close>

definition owner_of :: "'z wallet_db_scheme \<Rightarrow> ident \<Rightarrow> user option" where
  "owner_of db i = (case row_of sw_id i (sub_wallets db) of
     None \<Rightarrow> None
   | Some sw \<Rightarrow> (case row_of w_id (sw_wallet sw) (wallets db) of
       None \<Rightarrow> None
     | Some w \<Rightarrow> row_of u_id (w_user w) (users db)))"

subsection \<open>Well-formed tables\<close>

text \<open>
  What the primary keys, unique constraints and foreign keys of the tables give: keys are
  unique, a user has at most one wallet, a wallet at most one sub-wallet per department,
  and a sub-wallet or transaction points to an existing row.
\<close>

definition wallet_wf :: "'z wallet_db_scheme \<Rightarrow> bool" where
  "wallet_wf db \<longleftrightarrow>
     unique_keys u_id (users db) \<and>
     unique_keys w_id (wallets db) \<and>
     distinct (map w_user (wallets db)) \<and>
     unique_keys sw_id (sub_wallets db) \<and>
     distinct (map (\<lambda>sw. (sw_wallet sw, sw_department sw)) (sub_wallets db)) \<and>
     sw_wallet ` set (sub_wallets db) \<subseteq> w_id ` set (wallets db) \<and>
     tx_sub_wallet ` set (sub_wallet_txns db) \<subseteq> sw_id ` set (sub_wallets db)"

definition reconciled :: "'z wallet_db_scheme \<Rightarrow> bool" where
  "reconciled db \<longleftrightarrow> (\<forall>i. balance_of db i = posted i (postings db))"

lemma balance_of_in:
  "wallet_wf db \<Longrightarrow> sw \<in> set (sub_wallets db) \<Longrightarrow> balance_of db (sw_id sw) = sw_balance sw"
  by (auto simp: balance_of_def wallet_wf_def dest: row_of_unique)

lemma wallet_by_user_SomeD:
  "wallet_by_user db u = Some w \<Longrightarrow> w \<in> set (wallets db) \<and> w_user w = u"
  by (auto simp: wallet_by_user_def dest: find_Some_set)

lemma sub_wallet_for_SomeD:
  "sub_wallet_for db w d = Some sw \<Longrightarrow>
   sw \<in> set (sub_wallets db) \<and> sw_wallet sw = w \<and> sw_department sw = d"
  by (auto simp: sub_wallet_for_def dest: find_Some_set)

lemma postings_append [simp]:
  "postings (db\<lparr>sub_wallet_txns := sub_wallet_txns db @ ts\<rparr>) =
     postings db @ map (\<lambda>t. (tx_sub_wallet t, signed_amount t)) ts"
  by (simp add: postings_def)

lemma posted_absent: "k \<notin> fst ` set es \<Longrightarrow> posted k es = 0"
  by (induction es) auto

subsection \<open>Access to a wallet\<close>

text \<open>
  \<^verbatim>\<open>User.get_accessible_wallet\<close>: a regular student or an \<^verbatim>\<open>other\<close> user uses the faculty wallet
  of the latest approved join request, if there is one; a user who can have a wallet uses
  the own one.
\<close>

definition get_accessible_wallet :: "'z wallet_db_scheme \<Rightarrow> user \<Rightarrow> ident option" where
  "get_accessible_wallet db u =
     (let approved =
        (if u_type u \<in> {Some STUDENT, Some OTHER}
         then find (\<lambda>r. jr_student r = u_id u \<and> jr_status r = JR_APPROVED) (rev (join_requests db))
         else None);
          own = (if can_have_wallet u then map_option w_id (wallet_by_user db (u_id u)) else None)
      in case approved of
           Some r \<Rightarrow> (case jr_wallet r of Some w \<Rightarrow> Some w | None \<Rightarrow> own)
         | None \<Rightarrow> own)"

text \<open>\<^verbatim>\<open>Wallet.has_student_access\<close>.\<close>

definition has_student_access :: "'z wallet_db_scheme \<Rightarrow> ident \<Rightarrow> user \<Rightarrow> bool" where
  "has_student_access db w student =
     (u_type student \<in> {Some STUDENT, Some OTHER} \<and>
      list_ex (\<lambda>r. jr_student r = u_id student \<and> jr_wallet r = Some w \<and> jr_status r = JR_APPROVED)
        (join_requests db))"

lemma find_rev_SomeD: "find P (rev xs) = Some x \<Longrightarrow> x \<in> set xs \<and> P x"
  using find_Some_set [of P "rev xs"] by simp

lemma student_wallet_is_approved:
  assumes "u_type u = Some STUDENT" and "get_accessible_wallet db u = Some w"
  shows "has_student_access db w u"
  using assms
  by (auto simp: get_accessible_wallet_def has_student_access_def can_have_wallet_def
      user_group_defs Let_def list_ex_iff dest!: find_rev_SomeD split: option.splits)

lemma own_wallet:
  assumes "u_type u = Some FACULTY"
  shows "get_accessible_wallet db u = map_option w_id (wallet_by_user db (u_id u))"
  using assms by (simp add: get_accessible_wallet_def can_have_wallet_def user_group_defs)

end
