(* ===== verification/Dept_Credit.thy ===== *)
theory Dept_Credit
  imports Wallet_Db
begin

text \<open>
  The department faculty credit facility of
  \<^verbatim>\<open>users/department_faculty_credit_facility.py\<close>: a per-department line of credit that let a
  faculty member's sub-wallet go negative. The facility is retired (nobody can take out a new
  one and the debit floor is 0), but rows taken out before follow the wallet: every debit and
  credit of the sub-wallet refreshes the row's status and writes the audit log.
\<close>

definition settings_of :: "'z wallet_db_scheme \<Rightarrow> ident \<Rightarrow> dept_credit_settings option" where
  "settings_of db dept = find (\<lambda>s. ds_department s = dept) (dept_settings db)"

definition get_or_create_settings ::
  "'z wallet_db_scheme \<Rightarrow> ident \<Rightarrow> 'z wallet_db_scheme \<times> dept_credit_settings" where
  "get_or_create_settings db dept = (case settings_of db dept of
     Some s \<Rightarrow> (db, s)
   | None \<Rightarrow>
       (let s = \<lparr>ds_id = fresh_pk ds_id (dept_settings db), ds_department = dept,
                 ds_enabled = False, ds_joining_date_cutoff = None, ds_max_credit_limit = 0,
                 ds_updated_by = None\<rparr>
        in (db\<lparr>dept_settings := dept_settings db @ [s]\<rparr>, s)))"

definition outstanding_credit :: "paise \<Rightarrow> paise" where
  "outstanding_credit balance = (if 0 \<le> balance then 0 else - balance)"

definition remaining_credit :: "paise \<Rightarrow> paise \<Rightarrow> paise" where
  "remaining_credit credit_limit balance =
     (let rem = credit_limit - outstanding_credit balance in if 0 < rem then rem else 0)"

definition write_audit ::
  "ident option \<Rightarrow> ident \<Rightarrow> ident option \<Rightarrow> ident option \<Rightarrow> dept_facility_event \<Rightarrow>
   (string \<times> jval) list \<Rightarrow> 'z wallet_db_scheme \<Rightarrow> 'z wallet_db_scheme" where
  "write_audit facility dept faculty_user actor event metadata db =
     db\<lparr>dept_audit := dept_audit db @
       [\<lparr>da_facility = facility, da_department = dept, da_faculty_user = faculty_user,
         da_actor = actor, da_event_type = event, da_metadata = metadata\<rparr>]\<rparr>"

definition facility_for :: "'z wallet_db_scheme \<Rightarrow> ident \<Rightarrow> ident \<Rightarrow> dept_facility option" where
  "facility_for db u d = find (\<lambda>f. fd_user f = u \<and> fd_department f = d) (dept_facilities db)"

definition save_facility ::
  "dept_facility \<Rightarrow> 'z wallet_db_scheme \<Rightarrow> 'z wallet_db_scheme" where
  "save_facility f db =
     db\<lparr>dept_facilities := update_row fd_id (fd_id f) (\<lambda>_. f) (dept_facilities db)\<rparr>"

definition is_eligible_for_new_facility ::
  "'z wallet_db_scheme \<Rightarrow> user \<Rightarrow> ident \<Rightarrow> paise \<Rightarrow> 'z wallet_db_scheme \<times> bool" where
  "is_eligible_for_new_facility db u dept balance =
     (if u_type u \<noteq> Some FACULTY then (db, False)
      else if facility_for db (u_id u) dept \<noteq> None then (db, False)
      else (let (db', s) = get_or_create_settings db dept in
        (db', ds_enabled s \<and>
          (case ds_joining_date_cutoff s of
             None \<Rightarrow> False
           | Some cutoff \<Rightarrow> 0 < ds_max_credit_limit s \<and>
               (case u_joining_date u of
                  None \<Rightarrow> False
                | Some joining \<Rightarrow> cutoff \<le> joining \<and> balance \<le> 0)))))"

text \<open>The lowest balance a booking's debit may leave: no overdraft any more.\<close>

definition department_faculty_credit_floor :: "sub_wallet \<Rightarrow> paise" where
  "department_faculty_credit_floor sub = 0"

definition refresh_status_from_balance ::
  "timestamp \<Rightarrow> ident option \<Rightarrow> string \<Rightarrow> bool \<Rightarrow> dept_facility \<Rightarrow> ident \<Rightarrow>
   'z wallet_db_scheme \<Rightarrow> 'z wallet_db_scheme" where
  "refresh_status_from_balance now actor source close_if_non_negative f sub db =
     (if fd_status f = FD_CLOSED then db
      else
       (let balance = balance_of db sub; prev_status = fd_status f in
        if 0 \<le> balance then
          (if close_if_non_negative then
             write_audit (Some (fd_id f)) (fd_department f) (Some (fd_user f)) actor CLOSED
               [(''source'', JText source), (''balance'', JMoney balance),
                (''previous_status'', JStatus prev_status)]
               (save_facility (f\<lparr>fd_status := FD_CLOSED, fd_closed_at := Some now\<rparr>) db)
           else if prev_status = FD_EXHAUSTED then save_facility (f\<lparr>fd_status := FD_ACTIVE\<rparr>) db
           else db)
        else
          (let rem = remaining_credit (fd_credit_limit f) balance;
               new_status = (if rem \<le> 0 then FD_EXHAUSTED else FD_ACTIVE)
           in if new_status \<noteq> prev_status then
                write_audit (Some (fd_id f)) (fd_department f) (Some (fd_user f)) actor STATUS_CHANGED
                  [(''source'', JText source), (''balance'', JMoney balance),
                   (''outstanding'', JMoney (outstanding_credit balance)),
                   (''remaining'', JMoney rem), (''previous_status'', JStatus prev_status),
                   (''new_status'', JStatus new_status)]
                  (save_facility (f\<lparr>fd_status := new_status\<rparr>) db)
              else db)))"

definition open_facility_of_sub ::
  "'z wallet_db_scheme \<Rightarrow> sub_wallet \<Rightarrow> (user \<times> dept_facility) option" where
  "open_facility_of_sub db sub = (case owner_of db (sw_id sub) of
     None \<Rightarrow> None
   | Some u \<Rightarrow>
       if u_type u \<noteq> Some FACULTY then None
       else (case facility_for db (u_id u) (sw_department sub) of
         None \<Rightarrow> None
       | Some f \<Rightarrow> if fd_status f = FD_CLOSED then None else Some (u, f)))"

definition on_subwallet_debited ::
  "timestamp \<Rightarrow> ident option \<Rightarrow> sub_wallet \<Rightarrow> paise \<Rightarrow> 'z wallet_db_scheme \<Rightarrow> 'z wallet_db_scheme" where
  "on_subwallet_debited now actor sub amount db = (case open_facility_of_sub db sub of
     None \<Rightarrow> db
   | Some (u, f) \<Rightarrow>
       (let balance = balance_of db (sw_id sub) in
        refresh_status_from_balance now actor ''debit'' False f (sw_id sub)
          (write_audit (Some (fd_id f)) (fd_department f) (Some (u_id u)) actor OUTSTANDING_CHANGED
            [(''debit_amount'', JMoney amount), (''balance'', JMoney balance),
             (''outstanding'', JMoney (outstanding_credit balance)),
             (''remaining'', JMoney (remaining_credit (fd_credit_limit f) balance))] db)))"

definition on_subwallet_credited ::
  "timestamp \<Rightarrow> ident option \<Rightarrow> string \<Rightarrow> sub_wallet \<Rightarrow> paise \<Rightarrow>
   'z wallet_db_scheme \<Rightarrow> 'z wallet_db_scheme" where
  "on_subwallet_credited now actor source sub amount db = (case open_facility_of_sub db sub of
     None \<Rightarrow> db
   | Some (u, f) \<Rightarrow>
       (let balance_after = balance_of db (sw_id sub);
            balance_before = balance_after - amount
        in refresh_status_from_balance now actor source
             (balance_before < 0 \<and> 0 \<le> balance_after) f (sw_id sub)
             (write_audit (Some (fd_id f)) (fd_department f) (Some (u_id u)) actor RECHARGE_RECOVERY
               [(''source'', JText source), (''credit_amount'', JMoney amount),
                (''balance_before'', JMoney balance_before), (''balance'', JMoney balance_after),
                (''outstanding'', JMoney (outstanding_credit balance_after)),
                (''remaining'', JMoney (remaining_credit (fd_credit_limit f) balance_after)),
                (''status'', JStatus (fd_status f))] db)))"

text \<open>Taking out a facility is retired: the call raises before it looks at anything.\<close>

definition avail_faculty_department_credit ::
  "user \<Rightarrow> ident \<Rightarrow> paise \<Rightarrow> 'z wallet_db_scheme \<Rightarrow> exn + ('z wallet_db_scheme \<times> dept_facility)" where
  "avail_faculty_department_credit u dept amount db = Inl (ValueError ''retired'')"

text \<open>
  \<open>update_settings\<close> on a limit that is a finite decimal: the settings row is created before the
  limit is read, so it stays when quantizing the limit raises.
\<close>

definition update_settings ::
  "ident option \<Rightarrow> ident \<Rightarrow> bool \<Rightarrow> day option \<Rightarrow> rat \<Rightarrow> 'z wallet_db_scheme \<Rightarrow>
   'z wallet_db_scheme \<times> (exn + dept_credit_settings)" where
  "update_settings actor dept enabled cutoff max_credit_limit db =
     (let (db1, s) = get_or_create_settings db dept;
          limit = round_half_even (max_credit_limit * 100)
      in if decimal_digits \<le> \<bar>limit\<bar> then (db1, Inl InvalidOperation)
         else
          (let s' = s\<lparr>ds_enabled := enabled, ds_joining_date_cutoff := cutoff,
                      ds_max_credit_limit := limit, ds_updated_by := actor\<rparr>;
               config = (\<lambda>r. JObj [(''enabled'', JBool (ds_enabled r)),
                 (''joining_date_cutoff'', JDate (ds_joining_date_cutoff r)),
                 (''max_credit_limit'', JMoney (ds_max_credit_limit r))])
           in (write_audit None dept None actor CONFIG_UPDATED
                 [(''before'', config s), (''after'', config s')]
                 (db1\<lparr>dept_settings := update_row ds_id (ds_id s) (\<lambda>_. s') (dept_settings db1)\<rparr>),
               Inr s')))"

subsection \<open>The faculty member's view\<close>

text \<open>
  One line of the wallet page per department: the numbers of \<open>serialize_facility_row\<close> with what
  \<open>faculty_credit_status_for_user\<close> adds to them (names and formatted dates are left out). The
  status is that of the facility, or whether one could be taken out.
\<close>

datatype row_status = Row_Facility dept_facility_status | Row_Available | Row_Ineligible

record credit_row =
  cr_facility :: "ident option"
  cr_department :: ident
  cr_status :: row_status
  cr_credit_limit :: paise
  cr_max_limit :: paise
  cr_wallet_balance :: paise
  cr_outstanding :: paise
  cr_remaining :: paise
  cr_can_avail :: bool
  cr_settings_enabled :: bool

definition serialize_facility_row ::
  "dept_facility \<Rightarrow> paise \<Rightarrow> paise \<Rightarrow> bool \<Rightarrow> credit_row" where
  "serialize_facility_row f balance max_limit settings_enabled =
     \<lparr>cr_facility = Some (fd_id f), cr_department = fd_department f,
      cr_status = Row_Facility (fd_status f), cr_credit_limit = fd_credit_limit f,
      cr_max_limit = max_limit, cr_wallet_balance = balance,
      cr_outstanding = (if fd_status f \<noteq> FD_CLOSED then outstanding_credit balance else 0),
      cr_remaining =
        (if fd_status f = FD_CLOSED then 0 else remaining_credit (fd_credit_limit f) balance),
      cr_can_avail = False, cr_settings_enabled = settings_enabled\<rparr>"

definition credit_status_row ::
  "user \<Rightarrow> ident \<Rightarrow> 'z wallet_db_scheme \<Rightarrow> 'z wallet_db_scheme \<times> credit_row" where
  "credit_status_row u dept db =
     (let (db1, s) = get_or_create_settings db dept;
          balance = (case wallet_by_user db1 (u_id u) of
              None \<Rightarrow> 0
            | Some w \<Rightarrow> (case sub_wallet_for db1 (w_id w) dept of
                None \<Rightarrow> 0 | Some sw \<Rightarrow> sw_balance sw));
          max_limit = ds_max_credit_limit s
      in case facility_for db1 (u_id u) dept of
           Some f \<Rightarrow> (db1, serialize_facility_row f balance max_limit (ds_enabled s))
         | None \<Rightarrow>
             (let (db2, eligible) = is_eligible_for_new_facility db1 u dept balance in
              (db2, \<lparr>cr_facility = None, cr_department = dept,
                 cr_status = (if eligible then Row_Available else Row_Ineligible),
                 cr_credit_limit = (if eligible then max_limit else 0),
                 cr_max_limit = max_limit, cr_wallet_balance = balance, cr_outstanding = 0,
                 cr_remaining = (if eligible then max_limit else 0),
                 cr_can_avail = eligible, cr_settings_enabled = ds_enabled s\<rparr>)))"

fun credit_status_rows ::
  "user \<Rightarrow> ident list \<Rightarrow> 'z wallet_db_scheme \<Rightarrow> 'z wallet_db_scheme \<times> credit_row list" where
  "credit_status_rows u [] db = (db, [])"
| "credit_status_rows u (dept # depts) db =
     (if row_of d_id dept (departments db) = None then credit_status_rows u depts db
      else
       (let (db1, row) = credit_status_row u dept db; (db2, rows) = credit_status_rows u depts db1
        in (db2, row # rows)))"

text \<open>The departments are shown in the order of their keys, each once.\<close>

definition status_departments :: "'z wallet_db_scheme \<Rightarrow> user \<Rightarrow> ident list" where
  "status_departments db u = sorted_list_of_set (set (
     (case wallet_by_user db (u_id u) of
        None \<Rightarrow> []
      | Some w \<Rightarrow> map sw_department (filter (\<lambda>sw. sw_wallet sw = w_id w) (sub_wallets db))) @
     map fd_department (filter (\<lambda>f. fd_user f = u_id u) (dept_facilities db)) @
     (case u_department u of None \<Rightarrow> [] | Some d \<Rightarrow> [d]) @
     map ds_department (filter ds_enabled (dept_settings db))))"

definition faculty_credit_status_for_user ::
  "user \<Rightarrow> 'z wallet_db_scheme \<Rightarrow> 'z wallet_db_scheme \<times> credit_row list" where
  "faculty_credit_status_for_user u db =
     (if u_type u \<noteq> Some FACULTY then (db, [])
      else credit_status_rows u (status_departments db u) db)"

subsection \<open>What the hooks leave alone\<close>

text \<open>The money tables of the wallet: what a hook must not touch.\<close>

definition same_money :: "'z wallet_db_scheme \<Rightarrow> 'z wallet_db_scheme \<Rightarrow> bool" where
  "same_money db db' \<longleftrightarrow>
     users db' = users db \<and> wallets db' = wallets db \<and> sub_wallets db' = sub_wallets db \<and>
     sub_wallet_txns db' = sub_wallet_txns db \<and> wallet_db.more db' = wallet_db.more db"

lemma same_money_refl [simp]: "same_money db db"
  by (simp add: same_money_def)

lemma same_money_write_audit [simp]: "same_money db (write_audit f d u a e m db') = same_money db db'"
  by (simp add: same_money_def write_audit_def)

lemma same_money_save_facility [simp]: "same_money db (save_facility f db') = same_money db db'"
  by (simp add: same_money_def save_facility_def)

lemma same_money_refresh [simp]:
  "same_money db (refresh_status_from_balance now actor src c f sub db') = same_money db db'"
  by (simp add: refresh_status_from_balance_def Let_def)

lemma same_money_debited [simp]: "same_money db (on_subwallet_debited now actor sub a db)"
  by (auto simp: on_subwallet_debited_def Let_def split: option.split)

lemma same_money_credited [simp]: "same_money db (on_subwallet_credited now actor src sub a db)"
  by (auto simp: on_subwallet_credited_def Let_def split: option.split)

lemma same_moneyD:
  assumes "same_money db db'"
  shows "users db' = users db" "wallets db' = wallets db" "sub_wallets db' = sub_wallets db"
    "sub_wallet_txns db' = sub_wallet_txns db" "wallet_db.more db' = wallet_db.more db"
    "balance_of db' = balance_of db" "postings db' = postings db"
    "wallet_wf db' = wallet_wf db" "reconciled db' = reconciled db" "owner_of db' = owner_of db"
    "total_balance db' = total_balance db"
    "wallet_by_user db' = wallet_by_user db" "sub_wallet_for db' = sub_wallet_for db"
  using assms
  by (auto simp: same_money_def balance_of_def postings_def wallet_wf_def reconciled_def
      owner_of_def total_balance_def wallet_by_user_def sub_wallet_for_def fun_eq_iff
      cong: option.case_cong)

subsection \<open>Credit lines\<close>

lemma outstanding_plus_remaining:
  "0 \<le> credit_limit \<Longrightarrow> - credit_limit \<le> balance \<Longrightarrow>
   outstanding_credit balance + remaining_credit credit_limit balance = credit_limit"
  by (simp add: outstanding_credit_def remaining_credit_def Let_def)

lemma remaining_credit_range:
  "0 \<le> remaining_credit l b" "0 \<le> l \<Longrightarrow> remaining_credit l b \<le> l"
  by (auto simp: outstanding_credit_def remaining_credit_def Let_def)

text \<open>What a facility's status should be for the balance of its sub-wallet.\<close>

definition status_fits :: "dept_facility \<Rightarrow> paise \<Rightarrow> bool" where
  "status_fits f balance \<longleftrightarrow> fd_status f = FD_CLOSED \<or>
     (fd_status f = FD_EXHAUSTED \<longleftrightarrow> balance < 0 \<and> remaining_credit (fd_credit_limit f) balance = 0)"

lemma status_fits_after_refresh:
  assumes "fd_status f \<noteq> FD_CLOSED"
  obtains f' where
    "dept_facilities (refresh_status_from_balance now actor src c f sub db) =
       update_row fd_id (fd_id f) (\<lambda>_. f') (dept_facilities db)
     \<or> f' = f \<and> dept_facilities (refresh_status_from_balance now actor src c f sub db) =
         dept_facilities db"
    "status_fits f' (balance_of db sub)" "fd_id f' = fd_id f" "fd_user f' = fd_user f"
    "fd_department f' = fd_department f" "fd_credit_limit f' = fd_credit_limit f"
proof -
  note defs = refresh_status_from_balance_def status_fits_def write_audit_def save_facility_def
    Let_def
  show ?thesis
  proof (cases "0 \<le> balance_of db sub")
    case nonneg: True
    show ?thesis
    proof (cases c)
      case True
      with nonneg assms show ?thesis
        by (intro that [of "f\<lparr>fd_status := FD_CLOSED, fd_closed_at := Some now\<rparr>"]) (simp_all add: defs)
    next
      case False
      with nonneg assms show ?thesis
        by (cases "fd_status f")
          (intro that [of f] that [of "f\<lparr>fd_status := FD_ACTIVE\<rparr>"]; simp add: defs)+
    qed
  next
    case False
    define st where "st = (if remaining_credit (fd_credit_limit f) (balance_of db sub) \<le> 0
      then FD_EXHAUSTED else FD_ACTIVE)"
    have "0 \<le> remaining_credit (fd_credit_limit f) (balance_of db sub)"
      by (rule remaining_credit_range)
    with False assms show ?thesis
      by (intro that [of "f\<lparr>fd_status := st\<rparr>"])
        (auto simp: defs st_def intro!: disjI2)
  qed
qed

subsection \<open>A facility is taken once and closes once\<close>

text \<open>
  Keys of the facility table: a row's id is unique, and so is its pair of user and department.
\<close>

definition dept_wf :: "'z wallet_db_scheme \<Rightarrow> bool" where
  "dept_wf db \<longleftrightarrow> unique_keys fd_id (dept_facilities db) \<and>
     distinct (map (\<lambda>f. (fd_user f, fd_department f)) (dept_facilities db))"

definition facility_evolves :: "dept_facility \<Rightarrow> dept_facility \<Rightarrow> bool" where
  "facility_evolves f f' \<longleftrightarrow> fd_id f' = fd_id f \<and> fd_user f' = fd_user f \<and>
     fd_department f' = fd_department f \<and> fd_credit_limit f' = fd_credit_limit f \<and>
     (fd_status f = FD_CLOSED \<longrightarrow> f' = f)"

definition facilities_evolve :: "'z wallet_db_scheme \<Rightarrow> 'z wallet_db_scheme \<Rightarrow> bool" where
  "facilities_evolve db db' \<longleftrightarrow>
     list_all2 facility_evolves (dept_facilities db) (dept_facilities db')"

lemma facility_evolves_refl [simp]: "facility_evolves f f"
  by (simp add: facility_evolves_def)

lemma facilities_evolve_refl [simp]: "facilities_evolve db db"
  by (simp add: facilities_evolve_def list_all2_refl)

lemma facility_evolves_trans:
  "facility_evolves f g \<Longrightarrow> facility_evolves g h \<Longrightarrow> facility_evolves f h"
  by (auto simp: facility_evolves_def)

lemma facilities_evolve_trans:
  "facilities_evolve a b \<Longrightarrow> facilities_evolve b c \<Longrightarrow> facilities_evolve a c"
  unfolding facilities_evolve_def
  by (rule list_all2_trans [OF facility_evolves_trans])

lemma facilities_evolve_cong:
  "dept_facilities a' = dept_facilities a \<Longrightarrow> dept_facilities b' = dept_facilities b \<Longrightarrow>
   facilities_evolve a' b' = facilities_evolve a b"
  by (simp add: facilities_evolve_def)

lemma refresh_facilities_evolve:
  assumes "dept_wf db" "f \<in> set (dept_facilities db)"
  shows "facilities_evolve db (refresh_status_from_balance now actor src c f sub db)"
proof (cases "fd_status f = FD_CLOSED")
  case True
  then show ?thesis by (simp add: refresh_status_from_balance_def)
next
  case False
  then obtain f' where f':
    "dept_facilities (refresh_status_from_balance now actor src c f sub db) =
       update_row fd_id (fd_id f) (\<lambda>_. f') (dept_facilities db)
     \<or> f' = f \<and> dept_facilities (refresh_status_from_balance now actor src c f sub db) =
         dept_facilities db"
    and evolves: "facility_evolves f f'"
    by (rule status_fits_after_refresh [of f now actor src c sub db])
      (auto simp: facility_evolves_def False)
  have "list_all2 facility_evolves (dept_facilities db)
      (update_row fd_id (fd_id f) (\<lambda>_. f') (dept_facilities db))"
    using assms evolves by (intro list_all2_update_row) (simp_all add: dept_wf_def)
  with f' show ?thesis
    by (auto simp: facilities_evolve_def list_all2_refl)
qed

lemma open_facility_of_sub_SomeD:
  "open_facility_of_sub db sub = Some (u, f) \<Longrightarrow>
   owner_of db (sw_id sub) = Some u \<and> u_type u = Some FACULTY \<and>
   f \<in> set (dept_facilities db) \<and> fd_user f = u_id u \<and> fd_department f = sw_department sub \<and>
   fd_status f \<noteq> FD_CLOSED"
  by (auto simp: open_facility_of_sub_def facility_for_def dest: find_Some_set
      split: option.splits if_splits)

lemma write_audit_simps [simp]:
  "dept_facilities (write_audit f d u a e m db) = dept_facilities db"
  "balance_of (write_audit f d u a e m db) = balance_of db"
  "dept_wf (write_audit f d u a e m db) = dept_wf db"
  by (simp_all add: write_audit_def balance_of_def dept_wf_def fun_eq_iff)

lemma hooks_facilities_evolve:
  assumes "dept_wf db"
  shows "facilities_evolve db (on_subwallet_debited now actor sub a db)"
    and "facilities_evolve db (on_subwallet_credited now actor src sub a db)"
proof -
  have "facilities_evolve db
      (refresh_status_from_balance now actor s c f i (write_audit x1 x2 x3 x4 x5 x6 db))"
    if "f \<in> set (dept_facilities db)" for s c f i x1 x2 x3 x4 x5 x6
  proof -
    let ?db = "write_audit x1 x2 x3 x4 x5 x6 db"
    have "facilities_evolve ?db (refresh_status_from_balance now actor s c f i ?db)"
      using that assms by (intro refresh_facilities_evolve) simp_all
    then show ?thesis by (simp add: facilities_evolve_def)
  qed
  then show "facilities_evolve db (on_subwallet_debited now actor sub a db)"
    and "facilities_evolve db (on_subwallet_credited now actor src sub a db)"
    by (auto simp: on_subwallet_debited_def on_subwallet_credited_def Let_def
        dest!: open_facility_of_sub_SomeD split: option.split)
qed

lemma facilities_evolve_wf:
  assumes "facilities_evolve db db'" "dept_wf db"
  shows "dept_wf db'"
proof -
  have "map fd_id gs = map fd_id fs \<and>
      map (\<lambda>f. (fd_user f, fd_department f)) gs = map (\<lambda>f. (fd_user f, fd_department f)) fs"
    if "list_all2 facility_evolves fs gs" for fs gs
    using that by induction (auto simp: facility_evolves_def)
  from this [of "dept_facilities db" "dept_facilities db'"] assms show ?thesis
    unfolding facilities_evolve_def dept_wf_def unique_keys_def by simp
qed

lemma closed_facility_stays:
  assumes "facilities_evolve db db'" "f \<in> set (dept_facilities db)" "fd_status f = FD_CLOSED"
  shows "f \<in> set (dept_facilities db')"
proof -
  obtain i where i: "i < length (dept_facilities db)" "dept_facilities db ! i = f"
    using assms(2) by (auto simp: in_set_conv_nth)
  with assms(1) have "facility_evolves f (dept_facilities db' ! i)"
      "i < length (dept_facilities db')"
    by (auto simp: facilities_evolve_def list_all2_conv_all_nth)
  then show ?thesis using assms(3) by (auto simp: facility_evolves_def)
qed

subsection \<open>The wallet page\<close>

text \<open>
  What a line shows is consistent: the money owed plus the money left is the line of credit
  as long as the balance is within it, and a line that can be taken out is not in use.
\<close>

definition row_consistent :: "credit_row \<Rightarrow> bool" where
  "row_consistent r \<longleftrightarrow> 0 \<le> cr_outstanding r \<and> 0 \<le> cr_remaining r \<and>
     (cr_can_avail r \<longrightarrow> cr_facility r = None \<and> cr_settings_enabled r \<and> 0 < cr_credit_limit r \<and>
        cr_wallet_balance r \<le> 0 \<and> cr_status r = Row_Available) \<and>
     (cr_status r = Row_Facility FD_CLOSED \<longrightarrow> cr_outstanding r = 0 \<and> cr_remaining r = 0)"

lemma settings_of_created:
  "get_or_create_settings db d = (db', s) \<Longrightarrow> get_or_create_settings db' d = (db', s)"
  by (auto simp: get_or_create_settings_def settings_of_def Let_def table_simps
      split: option.splits)

lemma created_departments:
  "get_or_create_settings db d = (db', s) \<Longrightarrow> departments db' = departments db"
  by (auto simp: get_or_create_settings_def Let_def split: option.splits)

lemma is_eligible_departments:
  "is_eligible_for_new_facility db u d b = (db', e) \<Longrightarrow> departments db' = departments db"
  by (auto simp: is_eligible_for_new_facility_def dest: created_departments
      split: if_splits prod.splits)

lemma is_eligibleD:
  assumes "is_eligible_for_new_facility db u d b = (db', True)"
    and "get_or_create_settings db d = (db1, s)"
  shows "ds_enabled s \<and> 0 < ds_max_credit_limit s \<and> b \<le> 0"
  using assms
  by (auto simp: is_eligible_for_new_facility_def split: if_splits option.splits)

lemma credit_status_row_cases:
  assumes "credit_status_row u d db = (db', r)"
  obtains db1 s b where "get_or_create_settings db d = (db1, s)"
    and "(\<exists>f. facility_for db1 (u_id u) d = Some f \<and> db' = db1 \<and>
            r = serialize_facility_row f b (ds_max_credit_limit s) (ds_enabled s)) \<or>
         (\<exists>e. is_eligible_for_new_facility db1 u d b = (db', e) \<and>
            r = \<lparr>cr_facility = None, cr_department = d,
                 cr_status = (if e then Row_Available else Row_Ineligible),
                 cr_credit_limit = (if e then ds_max_credit_limit s else 0),
                 cr_max_limit = ds_max_credit_limit s, cr_wallet_balance = b, cr_outstanding = 0,
                 cr_remaining = (if e then ds_max_credit_limit s else 0),
                 cr_can_avail = e, cr_settings_enabled = ds_enabled s\<rparr>)"
proof -
  obtain db1 s where s: "get_or_create_settings db d = (db1, s)" by fastforce
  define b where "b = (case wallet_by_user db1 (u_id u) of
              None \<Rightarrow> 0
            | Some w \<Rightarrow> (case sub_wallet_for db1 (w_id w) d of
                None \<Rightarrow> 0 | Some sw \<Rightarrow> sw_balance sw))"
  show thesis
  proof (cases "facility_for db1 (u_id u) d")
    case None
    obtain db2 e where e: "is_eligible_for_new_facility db1 u d b = (db2, e)" by fastforce
    with assms s None show thesis
      by (intro that [OF s, of b] disjI2 exI [of _ e])
        (simp add: credit_status_row_def b_def [symmetric] Let_def)
  next
    case (Some f)
    with assms s show thesis
      by (intro that [OF s, of b] disjI1 exI [of _ f])
        (simp add: credit_status_row_def b_def [symmetric] Let_def)
  qed
qed

lemma credit_status_row_spec:
  assumes "credit_status_row u d db = (db', r)"
  shows "row_consistent r \<and> cr_department r = d \<and> departments db' = departments db"
proof (rule credit_status_row_cases [OF assms], elim disjE exE conjE)
  fix db1 s b f
  assume s: "get_or_create_settings db d = (db1, s)" "facility_for db1 (u_id u) d = Some f"
    "db' = db1" "r = serialize_facility_row f b (ds_max_credit_limit s) (ds_enabled s)"
  then show ?thesis
    by (auto simp: row_consistent_def serialize_facility_row_def facility_for_def
        outstanding_credit_def remaining_credit_range dest: find_Some_set created_departments)
next
  fix db1 s b e
  assume s: "get_or_create_settings db d = (db1, s)"
    and e: "is_eligible_for_new_facility db1 u d b = (db', e)"
    and r: "r = \<lparr>cr_facility = None, cr_department = d,
                 cr_status = (if e then Row_Available else Row_Ineligible),
                 cr_credit_limit = (if e then ds_max_credit_limit s else 0),
                 cr_max_limit = ds_max_credit_limit s, cr_wallet_balance = b, cr_outstanding = 0,
                 cr_remaining = (if e then ds_max_credit_limit s else 0),
                 cr_can_avail = e, cr_settings_enabled = ds_enabled s\<rparr>"
  have "e \<Longrightarrow> ds_enabled s \<and> 0 < ds_max_credit_limit s \<and> b \<le> 0"
    using is_eligibleD [OF _ settings_of_created [OF s]] e by simp
  with r created_departments [OF s] is_eligible_departments [OF e] show ?thesis
    by (auto simp: row_consistent_def)
qed

lemma credit_status_rows_spec:
  "credit_status_rows u ds db = (db', rs) \<Longrightarrow>
   (\<forall>r\<in>set rs. row_consistent r) \<and>
   map cr_department rs = filter (\<lambda>d. row_of d_id d (departments db) \<noteq> None) ds"
proof (induction ds arbitrary: db rs)
  case (Cons d ds)
  show ?case
  proof (cases "row_of d_id d (departments db)")
    case None
    with Cons show ?thesis by simp
  next
    case (Some dep)
    obtain db1 r where r: "credit_status_row u d db = (db1, r)" by fastforce
    obtain db2 rs' where rs': "credit_status_rows u ds db1 = (db2, rs')" by fastforce
    from Cons.prems Some r rs' have [simp]: "rs = r # rs'" "db2 = db'" by simp_all
    from rs' Cons.IH [of db1 rs'] credit_status_row_spec [OF r] Some show ?thesis by simp
  qed
qed simp

subsection \<open>Properties\<close>

text \<open>
  The wallet page of a faculty member shows each department once, in key order, with
  numbers that fit together: nothing negative, a closed facility owes and offers nothing, and
  a line is on offer only when the department's settings are on, its limit is positive and the
  sub-wallet holds no money.
\<close>

theorem wallet_page_consistent:
  assumes "faculty_credit_status_for_user u db = (db', rows)"
  shows "sorted (map cr_department rows) \<and> distinct (map cr_department rows) \<and>
    (\<forall>r\<in>set rows. row_consistent r \<and> row_of d_id (cr_department r) (departments db) \<noteq> None)"
proof (cases "u_type u = Some FACULTY")
  case True
  with assms have r: "credit_status_rows u (status_departments db u) db = (db', rows)"
    by (simp add: faculty_credit_status_for_user_def)
  note spec = credit_status_rows_spec [OF r]
  have "sorted (status_departments db u) \<and> distinct (status_departments db u)"
    unfolding status_departments_def by simp
  with spec have *: "sorted (map cr_department rows) \<and> distinct (map cr_department rows)"
    by (metis distinct_filter sorted_filter [of id] map_ident id_apply list.map_id)
  have "cr_department ` set rows \<subseteq> {d. row_of d_id d (departments db) \<noteq> None}"
  proof -
    have "set (map cr_department rows) \<subseteq> {d. row_of d_id d (departments db) \<noteq> None}"
      using spec by auto
    then show ?thesis by simp
  qed
  with * spec show ?thesis by auto
next
  case False
  with assms show ?thesis by (simp add: faculty_credit_status_for_user_def)
qed

definition page_user :: user where
  "page_user = \<lparr>u_id = 1, u_name = ''A. Rao'', u_email = ''rao@x.in'', u_type = Some FACULTY,
     u_is_active = True, u_department = Some 7, u_joining_date = Some 100,
     u_force_inactive = False, u_degree = None, u_is_superuser = False\<rparr>"

definition page_db :: wallet_db where
  "page_db = \<lparr>users = [page_user],
     departments = [\<lparr>d_id = 7, d_name = ''Physics'', d_internal = True, d_grant_code = '''',
       d_enable_wallet_credit = False\<rparr>], sric_grant_code = '''', wallets = [], sub_wallets = [],
     sub_wallet_txns = [], join_requests = [],
     dept_settings = [\<lparr>ds_id = 1, ds_department = 7, ds_enabled = True,
       ds_joining_date_cutoff = Some 50, ds_max_credit_limit = 10000, ds_updated_by = None\<rparr>],
     dept_facilities = [], dept_audit = []\<rparr>"

theorem wallet_page_consistent_witness:
  "\<exists>r. snd (faculty_credit_status_for_user page_user page_db) = [r] \<and> cr_can_avail r \<and>
     row_consistent r"
proof -
  obtain db' rows where r: "faculty_credit_status_for_user page_user page_db = (db', rows)"
    by fastforce
  have "status_departments page_db page_user = [7]"
    by (simp add: status_departments_def page_db_def page_user_def wallet_by_user_def)
  then have "credit_status_rows page_user [7] page_db = (db', rows)"
    using r by (simp add: faculty_credit_status_for_user_def page_user_def)
  moreover have "map cr_can_avail (snd (credit_status_rows page_user [7] page_db)) = [True]"
    by code_simp
  ultimately have "\<exists>x. rows = [x] \<and> cr_can_avail x" by auto
  with wallet_page_consistent [OF r] r show ?thesis by auto
qed

end
