(* ===== verification/Sub_Wallets.thy ===== *)
theory Sub_Wallets
  imports Dept_Credit
begin

text \<open>
  Wallets and sub-wallets: \<^verbatim>\<open>Wallet\<close>, \<^verbatim>\<open>SubWallet\<close> and \<^verbatim>\<open>WalletJoinRequest\<close> of
  \<^verbatim>\<open>users/models/wallet.py\<close> and the repositories of
  \<^verbatim>\<open>users/repositories/wallet_repository.py\<close>. The balance of a sub-wallet changes only in
  \<open>credit\<close>, \<open>debit\<close> and \<open>recalculate_balance\<close>; the first two append exactly one transaction
  row. Every other write of money in the application goes through them.
\<close>

subsection \<open>Repositories\<close>

definition wallet_get_or_create ::
  "user \<Rightarrow> 'z wallet_db_scheme \<Rightarrow> exn + ('z wallet_db_scheme \<times> wallet)" where
  "wallet_get_or_create u db = (case wallet_by_user db (u_id u) of
     Some w \<Rightarrow> Inr (db, w)
   | None \<Rightarrow>
       if \<not> can_have_wallet u then Inl ValidationError
       else (let w = \<lparr>w_id = fresh_pk w_id (wallets db), w_user = u_id u\<rparr>
             in Inr (db\<lparr>wallets := wallets db @ [w]\<rparr>, w)))"

definition subwallet_get_or_create ::
  "ident \<Rightarrow> ident \<Rightarrow> 'z wallet_db_scheme \<Rightarrow> 'z wallet_db_scheme \<times> sub_wallet" where
  "subwallet_get_or_create w d db = (case sub_wallet_for db w d of
     Some sw \<Rightarrow> (db, sw)
   | None \<Rightarrow>
       (let sw = \<lparr>sw_id = fresh_pk sw_id (sub_wallets db), sw_wallet = w, sw_department = d,
                  sw_balance = 0\<rparr>
        in (db\<lparr>sub_wallets := sub_wallets db @ [sw]\<rparr>, sw)))"

definition general_department ::
  "'z wallet_db_scheme \<Rightarrow> 'z wallet_db_scheme \<times> ident" where
  "general_department db = (case find (\<lambda>d. d_name d = ''General'') (departments db) of
     Some d \<Rightarrow> (db, d_id d)
   | None \<Rightarrow>
       (let d = \<lparr>d_id = fresh_pk d_id (departments db), d_name = ''General'', d_internal = True,
                 d_grant_code = '''', d_enable_wallet_credit = False\<rparr>
        in (db\<lparr>departments := departments db @ [d]\<rparr>, d_id d)))"

definition get_booking_wallet_target ::
  "user \<Rightarrow> ident option \<Rightarrow> 'z wallet_db_scheme \<Rightarrow> 'z wallet_db_scheme \<times> sub_wallet option" where
  "get_booking_wallet_target u department db = (case get_accessible_wallet db u of
     None \<Rightarrow> (db, None)
   | Some w \<Rightarrow>
       (let (db1, d) = (case department of Some d \<Rightarrow> (db, d) | None \<Rightarrow> general_department db);
            (db2, sw) = subwallet_get_or_create w d db1
        in (db2, Some sw)))"

text \<open>
  The departments a wallet may be recharged for: the internal departments that own equipment
  (with \<open>General\<close>), and those the wallet already has a sub-wallet for. \<open>equipment\<close> lists the
  departments of the equipment table.
\<close>

definition internal_departments_with_equipment ::
  "ident list \<Rightarrow> 'z wallet_db_scheme \<Rightarrow> department list" where
  "internal_departments_with_equipment equipment db =
     filter (\<lambda>d. d_internal d \<and> (d_id d \<in> set equipment \<or> d_name d = ''General''))
       (departments db)"

definition resolve_internal_department ::
  "ident list \<Rightarrow> ident \<Rightarrow> ident \<Rightarrow> 'z wallet_db_scheme \<Rightarrow> department option" where
  "resolve_internal_department equipment w d db =
     (case row_of d_id d (internal_departments_with_equipment equipment db) of
        Some dep \<Rightarrow> Some dep
      | None \<Rightarrow> (case sub_wallet_for db w d of
          None \<Rightarrow> None
        | Some sw \<Rightarrow> (case row_of d_id (sw_department sw) (departments db) of
            None \<Rightarrow> None
          | Some dep \<Rightarrow> if d_internal dep then Some dep else None)))"

definition departments_for_wallet_recharge ::
  "ident list \<Rightarrow> ident option \<Rightarrow> 'z wallet_db_scheme \<Rightarrow> department list" where
  "departments_for_wallet_recharge equipment w db =
     filter (\<lambda>d. d_internal d \<and>
         (d \<in> set (internal_departments_with_equipment equipment db) \<or>
          (case w of None \<Rightarrow> False | Some i \<Rightarrow> sub_wallet_for db i (d_id d) \<noteq> None)))
       (departments db)"

subsection \<open>Moving money\<close>

definition add_balance :: "ident \<Rightarrow> int \<Rightarrow> 'z wallet_db_scheme \<Rightarrow> 'z wallet_db_scheme" where
  "add_balance i delta db =
     db\<lparr>sub_wallets :=
       update_row sw_id i (\<lambda>sw. sw\<lparr>sw_balance := sw_balance sw + delta\<rparr>) (sub_wallets db)\<rparr>"

definition log_txn ::
  "ident \<Rightarrow> txn_type \<Rightarrow> paise \<Rightarrow> string \<Rightarrow> ident option \<Rightarrow> 'z wallet_db_scheme \<Rightarrow>
   'z wallet_db_scheme \<times> sub_wallet_txn" where
  "log_txn i ty amount description related_user db =
     (let t = \<lparr>tx_id = fresh_pk tx_id (sub_wallet_txns db), tx_sub_wallet = i, tx_type = ty,
               tx_amount = amount, tx_description = description, tx_related_user = related_user\<rparr>
      in (db\<lparr>sub_wallet_txns := sub_wallet_txns db @ [t]\<rparr>, t))"

definition recalculated :: "'z wallet_db_scheme \<Rightarrow> ident \<Rightarrow> paise" where
  "recalculated db i =
     fold (\<lambda>t total. case tx_type t of
              CREDIT \<Rightarrow> total + tx_amount t
            | DEBIT \<Rightarrow> total - tx_amount t)
       (filter (\<lambda>t. tx_sub_wallet t = i) (sub_wallet_txns db)) 0"

definition recalculate_balance ::
  "ident \<Rightarrow> 'z wallet_db_scheme \<Rightarrow> exn + ('z wallet_db_scheme \<times> paise)" where
  "recalculate_balance i db =
     (let total = recalculated db i;
          db' = db\<lparr>sub_wallets :=
            update_row sw_id i (\<lambda>sw. sw\<lparr>sw_balance := total\<rparr>) (sub_wallets db)\<rparr>
      in case row_of sw_id i (sub_wallets db') of
           None \<Rightarrow> Inl DoesNotExist
         | Some sw \<Rightarrow> Inr (db', sw_balance sw))"

text \<open>
  \<open>credit\<close> and \<open>debit\<close> end with a hook of the department credit facility, run in a transaction
  of its own whose failure is only logged. \<open>min_after\<close> is \<^verbatim>\<open>minimum_balance_after\<close>.
\<close>

definition credit ::
  "timestamp \<Rightarrow> ident \<Rightarrow> paise \<Rightarrow> string \<Rightarrow> ident option \<Rightarrow> 'z wallet_db_scheme \<Rightarrow>
   exn + ('z wallet_db_scheme \<times> sub_wallet_txn)" where
  "credit now i amount description related_user db =
     (if amount \<le> 0 then Inl (ValueError ''Amount must be positive'')
      else case row_of sw_id i (sub_wallets db) of
        None \<Rightarrow> Inl DoesNotExist
      | Some sw \<Rightarrow>
          (let db1 = add_balance i amount db;
               (db2, t) = log_txn i CREDIT amount description related_user db1
           in Inr (on_subwallet_credited now None ''subwallet.credit'' sw amount db2, t)))"

definition debit ::
  "timestamp \<Rightarrow> ident \<Rightarrow> paise \<Rightarrow> string \<Rightarrow> ident option \<Rightarrow> paise option \<Rightarrow> 'z wallet_db_scheme \<Rightarrow>
   exn + ('z wallet_db_scheme \<times> sub_wallet_txn)" where
  "debit now i amount description related_user min_after db =
     (if amount \<le> 0 then Inl (ValueError ''Amount must be positive'')
      else case row_of sw_id i (sub_wallets db) of
        None \<Rightarrow> Inl DoesNotExist
      | Some sw \<Rightarrow>
          if sw_balance sw - amount < (case min_after of None \<Rightarrow> 0 | Some m \<Rightarrow> m)
          then Inl (ValueError ''Insufficient balance'')
          else
            (let db1 = add_balance i (- amount) db;
                 (db2, t) = log_txn i DEBIT amount description related_user db1
             in Inr (on_subwallet_debited now None sw amount db2, t)))"

subsection \<open>Join requests\<close>

text \<open>
  \<^verbatim>\<open>WalletJoinRequest.save\<close>: \<open>clean\<close> validates the two users and fills in the faculty member's
  wallet; the four transitions set the fields and save. The wallet the request was made for
  stays when it is set.
\<close>

definition join_clean ::
  "'z wallet_db_scheme \<Rightarrow> join_request \<Rightarrow> exn + join_request" where
  "join_clean db r = (case (row_of u_id (jr_student r) (users db), row_of u_id (jr_faculty r) (users db)) of
     (Some student, Some faculty) \<Rightarrow>
       if u_type student \<notin> {Some STUDENT, Some OTHER} then Inl ValidationError
       else if u_type faculty \<noteq> Some FACULTY then Inl ValidationError
       else (case wallet_by_user db (u_id faculty) of
         None \<Rightarrow> Inl ValidationError
       | Some w \<Rightarrow> Inr (if jr_wallet r = None then r\<lparr>jr_wallet := Some (w_id w)\<rparr> else r))
   | _ \<Rightarrow> Inl DoesNotExist)"

definition join_save ::
  "join_request \<Rightarrow> 'z wallet_db_scheme \<Rightarrow> exn + 'z wallet_db_scheme" where
  "join_save r db = and_then (join_clean db r) (\<lambda>r'.
     Inr (db\<lparr>join_requests :=
       (if row_of jr_id (jr_id r') (join_requests db) = None then join_requests db @ [r']
        else update_row jr_id (jr_id r') (\<lambda>_. r') (join_requests db))\<rparr>))"

definition join_approve ::
  "timestamp \<Rightarrow> string \<Rightarrow> join_request \<Rightarrow> 'z wallet_db_scheme \<Rightarrow> exn + 'z wallet_db_scheme" where
  "join_approve now response r =
     join_save (r\<lparr>jr_status := JR_APPROVED, jr_faculty_response := response,
                  jr_responded_at := Some now\<rparr>)"

definition join_reject ::
  "timestamp \<Rightarrow> string \<Rightarrow> join_request \<Rightarrow> 'z wallet_db_scheme \<Rightarrow> exn + 'z wallet_db_scheme" where
  "join_reject now response r =
     join_save (r\<lparr>jr_status := JR_REJECTED, jr_faculty_response := response,
                  jr_responded_at := Some now\<rparr>)"

definition join_cancel ::
  "join_request \<Rightarrow> 'z wallet_db_scheme \<Rightarrow> exn + 'z wallet_db_scheme" where
  "join_cancel r = join_save (r\<lparr>jr_status := JR_CANCELLED\<rparr>)"

definition join_remove ::
  "timestamp \<Rightarrow> string \<Rightarrow> join_request \<Rightarrow> 'z wallet_db_scheme \<Rightarrow> exn + 'z wallet_db_scheme" where
  "join_remove now response r =
     join_save (r\<lparr>jr_status := JR_CANCELLED,
                  jr_faculty_response :=
                    (if response = '''' then ''You have been removed from this wallet.'' else response),
                  jr_responded_at := Some now\<rparr>)"


subsection \<open>What a movement does\<close>

text \<open>
  \<open>moved i delta t db db'\<close>: the balance of sub-wallet \<open>i\<close> moved by \<open>delta\<close>, the transaction
  \<open>t\<close> that records it was appended to the log, and nothing else about money, users, wallets or
  the keys of the tables changed.
\<close>

definition moved ::
  "ident \<Rightarrow> int \<Rightarrow> sub_wallet_txn \<Rightarrow> 'z wallet_db_scheme \<Rightarrow> 'z wallet_db_scheme \<Rightarrow> bool" where
  "moved i delta t db db' \<longleftrightarrow>
     sub_wallets db' =
       update_row sw_id i (\<lambda>sw. sw\<lparr>sw_balance := sw_balance sw + delta\<rparr>) (sub_wallets db) \<and>
     sub_wallet_txns db' = sub_wallet_txns db @ [t] \<and> tx_sub_wallet t = i \<and>
     signed_amount t = delta \<and> row_of sw_id i (sub_wallets db) \<noteq> None \<and>
     users db' = users db \<and> wallets db' = wallets db \<and> wallet_db.more db' = wallet_db.more db"

lemma moved_cong:
  "same_money db' db'' \<Longrightarrow> moved i delta t db db' \<Longrightarrow> moved i delta t db db''"
  by (simp add: same_money_def moved_def)

lemma log_txn_fields:
  "log_txn i ty a d u db = (db', t) \<Longrightarrow>
   tx_sub_wallet t = i \<and> tx_type t = ty \<and> tx_amount t = a \<and> tx_description t = d \<and>
   tx_related_user t = u"
  by (auto simp: log_txn_def Let_def)

lemma credit_result:
  assumes "credit now i a d u db = Inr (db', t)"
  shows "0 < a \<and> moved i a t db db' \<and> tx_type t = CREDIT \<and> tx_amount t = a \<and>
    tx_related_user t = u"
proof -
  from assms obtain sw where a: "0 < a" and sw: "row_of sw_id i (sub_wallets db) = Some sw"
    by (auto simp: credit_def split: if_splits option.splits)
  obtain db2 where log: "log_txn i CREDIT a d u (add_balance i a db) = (db2, t)"
    and db': "db' = on_subwallet_credited now None ''subwallet.credit'' sw a db2"
    using assms a sw by (auto simp: credit_def Let_def split: prod.splits)
  from log sw have "moved i a t db db2"
    by (auto simp: log_txn_def add_balance_def Let_def moved_def signed_amount_def)
  with log a show ?thesis
    unfolding db' by (auto dest: log_txn_fields intro: moved_cong [OF same_money_credited])
qed

lemma debit_result:
  assumes "debit now i a d u m db = Inr (db', t)"
  shows "0 < a \<and> (case m of None \<Rightarrow> 0 | Some f \<Rightarrow> f) \<le> balance_of db i - a \<and>
    moved i (- a) t db db' \<and> tx_type t = DEBIT \<and> tx_amount t = a \<and> tx_related_user t = u"
proof -
  from assms obtain sw where a: "0 < a" and sw: "row_of sw_id i (sub_wallets db) = Some sw"
    and low: "(case m of None \<Rightarrow> 0 | Some f \<Rightarrow> f) \<le> sw_balance sw - a"
    unfolding debit_def by (auto split: if_splits option.splits)
  obtain db2 where log: "log_txn i DEBIT a d u (add_balance i (- a) db) = (db2, t)"
    and db': "db' = on_subwallet_debited now None sw a db2"
    using assms a sw low by (auto simp: debit_def Let_def split: prod.splits)
  from log sw have "moved i (- a) t db db2"
    by (auto simp: log_txn_def add_balance_def Let_def moved_def signed_amount_def)
  with log a low sw show ?thesis
    unfolding db'
    by (auto simp: balance_of_def dest: log_txn_fields intro: moved_cong [OF same_money_debited])
qed

lemma update_row_sw_keys [simp]:
  "map sw_id (update_row sw_id i (\<lambda>sw. sw\<lparr>sw_balance := f sw\<rparr>) rows) = map sw_id rows"
  "map sw_wallet (update_row sw_id i (\<lambda>sw. sw\<lparr>sw_balance := f sw\<rparr>) rows) = map sw_wallet rows"
  "map (\<lambda>sw. (sw_wallet sw, sw_department sw))
     (update_row sw_id i (\<lambda>sw. sw\<lparr>sw_balance := f sw\<rparr>) rows) =
   map (\<lambda>sw. (sw_wallet sw, sw_department sw)) rows"
  by (induction rows) auto

lemma image_of_map: "f ` set xs = set (map f xs)"
  by simp

lemma moved_balance:
  assumes "moved i delta t db db'"
  shows "balance_of db' = (balance_of db)(i := balance_of db i + delta)"
proof
  fix j
  have "row_of sw_id i (sub_wallets db) \<noteq> None" using assms by (simp add: moved_def)
  then show "balance_of db' j = ((balance_of db)(i := balance_of db i + delta)) j"
    using assms by (auto simp: moved_def balance_of_def row_of_update_row split: option.splits)
qed

lemma moved_postings:
  "moved i delta t db db' \<Longrightarrow> postings db' = postings db @ [(i, delta)]"
  by (auto simp: moved_def postings_def)

lemma moved_wf:
  assumes "moved i delta t db db'" "wallet_wf db"
  shows "wallet_wf db'"
proof -
  have "i \<in> sw_id ` set (sub_wallets db)"
    using assms(1) row_of_None [of sw_id i "sub_wallets db"] by (simp add: moved_def)
  then show ?thesis
    using assms
    unfolding moved_def wallet_wf_def unique_keys_def image_of_map
    by (elim conjE) (simp only: update_row_sw_keys map_append set_append list.map list.set, auto)
qed

lemma moved_reconciled: "moved i delta t db db' \<Longrightarrow> reconciled db \<Longrightarrow> reconciled db'"
  by (simp add: reconciled_def moved_balance moved_postings)

subsection \<open>Recalculation\<close>

lemma recalculated_is_posted: "recalculated db i = posted i (postings db)"
proof -
  have *: "fold (\<lambda>t total. case tx_type t of CREDIT \<Rightarrow> total + tx_amount t
              | DEBIT \<Rightarrow> total - tx_amount t) (filter (\<lambda>t. tx_sub_wallet t = i) ts) acc =
        acc + posted i (map (\<lambda>t. (tx_sub_wallet t, signed_amount t)) ts)" for ts acc
    by (induction ts arbitrary: acc) (auto simp: signed_amount_def split: txn_type.split)
  show ?thesis by (simp add: recalculated_def postings_def *)
qed

lemma recalculate_reconciled:
  assumes "wallet_wf db" "reconciled db" "row_of sw_id i (sub_wallets db) = Some sw"
  shows "recalculate_balance i db = Inr (db, sw_balance sw)"
proof -
  have bal: "recalculated db i = sw_balance sw"
    using assms(2) [unfolded reconciled_def, rule_format, of i] assms(3)
    by (simp add: recalculated_is_posted balance_of_def)
  have "update_row sw_id i (\<lambda>r. r\<lparr>sw_balance := sw_balance sw\<rparr>) (sub_wallets db) = sub_wallets db"
  proof -
    have "(if sw_id r = i then r\<lparr>sw_balance := sw_balance sw\<rparr> else r) = r"
      if "r \<in> set (sub_wallets db)" for r
      using that row_of_unique [of sw_id "sub_wallets db" r] assms(1,3)
      by (auto simp: wallet_wf_def)
    then show ?thesis unfolding update_row_def by (simp add: map_idI)
  qed
  with bal assms(3) show ?thesis by (simp add: recalculate_balance_def)
qed

lemma recalculate_repairs:
  assumes "recalculate_balance i db = Inr (db', b)"
  shows "b = posted i (postings db') \<and> balance_of db' i = b \<and> postings db' = postings db \<and>
    (\<forall>j. j \<noteq> i \<longrightarrow> balance_of db' j = balance_of db j)"
  using assms
  by (auto simp: recalculate_balance_def Let_def balance_of_def postings_def
      row_of_update_row recalculated_is_posted split: option.splits)


subsection \<open>Runs of the wallet\<close>

text \<open>
  Everything that writes the wallet tables. A debit names no floor or one that is not negative:
  the only floor the booking code passes is \<open>department_faculty_credit_floor\<close>, which is 0.
\<close>

inductive wallet_step :: "'z wallet_db_scheme \<Rightarrow> 'z wallet_db_scheme \<Rightarrow> bool" where
  step_credit: "credit now i a d u db = Inr (db', t) \<Longrightarrow> wallet_step db db'"
| step_debit: "debit now i a d u m db = Inr (db', t) \<Longrightarrow>
    (case m of None \<Rightarrow> True | Some f \<Rightarrow> 0 \<le> f) \<Longrightarrow> wallet_step db db'"
| step_wallet: "wallet_get_or_create u db = Inr (db', w) \<Longrightarrow> wallet_step db db'"
| step_sub_wallet: "w \<in> w_id ` set (wallets db) \<Longrightarrow>
    subwallet_get_or_create w dept db = (db', sw) \<Longrightarrow> wallet_step db db'"
| step_join: "join_save r db = Inr db' \<Longrightarrow> wallet_step db db'"

inductive_cases wallet_step_cases: "wallet_step db db'"

lemma subwallet_get_or_create_balances:
  assumes "subwallet_get_or_create w d db = (db', sw)"
  shows "balance_of db' = balance_of db \<and> postings db' = postings db \<and>
    users db' = users db \<and> wallets db' = wallets db \<and> sub_wallet_txns db' = sub_wallet_txns db \<and>
    sub_wallet_for db' w d = Some sw \<and> sw_wallet sw = w \<and> sw_department sw = d \<and>
    wallet_db.more db' = wallet_db.more db"
proof (cases "sub_wallet_for db w d")
  case None
  with assms show ?thesis
    by (auto simp: subwallet_get_or_create_def balance_of_def postings_def Let_def table_simps
        sub_wallet_for_def fun_eq_iff split: option.split if_split_asm)
next
  case (Some s)
  with assms sub_wallet_for_SomeD [OF Some] show ?thesis
    by (simp add: subwallet_get_or_create_def)
qed

lemma subwallet_get_or_create_in:
  "subwallet_get_or_create w d db = (db', sw) \<Longrightarrow> sw \<in> set (sub_wallets db')"
  using subwallet_get_or_create_balances sub_wallet_for_SomeD by blast

lemma subwallet_get_or_create_wf:
  assumes "subwallet_get_or_create w d db = (db', sw)" "wallet_wf db"
    and "w \<in> w_id ` set (wallets db)"
  shows "wallet_wf db'"
proof (cases "sub_wallet_for db w d")
  case None
  then have "(w, d) \<notin> (\<lambda>sw. (sw_wallet sw, sw_department sw)) ` set (sub_wallets db)"
    by (auto simp: sub_wallet_for_def find_None_iff)
  with None assms fresh_pk_notin [of sw_id "sub_wallets db"] show ?thesis
    by (auto simp: subwallet_get_or_create_def wallet_wf_def Let_def image_subset_iff
        intro!: unique_keys_append)
next
  case (Some s)
  with assms show ?thesis by (simp add: subwallet_get_or_create_def)
qed

lemma wallet_get_or_create_result:
  assumes "wallet_get_or_create u db = Inr (db', w)"
  shows "wallet_by_user db' (u_id u) = Some w \<and> w \<in> set (wallets db') \<and> w_user w = u_id u \<and>
    users db' = users db \<and> sub_wallets db' = sub_wallets db \<and>
    sub_wallet_txns db' = sub_wallet_txns db \<and> balance_of db' = balance_of db \<and>
    postings db' = postings db \<and> set (wallets db) \<subseteq> set (wallets db') \<and>
    wallet_db.more db' = wallet_db.more db \<and> (wallet_wf db \<longrightarrow> wallet_wf db')"
proof (cases "wallet_by_user db (u_id u)")
  case None
  then have "u_id u \<notin> w_user ` set (wallets db)"
    by (auto simp: wallet_by_user_def find_None_iff)
  with None assms fresh_pk_notin [of w_id "wallets db"] show ?thesis
    by (auto simp: wallet_get_or_create_def wallet_wf_def balance_of_def postings_def
        wallet_by_user_def table_simps Let_def fun_eq_iff image_subset_iff split: if_splits intro!: unique_keys_append)
next
  case (Some s)
  with assms wallet_by_user_SomeD [OF Some] show ?thesis
    by (simp add: wallet_get_or_create_def)
qed

lemma join_save_money:
  assumes "join_save r db = Inr db'"
  shows "same_money db db'"
  using assms by (auto simp: join_save_def and_then_eq_Inr same_money_def)

lemma wallet_step_posts:
  assumes "wallet_step db db'"
  shows "\<exists>new. postings db' = postings db @ new \<and>
    (\<forall>i. balance_of db' i = balance_of db i + posted i new)"
  using assms
proof (cases rule: wallet_step.cases)
  case (step_credit now i a d u t)
  then have "moved i a t db db'" by (simp add: credit_result)
  then show ?thesis by (auto simp: moved_balance moved_postings)
next
  case (step_debit now i a d u m t)
  then have "moved i (- a) t db db'" by (simp add: debit_result)
  then show ?thesis by (auto simp: moved_balance moved_postings)
next
  case (step_wallet u w)
  from wallet_get_or_create_result [OF this] show ?thesis by auto
next
  case (step_sub_wallet w d sw)
  from subwallet_get_or_create_balances [OF this(2)] show ?thesis by auto
next
  case (step_join r)
  from same_moneyD [OF join_save_money [OF this]] show ?thesis by auto
qed

definition solvent :: "'z wallet_db_scheme \<Rightarrow> bool" where
  "solvent db \<longleftrightarrow> (\<forall>i. 0 \<le> balance_of db i)"

lemma wallet_step_inv:
  assumes "wallet_wf db \<and> solvent db" "wallet_step db db'"
  shows "wallet_wf db' \<and> solvent db'"
  using assms(2)
proof (cases rule: wallet_step.cases)
  case (step_credit now i a d u t)
  then have "moved i a t db db'" "0 < a" by (simp_all add: credit_result)
  with assms(1) show ?thesis by (auto simp: solvent_def moved_balance moved_wf)
next
  case (step_debit now i a d u m t)
  from debit_result [OF this(1)] step_debit(2)
  have "moved i (- a) t db db'" "a \<le> balance_of db i" by (auto split: option.splits)
  with assms(1) show ?thesis by (auto simp: solvent_def moved_balance moved_wf)
next
  case (step_wallet u w)
  from wallet_get_or_create_result [OF this] assms(1) show ?thesis by (auto simp: solvent_def)
next
  case (step_sub_wallet w d sw)
  from subwallet_get_or_create_balances [OF this(2)] subwallet_get_or_create_wf [OF this(2) _ this(1)]
    assms(1) show ?thesis by (auto simp: solvent_def)
next
  case (step_join r)
  from same_moneyD [OF join_save_money [OF this]] assms(1) show ?thesis by (auto simp: solvent_def)
qed

interpretation wallet_ledger: ledger balance_of postings wallet_step
  by unfold_locales (rule wallet_step_posts)

interpretation wallet_machine: machine wallet_step "\<lambda>db. wallet_wf db \<and> solvent db"
  by unfold_locales (rule wallet_step_inv)

text \<open>All the money of the institute's sub-wallets.\<close>

definition held :: "'z wallet_db_scheme \<Rightarrow> paise" where
  "held db = sum_list (map sw_balance (sub_wallets db))"

text \<open>The tables of the wallet are the same.\<close>

definition same_wallets :: "'z wallet_db_scheme \<Rightarrow> 'z wallet_db_scheme \<Rightarrow> bool" where
  "same_wallets db db' \<longleftrightarrow> users db' = users db \<and> wallets db' = wallets db \<and>
     sub_wallets db' = sub_wallets db \<and> sub_wallet_txns db' = sub_wallet_txns db"

lemma same_walletsD:
  assumes "same_wallets db db'"
  shows "balance_of db' = balance_of db" "postings db' = postings db" "wallet_wf db' = wallet_wf db"
    "held db' = held db"
  using assms
  by (auto simp: same_wallets_def balance_of_def postings_def wallet_wf_def held_def fun_eq_iff)

subsection \<open>Facilities along a run\<close>

lemma hooks_evolve:
  assumes "dept_wf db0" "dept_facilities db = dept_facilities db0"
  shows "facilities_evolve db0 (on_subwallet_debited now actor sub a db)"
    and "facilities_evolve db0 (on_subwallet_credited now actor src sub a db)"
  using hooks_facilities_evolve [of db] assms
  by (simp_all add: facilities_evolve_def dept_wf_def)

lemma wallet_step_facilities:
  assumes "wallet_step db db'" "dept_wf db"
  shows "facilities_evolve db db'"
  using assms(1)
proof (cases rule: wallet_step.cases)
  case (step_credit now i a d u t)
  then show ?thesis
    by (auto simp: credit_def log_txn_def add_balance_def Let_def intro!: hooks_evolve assms(2)
        split: if_splits option.splits)
next
  case (step_debit now i a d u m t)
  then show ?thesis
    by (auto simp: debit_def log_txn_def add_balance_def Let_def intro!: hooks_evolve assms(2)
        split: if_splits option.splits)
next
  case (step_wallet u w)
  then have "dept_facilities db' = dept_facilities db"
    by (auto simp: wallet_get_or_create_def Let_def split: option.splits if_splits)
  then show ?thesis by (simp add: facilities_evolve_def list_all2_refl)
next
  case (step_sub_wallet w d sw)
  then have "dept_facilities db' = dept_facilities db"
    by (auto simp: subwallet_get_or_create_def Let_def split: option.splits if_splits)
  then show ?thesis by (simp add: facilities_evolve_def list_all2_refl)
next
  case (step_join r)
  then have "dept_facilities db' = dept_facilities db"
    by (auto simp: join_save_def and_then_eq_Inr)
  then show ?thesis by (simp add: facilities_evolve_def list_all2_refl)
qed

lemma wallet_run_facilities:
  assumes "wallet_step\<^sup>*\<^sup>* db db'" "dept_wf db"
  shows "facilities_evolve db db' \<and> dept_wf db'"
  using assms
proof (induction rule: rtranclp_induct)
  case (step y z)
  then have "facilities_evolve y z" by (simp add: wallet_step_facilities)
  with step show ?case by (blast intro: facilities_evolve_trans facilities_evolve_wf)
qed simp

subsection \<open>Joining a wallet\<close>

lemma join_save_approved:
  assumes "join_save r db = Inr db'" "jr_status r = JR_APPROVED"
  shows "\<exists>r'. r' \<in> set (join_requests db') \<and> jr_id r' = jr_id r \<and> jr_status r' = JR_APPROVED \<and>
    jr_student r' = jr_student r \<and> jr_wallet r' \<noteq> None"
proof -
  from assms(1) obtain r' where r': "join_clean db r = Inr r'"
    and db': "db' = db\<lparr>join_requests :=
       (if row_of jr_id (jr_id r') (join_requests db) = None then join_requests db @ [r']
        else update_row jr_id (jr_id r') (\<lambda>_. r') (join_requests db))\<rparr>"
    by (auto simp: join_save_def and_then_eq_Inr)
  have f: "jr_id r' = jr_id r" "jr_status r' = jr_status r" "jr_student r' = jr_student r"
    "jr_wallet r' \<noteq> None"
    using r' by (auto simp: join_clean_def split: option.splits if_splits)
  have "r' \<in> set (join_requests db')"
  proof (cases "row_of jr_id (jr_id r') (join_requests db)")
    case None
    then show ?thesis by (simp add: db')
  next
    case (Some x)
    then have "x \<in> set (join_requests db)" "jr_id x = jr_id r'" by (auto dest: row_of_SomeD)
    then show ?thesis using Some by (auto simp: db' update_row_def rev_image_eqI)
  qed
  with f assms(2) show ?thesis by auto
qed

subsection \<open>Properties\<close>

text \<open>A wallet with one sub-wallet of 500 rupees, for the concrete runs below.\<close>

definition sample_user :: user where
  "sample_user = \<lparr>u_id = 1, u_name = ''A. Rao'', u_email = ''rao@x.in'', u_type = Some FACULTY,
     u_is_active = True, u_department = Some 7, u_joining_date = Some 100,
     u_force_inactive = False, u_degree = None, u_is_superuser = False\<rparr>"

definition sample_db :: wallet_db where
  "sample_db = \<lparr>users = [sample_user], departments = [], sric_grant_code = '''',
     wallets = [\<lparr>w_id = 3, w_user = 1\<rparr>],
     sub_wallets = [\<lparr>sw_id = 5, sw_wallet = 3, sw_department = 7, sw_balance = 50000\<rparr>],
     sub_wallet_txns = [\<lparr>tx_id = 1, tx_sub_wallet = 5, tx_type = CREDIT, tx_amount = 50000,
       tx_description = ''recharge'', tx_related_user = None\<rparr>],
     join_requests = [], dept_settings = [],
     dept_facilities = [\<lparr>fd_id = 2, fd_user = 1, fd_department = 7, fd_status = FD_CLOSED,
       fd_credit_limit = 10000, fd_availed_at = 0, fd_closed_at = Some 9\<rparr>],
     dept_audit = []\<rparr>"

definition sample_db_after :: wallet_db where
  "sample_db_after = fst (projr (debit 20 5 12000 ''booking'' (Some 1) None sample_db))"

lemma sample_step: "wallet_step sample_db sample_db_after"
proof -
  have "debit 20 5 12000 ''booking'' (Some 1) None sample_db =
      Inr (sample_db_after, snd (projr (debit 20 5 12000 ''booking'' (Some 1) None sample_db)))"
    unfolding sample_db_after_def by code_simp
  then show ?thesis by (rule step_debit) simp
qed

lemma sample_run: "wallet_step\<^sup>*\<^sup>* sample_db sample_db_after"
  using sample_step by (rule r_into_rtranclp)

lemma sample_wf: "wallet_wf sample_db" "solvent sample_db" "reconciled sample_db" "dept_wf sample_db"
  by (auto simp: wallet_wf_def solvent_def reconciled_def dept_wf_def balance_of_def postings_def
      signed_amount_def sample_db_def sample_user_def unique_keys_def)



text \<open>
  \<open>debit\<close> takes the money exactly when the amount is positive, the sub-wallet exists and
  the balance left is not below the floor; then the balance of that sub-wallet alone drops by
  the amount and one debit row is logged. Otherwise it raises and nothing is written.
\<close>

theorem debit_spec:
  "case debit now i a d u m db of
     Inl e \<Rightarrow>
       (a \<le> 0 \<and> e = ValueError ''Amount must be positive'') \<or>
       (0 < a \<and> row_of sw_id i (sub_wallets db) = None \<and> e = DoesNotExist) \<or>
       (0 < a \<and> balance_of db i - a < (case m of None \<Rightarrow> 0 | Some f \<Rightarrow> f) \<and>
          e = ValueError ''Insufficient balance'')
   | Inr (db', t) \<Rightarrow>
       0 < a \<and> (case m of None \<Rightarrow> 0 | Some f \<Rightarrow> f) \<le> balance_of db i - a \<and>
       balance_of db' = (balance_of db)(i := balance_of db i - a) \<and>
       postings db' = postings db @ [(i, - a)] \<and> tx_type t = DEBIT \<and> tx_amount t = a \<and>
       tx_related_user t = u \<and> users db' = users db \<and> wallets db' = wallets db"
proof (cases "debit now i a d u m db")
  case (Inl e)
  then show ?thesis
    by (auto simp: debit_def balance_of_def Let_def split: if_splits option.splits prod.splits)
next
  case (Inr x)
  then obtain db' t where x: "x = (db', t)" by (cases x)
  with Inr have r: "debit now i a d u m db = Inr (db', t)" by simp
  from debit_result [OF r] have m: "moved i (- a) t db db'" by simp
  then have "users db' = users db \<and> wallets db' = wallets db" by (simp add: moved_def)
  with r x debit_result [OF r] moved_balance [OF m] moved_postings [OF m] show ?thesis by simp
qed

text \<open>
  The department credit facility is a one-time benefit. No run of the wallet adds or drops
  a facility or changes whose it is or its limit, and a closed facility stays closed, unchanged,
  whatever is credited or debited later.
\<close>

theorem facility_closes_once:
  assumes "wallet_step\<^sup>*\<^sup>* db db'" "dept_wf db"
  shows "map fd_id (dept_facilities db') = map fd_id (dept_facilities db) \<and>
    (\<forall>f\<in>set (dept_facilities db). \<exists>f'\<in>set (dept_facilities db').
       fd_user f' = fd_user f \<and> fd_department f' = fd_department f \<and>
       fd_credit_limit f' = fd_credit_limit f \<and> (fd_status f = FD_CLOSED \<longrightarrow> f' = f))"
proof -
  have l: "list_all2 facility_evolves (dept_facilities db) (dept_facilities db')"
    using wallet_run_facilities [OF assms] by (simp add: facilities_evolve_def)
  have "map fd_id gs = map fd_id fs" if "list_all2 facility_evolves fs gs" for fs gs
    using that by induction (auto simp: facility_evolves_def)
  from this [OF l] have ids: "map fd_id (dept_facilities db') = map fd_id (dept_facilities db)" .
  have "\<exists>f'\<in>set gs. facility_evolves f f'"
    if "list_all2 facility_evolves fs gs" "f \<in> set fs" for fs gs f
    using that by induction auto
  from this [OF l] ids show ?thesis
    by (fastforce simp: facility_evolves_def)
qed

theorem facility_closes_once_witness:
  "map fd_id (dept_facilities sample_db_after) = [2]"
  using facility_closes_once [OF sample_run sample_wf(4)]
  by (simp add: sample_db_def)

end
