(* ===== verification/Peer_Transfer.thy ===== *)
theory Peer_Transfer
  imports Sub_Wallets
begin

text \<open>
  Wallet-to-wallet transfers between faculty members under one grant, confirmed with a
  one-time password: \<^verbatim>\<open>users/wallet_peer_transfer.py\<close> and the model \<^verbatim>\<open>WalletPeerTransfer\<close> of
  \<^verbatim>\<open>users/models/wallet.py\<close>. The dash in a description stands for the source's em dash.
\<close>

datatype peer_status = PT_PENDING_OTP | PT_COMPLETED | PT_FAILED | PT_CANCELLED | PT_EXPIRED

record peer_transfer =
  pt_id :: ident
  pt_transaction_id :: string
  pt_sender :: ident
  pt_recipient :: ident
  pt_initiated_by :: ident
  pt_department :: ident
  pt_grant_code :: string
  pt_amount :: paise
  pt_remarks :: string
  pt_status :: peer_status
  pt_otp_code :: string
  pt_otp_expires_at :: "timestamp option"
  pt_otp_verified :: bool
  pt_otp_verified_at :: "timestamp option"
  pt_sender_balance_after :: "paise option"
  pt_recipient_balance_after :: "paise option"
  pt_failure_reason :: string
  pt_completed_at :: "timestamp option"

record peer_db = wallet_db +
  peer_transfers :: "peer_transfer list"

subsection \<open>The model's own methods\<close>

text \<open>
  \<^verbatim>\<open>save\<close> draws up to five random transaction ids and takes the first unused one, else a
  sixth draw unchecked; \<open>draw n\<close> is the n-th draw.
\<close>

definition choose_transaction_id :: "(nat \<Rightarrow> string) \<Rightarrow> string list \<Rightarrow> string" where
  "choose_transaction_id draw taken =
     (case find (\<lambda>c. c \<notin> set taken) (map draw [0..<5]) of Some c \<Rightarrow> c | None \<Rightarrow> draw 5)"

definition otp_minutes :: int where
  "otp_minutes = 10"

definition generate_otp :: "timestamp \<Rightarrow> string \<Rightarrow> peer_transfer \<Rightarrow> peer_transfer" where
  "generate_otp now otp t =
     t\<lparr>pt_otp_code := otp, pt_otp_expires_at := Some (now + 60 * otp_minutes),
       pt_otp_verified := False, pt_otp_verified_at := None\<rparr>"

definition verify_otp :: "timestamp \<Rightarrow> string \<Rightarrow> peer_transfer \<Rightarrow> bool" where
  "verify_otp now otp t =
     (if pt_otp_code t = '''' then False
      else case pt_otp_expires_at t of
        None \<Rightarrow> False
      | Some e \<Rightarrow> if e < now then False else if pt_otp_verified t then False
                 else pt_otp_code t = strip otp)"

definition save_transfer :: "peer_transfer \<Rightarrow> 'z peer_db_scheme \<Rightarrow> 'z peer_db_scheme" where
  "save_transfer t db =
     db\<lparr>peer_transfers := update_row pt_id (pt_id t) (\<lambda>_. t) (peer_transfers db)\<rparr>"

subsection \<open>Checks\<close>

definition resolve_department_grant_code ::
  "'z wallet_db_scheme \<Rightarrow> department option \<Rightarrow> string" where
  "resolve_department_grant_code db department =
     (let own = (case department of None \<Rightarrow> '''' | Some d \<Rightarrow> strip (d_grant_code d));
          global = strip (sric_grant_code db)
      in if own \<noteq> '''' then own else if global \<noteq> '''' then global else ''IIC-000-002'')"

definition assert_faculty_initiator :: "user \<Rightarrow> exn + unit" where
  "assert_faculty_initiator u = ensure (u_type u = Some FACULTY) (PeerTransferError ''forbidden'')"

definition assert_eligible_recipient :: "user \<Rightarrow> user option \<Rightarrow> exn + user" where
  "assert_eligible_recipient sender recipient = (case recipient of
     None \<Rightarrow> Inl (PeerTransferError ''recipient_not_found'')
   | Some r \<Rightarrow>
       if \<not> u_is_active r then Inl (PeerTransferError ''recipient_inactive'')
       else if u_id r = u_id sender then Inl (PeerTransferError ''transfer_to_self'')
       else if \<not> can_have_wallet r then Inl (PeerTransferError ''recipient_ineligible'')
       else Inr r)"

definition has_sub_wallet :: "'z wallet_db_scheme \<Rightarrow> ident \<Rightarrow> ident \<Rightarrow> bool" where
  "has_sub_wallet db u d = list_ex (\<lambda>sw. sw_department sw = d \<and>
     (case row_of w_id (sw_wallet sw) (wallets db) of None \<Rightarrow> False | Some w \<Rightarrow> w_user w = u))
     (sub_wallets db)"

definition assert_same_grant ::
  "'z wallet_db_scheme \<Rightarrow> department \<Rightarrow> user \<Rightarrow> exn + string" where
  "assert_same_grant db department recipient =
     (let grant = resolve_department_grant_code db (Some department) in
      if grant = '''' then Inl (PeerTransferError ''missing_grant'')
      else case Option.bind (u_department recipient) (\<lambda>d. row_of d_id d (departments db)) of
        None \<Rightarrow> Inr grant
      | Some home \<Rightarrow>
          (let home_grant = resolve_department_grant_code db (Some home) in
           if home_grant \<noteq> '''' \<and> home_grant \<noteq> grant
              \<and> \<not> has_sub_wallet db (u_id recipient) (d_id department)
           then Inl (PeerTransferError ''different_grant'')
           else Inr grant))"

text \<open>The wallet a user may send from or receive into: the accessible one, when it is the own one.\<close>

definition own_accessible_wallet :: "'z wallet_db_scheme \<Rightarrow> user \<Rightarrow> ident option" where
  "own_accessible_wallet db u = (case get_accessible_wallet db u of
     None \<Rightarrow> None
   | Some w \<Rightarrow> (case row_of w_id w (wallets db) of
       None \<Rightarrow> None
     | Some row \<Rightarrow> if w_user row = u_id u then Some w else None))"

text \<open>
  \<open>list_eligible_recipients\<close> on the rows its query returns: \<open>found\<close> lists the active faculty
  members and individual students other than the sender that match the search text, in the
  order of the query.
\<close>

fun take_eligible ::
  "'z wallet_db_scheme \<Rightarrow> department \<Rightarrow> nat \<Rightarrow> user list \<Rightarrow> user list" where
  "take_eligible db department n [] = []"
| "take_eligible db department n (u # us) =
     (if \<not> can_have_wallet u then take_eligible db department n us
      else case assert_same_grant db department u of
        Inl _ \<Rightarrow> take_eligible db department n us
      | Inr _ \<Rightarrow> u # (if n \<le> 1 then [] else take_eligible db department (n - 1) us))"

definition list_eligible_recipients ::
  "'z wallet_db_scheme \<Rightarrow> department \<Rightarrow> nat \<Rightarrow> user list \<Rightarrow> user list" where
  "list_eligible_recipients db department n found =
     take_eligible db department n (take (max (n * 3) 30) found)"

subsection \<open>Creating a transfer\<close>

definition cancel_drafts ::
  "ident \<Rightarrow> ident \<Rightarrow> ident \<Rightarrow> 'z peer_db_scheme \<Rightarrow> 'z peer_db_scheme" where
  "cancel_drafts s r d db =
     db\<lparr>peer_transfers := map (\<lambda>t.
       if pt_sender t = s \<and> pt_recipient t = r \<and> pt_department t = d \<and> pt_status t = PT_PENDING_OTP
       then t\<lparr>pt_status := PT_CANCELLED\<rparr> else t) (peer_transfers db)\<rparr>"

definition transfer_checks ::
  "user \<Rightarrow> user option \<Rightarrow> department \<Rightarrow> decimal_in \<Rightarrow> 'z peer_db_scheme \<Rightarrow>
   exn + (user \<times> paise \<times> string)" where
  "transfer_checks sender recipient department amount db =
     and_then (assert_faculty_initiator sender) (\<lambda>_.
     and_then (assert_eligible_recipient sender recipient) (\<lambda>r.
     and_then (as_money amount) (\<lambda>a.
     and_then (assert_same_grant db department r) (\<lambda>grant.
       case own_accessible_wallet db sender of
         None \<Rightarrow> Inl (PeerTransferError ''no_wallet'')
       | Some w \<Rightarrow> (case sub_wallet_for db w (d_id department) of
           None \<Rightarrow> Inl (PeerTransferError ''no_sub_wallet'')
         | Some sw \<Rightarrow>
             if sw_balance sw < a then Inl (PeerTransferError ''insufficient_balance'')
             else Inr (r, a, grant))))))"

definition create_pending_transfer ::
  "timestamp \<Rightarrow> (nat \<Rightarrow> string) \<Rightarrow> string \<Rightarrow> user \<Rightarrow> user option \<Rightarrow> department \<Rightarrow> decimal_in \<Rightarrow>
   string \<Rightarrow> 'z peer_db_scheme \<Rightarrow> 'z peer_db_scheme \<times> (exn + (peer_transfer \<times> string))" where
  "create_pending_transfer now draw otp sender recipient department amount remarks db =
     (case transfer_checks sender recipient department amount db of
        Inl e \<Rightarrow> (db, Inl e)
      | Inr (r, a, grant) \<Rightarrow>
          (let db1 = cancel_drafts (u_id sender) (u_id r) (d_id department) db;
               tid = choose_transaction_id draw (map pt_transaction_id (peer_transfers db1));
               t = \<lparr>pt_id = fresh_pk pt_id (peer_transfers db1), pt_transaction_id = tid,
                    pt_sender = u_id sender, pt_recipient = u_id r, pt_initiated_by = u_id sender,
                    pt_department = d_id department, pt_grant_code = grant, pt_amount = a,
                    pt_remarks = take 2000 (strip remarks), pt_status = PT_PENDING_OTP,
                    pt_otp_code = '''', pt_otp_expires_at = None, pt_otp_verified = False,
                    pt_otp_verified_at = None, pt_sender_balance_after = None,
                    pt_recipient_balance_after = None, pt_failure_reason = '''',
                    pt_completed_at = None\<rparr>
           in if tid \<in> pt_transaction_id ` set (peer_transfers db1) then (db1, Inl IntegrityError)
              else
                (let t' = generate_otp now otp t
                 in (db1\<lparr>peer_transfers := peer_transfers db1 @ [t']\<rparr>, Inr (t', otp)))))"

subsection \<open>Confirming a transfer\<close>

definition transfer_description :: "string \<Rightarrow> user \<Rightarrow> peer_transfer \<Rightarrow> string" where
  "transfer_description direction other t =
     ''Wallet transfer '' @ direction @ '' '' @ (if u_name other \<noteq> '''' then u_name other else u_email other)
     @ '' ['' @ pt_transaction_id t @ '']''
     @ (if pt_remarks t \<noteq> '''' then '' - '' @ take 120 (pt_remarks t) else '''')"

text \<open>Taking the money from one sub-wallet and putting it into the other.\<close>

definition move_money ::
  "timestamp \<Rightarrow> user \<Rightarrow> user \<Rightarrow> peer_transfer \<Rightarrow> ident \<Rightarrow> ident \<Rightarrow> 'z peer_db_scheme \<Rightarrow>
   exn + 'z peer_db_scheme" where
  "move_money now sender recipient t from_sw to_sw db =
     and_then (debit now from_sw (pt_amount t) (transfer_description ''to'' recipient t)
                (Some (u_id sender)) None db) (\<lambda>(db1, _).
     and_then (credit now to_sw (pt_amount t) (transfer_description ''from'' sender t)
                (Some (u_id recipient)) db1) (\<lambda>(db2, _).
     Inr db2))"

definition completed ::
  "timestamp \<Rightarrow> paise \<Rightarrow> paise \<Rightarrow> peer_transfer \<Rightarrow> peer_transfer" where
  "completed now sender_balance recipient_balance t =
     t\<lparr>pt_otp_verified := True, pt_otp_verified_at := Some now, pt_status := PT_COMPLETED,
       pt_completed_at := Some now, pt_sender_balance_after := Some sender_balance,
       pt_recipient_balance_after := Some recipient_balance, pt_otp_code := ''''\<rparr>"

text \<open>The steps after the one-time password has been accepted.\<close>

definition execute_transfer ::
  "timestamp \<Rightarrow> user \<Rightarrow> user \<Rightarrow> peer_transfer \<Rightarrow> 'z peer_db_scheme \<Rightarrow>
   'z peer_db_scheme \<times> (exn + peer_transfer)" where
  "execute_transfer now sender r t db =
     (case own_accessible_wallet db sender of
        None \<Rightarrow> (db, Inl (PeerTransferError ''no_wallet''))
      | Some sender_wallet \<Rightarrow>
          (case (case own_accessible_wallet db r of
                   Some w \<Rightarrow> Inr (db, w)
                 | None \<Rightarrow>
                     if can_have_wallet r
                     then and_then (wallet_get_or_create r db) (\<lambda>(db1, w). Inr (db1, w_id w))
                     else Inl (PeerTransferError ''recipient_no_wallet'')) of
             Inl e \<Rightarrow> (db, Inl e)
           | Inr (db1, recipient_wallet) \<Rightarrow>
               (case sub_wallet_for db1 sender_wallet (pt_department t) of
                  None \<Rightarrow> (db1, Inl (PeerTransferError ''no_sub_wallet''))
                | Some sender_sw \<Rightarrow>
                    (let (db2, recipient_sw) =
                           subwallet_get_or_create recipient_wallet (pt_department t) db1
                     in case move_money now sender r t (sw_id sender_sw) (sw_id recipient_sw) db2 of
                          Inl (ValueError reason) \<Rightarrow>
                            (save_transfer (t\<lparr>pt_status := PT_FAILED, pt_failure_reason := reason\<rparr>) db2,
                             Inl (PeerTransferError (if contains ''Insufficient'' reason
                               then ''insufficient_balance'' else ''transfer_failed'')))
                        | Inl e \<Rightarrow> (db2, Inl e)
                        | Inr db3 \<Rightarrow>
                            (let t' = completed now (balance_of db3 (sw_id sender_sw))
                                        (balance_of db3 (sw_id recipient_sw)) t
                             in (save_transfer t' db3, Inr t'))))))"

definition confirm_body ::
  "timestamp \<Rightarrow> ident \<Rightarrow> user \<Rightarrow> string \<Rightarrow> 'z peer_db_scheme \<Rightarrow>
   'z peer_db_scheme \<times> (exn + peer_transfer)" where
  "confirm_body now transfer_id sender otp db =
     (case find (\<lambda>t. pt_id t = transfer_id \<and> pt_sender t = u_id sender) (peer_transfers db) of
        None \<Rightarrow> (db, Inl (PeerTransferError ''not_found''))
      | Some t \<Rightarrow>
          if pt_status t = PT_COMPLETED then (db, Inr t)
          else if pt_status t \<noteq> PT_PENDING_OTP then (db, Inl (PeerTransferError ''invalid_status''))
          else if (case pt_otp_expires_at t of None \<Rightarrow> False | Some e \<Rightarrow> e < now)
          then (save_transfer (t\<lparr>pt_status := PT_EXPIRED, pt_failure_reason := ''OTP expired''\<rparr>) db,
                Inl (PeerTransferError ''otp_expired''))
          else if \<not> verify_otp now otp t then (db, Inl (PeerTransferError ''otp_invalid''))
          else
            (case and_then (assert_faculty_initiator sender) (\<lambda>_.
                  and_then (assert_eligible_recipient sender (row_of u_id (pt_recipient t) (users db))) (\<lambda>r.
                  case row_of d_id (pt_department t) (departments db) of
                    None \<Rightarrow> Inl DoesNotExist
                  | Some d \<Rightarrow> and_then (assert_same_grant db d r) (\<lambda>_. Inr r))) of
               Inl e \<Rightarrow> (db, Inl e)
             | Inr r \<Rightarrow> execute_transfer now sender r t db))"

definition confirm_transfer_with_otp ::
  "timestamp \<Rightarrow> ident \<Rightarrow> user \<Rightarrow> string \<Rightarrow> 'z peer_db_scheme \<Rightarrow>
   'z peer_db_scheme \<times> (exn + peer_transfer)" where
  "confirm_transfer_with_otp now transfer_id sender otp =
     atomic (confirm_body now transfer_id sender otp)"


subsection \<open>The accepted transfer\<close>

lemma peer_more:
  "wallet_db.more db' = wallet_db.more db \<Longrightarrow> peer_transfers db' = peer_transfers db"
  for db :: "'z peer_db_scheme"
  by (cases db; cases db') (metis peer_db.select_convs(1) peer_db.surjective wallet_db.select_convs(11))

lemma own_accessible_walletD:
  assumes "own_accessible_wallet db u = Some w"
  obtains row where "row \<in> set (wallets db)" "w_id row = w" "w_user row = u_id u"
  using assms
  by (auto simp: own_accessible_wallet_def dest: row_of_SomeD split: option.splits if_splits)

lemma wallet_rows_unique:
  "wallet_wf db \<Longrightarrow> a \<in> set (wallets db) \<Longrightarrow> b \<in> set (wallets db) \<Longrightarrow> w_id a = w_id b \<Longrightarrow> a = b"
  by (auto simp: wallet_wf_def unique_keys_def distinct_map dest: inj_onD)

lemma sub_wallet_rows_unique:
  "wallet_wf db \<Longrightarrow> a \<in> set (sub_wallets db) \<Longrightarrow> b \<in> set (sub_wallets db) \<Longrightarrow>
   sw_id a = sw_id b \<Longrightarrow> a = b"
  by (auto simp: wallet_wf_def unique_keys_def distinct_map dest: inj_onD)

lemma subwallet_get_or_create_mono:
  "subwallet_get_or_create w d db = (db', sw) \<Longrightarrow> set (sub_wallets db) \<subseteq> set (sub_wallets db')"
  by (auto simp: subwallet_get_or_create_def Let_def split: option.splits)

text \<open>
  What an accepted transfer does to the wallets: two distinct sub-wallets of the same
  department, one of each party, and the amount moved from the one to the other.
\<close>

definition paid_over ::
  "user \<Rightarrow> user \<Rightarrow> ident \<Rightarrow> paise \<Rightarrow> ident \<Rightarrow> ident \<Rightarrow>
   'z wallet_db_scheme \<Rightarrow> 'z wallet_db_scheme \<Rightarrow> bool" where
  "paid_over sender r dept a i j db db' \<longleftrightarrow>
     i \<noteq> j \<and> 0 < a \<and> a \<le> balance_of db i \<and>
     balance_of db' = (balance_of db)(i := balance_of db i - a, j := balance_of db j + a) \<and>
     postings db' = postings db @ [(i, - a), (j, a)] \<and> wallet_wf db' \<and> users db' = users db \<and>
     (\<exists>sw sw' w w'. sw \<in> set (sub_wallets db') \<and> sw_id sw = i \<and> sw_department sw = dept \<and>
        sw' \<in> set (sub_wallets db') \<and> sw_id sw' = j \<and> sw_department sw' = dept \<and>
        w \<in> set (wallets db') \<and> sw_wallet sw = w_id w \<and> w_user w = u_id sender \<and>
        w' \<in> set (wallets db') \<and> sw_wallet sw' = w_id w' \<and> w_user w' = u_id r)"

lemma update_row_imageI:
  assumes "r \<in> set rows" "g (f r) = g r"
  shows "\<exists>r'\<in>set (update_row pk i f rows). pk r' = pk (if pk r = i then f r else r) \<and> g r' = g r"
  using assms by (induction rows) auto

lemma moved_sub_walletE:
  assumes "moved k delta t db db'" "sw \<in> set (sub_wallets db)"
  obtains sw' where "sw' \<in> set (sub_wallets db')" "sw_id sw' = sw_id sw"
    "sw_department sw' = sw_department sw" "sw_wallet sw' = sw_wallet sw"
proof
  let ?f = "\<lambda>s. if sw_id s = k then s\<lparr>sw_balance := sw_balance s + delta\<rparr> else s"
  show "?f sw \<in> set (sub_wallets db')"
    using assms by (auto simp: moved_def update_row_def)
qed simp_all

lemma move_money_result:
  assumes "move_money now sender r t i j db = Inr db'" "i \<noteq> j"
  obtains db1 t1 t2 where "moved i (- pt_amount t) t1 db db1" "moved j (pt_amount t) t2 db1 db'"
    "0 < pt_amount t" "pt_amount t \<le> balance_of db i"
    "tx_related_user t1 = Some (u_id sender)" "tx_related_user t2 = Some (u_id r)"
proof -
  from assms(1) obtain db1 t1 t2 where
    d: "debit now i (pt_amount t) (transfer_description ''to'' r t) (Some (u_id sender)) None db
         = Inr (db1, t1)"
    and c: "credit now j (pt_amount t) (transfer_description ''from'' sender t) (Some (u_id r)) db1
         = Inr (db', t2)"
    by (auto simp: move_money_def and_then_eq_Inr)
  show ?thesis
    using debit_result [OF d] credit_result [OF c] by (intro that [of t1 db1 t2]) simp_all
qed

lemma move_money_paid:
  assumes move: "move_money now sender r t (sw_id sw) (sw_id sw') db = Inr db'"
    and wf: "wallet_wf db" and ne: "u_id r \<noteq> u_id sender"
    and sw: "sw \<in> set (sub_wallets db)" "w \<in> set (wallets db)" "sw_wallet sw = w_id w"
      "w_user w = u_id sender" "sw_department sw = d"
    and sw': "sw' \<in> set (sub_wallets db)" "w' \<in> set (wallets db)" "sw_wallet sw' = w_id w'"
      "w_user w' = u_id r" "sw_department sw' = d"
  shows "paid_over sender r d (pt_amount t) (sw_id sw) (sw_id sw') db db' \<and>
    wallet_db.more db' = wallet_db.more db"
proof -
  have diff: "sw_id sw \<noteq> sw_id sw'"
  proof
    assume "sw_id sw = sw_id sw'"
    with wf sw sw' have "sw = sw'" by (blast intro: sub_wallet_rows_unique)
    with sw sw' have "w_id w = w_id w'" by simp
    with wf sw sw' have "w = w'" by (blast intro: wallet_rows_unique)
    with ne sw sw' show False by simp
  qed
  from move diff obtain db1 t1 t2 where
    m1: "moved (sw_id sw) (- pt_amount t) t1 db db1" and
    m2: "moved (sw_id sw') (pt_amount t) t2 db1 db'" and
    a: "0 < pt_amount t" "pt_amount t \<le> balance_of db (sw_id sw)"
    by (rule move_money_result)
  from m1 sw(1) obtain s1 where s1: "s1 \<in> set (sub_wallets db1)" "sw_id s1 = sw_id sw"
    "sw_department s1 = sw_department sw" "sw_wallet s1 = sw_wallet sw" by (rule moved_sub_walletE)
  from m2 s1(1) obtain s2 where s2: "s2 \<in> set (sub_wallets db')" "sw_id s2 = sw_id s1"
    "sw_department s2 = sw_department s1" "sw_wallet s2 = sw_wallet s1" by (rule moved_sub_walletE)
  from m1 sw'(1) obtain s3 where s3: "s3 \<in> set (sub_wallets db1)" "sw_id s3 = sw_id sw'"
    "sw_department s3 = sw_department sw'" "sw_wallet s3 = sw_wallet sw'" by (rule moved_sub_walletE)
  from m2 s3(1) obtain s4 where s4: "s4 \<in> set (sub_wallets db')" "sw_id s4 = sw_id s3"
    "sw_department s4 = sw_department s3" "sw_wallet s4 = sw_wallet s3" by (rule moved_sub_walletE)
  have ws: "wallets db' = wallets db" "users db' = users db" "wallet_db.more db' = wallet_db.more db"
    using m1 m2 by (auto simp: moved_def)
  have bal: "balance_of db' = (balance_of db)(sw_id sw := balance_of db (sw_id sw) - pt_amount t,
      sw_id sw' := balance_of db (sw_id sw') + pt_amount t)"
    using moved_balance [OF m1] moved_balance [OF m2] diff by (auto simp: fun_eq_iff)
  have post: "postings db' = postings db @ [(sw_id sw, - pt_amount t), (sw_id sw', pt_amount t)]"
    using moved_postings [OF m1] moved_postings [OF m2] by simp
  have "wallet_wf db'" using moved_wf m1 m2 wf by blast
  with diff a bal post ws s1 s2 s3 s4 sw sw' show ?thesis
    unfolding paid_over_def by metis
qed


text \<open>The recipient's wallet: the own one that is accessible, else the own one, made if need be.\<close>

lemma recipient_wallet_ready:
  assumes "(case own_accessible_wallet db r of
        Some w \<Rightarrow> Inr (db, w)
      | None \<Rightarrow>
          if can_have_wallet r
          then and_then (wallet_get_or_create r db) (\<lambda>(db1, w). Inr (db1, w_id w))
          else Inl e) = Inr (db1, k)"
    and "wallet_wf db"
  shows "\<exists>w. w \<in> set (wallets db1) \<and> w_id w = k \<and> w_user w = u_id r \<and> wallet_wf db1 \<and>
    set (wallets db) \<subseteq> set (wallets db1) \<and> sub_wallets db1 = sub_wallets db \<and>
    users db1 = users db \<and> balance_of db1 = balance_of db \<and> postings db1 = postings db \<and>
    wallet_db.more db1 = wallet_db.more db"
proof (cases "own_accessible_wallet db r")
  case (Some w)
  with assms show ?thesis by (auto elim!: own_accessible_walletD)
next
  case None
  with assms obtain w where "wallet_get_or_create r db = Inr (db1, w)" "k = w_id w"
    by (auto simp: and_then_eq_Inr split: if_splits)
  with wallet_get_or_create_result [of r db db1 w] assms(2) show ?thesis by auto
qed

lemma execute_transfer_success:
  assumes ex: "execute_transfer now sender r t db = (db', Inr t')"
    and wf: "wallet_wf db" and ne: "u_id r \<noteq> u_id sender"
  obtains i j where
    "paid_over sender r (pt_department t) (pt_amount t) i j db db'"
    "t' = completed now (balance_of db' i) (balance_of db' j) t"
    "peer_transfers db' = update_row pt_id (pt_id t) (\<lambda>_. t') (peer_transfers db)"
proof -
  from ex obtain sender_wallet where
    sw: "own_accessible_wallet db sender = Some sender_wallet"
    by (auto simp: execute_transfer_def split: option.splits)
  then obtain w where w: "w \<in> set (wallets db)" "w_id w = sender_wallet" "w_user w = u_id sender"
    by (rule own_accessible_walletD)
  let ?prep = "case own_accessible_wallet db r of
        Some w \<Rightarrow> Inr (db, w)
      | None \<Rightarrow>
          if can_have_wallet r
          then and_then (wallet_get_or_create r db) (\<lambda>(db1, w). Inr (db1, w_id w))
          else Inl (PeerTransferError ''recipient_no_wallet'')"
  from ex sw obtain db1 k where prep: "?prep = Inr (db1, k)"
    by (auto simp: execute_transfer_def split: sum.splits)
  from recipient_wallet_ready [OF prep wf] obtain w' where
    w': "w' \<in> set (wallets db1)" "w_id w' = k" "w_user w' = u_id r" and wf1: "wallet_wf db1"
    and keep: "set (wallets db) \<subseteq> set (wallets db1)" "sub_wallets db1 = sub_wallets db"
      "users db1 = users db" "balance_of db1 = balance_of db" "postings db1 = postings db"
      "wallet_db.more db1 = wallet_db.more db" by blast
  from ex sw prep obtain s where s: "sub_wallet_for db1 sender_wallet (pt_department t) = Some s"
    by (simp add: execute_transfer_def split: option.splits)
  obtain db2 s' where s': "subwallet_get_or_create k (pt_department t) db1 = (db2, s')"
    by fastforce
  note same2 = subwallet_get_or_create_balances [OF s']
  from ex sw prep s s' obtain db3 where
    move: "move_money now sender r t (sw_id s) (sw_id s') db2 = Inr db3"
    and t': "t' = completed now (balance_of db3 (sw_id s)) (balance_of db3 (sw_id s')) t"
    and db': "db' = save_transfer t' db3"
    by (simp add: execute_transfer_def Let_def split: sum.splits exn.splits) blast
  have wf2: "wallet_wf db2"
    using subwallet_get_or_create_wf [OF s' wf1] w' by blast
  have "s \<in> set (sub_wallets db2)" "sw_wallet s = w_id w" "sw_department s = pt_department t"
    using sub_wallet_for_SomeD [OF s] subwallet_get_or_create_mono [OF s'] w(2) by auto
  moreover have "w \<in> set (wallets db2)" "w' \<in> set (wallets db2)"
    using w w' keep same2 by auto
  moreover have "sw_wallet s' = w_id w'" "sw_department s' = pt_department t"
      "s' \<in> set (sub_wallets db2)"
    using same2 subwallet_get_or_create_in [OF s'] w' by auto
  ultimately have paid: "paid_over sender r (pt_department t) (pt_amount t) (sw_id s) (sw_id s') db2 db3"
    and more3: "wallet_db.more db3 = wallet_db.more db2"
    using move_money_paid [OF move wf2 ne, of w "pt_department t" w'] w(3) w'(3) by blast+
  have eq2: "balance_of db2 = balance_of db" "postings db2 = postings db" "users db2 = users db"
    "wallet_db.more db2 = wallet_db.more db"
    using same2 keep by auto
  have same3: "balance_of (save_transfer t' db3) = balance_of db3"
    "postings (save_transfer t' db3) = postings db3" "users (save_transfer t' db3) = users db3"
    "wallets (save_transfer t' db3) = wallets db3" "sub_wallets (save_transfer t' db3) = sub_wallets db3"
    "wallet_wf (save_transfer t' db3) = wallet_wf db3"
    by (simp_all add: save_transfer_def balance_of_def postings_def wallet_wf_def fun_eq_iff)
  show ?thesis
  proof (rule that)
    show "paid_over sender r (pt_department t) (pt_amount t) (sw_id s) (sw_id s') db db'"
      using paid unfolding paid_over_def db' same3 eq2 .
    show "t' = completed now (balance_of db' (sw_id s)) (balance_of db' (sw_id s')) t"
      using t' unfolding db' same3 .
    have "peer_transfers db3 = peer_transfers db"
      using more3 eq2 by (intro peer_more) simp
    moreover have "pt_id t' = pt_id t" using t' by (simp add: completed_def)
    ultimately show "peer_transfers db' = update_row pt_id (pt_id t) (\<lambda>_. t') (peer_transfers db)"
      unfolding db' save_transfer_def by simp
  qed
qed

subsection \<open>Confirming\<close>

lemma assert_eligible_recipientD:
  "assert_eligible_recipient s r = Inr r' \<Longrightarrow>
   r = Some r' \<and> u_is_active r' \<and> u_id r' \<noteq> u_id s \<and> can_have_wallet r'"
  by (auto simp: assert_eligible_recipient_def split: option.splits if_splits)

lemma resolve_department_grant_code_nonempty: "resolve_department_grant_code db d \<noteq> ''''"
  by (simp add: resolve_department_grant_code_def Let_def)

lemma assert_same_grant_errors:
  "assert_same_grant db d r = Inl e \<Longrightarrow> e = PeerTransferError ''different_grant''"
  by (auto simp: assert_same_grant_def resolve_department_grant_code_nonempty Let_def
      split: option.splits if_splits)

lemma confirm_cases:
  assumes "confirm_transfer_with_otp now i sender otp db = (db', Inr t')"
  obtains
    (again) "find (\<lambda>t. pt_id t = i \<and> pt_sender t = u_id sender) (peer_transfers db) = Some t'"
      "pt_status t' = PT_COMPLETED" "db' = db"
  | (now) t r where
      "find (\<lambda>t. pt_id t = i \<and> pt_sender t = u_id sender) (peer_transfers db) = Some t"
      "pt_status t = PT_PENDING_OTP" "verify_otp now otp t" "u_type sender = Some FACULTY"
      "row_of u_id (pt_recipient t) (users db) = Some r" "u_is_active r" "u_id r \<noteq> u_id sender"
      "execute_transfer now sender r t db = (db', Inr t')"
proof -
  from assms have body: "confirm_body now i sender otp db = (db', Inr t')"
    by (simp add: confirm_transfer_with_otp_def atomic_eq_Inr)
  then obtain t where
    t: "find (\<lambda>t. pt_id t = i \<and> pt_sender t = u_id sender) (peer_transfers db) = Some t"
    by (auto simp: confirm_body_def split: option.splits)
  show thesis
  proof (cases "pt_status t = PT_COMPLETED")
    case True
    with body t show thesis by (intro again) (simp_all add: confirm_body_def)
  next
    case False
    with body t obtain r where
      "pt_status t = PT_PENDING_OTP" "verify_otp now otp t"
      "u_type sender = Some FACULTY"
      "assert_eligible_recipient sender (row_of u_id (pt_recipient t) (users db)) = Inr r"
      "execute_transfer now sender r t db = (db', Inr t')"
      by (auto simp: confirm_body_def assert_faculty_initiator_def and_then_eq_Inr
          split: if_splits sum.splits option.splits)
    with t assert_eligible_recipientD show thesis by (intro now [of t r]) auto
  qed
qed

lemma confirm_error_unchanged:
  "confirm_transfer_with_otp now i sender otp db = (db', Inl e) \<Longrightarrow> db' = db"
  by (simp add: confirm_transfer_with_otp_def atomic_eq_Inl)

subsection \<open>Creating\<close>

lemma cancel_drafts_keys:
  "map pt_id (peer_transfers (cancel_drafts s r d db)) = map pt_id (peer_transfers db)"
  "map pt_transaction_id (peer_transfers (cancel_drafts s r d db)) =
     map pt_transaction_id (peer_transfers db)"
  "pt_id ` set (peer_transfers (cancel_drafts s r d db)) = pt_id ` set (peer_transfers db)"
  "pt_transaction_id ` set (peer_transfers (cancel_drafts s r d db)) =
     pt_transaction_id ` set (peer_transfers db)"
proof -
  show ids: "map pt_id (peer_transfers (cancel_drafts s r d db)) = map pt_id (peer_transfers db)"
    and tids: "map pt_transaction_id (peer_transfers (cancel_drafts s r d db)) =
      map pt_transaction_id (peer_transfers db)"
    by (simp_all add: cancel_drafts_def)
  show "pt_id ` set (peer_transfers (cancel_drafts s r d db)) = pt_id ` set (peer_transfers db)"
    and "pt_transaction_id ` set (peer_transfers (cancel_drafts s r d db)) =
      pt_transaction_id ` set (peer_transfers db)"
    using ids tids by (metis set_map)+
qed

lemma create_cases:
  assumes "create_pending_transfer now draw otp sender recipient dept amount remarks db = (db', res)"
  obtains (checks) e where "res = Inl e" "db' = db"
  | (clash) k where "res = Inl IntegrityError"
      "db' = cancel_drafts (u_id sender) k (d_id dept) db"
  | (created) r a grant t where "res = Inr (t, otp)"
      "transfer_checks sender recipient dept amount db = Inr (r, a, grant)"
      "db' = (cancel_drafts (u_id sender) (u_id r) (d_id dept) db)\<lparr>peer_transfers :=
         peer_transfers (cancel_drafts (u_id sender) (u_id r) (d_id dept) db) @ [t]\<rparr>"
      "pt_id t \<notin> pt_id ` set (peer_transfers db)"
      "pt_transaction_id t \<notin> pt_transaction_id ` set (peer_transfers db)"
      "pt_sender t = u_id sender" "pt_recipient t = u_id r" "pt_department t = d_id dept"
      "pt_amount t = a" "pt_grant_code t = grant" "pt_status t = PT_PENDING_OTP"
      "pt_otp_code t = otp" "pt_otp_verified t = False"
      "pt_otp_expires_at t = Some (now + 60 * otp_minutes)"
proof -
  show thesis
  proof (cases "transfer_checks sender recipient dept amount db")
    case (Inl e)
    with assms show thesis by (intro checks) (auto simp: create_pending_transfer_def)
  next
    case (Inr x)
    then obtain r a grant where x: "transfer_checks sender recipient dept amount db = Inr (r, a, grant)"
      by (cases x) auto
    let ?db1 = "cancel_drafts (u_id sender) (u_id r) (d_id dept) db"
    let ?tid = "choose_transaction_id draw (map pt_transaction_id (peer_transfers ?db1))"
    show thesis
    proof (cases "?tid \<in> pt_transaction_id ` set (peer_transfers ?db1)")
      case True
      with assms x show thesis
        by (intro clash [of "u_id r"]) (auto simp: create_pending_transfer_def Let_def)
    next
      case False
      define pk where "pk = fresh_pk pt_id (peer_transfers ?db1)"
      have "pk \<notin> pt_id ` set (peer_transfers db)"
        using fresh_pk_notin [of pt_id "peer_transfers ?db1"]
        unfolding pk_def cancel_drafts_keys(3) .
      moreover have "?tid \<notin> pt_transaction_id ` set (peer_transfers db)"
        using False unfolding cancel_drafts_keys(4) .
      moreover obtain t where t: "res = Inr (t, otp)"
        using assms x False by (auto simp: create_pending_transfer_def Let_def)
      ultimately show thesis
        using assms x False
        by (intro created [of t r a grant])
          (auto simp: create_pending_transfer_def Let_def generate_otp_def pk_def [symmetric])
    qed
  qed
qed

lemma transfer_checksD:
  assumes "transfer_checks sender recipient dept amount db = Inr (r, a, grant)"
  shows "u_type sender = Some FACULTY \<and> recipient = Some r \<and> u_is_active r \<and> u_id r \<noteq> u_id sender \<and>
    can_have_wallet r \<and> as_money amount = Inr a \<and> assert_same_grant db dept r = Inr grant \<and>
    (\<exists>w sw. own_accessible_wallet db sender = Some w \<and>
       sub_wallet_for db w (d_id dept) = Some sw \<and> a \<le> sw_balance sw)"
proof (cases "own_accessible_wallet db sender")
  case None
  with assms show ?thesis by (simp add: transfer_checks_def and_then_eq_Inr)
next
  case w: (Some w)
  show ?thesis
  proof (cases "sub_wallet_for db w (d_id dept)")
    case None
    with assms w show ?thesis by (simp add: transfer_checks_def and_then_eq_Inr)
  next
    case (Some sw)
    with assms w show ?thesis
      by (auto simp: transfer_checks_def assert_faculty_initiator_def and_then_eq_Inr
          dest!: assert_eligible_recipientD split: if_splits)
  qed
qed

subsection \<open>Runs\<close>

inductive peer_step :: "'z peer_db_scheme \<Rightarrow> 'z peer_db_scheme \<Rightarrow> bool" where
  peer_create: "create_pending_transfer now draw otp sender recipient dept amount remarks db = (db', res)
    \<Longrightarrow> peer_step db db'"
| peer_confirm: "confirm_transfer_with_otp now i sender otp db = (db', res) \<Longrightarrow> peer_step db db'"

definition same_triple :: "peer_transfer \<Rightarrow> peer_transfer \<Rightarrow> bool" where
  "same_triple s t \<longleftrightarrow> pt_sender s = pt_sender t \<and> pt_recipient s = pt_recipient t \<and>
     pt_department s = pt_department t"

text \<open>
  The transfer table: ids and transaction ids are unique, amounts are in range, a transfer is
  never to oneself, at most one draft waits for its password per sender, recipient and
  department, and a completed transfer has its password cleared.
\<close>

definition transfers_wf :: "peer_transfer list \<Rightarrow> bool" where
  "transfers_wf ts \<longleftrightarrow> unique_keys pt_id ts \<and> distinct (map pt_transaction_id ts) \<and>
     (\<forall>t\<in>set ts. pt_sender t \<noteq> pt_recipient t \<and> 0 < pt_amount t \<and> pt_amount t \<le> 10000000 \<and>
        (pt_status t = PT_COMPLETED \<longrightarrow> pt_otp_code t = '''' \<and> pt_otp_verified t)) \<and>
     (\<forall>s\<in>set ts. \<forall>t\<in>set ts. pt_status s = PT_PENDING_OTP \<longrightarrow> pt_status t = PT_PENDING_OTP \<longrightarrow>
        same_triple s t \<longrightarrow> pt_id s = pt_id t)"

definition peer_wf :: "'z peer_db_scheme \<Rightarrow> bool" where
  "peer_wf db \<longleftrightarrow> wallet_wf db \<and> transfers_wf (peer_transfers db)"

definition completed_transfers :: "'z peer_db_scheme \<Rightarrow> nat" where
  "completed_transfers db = length (filter (\<lambda>t. pt_status t = PT_COMPLETED) (peer_transfers db))"

lemma held_sum:
  assumes wf: "wallet_wf db" and A: "finite A" "sw_id ` set (sub_wallets db) \<subseteq> A"
  shows "held db = sum (balance_of db) A"
proof -
  have "held db = sum_list (map (balance_of db) (map sw_id (sub_wallets db)))"
    unfolding held_def
    by (rule arg_cong [where f = sum_list]) (simp add: balance_of_in [OF wf])
  also have "\<dots> = sum (balance_of db) (sw_id ` set (sub_wallets db))"
    using wf by (subst sum_list_distinct_conv_sum_set) (simp_all add: wallet_wf_def unique_keys_def)
  also have "\<dots> = sum (balance_of db) A"
    using A by (intro sum.mono_neutral_left) (auto simp: balance_of_def split: option.split
        dest: row_of_SomeD)
  finally show ?thesis .
qed

lemma paid_over_held:
  assumes "paid_over sender r d a i j db db'" "wallet_wf db"
  shows "held db' = held db"
proof -
  define A where "A = {i, j} \<union> sw_id ` set (sub_wallets db) \<union> sw_id ` set (sub_wallets db')"
  have A: "finite A" "i \<in> A" "j \<in> A" "sw_id ` set (sub_wallets db) \<subseteq> A"
    "sw_id ` set (sub_wallets db') \<subseteq> A" by (auto simp: A_def)
  from assms have ij: "i \<noteq> j" and wf': "wallet_wf db'"
    and b: "balance_of db' = (balance_of db)(i := balance_of db i - a, j := balance_of db j + a)"
    by (auto simp: paid_over_def)
  have split_sum: "sum f A = f i + (f j + sum f (A - {i} - {j}))" for f :: "ident \<Rightarrow> int"
    using A ij by (simp add: sum.remove [of A i] sum.remove [of "A - {i}" j])
  have "sum (balance_of db') A = sum (balance_of db) A"
    unfolding split_sum [of "balance_of db'"] split_sum [of "balance_of db"]
    using ij by (simp add: b)
  then show ?thesis
    using held_sum [OF assms(2) A(1,4)] held_sum [OF wf' A(1,5)] by simp
qed

lemma cancel_drafts_row:
  assumes "t \<in> set (peer_transfers (cancel_drafts s r d db))"
  obtains t0 where "t0 \<in> set (peer_transfers db)" "t = t0 \<or> t = t0\<lparr>pt_status := PT_CANCELLED\<rparr>"
    "pt_status t = PT_PENDING_OTP \<Longrightarrow> t = t0 \<and>
       \<not> (pt_sender t = s \<and> pt_recipient t = r \<and> pt_department t = d)"
    "pt_status t = PT_COMPLETED \<longleftrightarrow> pt_status t0 = PT_COMPLETED"
  using assms by (auto simp: cancel_drafts_def split: if_splits)

lemma cancel_drafts_wf:
  assumes "transfers_wf (peer_transfers db)"
  shows "transfers_wf (peer_transfers (cancel_drafts s r d db))"
proof -
  let ?db = "cancel_drafts s r d db"
  have "pt_sender t \<noteq> pt_recipient t \<and> 0 < pt_amount t \<and> pt_amount t \<le> 10000000 \<and>
        (pt_status t = PT_COMPLETED \<longrightarrow> pt_otp_code t = '''' \<and> pt_otp_verified t)"
    if t: "t \<in> set (peer_transfers ?db)" for t
    using assms by (rule_tac cancel_drafts_row [OF t]) (auto simp: transfers_wf_def)
  moreover have "pt_id x = pt_id y" if "x \<in> set (peer_transfers ?db)" "y \<in> set (peer_transfers ?db)"
      "pt_status x = PT_PENDING_OTP" "pt_status y = PT_PENDING_OTP" "same_triple x y" for x y
  proof -
    from that cancel_drafts_row have "x \<in> set (peer_transfers db)" "y \<in> set (peer_transfers db)"
      by metis+
    with that assms show ?thesis unfolding transfers_wf_def by blast
  qed
  ultimately show ?thesis
    using assms unfolding transfers_wf_def unique_keys_def cancel_drafts_keys(1,2) by blast
qed

lemma cancel_drafts_other [simp]:
  "same_wallets db (cancel_drafts s r d db)"
  "completed_transfers (cancel_drafts s r d db) = completed_transfers db"
proof -
  show "same_wallets db (cancel_drafts s r d db)" by (simp add: same_wallets_def cancel_drafts_def)
  have "length (filter (\<lambda>t. pt_status t = PT_COMPLETED) (map (\<lambda>t. if pt_sender t = s \<and>
      pt_recipient t = r \<and> pt_department t = d \<and> pt_status t = PT_PENDING_OTP
      then t\<lparr>pt_status := PT_CANCELLED\<rparr> else t) ts)) =
    length (filter (\<lambda>t. pt_status t = PT_COMPLETED) ts)" for ts
    by (induction ts) auto
  then show "completed_transfers (cancel_drafts s r d db) = completed_transfers db"
    by (simp add: completed_transfers_def cancel_drafts_def)
qed

lemma create_step:
  assumes "create_pending_transfer now draw otp sender recipient dept amount remarks db = (db', res)"
    and wf: "transfers_wf (peer_transfers db)"
  shows "same_wallets db db' \<and> transfers_wf (peer_transfers db') \<and>
    completed_transfers db' = completed_transfers db"
  using assms(1)
proof (cases rule: create_cases)
  case (checks e)
  with wf show ?thesis by (simp add: same_wallets_def)
next
  case (clash k)
  with wf show ?thesis by (simp add: cancel_drafts_wf)
next
  case (created r a grant t)
  let ?db1 = "cancel_drafts (u_id sender) (u_id r) (d_id dept) db"
  let ?ts = "peer_transfers ?db1"
  have ts: "transfers_wf ?ts" using wf by (rule cancel_drafts_wf)
  have ids: "pt_id t \<notin> pt_id ` set ?ts" "pt_transaction_id t \<notin> pt_transaction_id ` set ?ts"
    unfolding cancel_drafts_keys(3,4) using created by auto
  have alone: "\<not> same_triple s t \<and> \<not> same_triple t s"
    if "s \<in> set ?ts" "pt_status s = PT_PENDING_OTP" for s
    using cancel_drafts_row [OF that(1)] that(2) created by (metis same_triple_def)
  have a: "0 < a" "a \<le> 10000000" "u_id r \<noteq> u_id sender"
    using transfer_checksD [OF created(2)] as_money_range by auto
  have "transfers_wf (?ts @ [t])"
    unfolding transfers_wf_def
  proof (intro conjI ballI)
    show "unique_keys pt_id (?ts @ [t])" "distinct (map pt_transaction_id (?ts @ [t]))"
      using ts ids by (auto simp: transfers_wf_def unique_keys_def)
  next
    fix x assume "x \<in> set (?ts @ [t])"
    then show "pt_sender x \<noteq> pt_recipient x" "0 < pt_amount x" "pt_amount x \<le> 10000000"
      "pt_status x = PT_COMPLETED \<longrightarrow> pt_otp_code x = '''' \<and> pt_otp_verified x"
      using ts a created(6-14) by (auto simp: transfers_wf_def)
  next
    fix x y assume "x \<in> set (?ts @ [t])" "y \<in> set (?ts @ [t])"
    then show "pt_status x = PT_PENDING_OTP \<longrightarrow> pt_status y = PT_PENDING_OTP \<longrightarrow>
        same_triple x y \<longrightarrow> pt_id x = pt_id y"
      using ts alone by (auto simp: transfers_wf_def)
  qed
  with created show ?thesis
    using cancel_drafts_other(1) [of db "u_id sender" "u_id r" "d_id dept"]
      cancel_drafts_other(2) [of "u_id sender" "u_id r" "d_id dept" db]
    by (simp add: same_wallets_def completed_transfers_def)
qed

lemma update_row_elem:
  "x \<in> set (update_row pk k (\<lambda>_. y) rows) \<Longrightarrow> x = y \<or> x \<in> set rows"
  by (auto simp: update_row_def split: if_splits)

lemma completed_transfer_rows:
  assumes wf: "transfers_wf ts" and t: "t \<in> set ts" "pt_status t = PT_PENDING_OTP"
    and t': "t' = completed now b c t"
  shows "transfers_wf (update_row pt_id (pt_id t) (\<lambda>_. t') ts)"
    and "length (filter (\<lambda>t. pt_status t = PT_COMPLETED) (update_row pt_id (pt_id t) (\<lambda>_. t') ts)) =
      Suc (length (filter (\<lambda>t. pt_status t = PT_COMPLETED) ts))"
proof -
  have uk: "unique_keys pt_id ts" using wf by (simp add: transfers_wf_def)
  have new: "pt_sender t' = pt_sender t" "pt_recipient t' = pt_recipient t" "pt_amount t' = pt_amount t"
    "pt_id t' = pt_id t" "pt_transaction_id t' = pt_transaction_id t" "pt_status t' = PT_COMPLETED"
    "pt_otp_code t' = ''''" "pt_otp_verified t'"
    by (simp_all add: t' completed_def)
  show "transfers_wf (update_row pt_id (pt_id t) (\<lambda>_. t') ts)"
    unfolding transfers_wf_def
  proof (intro conjI ballI)
    show "unique_keys pt_id (update_row pt_id (pt_id t) (\<lambda>_. t') ts)"
      "distinct (map pt_transaction_id (update_row pt_id (pt_id t) (\<lambda>_. t') ts))"
      using wf new
      by (simp_all add: map_update_row_const [OF uk t(1)] transfers_wf_def unique_keys_def)
  next
    fix x assume x: "x \<in> set (update_row pt_id (pt_id t) (\<lambda>_. t') ts)"
    show "pt_sender x \<noteq> pt_recipient x" "0 < pt_amount x" "pt_amount x \<le> 10000000"
      "pt_status x = PT_COMPLETED \<longrightarrow> pt_otp_code x = '''' \<and> pt_otp_verified x"
      using update_row_elem [OF x] wf new t(1) by (auto simp: transfers_wf_def)
  next
    fix x y assume x: "x \<in> set (update_row pt_id (pt_id t) (\<lambda>_. t') ts)"
      and y: "y \<in> set (update_row pt_id (pt_id t) (\<lambda>_. t') ts)"
    show "pt_status x = PT_PENDING_OTP \<longrightarrow> pt_status y = PT_PENDING_OTP \<longrightarrow>
        same_triple x y \<longrightarrow> pt_id x = pt_id y"
      using update_row_elem [OF x] update_row_elem [OF y] wf new by (auto simp: transfers_wf_def)
  qed
  show "length (filter (\<lambda>t. pt_status t = PT_COMPLETED)
      (update_row pt_id (pt_id t) (\<lambda>_. t') ts)) =
    Suc (length (filter (\<lambda>t. pt_status t = PT_COMPLETED) ts))"
    using t(2) new by (intro length_filter_update_row [OF uk t(1)]) simp_all
qed

lemma row_of_SomeI: "find (\<lambda>t. pk t = i \<and> P t) rows = Some t \<Longrightarrow> t \<in> set rows \<and> pk t = i \<and> P t"
  by (auto dest: find_Some_set)

text \<open>What a step of the transfer service does to the wallets.\<close>

lemma peer_step_effect:
  assumes "peer_step db db'" "peer_wf db"
  shows "peer_wf db' \<and>
    (same_wallets db db' \<and> completed_transfers db' = completed_transfers db \<or>
     (\<exists>sender r d a i j. paid_over sender r d a i j db db' \<and>
        completed_transfers db' = Suc (completed_transfers db)))"
  using assms(1)
proof (cases rule: peer_step.cases)
  case (peer_create now draw otp sender recipient dept amount remarks res)
  with assms(2) create_step [OF this] show ?thesis
    by (auto simp: peer_wf_def same_walletsD)
next
  case (peer_confirm now i sender otp res)
  show ?thesis
  proof (cases res)
    case (Inl e)
    with peer_confirm have "db' = db" by (simp add: confirm_error_unchanged)
    with assms(2) show ?thesis by (simp add: same_wallets_def)
  next
    case (Inr t')
    with peer_confirm have "confirm_transfer_with_otp now i sender otp db = (db', Inr t')" by simp
    then show ?thesis
    proof (cases rule: confirm_cases)
      case again
      with assms(2) show ?thesis by (simp add: same_wallets_def)
    next
      case (now t r)
      have t: "t \<in> set (peer_transfers db)" using row_of_SomeI [OF now(1)] by simp
      have wf: "wallet_wf db" "transfers_wf (peer_transfers db)"
        using assms(2) by (simp_all add: peer_wf_def)
      from now(8) wf(1) now(7) obtain i j where
        paid: "paid_over sender r (pt_department t) (pt_amount t) i j db db'"
        and t': "t' = completed now (balance_of db' i) (balance_of db' j) t"
        and rows: "peer_transfers db' = update_row pt_id (pt_id t) (\<lambda>_. t') (peer_transfers db)"
        by (rule execute_transfer_success)
      have "completed_transfers db' = Suc (completed_transfers db)"
        unfolding completed_transfers_def rows
        by (rule completed_transfer_rows(2) [OF wf(2) t now(2) t'])
      moreover have "transfers_wf (peer_transfers db')"
        unfolding rows by (rule completed_transfer_rows(1) [OF wf(2) t now(2) t'])
      moreover have "wallet_wf db'" using paid by (simp add: paid_over_def)
      ultimately show ?thesis
        unfolding peer_wf_def by (intro conjI disjI2 exI [of _ sender] exI) (use paid in simp_all)
    qed
  qed
qed

lemma peer_step_inv:
  assumes "peer_wf db \<and> solvent db \<and> held db = m \<and>
      int (length (postings db)) = n + 2 * int (completed_transfers db)" "peer_step db db'"
  shows "peer_wf db' \<and> solvent db' \<and> held db' = m \<and>
      int (length (postings db')) = n + 2 * int (completed_transfers db')"
proof -
  from assms have wf: "peer_wf db" "wallet_wf db" by (simp_all add: peer_wf_def)
  from peer_step_effect [OF assms(2) wf(1)] show ?thesis
  proof (elim conjE disjE exE)
    assume "same_wallets db db'" "completed_transfers db' = completed_transfers db" "peer_wf db'"
    with assms(1) show ?thesis by (simp add: same_walletsD solvent_def)
  next
    fix sender r d a i j
    assume s: "paid_over sender r d a i j db db'"
      "completed_transfers db' = Suc (completed_transfers db)" "peer_wf db'"
    then have "solvent db'" using assms(1) by (auto simp: paid_over_def solvent_def)
    with s assms(1) paid_over_held [OF s(1) wf(2)] show ?thesis by (simp add: paid_over_def)
  qed
qed

interpretation peer_machine:
  machine peer_step "\<lambda>db. peer_wf db \<and> solvent db \<and> held db = m \<and>
    int (length (postings db)) = n + 2 * int (completed_transfers db)" for m n
  by unfold_locales (rule peer_step_inv)

subsection \<open>A transfer that can be paid is paid\<close>

lemma credit_succeeds:
  assumes "0 < a" "row_of sw_id i (sub_wallets db) = Some sw"
  shows "\<exists>db' t. credit now i a d u db = Inr (db', t)"
  using assms by (auto simp: credit_def Let_def split: prod.split)

lemma debit_succeeds:
  assumes "0 < a" "row_of sw_id i (sub_wallets db) = Some sw" "a \<le> sw_balance sw"
  shows "\<exists>db' t. debit now i a d u None db = Inr (db', t)"
  using assms by (auto simp: debit_def Let_def split: prod.split)

lemma move_money_succeeds:
  assumes wf: "wallet_wf db" and a: "0 < pt_amount t" "pt_amount t \<le> sw_balance s"
    and s: "s \<in> set (sub_wallets db)" "s' \<in> set (sub_wallets db)"
  shows "\<exists>db'. move_money now sender r t (sw_id s) (sw_id s') db = Inr db'"
proof -
  have "row_of sw_id (sw_id s) (sub_wallets db) = Some s"
    using wf s by (intro row_of_unique) (simp_all add: wallet_wf_def)
  from debit_succeeds [OF a(1) this a(2)] obtain db1 t1 where
    d: "debit now (sw_id s) (pt_amount t) (transfer_description ''to'' r t) (Some (u_id sender))
          None db = Inr (db1, t1)" by blast
  then have m: "moved (sw_id s) (- pt_amount t) t1 db db1" by (simp add: debit_result)
  from m s(2) obtain s1 where s1: "s1 \<in> set (sub_wallets db1)" "sw_id s1 = sw_id s'"
    by (rule moved_sub_walletE)
  have "row_of sw_id (sw_id s1) (sub_wallets db1) = Some s1"
    using moved_wf [OF m wf] s1 by (intro row_of_unique) (simp_all add: wallet_wf_def)
  with s1(2) credit_succeeds [OF a(1)] obtain db2 t2 where
    "credit now (sw_id s') (pt_amount t) (transfer_description ''from'' sender t) (Some (u_id r)) db1
      = Inr (db2, t2)" by metis
  with d show ?thesis by (simp add: move_money_def)
qed

lemma execute_transfer_succeeds:
  assumes wf: "wallet_wf db" and a: "0 < pt_amount t" "pt_amount t \<le> sw_balance s"
    and w: "own_accessible_wallet db sender = Some w"
    and s: "sub_wallet_for db w (pt_department t) = Some s" and r: "can_have_wallet r"
  shows "\<exists>db' t'. execute_transfer now sender r t db = (db', Inr t')"
proof -
  let ?prep = "case own_accessible_wallet db r of
        Some w \<Rightarrow> Inr (db, w)
      | None \<Rightarrow>
          if can_have_wallet r
          then and_then (wallet_get_or_create r db) (\<lambda>(db1, w). Inr (db1, w_id w))
          else Inl (PeerTransferError ''recipient_no_wallet'')"
  have "\<exists>db1 k. ?prep = Inr (db1, k)"
    using r by (simp add: wallet_get_or_create_def Let_def split: option.split)
  then obtain db1 k where prep: "?prep = Inr (db1, k)" by blast
  from recipient_wallet_ready [OF prep wf] obtain w' where
    w': "w' \<in> set (wallets db1)" "w_id w' = k" and wf1: "wallet_wf db1"
    and keep: "sub_wallets db1 = sub_wallets db" by blast
  have s1: "sub_wallet_for db1 w (pt_department t) = Some s"
    using s keep by (simp add: sub_wallet_for_def)
  obtain db2 s' where s': "subwallet_get_or_create k (pt_department t) db1 = (db2, s')"
    by fastforce
  have wf2: "wallet_wf db2" using subwallet_get_or_create_wf [OF s' wf1] w' by blast
  have "s \<in> set (sub_wallets db2)" "s' \<in> set (sub_wallets db2)"
    using sub_wallet_for_SomeD [OF s1] subwallet_get_or_create_mono [OF s']
      subwallet_get_or_create_in [OF s'] by auto
  from move_money_succeeds [OF wf2 a this] obtain db3 where
    "move_money now sender r t (sw_id s) (sw_id s') db2 = Inr db3" by blast
  with w prep s1 s' show ?thesis by (simp add: execute_transfer_def Let_def)
qed

lemma create_keeps_lookups:
  fixes db :: "'z peer_db_scheme"
  shows "own_accessible_wallet (db\<lparr>peer_transfers := ts\<rparr>) u = own_accessible_wallet db u"
    "sub_wallet_for (db\<lparr>peer_transfers := ts\<rparr>) w d = sub_wallet_for db w d"
    "assert_same_grant (db\<lparr>peer_transfers := ts\<rparr>) dept r = assert_same_grant db dept r"
    "wallet_wf (db\<lparr>peer_transfers := ts\<rparr>) = wallet_wf db"
  by (simp_all add: own_accessible_wallet_def get_accessible_wallet_def wallet_by_user_def
      sub_wallet_for_def assert_same_grant_def has_sub_wallet_def resolve_department_grant_code_def
      wallet_wf_def Let_def cong: option.case_cong)

lemma create_then_confirm_succeeds:
  assumes create: "create_pending_transfer now draw otp sender recipient dept amount remarks db =
      (db1, Inr (t, otp))"
    and wf: "wallet_wf db" and rows: "row_of d_id (d_id dept) (departments db) = Some dept"
      "\<And>r. recipient = Some r \<Longrightarrow> row_of u_id (u_id r) (users db) = Some r"
    and otp: "otp \<noteq> ''''" "strip otp' = otp" and time: "later \<le> now + 60 * otp_minutes"
  shows "\<exists>db2 t'. confirm_transfer_with_otp later (pt_id t) sender otp' db1 = (db2, Inr t')"
  using create
proof (cases rule: create_cases)
  case (created r a grant t0)
  let ?ts = "peer_transfers (cancel_drafts (u_id sender) (u_id r) (d_id dept) db)"
  have t0: "t0 = t" using created(1) by simp
  have db1: "db1 = db\<lparr>peer_transfers := ?ts @ [t]\<rparr>"
    using created(3) by (simp add: cancel_drafts_def t0)
  note checks = transfer_checksD [OF created(2)]
  then obtain w s where w: "own_accessible_wallet db sender = Some w"
    "sub_wallet_for db w (d_id dept) = Some s" "a \<le> sw_balance s" by blast
  have "pt_id t \<notin> pt_id ` set ?ts" using created(4) unfolding cancel_drafts_keys(3) t0 .
  then have "find (\<lambda>x. pt_id x = pt_id t \<and> pt_sender x = u_id sender) ?ts = None"
    by (auto simp: find_None_iff rev_image_eqI)
  then have found: "find (\<lambda>x. pt_id x = pt_id t \<and> pt_sender x = u_id sender)
      (peer_transfers db1) = Some t"
    using created(6) by (simp add: db1 find_append_case t0)
  have valid: "verify_otp later otp' t"
    using created(12-14) otp time by (simp add: verify_otp_def t0)
  have row: "row_of u_id (pt_recipient t) (users db1) = Some r"
    using rows(2) checks created(7) by (simp add: db1 t0)
  have "0 < pt_amount t" "pt_amount t \<le> sw_balance s"
    using checks created(9) w as_money_range by (auto simp: t0)
  then obtain db2 t' where ex: "execute_transfer later sender r t db1 = (db2, Inr t')"
    using execute_transfer_succeeds [of db1 t s sender w r later] wf w checks created(8)
    by (auto simp: db1 create_keeps_lookups t0)
  have "row_of d_id (pt_department t) (departments db1) = Some dept"
    using rows(1) created(8) by (simp add: db1 t0)
  with found valid row ex checks created(11,14) time have
    "confirm_body later (pt_id t) sender otp' db1 = (db2, Inr t')"
    by (simp add: confirm_body_def assert_faculty_initiator_def assert_eligible_recipient_def
        create_keeps_lookups db1 t0)
  then show ?thesis by (auto simp: confirm_transfer_with_otp_def atomic_eq_Inr)
qed simp_all

lemma confirm_again:
  assumes "confirm_transfer_with_otp now i sender otp db = (db', Inr t')" "peer_wf db"
  shows "confirm_transfer_with_otp now' i sender otp' db' = (db', Inr t')"
  using assms(1)
proof (cases rule: confirm_cases)
  case again
  then show ?thesis
    by (simp add: confirm_transfer_with_otp_def atomic_eq_Inr confirm_body_def)
next
  case (now t r)
  have "wallet_wf db" using assms(2) by (simp add: peer_wf_def)
  from now(8) this now(7) obtain i' j' where
    t': "t' = completed now (balance_of db' i') (balance_of db' j') t"
    and rows: "peer_transfers db' = update_row pt_id (pt_id t) (\<lambda>_. t') (peer_transfers db)"
    by (rule execute_transfer_success)
  have t: "t \<in> set (peer_transfers db)" "pt_id t = i" "pt_sender t = u_id sender"
    using row_of_SomeI [OF now(1)] by simp_all
  have "find (\<lambda>x. pt_id x = i \<and> pt_sender x = u_id sender)
      (update_row pt_id (pt_id t) (\<lambda>_. t') rows) = Some t'"
    if "find (\<lambda>x. pt_id x = i \<and> pt_sender x = u_id sender) rows = Some t" "unique_keys pt_id rows"
    for rows
    using that t by (induction rows) (auto simp: t' completed_def unique_keys_def split: if_splits
        dest: row_of_SomeI)
  then have "find (\<lambda>x. pt_id x = i \<and> pt_sender x = u_id sender) (peer_transfers db') = Some t'"
    using now(1) assms(2) rows by (simp add: peer_wf_def transfers_wf_def)
  then show ?thesis
    by (simp add: confirm_transfer_with_otp_def atomic_eq_Inr confirm_body_def t' completed_def)
qed

subsection \<open>Properties\<close>

text \<open>
  C1: a confirmation that succeeds either finds the transfer already completed and changes
  nothing, or the transfer was a draft waiting for its password, the password given was the
  unexpired one, and exactly the amount moved from a sub-wallet of the sender to a sub-wallet
  of the recipient in the same department, with one debit and one credit logged and the row
  saved as completed with its password cleared.
\<close>

theorem confirm_pays_exactly:
  assumes "confirm_transfer_with_otp now i sender otp db = (db', Inr t')" "peer_wf db"
  shows "\<exists>t. t \<in> set (peer_transfers db) \<and> pt_id t = i \<and> pt_sender t = u_id sender \<and>
    (pt_status t = PT_COMPLETED \<and> t' = t \<and> db' = db \<or>
     pt_status t = PT_PENDING_OTP \<and> strip otp = pt_otp_code t \<and> pt_otp_code t \<noteq> '''' \<and>
     (\<exists>e. pt_otp_expires_at t = Some e \<and> now \<le> e) \<and> u_type sender = Some FACULTY \<and>
     (\<exists>r j k. u_id r = pt_recipient t \<and>
        paid_over sender r (pt_department t) (pt_amount t) j k db db' \<and>
        t' = completed now (balance_of db' j) (balance_of db' k) t) \<and>
     peer_transfers db' = update_row pt_id i (\<lambda>_. t') (peer_transfers db))"
  using assms(1)
proof (cases rule: confirm_cases)
  case again
  then have "t' \<in> set (peer_transfers db)" "pt_id t' = i" "pt_sender t' = u_id sender"
    using row_of_SomeI [OF again(1)] by simp_all
  with again(2,3) show ?thesis by blast
next
  case (now t r)
  have wf: "wallet_wf db" using assms(2) by (simp add: peer_wf_def)
  have t: "t \<in> set (peer_transfers db)" "pt_id t = i" "pt_sender t = u_id sender"
    using row_of_SomeI [OF now(1)] by simp_all
  have r: "u_id r = pt_recipient t" using now(5) by (auto dest: row_of_SomeD)
  have v: "strip otp = pt_otp_code t" "pt_otp_code t \<noteq> ''''"
    "\<exists>e. pt_otp_expires_at t = Some e \<and> now \<le> e"
    using now(3) by (auto simp: verify_otp_def split: if_splits option.splits)
  from now(8) wf now(7) obtain j k where
    "paid_over sender r (pt_department t) (pt_amount t) j k db db'"
    "t' = completed now (balance_of db' j) (balance_of db' k) t"
    "peer_transfers db' = update_row pt_id (pt_id t) (\<lambda>_. t') (peer_transfers db)"
    by (rule execute_transfer_success)
  with t r v now(2,4) show ?thesis by blast
qed

text \<open>
  C2: transfers conserve money and happen once. Along any run of drafts and confirmations, by
  anyone and in any order, the total held in sub-wallets does not change, no balance goes below
  zero, and the log grows by exactly two transactions per transfer that became completed.
\<close>

theorem peer_runs_conserve:
  assumes "peer_step\<^sup>*\<^sup>* db db'" "peer_wf db" "solvent db"
  shows "held db' = held db \<and> solvent db' \<and> peer_wf db' \<and>
    int (length (postings db')) - int (length (postings db)) =
      2 * (int (completed_transfers db') - int (completed_transfers db))"
  using peer_machine.run_inv [OF assms(1), of "held db"
      "int (length (postings db)) - 2 * int (completed_transfers db)"] assms(2,3)
  by simp

text \<open>
  C5: confirming is idempotent: once a confirmation has succeeded, repeating it (later, with any
  password at all) returns the same completed transfer and moves nothing.
\<close>

theorem confirm_idempotent:
  assumes "confirm_transfer_with_otp now i sender otp db = (db', Inr t')" "peer_wf db"
  shows "confirm_transfer_with_otp later i sender otp' db' = (db', Inr t')"
  using assms by (rule confirm_again)


text \<open>
  C6: a confirmation that fails leaves no trace at all. The statuses EXPIRED and FAILED, which
  the code saves before it raises, are undone with everything else: an expired draft is still
  PENDING_OTP after the error.
\<close>

theorem failed_confirmation_leaves_no_trace:
  "(\<forall>e. snd (confirm_transfer_with_otp now i sender otp db) = Inl e \<longrightarrow>
      fst (confirm_transfer_with_otp now i sender otp db) = db) \<and>
   (\<forall>t e. find (\<lambda>t. pt_id t = i \<and> pt_sender t = u_id sender) (peer_transfers db) = Some t \<longrightarrow>
      pt_status t = PT_PENDING_OTP \<longrightarrow> pt_otp_expires_at t = Some e \<longrightarrow> e < now \<longrightarrow>
      confirm_transfer_with_otp now i sender otp db = (db, Inl (PeerTransferError ''otp_expired'')) \<and>
      t \<in> set (peer_transfers (fst (confirm_transfer_with_otp now i sender otp db))))"
proof (intro conjI allI impI)
  fix e assume "snd (confirm_transfer_with_otp now i sender otp db) = Inl e"
  then show "fst (confirm_transfer_with_otp now i sender otp db) = db"
    unfolding confirm_transfer_with_otp_def by (rule atomic_Inl)
next
  fix t e assume *: "find (\<lambda>t. pt_id t = i \<and> pt_sender t = u_id sender) (peer_transfers db) = Some t"
    "pt_status t = PT_PENDING_OTP" "pt_otp_expires_at t = Some e" "e < now"
  then show r: "confirm_transfer_with_otp now i sender otp db =
      (db, Inl (PeerTransferError ''otp_expired''))"
    by (simp add: confirm_transfer_with_otp_def confirm_body_def atomic_def)
  show "t \<in> set (peer_transfers (fst (confirm_transfer_with_otp now i sender otp db)))"
    unfolding r using row_of_SomeI [OF *(1)] by simp
qed

text \<open>
  Money only moves under one grant. When the checks of a transfer pass, the grant code
  recorded is the selected department's, it is never empty, and the recipient's home department
  resolves to the same code unless the recipient already holds a sub-wallet of the selected
  department.
\<close>

theorem transfers_stay_in_grant:
  assumes "create_pending_transfer now draw otp sender recipient dept amount remarks db =
      (db', Inr (t, p))"
  shows "pt_grant_code t = resolve_department_grant_code db (Some dept) \<and> pt_grant_code t \<noteq> '''' \<and>
    (\<exists>r. recipient = Some r \<and> (\<forall>h home. u_department r = Some h \<longrightarrow>
       row_of d_id h (departments db) = Some home \<longrightarrow>
       resolve_department_grant_code db (Some home) = pt_grant_code t \<or>
       has_sub_wallet db (u_id r) (d_id dept)))"
  using assms
proof (cases rule: create_cases)
  case (created r a grant t0)
  then have "assert_same_grant db dept r = Inr grant" "recipient = Some r" "pt_grant_code t = grant"
    using transfer_checksD [OF created(2)] by auto
  then show ?thesis
    by (auto simp: assert_same_grant_def Let_def resolve_department_grant_code_nonempty
        split: option.splits if_splits)
qed simp_all

subsection \<open>A concrete transfer\<close>

definition sender1 :: user where
  "sender1 = \<lparr>u_id = 1, u_name = ''A. Rao'', u_email = ''rao@x.in'', u_type = Some FACULTY,
     u_is_active = True, u_department = Some 7, u_joining_date = None,
     u_force_inactive = False, u_degree = None, u_is_superuser = False\<rparr>"

definition recipient2 :: user where
  "recipient2 = \<lparr>u_id = 2, u_name = '''', u_email = ''sen@x.in'', u_type = Some FACULTY,
     u_is_active = True, u_department = Some 7, u_joining_date = None,
     u_force_inactive = False, u_degree = None, u_is_superuser = False\<rparr>"

definition physics :: department where
  "physics = \<lparr>d_id = 7, d_name = ''Physics'', d_internal = True, d_grant_code = '' PH-01 '',
     d_enable_wallet_credit = False\<rparr>"

definition peer_db0 :: peer_db where
  "peer_db0 = \<lparr>users = [sender1, recipient2], departments = [physics], sric_grant_code = '''',
     wallets = [\<lparr>w_id = 3, w_user = 1\<rparr>],
     sub_wallets = [\<lparr>sw_id = 5, sw_wallet = 3, sw_department = 7, sw_balance = 50000\<rparr>],
     sub_wallet_txns = [], join_requests = [], dept_settings = [], dept_facilities = [],
     dept_audit = [], peer_transfers = []\<rparr>"

definition peer_db1 :: peer_db where
  "peer_db1 = fst (create_pending_transfer 1000 (\<lambda>n. ''W2W-1'') ''482913'' sender1 (Some recipient2)
     physics (Finite 120) '' lab '' peer_db0)"

definition draft1 :: peer_transfer where
  "draft1 = \<lparr>pt_id = 1, pt_transaction_id = ''W2W-1'', pt_sender = 1, pt_recipient = 2,
     pt_initiated_by = 1, pt_department = 7, pt_grant_code = ''PH-01'', pt_amount = 12000,
     pt_remarks = ''lab'', pt_status = PT_PENDING_OTP, pt_otp_code = ''482913'',
     pt_otp_expires_at = Some 1600, pt_otp_verified = False, pt_otp_verified_at = None,
     pt_sender_balance_after = None, pt_recipient_balance_after = None, pt_failure_reason = '''',
     pt_completed_at = None\<rparr>"

definition peer_db2 :: peer_db where
  "peer_db2 = fst (confirm_transfer_with_otp 1500 1 sender1 '' 482913'' peer_db1)"

lemma create1:
  "create_pending_transfer 1000 (\<lambda>n. ''W2W-1'') ''482913'' sender1 (Some recipient2) physics
     (Finite 120) '' lab '' peer_db0 = (peer_db1, Inr (draft1, ''482913''))"
proof -
  have "snd (create_pending_transfer 1000 (\<lambda>n. ''W2W-1'') ''482913'' sender1 (Some recipient2) physics
     (Finite 120) '' lab '' peer_db0) = Inr (draft1, ''482913'')"
    by code_simp
  then show ?thesis by (simp add: peer_db1_def prod_eq_iff)
qed

lemma confirm1:
  "confirm_transfer_with_otp 1500 1 sender1 '' 482913'' peer_db1 =
     (peer_db2, Inr (completed 1500 38000 12000 draft1))"
proof -
  have "snd (confirm_transfer_with_otp 1500 1 sender1 '' 482913'' peer_db1) =
      Inr (completed 1500 38000 12000 draft1)"
    by code_simp
  then show ?thesis by (simp add: peer_db2_def prod_eq_iff)
qed

lemma peer_db0_wf: "wallet_wf peer_db0" "solvent peer_db0" "peer_wf peer_db0"
  by (auto simp: peer_wf_def wallet_wf_def transfers_wf_def solvent_def balance_of_def peer_db0_def
      sender1_def recipient2_def unique_keys_def)

lemma peer_run1: "peer_step\<^sup>*\<^sup>* peer_db0 peer_db1" "peer_step\<^sup>*\<^sup>* peer_db0 peer_db2"
proof -
  have "peer_step peer_db0 peer_db1" using create1 by (rule peer_create)
  moreover have "peer_step peer_db1 peer_db2" using confirm1 by (rule peer_confirm)
  ultimately show "peer_step\<^sup>*\<^sup>* peer_db0 peer_db1" "peer_step\<^sup>*\<^sup>* peer_db0 peer_db2"
    by (blast intro: rtranclp.intros)+
qed

lemma peer_db1_wf: "peer_wf peer_db1"
  using peer_step_effect [OF peer_create [OF create1] peer_db0_wf(3)] by simp

theorem confirm_pays_exactly_witness:
  "\<exists>j k. paid_over sender1 recipient2 7 12000 j k peer_db1 peer_db2"
proof -
  have "peer_transfers peer_db1 = [draft1]" by code_simp
  moreover have "pt_status draft1 = PT_PENDING_OTP" "pt_department draft1 = 7"
    "pt_amount draft1 = 12000" "pt_recipient draft1 = 2"
    by (simp_all add: draft1_def)
  ultimately obtain r j k where r: "u_id r = 2" "paid_over sender1 r 7 12000 j k peer_db1 peer_db2"
    using confirm_pays_exactly [OF confirm1 peer_db1_wf] by auto
  then have "paid_over sender1 recipient2 7 12000 j k peer_db1 peer_db2"
    by (simp add: paid_over_def recipient2_def)
  then show ?thesis by blast
qed

theorem peer_runs_conserve_witness: "held peer_db2 = 50000"
  using peer_runs_conserve [OF peer_run1(2) peer_db0_wf(3,2)] by (simp add: held_def peer_db0_def)

theorem confirm_idempotent_witness:
  "confirm_transfer_with_otp 9999 1 sender1 ''wrong'' peer_db2 =
     (peer_db2, Inr (completed 1500 38000 12000 draft1))"
  by (rule confirm_idempotent [OF confirm1 peer_db1_wf])


theorem failed_confirmation_leaves_no_trace_witness:
  "confirm_transfer_with_otp 1601 1 sender1 ''482913'' peer_db1 =
     (peer_db1, Inl (PeerTransferError ''otp_expired''))"
proof -
  have "find (\<lambda>t. pt_id t = 1 \<and> pt_sender t = u_id sender1) (peer_transfers peer_db1) = Some draft1"
    by code_simp
  then show ?thesis
    using failed_confirmation_leaves_no_trace [of 1601 1 sender1 "''482913''" peer_db1]
    by (simp add: draft1_def)
qed

theorem transfers_stay_in_grant_witness: "pt_grant_code draft1 \<noteq> ''''"
  using transfers_stay_in_grant [OF create1] by (auto simp del: not_None_eq)

end
