(* ===== verification/Identity.thy ===== *)
theory Identity
  imports Users
begin

text \<open>
  The part of \<^verbatim>\<open>users/identity/service.py\<close> that decides who may ask for wallet credit: the
  classification of a user (\<^verbatim>\<open>UserIdentityService.classify_user\<close>) and
  \<^verbatim>\<open>UserEligibilityService.can_request_wallet_credit\<close>, with the heads of department table. The
  feature flags are the two settings \<^verbatim>\<open>wallet_credit_enabled\<close> reads.
\<close>

datatype classification =
    C_FACULTY | C_HEAD_OF_DEPARTMENT | C_UNDERGRADUATE_STUDENT | C_OTHER_STUDENT | C_STAFF
  | C_UNKNOWN

record hod_assignment =
  ha_user :: ident
  ha_department :: ident
  ha_active :: bool
  ha_effective_from :: day
  ha_effective_to :: "day option"

record credit_flags =
  wallet_credit_setting :: bool
  wallet_credit_v2_setting :: bool

definition wallet_credit_enabled :: "credit_flags \<Rightarrow> bool" where
  "wallet_credit_enabled fl = (if wallet_credit_setting fl then True else wallet_credit_v2_setting fl)"

definition staff_portal_types :: "user_type set" where
  "staff_portal_types = {ADMIN, DEPT_ADMIN, MANAGER, OPERATOR, FINANCE, EXTERNAL_RELATIONS, ORG_ADMIN}"

definition student_portal_types :: "user_type set" where
  "student_portal_types = {STUDENT, INDIVIDUAL_STUDENT}"

definition credit_eligible_classifications :: "classification set" where
  "credit_eligible_classifications = {C_FACULTY, C_HEAD_OF_DEPARTMENT, C_STAFF}"

definition effective_to_covers :: "day \<Rightarrow> hod_assignment \<Rightarrow> bool" where
  "effective_to_covers today h = (case ha_effective_to h of None \<Rightarrow> True | Some e \<Rightarrow> today \<le> e)"

definition active_hod_for_department ::
  "day \<Rightarrow> hod_assignment list \<Rightarrow> ident \<Rightarrow> hod_assignment option" where
  "active_hod_for_department today hods d =
     find (\<lambda>h. ha_department h = d \<and> ha_active h \<and> ha_effective_from h \<le> today \<and>
       effective_to_covers today h) hods"

text \<open>Whether somebody heads a department does not ask here when the assignment begins.\<close>

definition classify_user :: "day \<Rightarrow> hod_assignment list \<Rightarrow> user \<Rightarrow> classification" where
  "classify_user today hods u =
     (if list_ex (\<lambda>h. ha_user h = u_id u \<and> ha_active h \<and> effective_to_covers today h) hods
      then C_HEAD_OF_DEPARTMENT
      else case u_type u of
        None \<Rightarrow> C_UNKNOWN
      | Some portal \<Rightarrow>
          if portal \<in> staff_portal_types then C_STAFF
          else if portal = FACULTY then C_FACULTY
          else if portal \<in> student_portal_types
          then (case u_degree u of
              Some UNDERGRADUATE \<Rightarrow> C_UNDERGRADUATE_STUDENT
            | None \<Rightarrow> C_UNKNOWN
            | Some _ \<Rightarrow> C_OTHER_STUDENT)
          else C_UNKNOWN)"

text \<open>\<open>None\<close> when the user may ask for credit, else the error code.\<close>

definition can_request_wallet_credit ::
  "credit_flags \<Rightarrow> day \<Rightarrow> hod_assignment list \<Rightarrow> user \<Rightarrow> string option" where
  "can_request_wallet_credit fl today hods u =
     (let c = classify_user today hods u in
      if \<not> wallet_credit_enabled fl then Some ''FEATURE_DISABLED''
      else if u_force_inactive u then Some ''ACCOUNT_DISABLED''
      else if c \<in> {C_UNDERGRADUATE_STUDENT, C_OTHER_STUDENT}
      then Some ''CREDIT_NOT_ALLOWED_FOR_USER_TYPE''
      else if u_type u \<in> Some ` student_portal_types then Some ''CREDIT_NOT_ALLOWED_FOR_USER_TYPE''
      else if (case u_type u of None \<Rightarrow> False | Some t \<Rightarrow> is_external_user t)
      then Some ''CREDIT_NOT_ALLOWED_FOR_USER_TYPE''
      else if c = C_UNKNOWN then Some ''USER_TYPE_UNKNOWN''
      else if c \<notin> credit_eligible_classifications then Some ''CREDIT_NOT_ALLOWED_FOR_USER_TYPE''
      else None)"

lemmas identity_defs =
  classify_user_def can_request_wallet_credit_def wallet_credit_enabled_def staff_portal_types_def
  student_portal_types_def credit_eligible_classifications_def user_group_defs

text \<open>
  Whoever may ask for wallet credit is faculty, staff or a head of department with an
  enabled account and the feature on: never a student account and never an external user, even
  when listed as head of a department.
\<close>

theorem credit_requesters:
  assumes "can_request_wallet_credit fl today hods u = None"
  shows "wallet_credit_enabled fl \<and> \<not> u_force_inactive u \<and>
    (\<forall>t. u_type u = Some t \<longrightarrow> t \<notin> student_portal_types \<and> \<not> is_external_user t) \<and>
    classify_user today hods u \<in> {C_FACULTY, C_STAFF, C_HEAD_OF_DEPARTMENT} \<and>
    (classify_user today hods u \<noteq> C_HEAD_OF_DEPARTMENT \<longrightarrow>
       (\<exists>t. u_type u = Some t \<and> (t = FACULTY \<or> t \<in> staff_portal_types)))"
proof -
  have c: "classify_user today hods u = C_HEAD_OF_DEPARTMENT \<or>
      (\<exists>t. u_type u = Some t \<and> (t = FACULTY \<or> t \<in> staff_portal_types)) \<or>
      classify_user today hods u \<in> {C_UNDERGRADUATE_STUDENT, C_OTHER_STUDENT, C_UNKNOWN}"
    by (auto simp: classify_user_def split: option.splits degree_kind.splits)
  show ?thesis
    using assms c
    by (cases "classify_user today hods u")
      (auto simp: can_request_wallet_credit_def Let_def split: if_splits option.splits)
qed

definition clerk :: user where
  "clerk = \<lparr>u_id = 9, u_name = ''Clerk'', u_email = ''c@x.in'', u_type = Some FINANCE,
     u_is_active = True, u_department = None, u_joining_date = None, u_force_inactive = False,
     u_degree = None, u_is_superuser = False\<rparr>"

theorem credit_requesters_witness:
  "classify_user 100 [] clerk \<in> {C_FACULTY, C_STAFF, C_HEAD_OF_DEPARTMENT}"
proof -
  have "can_request_wallet_credit \<lparr>wallet_credit_setting = True, wallet_credit_v2_setting = False\<rparr>
      100 [] clerk = None" by code_simp
  from credit_requesters [OF this] show ?thesis by simp
qed

text \<open>
  An assignment that only begins in the future already makes its holder a head of department
  for credit, although \<open>active_hod_for_department\<close> does not name a head yet.
\<close>

lemma future_head_counts:
  assumes "h \<in> set hods" "ha_user h = u_id u" "ha_active h" "ha_effective_to h = None"
    and "today < ha_effective_from h" "\<forall>g\<in>set hods. ha_department g = d \<longrightarrow> g = h"
  shows "classify_user today hods u = C_HEAD_OF_DEPARTMENT \<and>
    active_hod_for_department today hods d = None"
  using assms
  by (auto simp: classify_user_def active_hod_for_department_def effective_to_covers_def
      list_ex_iff find_None_iff)

end
