(* ===== verification/Numbering.thy ===== *)
theory Numbering
  imports Prelude "HOL-Library.Char_ord" "HOL-Library.List_Lexorder"
begin

text \<open>
  Public numbers such as \<^verbatim>\<open>WC-2026-000001\<close>: \<^verbatim>\<open>next_public_reference\<close>, \<^verbatim>\<open>next_invoice_number\<close>
  and \<^verbatim>\<open>next_receipt_number\<close> of \<^verbatim>\<open>users/wallet_credit_facility_v2.py\<close> take the greatest number
  with the year's prefix in the order of the text column, read the sequence behind its last
  dash, add one and write it with at least six digits.
\<close>

definition digit :: "nat \<Rightarrow> char" where
  "digit n = char_of (48 + n mod 10)"

fun decimal :: "nat \<Rightarrow> string" where
  "decimal n = (if n < 10 then [digit n] else decimal (n div 10) @ [digit n])"

declare decimal.simps [simp del]

text \<open>The format \<^verbatim>\<open>:06d\<close>.\<close>

definition pad6 :: "nat \<Rightarrow> string" where
  "pad6 n = (let d = decimal n in replicate (6 - length d) (CHR ''0'') @ d)"

text \<open>
  Python's \<^verbatim>\<open>int(text)\<close> on text that is all digits; other text counts as not a number (the
  signs, spaces and underscores that \<^verbatim>\<open>int\<close> also takes never occur in these numbers).
\<close>

definition is_digit :: "char \<Rightarrow> bool" where
  "is_digit c = (let n = (of_char c :: nat) in 48 \<le> n \<and> n \<le> 57)"

definition parse_int :: "string \<Rightarrow> nat option" where
  "parse_int s = (if s \<noteq> [] \<and> list_all is_digit s
     then Some (foldl (\<lambda>a c. 10 * a + (of_char c - 48)) 0 s) else None)"

text \<open>\<^verbatim>\<open>text.split("-")[-1]\<close>.\<close>

definition after_last_dash :: "string \<Rightarrow> string" where
  "after_last_dash s = rev (takeWhile (\<lambda>c. c \<noteq> CHR ''-'') (rev s))"

definition with_prefix :: "string \<Rightarrow> string list \<Rightarrow> string list" where
  "with_prefix p used = filter (\<lambda>s. take (length p) s = p) used"

definition greatest :: "string list \<Rightarrow> string option" where
  "greatest xs = (case xs of [] \<Rightarrow> None | x # ys \<Rightarrow> Some (fold max ys x))"

definition next_number :: "string \<Rightarrow> string list \<Rightarrow> string" where
  "next_number p used =
     (let same = with_prefix p used;
          seq = (case greatest same of
              None \<Rightarrow> 1
            | Some s \<Rightarrow> (case parse_int (after_last_dash s) of
                Some k \<Rightarrow> k + 1
              | None \<Rightarrow> length same + 1))
      in p @ pad6 seq)"

definition year_prefix :: "string \<Rightarrow> nat \<Rightarrow> string" where
  "year_prefix kind year = kind @ ''-'' @ decimal year @ ''-''"

subsection \<open>Digits\<close>

fun width :: "nat \<Rightarrow> nat \<Rightarrow> string" where
  "width 0 n = []"
| "width (Suc w) n = width w (n div 10) @ [digit n]"

lemma length_width [simp]: "length (width w n) = w"
  by (induction w n rule: width.induct) auto

lemma of_char_digit [simp]: "(of_char (digit n) :: nat) = 48 + n mod 10"
  by (simp add: digit_def of_char_of take_bit_eq_mod)

lemma digit_mod: "digit (n mod 10) = digit n"
  by (simp add: digit_def)

lemma is_digit_digit [simp]: "is_digit (digit n)"
  by (simp add: is_digit_def Let_def)

lemma digit_not_dash [simp]: "digit n \<noteq> CHR ''-''"
proof
  assume "digit n = CHR ''-''"
  then have "(of_char (digit n) :: nat) = of_char CHR ''-''" by simp
  then show False by simp
qed

lemma set_width: "c \<in> set (width w n) \<Longrightarrow> is_digit c \<and> c \<noteq> CHR ''-''"
  by (induction w n rule: width.induct) auto

lemma foldl_width:
  "foldl (\<lambda>a c. 10 * a + (of_char c - 48)) 0 (width w n) = n mod 10 ^ w"
proof (induction w n rule: width.induct)
  case (2 w n)
  then show ?case by (simp add: mod_mult2_eq [of n 10 "10 ^ w"])
qed simp

lemma parse_width: "0 < w \<Longrightarrow> parse_int (width w n) = Some (n mod 10 ^ w)"
  using set_width [of _ w n]
  by (auto simp: parse_int_def foldl_width list_all_iff simp flip: length_0_conv)

lemma width_zero: "width w 0 = replicate w (CHR ''0'')"
proof (induction w)
  case (Suc w)
  have "digit 0 = CHR ''0''" by code_simp
  then show ?case using Suc by (simp add: replicate_append_same)
qed simp

lemma decimal_width: "n < 10 ^ Suc w \<Longrightarrow>
  length (decimal n) \<le> Suc w \<and>
  width (Suc w) n = replicate (Suc w - length (decimal n)) (CHR ''0'') @ decimal n"
proof (induction w arbitrary: n)
  case 0
  then show ?case by (simp add: decimal.simps)
next
  case (Suc w)
  show ?case
  proof (cases "n < 10")
    case True
    then show ?thesis by (simp add: decimal.simps [of n] width_zero replicate_append_same)
  next
    case False
    then have "n div 10 < 10 ^ Suc w" using Suc.prems by simp
    from Suc.IH [OF this] False show ?thesis by (simp add: decimal.simps [of n])
  qed
qed

lemma pad6_width:
  assumes "n < 1000000"
  shows "pad6 n = width 6 n"
proof -
  have six: "Suc 5 = 6" by simp
  from assms have "n < 10 ^ Suc 5" by simp
  from decimal_width [OF this] show ?thesis
    unfolding six by (simp add: pad6_def Let_def)
qed

subsection \<open>The order of the numbers\<close>

lemma append_less:
  "length xs = length ys \<Longrightarrow> xs < ys \<Longrightarrow> xs @ us < ys @ (vs :: string)"
  by (induction xs ys rule: list_induct2) (auto simp: list_less_def)

lemma append_less_same: "us < vs \<Longrightarrow> xs @ us < xs @ (vs :: string)"
  by (induction xs) (auto simp: list_less_def)

lemma digit_less: "m mod 10 < n mod 10 \<Longrightarrow> [digit m] < [digit n]"
  by (simp add: less_char_def)

lemma width_mono: "m < n \<Longrightarrow> n < 10 ^ w \<Longrightarrow> width w m < width w n"
proof (induction w arbitrary: m n)
  case (Suc w)
  show ?case
  proof (cases "m div 10 = n div 10")
    case True
    with Suc.prems(1) have "m mod 10 < n mod 10"
      by (metis add_less_cancel_left mult_div_mod_eq)
    then have "width w (n div 10) @ [digit m] < width w (n div 10) @ [digit n]"
      by (intro append_less_same digit_less)
    with True show ?thesis by simp
  next
    case False
    with Suc.prems have "m div 10 < n div 10" "n div 10 < 10 ^ w"
      by (simp_all add: div_le_mono le_neq_implies_less less_mult_imp_div_less mult.commute)
    from Suc.IH [OF this] show ?thesis by (simp add: append_less)
  qed
qed simp

lemma fold_max_string: "fold max xs x \<in> insert x (set xs) \<and> (\<forall>y\<in>insert x (set xs). y \<le> fold max xs x)"
  for x :: string
proof (induction xs arbitrary: x)
  case (Cons a xs)
  from Cons [of "max a x"] show ?case
    by (auto simp: max_def split: if_splits)
qed simp

lemma greatest_SomeD: "greatest xs = Some s \<Longrightarrow> s \<in> set xs \<and> (\<forall>y\<in>set xs. y \<le> s)"
  using fold_max_string by (cases xs) (auto simp: greatest_def)

lemma greatest_None [simp]: "greatest xs = None \<longleftrightarrow> xs = []"
  by (cases xs) (auto simp: greatest_def)

lemma after_last_dash_number:
  assumes "last p = CHR ''-''" "p \<noteq> []" "\<forall>c\<in>set d. c \<noteq> CHR ''-''"
  shows "after_last_dash (p @ d) = d"
proof -
  obtain q where p: "p = q @ [CHR ''-'']" using assms by (metis append_butlast_last_id)
  have "takeWhile (\<lambda>c. c \<noteq> CHR ''-'') (rev d @ CHR ''-'' # rev q) = rev d"
    using assms(3) by (subst takeWhile_append2) auto
  then show ?thesis by (simp add: after_last_dash_def p)
qed

text \<open>
  As long as the year's numbers are the ones the function gave out and fewer than 999,999 of
  them, the next one is new and greater than all of them.
\<close>

lemma next_number_fresh:
  assumes p: "p \<noteq> []" "last p = CHR ''-''"
    and used: "\<And>s. s \<in> set (with_prefix p used) \<Longrightarrow> \<exists>k < 999999. s = p @ pad6 k"
  shows "next_number p used \<notin> set used" "\<exists>k \<le> 999999. next_number p used = p @ pad6 k"
    "\<And>s. s \<in> set (with_prefix p used) \<Longrightarrow> s < next_number p used"
proof -
  have main: "next_number p used \<notin> set used \<and> (\<exists>k \<le> 999999. next_number p used = p @ pad6 k) \<and>
      (\<forall>s\<in>set (with_prefix p used). s < next_number p used)"
  proof (cases "greatest (with_prefix p used)")
    case None
    then have none: "with_prefix p used = []" by simp
    have "next_number p used = p @ pad6 1" by (simp add: next_number_def None)
    moreover have "p @ pad6 1 \<notin> set used"
      using none by (auto simp: with_prefix_def filter_empty_conv)
    ultimately show ?thesis using none by (auto intro: exI [of _ 1])
  next
    case (Some s)
    from greatest_SomeD [OF this] used obtain k where
      s: "s \<in> set (with_prefix p used)" "\<forall>y\<in>set (with_prefix p used). y \<le> s"
      and k: "k < 999999" "s = p @ pad6 k" by blast
    have "pad6 k = width 6 k" using k by (simp add: pad6_width)
    moreover from this have "after_last_dash s = pad6 k"
      using p k set_width by (auto intro!: after_last_dash_number)
    ultimately have "parse_int (after_last_dash s) = Some k"
      using k parse_width [of 6 k] by simp
    with Some have next_eq: "next_number p used = p @ pad6 (k + 1)"
      by (simp add: next_number_def)
    have "pad6 k < pad6 (k + 1)" using k by (simp add: pad6_width width_mono)
    then have "s < next_number p used" unfolding next_eq k(2) by (rule append_less_same)
    with s(2) have less: "\<forall>y\<in>set (with_prefix p used). y < next_number p used" by auto
    moreover have "next_number p used \<notin> set used"
      using less by (auto simp: with_prefix_def next_eq)
    ultimately show ?thesis using k next_eq by (auto intro!: exI [of _ "k + 1"])
  qed
  then show "next_number p used \<notin> set used" "\<exists>k \<le> 999999. next_number p used = p @ pad6 k"
    "\<And>s. s \<in> set (with_prefix p used) \<Longrightarrow> s < next_number p used" by blast+
qed


text \<open>
  Beyond that the text order is not the number order: \<open>1000000\<close> comes before \<open>999999\<close>, so once
  both have been given out the function repeats itself.
\<close>

lemma next_number_stuck:
  assumes p: "p \<noteq> []" "last p = CHR ''-''"
    and used: "set (with_prefix p used) = (\<lambda>k. p @ pad6 k) ` {1..1000000}"
  shows "next_number p used = p @ pad6 1000000"
proof -
  have "char_of (48::nat) = CHR ''0''" "char_of (49::nat) = CHR ''1''" "char_of (57::nat) = CHR ''9''"
    by code_simp+
  then have big: "pad6 1000000 = ''1000000''" "pad6 999999 = ''999999''"
    by (simp_all add: pad6_def decimal.simps digit_def)
  have le: "p @ pad6 k \<le> p @ pad6 999999" if "k \<le> 1000000" for k
  proof (cases "k < 999999")
    case True
    then have "pad6 k < pad6 999999" by (simp add: pad6_width width_mono)
    then show ?thesis by (simp add: append_less_same order_less_imp_le)
  next
    case False
    with that consider "k = 999999" | "k = 1000000" by linarith
    then show ?thesis
    proof cases
      case 2
      have "''1000000'' < ''999999''" by code_simp
      then show ?thesis unfolding 2 big by (simp add: append_less_same order_less_imp_le)
    qed simp
  qed
  obtain s where s: "greatest (with_prefix p used) = Some s"
    using used by (cases "greatest (with_prefix p used)") auto
  have "p @ pad6 999999 \<in> set (with_prefix p used)" unfolding used by simp
  with greatest_SomeD [OF s] have "p @ pad6 999999 \<le> s" by blast
  moreover have "s \<le> p @ pad6 999999" using greatest_SomeD [OF s] le unfolding used by auto
  ultimately have "s = p @ pad6 999999" by simp
  moreover have "after_last_dash (p @ pad6 999999) = pad6 999999"
    using p by (intro after_last_dash_number) (auto simp: big)
  moreover have "parse_int (pad6 999999) = Some 999999"
    using parse_width [of 6 999999] by (simp add: pad6_width)
  ultimately show ?thesis using s by (simp add: next_number_def)
qed


subsection \<open>Decimal numerals name their number\<close>

lemma foldl_decimal: "foldl (\<lambda>a c. 10 * a + (of_char c - 48)) 0 (decimal n) = n"
proof (induction n rule: decimal.induct)
  case (1 n)
  then show ?case by (subst decimal.simps) auto
qed

lemma decimal_inject: "decimal m = decimal n \<longleftrightarrow> m = n"
  by (metis foldl_decimal)

end
