(* ===== verification/Credit_Facility.thy ===== *)
theory Credit_Facility
  imports Sub_Wallets Identity Numbering
begin

text \<open>
  The administrator-approved wallet credit facility: \<^verbatim>\<open>users/wallet_credit_facility_v2.py\<close> with
  the tables of \<^verbatim>\<open>users/models/wallet_credit_facility.py\<close>. A user requests credit, the main
  administrator approves it, posting puts real money into a sub-wallet and opens an invoice,
  and repayments take it back until the facility is cleared. Every operation is one database
  transaction, so an error result stands for an unchanged database. Profile snapshots and
  notifications are not modelled. The policy row that \<^verbatim>\<open>get_solo\<close> creates on first use has the
  default values that \<open>get_solo\<close> returns here.
\<close>

datatype facility_status =
    CF_DRAFT | CF_SUBMITTED | CF_UNDER_REVIEW | CF_APPROVED | CF_CREDITED | CF_PARTIALLY_SETTLED
  | CF_CLEARED | CF_REJECTED | CF_CANCELLED | CF_EXPIRED | CF_WRITTEN_OFF | CF_CLARIFICATION

definition active_credit_blocking_statuses :: "facility_status set" where
  "active_credit_blocking_statuses =
     {CF_SUBMITTED, CF_UNDER_REVIEW, CF_APPROVED, CF_CREDITED, CF_PARTIALLY_SETTLED, CF_CLARIFICATION}"

datatype ledger_kind = WALLET_CREDIT | CREDIT_REPAYMENT | CREDIT_ADJUSTMENT | CREDIT_REVERSAL

datatype invoice_status = IN_DRAFT | IN_ISSUED | IN_PARTIALLY_PAID | IN_PAID | IN_OVERDUE | IN_CANCELLED

record credit_policy =
  pol_enabled :: bool
  pol_max_credit :: paise
  pol_max_outstanding :: paise
  pol_min_request :: paise
  pol_max_days :: nat

record credit_facility =
  cf_id :: ident
  cf_public_reference :: string
  cf_user :: ident
  cf_department :: "ident option"
  cf_sub_wallet :: "ident option"
  cf_requested_amount :: paise
  cf_approved_amount :: "paise option"
  cf_outstanding_amount :: paise
  cf_purpose :: string
  cf_status :: facility_status
  cf_submitted_at :: "timestamp option"
  cf_approved_at :: "timestamp option"
  cf_approved_by :: "ident option"
  cf_approval_reason :: string
  cf_rejected_at :: "timestamp option"
  cf_rejected_by :: "ident option"
  cf_rejection_reason :: string
  cf_due_date :: "day option"
  cf_credited_at :: "timestamp option"
  cf_cleared_at :: "timestamp option"
  cf_posting_key :: string

record credit_ledger_entry =
  cl_id :: ident
  cl_facility :: ident
  cl_kind :: ledger_kind
  cl_amount :: paise
  cl_reference :: string
  cl_txn :: "ident option"
  cl_created_by :: "ident option"

record credit_invoice =
  ci_id :: ident
  ci_facility :: ident
  ci_number :: string
  ci_status :: invoice_status
  ci_issue_date :: "day option"
  ci_due_date :: "day option"
  ci_approved_credit :: paise
  ci_amount_settled :: paise
  ci_outstanding_amount :: paise
  ci_issued_by :: "ident option"

record credit_payment =
  cp_id :: ident
  cp_facility :: ident
  cp_invoice :: "ident option"
  cp_ledger_entry :: "ident option"
  cp_amount :: paise
  cp_payment_date :: day
  cp_mode :: string
  cp_reference :: string
  cp_remarks :: string
  cp_receipt_number :: string
  cp_recorded_by :: "ident option"

text \<open>What an audit event records before and after: the texts are built from these values.\<close>

datatype audit_value = AV_None | AV_Status facility_status | AV_Amount paise | AV_Text string
  | AV_Status_Amount facility_status "paise option"

record credit_audit_event =
  ca_facility :: ident
  ca_actor :: "ident option"
  ca_action :: string
  ca_previous :: audit_value
  ca_new :: audit_value
  ca_reason :: string

record credit_db = wallet_db +
  cr_flags :: credit_flags
  cr_policy :: "credit_policy option"
  cr_hods :: "hod_assignment list"
  cr_facilities :: "credit_facility list"
  cr_ledger :: "credit_ledger_entry list"
  cr_invoices :: "credit_invoice list"
  cr_payments :: "credit_payment list"
  cr_audit :: "credit_audit_event list"

subsection \<open>Policy and lookups\<close>

definition default_policy :: credit_policy where
  "default_policy = \<lparr>pol_enabled = False, pol_max_credit = 5000000, pol_max_outstanding = 5000000,
     pol_min_request = 10000, pol_max_days = 180\<rparr>"

definition get_solo :: "'z credit_db_scheme \<Rightarrow> credit_policy" where
  "get_solo db = (case cr_policy db of Some p \<Rightarrow> p | None \<Rightarrow> default_policy)"

definition feature_enabled :: "'z credit_db_scheme \<Rightarrow> bool" where
  "feature_enabled db =
     (if \<not> wallet_credit_enabled (cr_flags db) then False else pol_enabled (get_solo db))"

definition credit_error :: "string \<Rightarrow> exn" where
  "credit_error code = WalletCreditError code 400"

definition assert_user_may_request_credit ::
  "day \<Rightarrow> 'z credit_db_scheme \<Rightarrow> user \<Rightarrow> exn + unit" where
  "assert_user_may_request_credit today db u =
     (case can_request_wallet_credit (cr_flags db) today (cr_hods db) u of
        None \<Rightarrow> Inr ()
      | Some code \<Rightarrow> Inl (WalletCreditError code 403))"

definition user_has_blocking_facility ::
  "'z credit_db_scheme \<Rightarrow> ident \<Rightarrow> credit_facility option" where
  "user_has_blocking_facility db u =
     find (\<lambda>f. cf_user f = u \<and> cf_status f \<in> active_credit_blocking_statuses)
       (rev (cr_facilities db))"

definition next_public_reference :: "nat \<Rightarrow> 'z credit_db_scheme \<Rightarrow> string" where
  "next_public_reference year db =
     next_number (year_prefix ''WC'' year) (map cf_public_reference (cr_facilities db))"

definition next_invoice_number :: "nat \<Rightarrow> 'z credit_db_scheme \<Rightarrow> string" where
  "next_invoice_number year db =
     next_number (year_prefix ''WCI'' year) (map ci_number (cr_invoices db))"

definition next_receipt_number :: "nat \<Rightarrow> 'z credit_db_scheme \<Rightarrow> string" where
  "next_receipt_number year db =
     next_number (year_prefix ''WCR'' year) (map cp_receipt_number (cr_payments db))"

text \<open>\<open>stamp\<close> is the current time down to the microsecond, as \<^verbatim>\<open>strftime\<close> writes it.\<close>

definition next_ledger_reference :: "string \<Rightarrow> string \<Rightarrow> string" where
  "next_ledger_reference kind stamp = kind @ ''-'' @ stamp"

definition audit ::
  "ident \<Rightarrow> ident option \<Rightarrow> string \<Rightarrow> audit_value \<Rightarrow> audit_value \<Rightarrow> string \<Rightarrow>
   'z credit_db_scheme \<Rightarrow> 'z credit_db_scheme" where
  "audit f actor action previous new reason db =
     db\<lparr>cr_audit := cr_audit db @ [\<lparr>ca_facility = f, ca_actor = actor, ca_action = action,
       ca_previous = previous, ca_new = new, ca_reason = reason\<rparr>]\<rparr>"

definition ledger_sum :: "'z credit_db_scheme \<Rightarrow> ident \<Rightarrow> ledger_kind \<Rightarrow> paise" where
  "ledger_sum db f k =
     sum_list (map cl_amount (filter (\<lambda>e. cl_facility e = f \<and> cl_kind e = k) (cr_ledger db)))"

definition recompute_outstanding :: "'z credit_db_scheme \<Rightarrow> ident \<Rightarrow> paise" where
  "recompute_outstanding db f =
     (let outstanding = ledger_sum db f WALLET_CREDIT - ledger_sum db f CREDIT_REPAYMENT
            + ledger_sum db f CREDIT_ADJUSTMENT - ledger_sum db f CREDIT_REVERSAL
      in if outstanding < 0 then 0 else outstanding)"

definition update_facility ::
  "credit_facility \<Rightarrow> 'z credit_db_scheme \<Rightarrow> 'z credit_db_scheme" where
  "update_facility f db =
     db\<lparr>cr_facilities := update_row cf_id (cf_id f) (\<lambda>_. f) (cr_facilities db)\<rparr>"

text \<open>\<^verbatim>\<open>select_for_update().get(pk=...)\<close>.\<close>

definition locked_facility ::
  "'z credit_db_scheme \<Rightarrow> ident \<Rightarrow> exn + credit_facility" where
  "locked_facility db i = (case row_of cf_id i (cr_facilities db) of
     None \<Rightarrow> Inl DoesNotExist | Some f \<Rightarrow> Inr f)"

subsection \<open>Departments\<close>

definition list_eligible_credit_departments ::
  "user \<Rightarrow> 'z credit_db_scheme \<Rightarrow> exn + ('z credit_db_scheme \<times> (department \<times> paise) list)" where
  "list_eligible_credit_departments u db =
     and_then (wallet_get_or_create u db) (\<lambda>(db1, w).
       let enabled = filter (\<lambda>d. d_enable_wallet_credit d \<and> d_internal d) (departments db1);
           held_rows = List.map_filter (\<lambda>d.
             map_option (\<lambda>sw. (d, sw_balance sw)) (sub_wallet_for db1 (w_id w) (d_id d))) enabled;
           home = filter (\<lambda>d. u_department u = Some (d_id d) \<and> d_id d \<notin> (d_id \<circ> fst) ` set held_rows)
             enabled
       in Inr (db1, if enabled = [] then [] else held_rows @ map (\<lambda>d. (d, 0)) home))"

definition resolve_subwallet_for_user ::
  "user \<Rightarrow> ident option \<Rightarrow> 'z credit_db_scheme \<Rightarrow> exn + ('z credit_db_scheme \<times> sub_wallet)" where
  "resolve_subwallet_for_user u department db =
     and_then (wallet_get_or_create u db) (\<lambda>(db1, w).
       case department of
         None \<Rightarrow> Inl (credit_error ''DEPARTMENT_REQUIRED'')
       | Some d \<Rightarrow>
           if d = 0 then Inl (credit_error ''DEPARTMENT_REQUIRED'')
           else (case find (\<lambda>r. d_id r = d \<and> d_internal r) (departments db1) of
             None \<Rightarrow> Inl (credit_error ''DEPARTMENT_NOT_FOUND'')
           | Some r \<Rightarrow>
               if \<not> d_enable_wallet_credit r
               then Inl (WalletCreditError ''CREDIT_NOT_ENABLED_FOR_DEPARTMENT'' 403)
               else Inr (subwallet_get_or_create (w_id w) d db1)))"

subsection \<open>Requesting\<close>

definition new_facility ::
  "timestamp \<Rightarrow> nat \<Rightarrow> ident \<Rightarrow> sub_wallet \<Rightarrow> paise \<Rightarrow> string \<Rightarrow> 'z credit_db_scheme \<Rightarrow> credit_facility" where
  "new_facility now year u sub amount purpose db =
     \<lparr>cf_id = fresh_pk cf_id (cr_facilities db), cf_public_reference = next_public_reference year db,
      cf_user = u, cf_department = Some (sw_department sub), cf_sub_wallet = Some (sw_id sub),
      cf_requested_amount = amount, cf_approved_amount = None, cf_outstanding_amount = 0,
      cf_purpose = purpose, cf_status = CF_SUBMITTED, cf_submitted_at = Some now,
      cf_approved_at = None, cf_approved_by = None, cf_approval_reason = '''',
      cf_rejected_at = None, cf_rejected_by = None, cf_rejection_reason = '''', cf_due_date = None,
      cf_credited_at = None, cf_cleared_at = None, cf_posting_key = ''''\<rparr>"

definition create_and_submit_request ::
  "timestamp \<Rightarrow> day \<Rightarrow> nat \<Rightarrow> user \<Rightarrow> decimal_in \<Rightarrow> string \<Rightarrow> ident option \<Rightarrow> 'z credit_db_scheme \<Rightarrow>
   exn + ('z credit_db_scheme \<times> credit_facility)" where
  "create_and_submit_request now today year u requested_amount purpose department db =
     and_then (ensure (feature_enabled db) (WalletCreditError ''FEATURE_DISABLED'' 403)) (\<lambda>_.
     and_then (assert_user_may_request_credit today db u) (\<lambda>_.
     and_then (ensure (department \<noteq> None \<and> department \<noteq> Some 0) (credit_error ''DEPARTMENT_REQUIRED'')) (\<lambda>_.
     and_then (ensure (strip purpose \<noteq> '''') (credit_error ''PURPOSE_REQUIRED'')) (\<lambda>_.
     and_then (money requested_amount) (\<lambda>amount.
     and_then (ensure (pol_min_request (get_solo db) \<le> amount) (credit_error ''AMOUNT_TOO_LOW'')) (\<lambda>_.
     and_then (ensure (amount \<le> pol_max_credit (get_solo db)) (credit_error ''AMOUNT_TOO_HIGH'')) (\<lambda>_.
     and_then (case row_of u_id (u_id u) (users db) of None \<Rightarrow> Inl DoesNotExist | Some l \<Rightarrow> Inr l) (\<lambda>l.
     and_then (ensure (user_has_blocking_facility db (u_id l) = None)
                 (WalletCreditError ''ACTIVE_CREDIT_EXISTS'' 409)) (\<lambda>_.
     and_then (resolve_subwallet_for_user l department db) (\<lambda>(db1, sub).
       let f = new_facility now year (u_id l) sub amount (strip purpose) db1 in
       if amount \<le> 0 \<or> cf_public_reference f \<in> cf_public_reference ` set (cr_facilities db1)
       then Inl IntegrityError
       else Inr (audit (cf_id f) (Some (u_id l)) ''SUBMITTED'' AV_None (AV_Amount amount) (strip purpose)
                   (db1\<lparr>cr_facilities := cr_facilities db1 @ [f]\<rparr>), f)))))))))))"

subsection \<open>Review\<close>

definition mark_under_review ::
  "ident \<Rightarrow> ident option \<Rightarrow> 'z credit_db_scheme \<Rightarrow> exn + ('z credit_db_scheme \<times> credit_facility)" where
  "mark_under_review i actor db =
     and_then (locked_facility db i) (\<lambda>f.
     if cf_status f \<notin> {CF_SUBMITTED, CF_CLARIFICATION} then Inl (credit_error ''INVALID_STATE'')
     else (let f' = f\<lparr>cf_status := CF_UNDER_REVIEW\<rparr> in
       Inr (audit i actor ''UNDER_REVIEW'' (AV_Status (cf_status f)) (AV_Status (cf_status f')) ''''
              (update_facility f' db), f')))"

definition approve_facility ::
  "timestamp \<Rightarrow> day \<Rightarrow> ident \<Rightarrow> user \<Rightarrow> decimal_in \<Rightarrow> day option \<Rightarrow> string \<Rightarrow> 'z credit_db_scheme \<Rightarrow>
   exn + ('z credit_db_scheme \<times> credit_facility)" where
  "approve_facility now today i actor approved_amount due_date reason db =
     and_then (ensure (u_type actor = Some ADMIN) (WalletCreditError ''FORBIDDEN'' 403)) (\<lambda>_.
     and_then (locked_facility db i) (\<lambda>f.
     and_then (ensure (cf_status f \<in> {CF_SUBMITTED, CF_UNDER_REVIEW, CF_CLARIFICATION})
                 (credit_error ''INVALID_STATE'')) (\<lambda>_.
     and_then (money approved_amount) (\<lambda>approved.
     and_then (ensure (0 < approved) (credit_error ''INVALID_AMOUNT'')) (\<lambda>_.
     and_then (ensure (approved \<le> cf_requested_amount f) (credit_error ''INVALID_AMOUNT'')) (\<lambda>_.
     and_then (ensure (approved \<le> pol_max_credit (get_solo db)) (credit_error ''AMOUNT_TOO_HIGH'')) (\<lambda>_.
     and_then (ensure (approved = cf_requested_amount f \<or> strip reason \<noteq> '''')
                 (credit_error ''REASON_REQUIRED'')) (\<lambda>_.
     let latest_due = today + int (pol_max_days (get_solo db)) in
     and_then (case due_date of
         None \<Rightarrow> Inr latest_due
       | Some d \<Rightarrow> if latest_due < d then Inl (credit_error ''DUE_DATE_TOO_LATE'') else Inr d) (\<lambda>due.
     let f' = f\<lparr>cf_approved_amount := Some approved, cf_approved_by := Some (u_id actor),
                cf_approved_at := Some now, cf_approval_reason := strip reason,
                cf_due_date := Some due, cf_status := CF_APPROVED\<rparr>
     in Inr (audit i (Some (u_id actor)) ''APPROVED''
               (AV_Status_Amount (cf_status f) (cf_approved_amount f))
               (AV_Status_Amount CF_APPROVED (Some approved)) reason (update_facility f' db), f'))))))))))"

definition reject_facility ::
  "timestamp \<Rightarrow> ident \<Rightarrow> user \<Rightarrow> string \<Rightarrow> 'z credit_db_scheme \<Rightarrow>
   exn + ('z credit_db_scheme \<times> credit_facility)" where
  "reject_facility now i actor reason db =
     and_then (ensure (u_type actor = Some ADMIN) (WalletCreditError ''FORBIDDEN'' 403)) (\<lambda>_.
     and_then (ensure (strip reason \<noteq> '''') (credit_error ''REASON_REQUIRED'')) (\<lambda>_.
     and_then (locked_facility db i) (\<lambda>f.
     if cf_status f \<in> {CF_CREDITED, CF_PARTIALLY_SETTLED, CF_CLEARED}
     then Inl (credit_error ''INVALID_STATE'')
     else (let f' = f\<lparr>cf_status := CF_REJECTED, cf_rejected_at := Some now,
                      cf_rejected_by := Some (u_id actor), cf_rejection_reason := strip reason\<rparr>
       in Inr (audit i (Some (u_id actor)) ''REJECTED'' (AV_Status (cf_status f))
                 (AV_Status CF_REJECTED) reason (update_facility f' db), f')))))"

text \<open>Unlike the other review steps this one does not look at the status.\<close>

definition return_for_clarification ::
  "ident \<Rightarrow> user \<Rightarrow> string \<Rightarrow> 'z credit_db_scheme \<Rightarrow> exn + ('z credit_db_scheme \<times> credit_facility)" where
  "return_for_clarification i actor reason db =
     and_then (ensure (u_type actor = Some ADMIN) (WalletCreditError ''FORBIDDEN'' 403)) (\<lambda>_.
     and_then (ensure (strip reason \<noteq> '''') (credit_error ''REASON_REQUIRED'')) (\<lambda>_.
     and_then (locked_facility db i) (\<lambda>f.
     let f' = f\<lparr>cf_status := CF_CLARIFICATION\<rparr>
     in Inr (audit i (Some (u_id actor)) ''CLARIFICATION'' (AV_Status (cf_status f))
               (AV_Status CF_CLARIFICATION) reason (update_facility f' db), f'))))"

subsection \<open>Posting and invoices\<close>

definition current_invoice :: "'z credit_db_scheme \<Rightarrow> ident \<Rightarrow> credit_invoice option" where
  "current_invoice db i =
     find (\<lambda>v. ci_facility v = i \<and> ci_status v \<noteq> IN_CANCELLED) (rev (cr_invoices db))"

definition issue_invoice ::
  "day \<Rightarrow> nat \<Rightarrow> credit_facility \<Rightarrow> user \<Rightarrow> 'z credit_db_scheme \<Rightarrow>
   exn + ('z credit_db_scheme \<times> credit_invoice)" where
  "issue_invoice today year f actor db = (case current_invoice db (cf_id f) of
     Some v \<Rightarrow> Inr (db, v)
   | None \<Rightarrow>
       (let v = \<lparr>ci_id = fresh_pk ci_id (cr_invoices db), ci_facility = cf_id f,
                 ci_number = next_invoice_number year db, ci_status = IN_ISSUED,
                 ci_issue_date = Some today, ci_due_date = cf_due_date f,
                 ci_approved_credit = (case cf_approved_amount f of None \<Rightarrow> 0 | Some a \<Rightarrow> a),
                 ci_amount_settled = 0, ci_outstanding_amount = cf_outstanding_amount f,
                 ci_issued_by = Some (u_id actor)\<rparr>
        in if ci_number v \<in> ci_number ` set (cr_invoices db) then Inl IntegrityError
           else Inr (audit (cf_id f) (Some (u_id actor)) ''INVOICE_ISSUED'' AV_None
                       (AV_Text (ci_number v)) '''' (db\<lparr>cr_invoices := cr_invoices db @ [v]\<rparr>), v)))"

definition posting_key_of :: "credit_facility \<Rightarrow> string" where
  "posting_key_of f =
     (if cf_posting_key f \<noteq> '''' then cf_posting_key f else ''credit-post-'' @ decimal (cf_id f))"

definition new_ledger_entry ::
  "ident \<Rightarrow> ledger_kind \<Rightarrow> paise \<Rightarrow> string \<Rightarrow> sub_wallet_txn \<Rightarrow> user \<Rightarrow> 'z credit_db_scheme \<Rightarrow>
   credit_ledger_entry" where
  "new_ledger_entry i kind amount reference txn actor db =
     \<lparr>cl_id = fresh_pk cl_id (cr_ledger db), cl_facility = i, cl_kind = kind, cl_amount = amount,
      cl_reference = reference, cl_txn = Some (tx_id txn), cl_created_by = Some (u_id actor)\<rparr>"

definition post_credit ::
  "timestamp \<Rightarrow> day \<Rightarrow> nat \<Rightarrow> ident \<Rightarrow> user \<Rightarrow> 'z credit_db_scheme \<Rightarrow>
   exn + ('z credit_db_scheme \<times> credit_facility)" where
  "post_credit now today year i actor db =
     and_then (ensure (u_type actor \<in> {Some ADMIN, Some FINANCE}) (WalletCreditError ''FORBIDDEN'' 403)) (\<lambda>_.
     and_then (locked_facility db i) (\<lambda>f.
     if cf_status f = CF_CREDITED \<and> cf_posting_key f \<noteq> '''' then Inr (db, f)
     else if cf_status f \<noteq> CF_APPROVED then Inl (credit_error ''INVALID_STATE'')
     else (case cf_approved_amount f of
       None \<Rightarrow> Inl (credit_error ''INVALID_AMOUNT'')
     | Some amount \<Rightarrow>
         if amount \<le> 0 then Inl (credit_error ''INVALID_AMOUNT'')
         else (case cf_sub_wallet f of
           None \<Rightarrow> Inl (credit_error ''SUBWALLET_NOT_FOUND'')
         | Some sub \<Rightarrow>
             (let key = posting_key_of f in
              if key \<in> cl_reference ` set (cr_ledger db)
              then (let f' = f\<lparr>cf_status := CF_CREDITED, cf_posting_key := key\<rparr>
                    in Inr (update_facility f' db, f'))
              else
                and_then (credit now sub amount (''WALLET_CREDIT '' @ cf_public_reference f)
                            (Some (cf_user f)) db) (\<lambda>(db1, txn).
                let db2 = db1\<lparr>cr_ledger := cr_ledger db1 @
                      [new_ledger_entry i WALLET_CREDIT amount key txn actor db1]\<rparr>;
                    f' = f\<lparr>cf_posting_key := key, cf_credited_at := Some now,
                           cf_status := CF_CREDITED,
                           cf_outstanding_amount := recompute_outstanding db2 i\<rparr>
                in and_then (issue_invoice today year f' actor (update_facility f' db2)) (\<lambda>(db3, _).
                   Inr (audit i (Some (u_id actor)) ''CREDITED'' AV_None (AV_Amount amount) '''' db3,
                        f'))))))))"

subsection \<open>Repaying\<close>

definition settle_invoice ::
  "credit_invoice option \<Rightarrow> paise \<Rightarrow> paise \<Rightarrow> 'z credit_db_scheme \<Rightarrow> 'z credit_db_scheme" where
  "settle_invoice invoice settled outstanding db = (case invoice of
     None \<Rightarrow> db
   | Some v \<Rightarrow> db\<lparr>cr_invoices := update_row ci_id (ci_id v)
       (\<lambda>_. v\<lparr>ci_amount_settled := settled, ci_outstanding_amount := outstanding,
              ci_status := (if outstanding = 0 then IN_PAID else IN_PARTIALLY_PAID)\<rparr>)
       (cr_invoices db)\<rparr>)"

text \<open>The bookkeeping once the money is out of the sub-wallet (\<open>txn\<close> is the debit).\<close>

definition record_repayment ::
  "timestamp \<Rightarrow> day \<Rightarrow> nat \<Rightarrow> string \<Rightarrow> credit_facility \<Rightarrow> user \<Rightarrow> paise \<Rightarrow> string \<Rightarrow> string \<Rightarrow> string \<Rightarrow>
   sub_wallet_txn \<Rightarrow> 'z credit_db_scheme \<Rightarrow> exn + ('z credit_db_scheme \<times> credit_payment)" where
  "record_repayment now today year stamp f actor pay mode utr remarks txn db1 =
     (let i = cf_id f;
          reference = next_ledger_reference ''REPAY'' stamp;
          entry = new_ledger_entry i CREDIT_REPAYMENT pay reference txn actor db1
      in if reference \<in> cl_reference ` set (cr_ledger db1) then Inl IntegrityError
         else
          (let db2 = db1\<lparr>cr_ledger := cr_ledger db1 @ [entry]\<rparr>;
               outstanding = recompute_outstanding db2 i;
               f' = f\<lparr>cf_outstanding_amount := outstanding,
                      cf_status := (if outstanding = 0 then CF_CLEARED else CF_PARTIALLY_SETTLED),
                      cf_cleared_at := (if outstanding = 0 then Some now else cf_cleared_at f)\<rparr>;
               db3 = update_facility f' db2;
               invoice = current_invoice db3 i;
               db4 = settle_invoice invoice (ledger_sum db3 i CREDIT_REPAYMENT) outstanding db3;
               payment = \<lparr>cp_id = fresh_pk cp_id (cr_payments db4), cp_facility = i,
                 cp_invoice = map_option ci_id invoice, cp_ledger_entry = Some (cl_id entry),
                 cp_amount = pay, cp_payment_date = today,
                 cp_mode = (if mode = '''' then ''wallet_debit'' else mode), cp_reference = utr,
                 cp_remarks = remarks, cp_receipt_number = next_receipt_number year db4,
                 cp_recorded_by = Some (u_id actor)\<rparr>
           in if cp_receipt_number payment \<in> cp_receipt_number ` set (cr_payments db4)
              then Inl IntegrityError
              else Inr (audit i (Some (u_id actor)) ''REPAYMENT'' AV_None (AV_Amount pay) ''''
                          (db4\<lparr>cr_payments := cr_payments db4 @ [payment]\<rparr>), payment)))"

definition repay_from_wallet ::
  "timestamp \<Rightarrow> day \<Rightarrow> nat \<Rightarrow> string \<Rightarrow> ident \<Rightarrow> user \<Rightarrow> decimal_in \<Rightarrow> string \<Rightarrow> string \<Rightarrow> string \<Rightarrow>
   'z credit_db_scheme \<Rightarrow> exn + ('z credit_db_scheme \<times> credit_payment)" where
  "repay_from_wallet now today year stamp i actor amount mode utr remarks db =
     and_then (locked_facility db i) (\<lambda>f.
     and_then (ensure (cf_user f = u_id actor \<or> u_type actor \<in> {Some ADMIN, Some FINANCE})
                 (WalletCreditError ''FORBIDDEN'' 403)) (\<lambda>_.
     and_then (ensure (cf_status f \<in> {CF_CREDITED, CF_PARTIALLY_SETTLED})
                 (credit_error ''INVALID_STATE'')) (\<lambda>_.
     and_then (money amount) (\<lambda>pay.
     and_then (ensure (0 < pay) (credit_error ''INVALID_AMOUNT'')) (\<lambda>_.
     and_then (ensure (pay \<le> recompute_outstanding db i) (credit_error ''INVALID_AMOUNT'')) (\<lambda>_.
     and_then (case cf_sub_wallet f of
         None \<Rightarrow> Inl (credit_error ''SUBWALLET_NOT_FOUND'') | Some sub \<Rightarrow> Inr sub) (\<lambda>sub.
     and_then (debit now sub pay (''CREDIT_REPAYMENT '' @ cf_public_reference f) (Some (cf_user f))
                 (Some 0) db) (\<lambda>(db1, txn).
     record_repayment now today year stamp f actor pay mode utr remarks txn db1))))))))"

subsection \<open>Overdue invoices and reconciliation\<close>

definition overdue_facilities :: "day \<Rightarrow> 'z credit_db_scheme \<Rightarrow> credit_facility list" where
  "overdue_facilities today db = filter (\<lambda>f.
     cf_status f \<in> {CF_CREDITED, CF_PARTIALLY_SETTLED} \<and>
     (case cf_due_date f of None \<Rightarrow> False | Some d \<Rightarrow> d < today) \<and> 0 < cf_outstanding_amount f)
     (cr_facilities db)"

definition mark_one_overdue ::
  "credit_facility \<Rightarrow> 'z credit_db_scheme \<times> nat \<Rightarrow> 'z credit_db_scheme \<times> nat" where
  "mark_one_overdue f = (\<lambda>(db, count).
     case find (\<lambda>v. ci_facility v = cf_id f \<and> ci_status v = IN_ISSUED) (rev (cr_invoices db)) of
       None \<Rightarrow> (db, count)
     | Some v \<Rightarrow>
         (audit (cf_id f) None ''OVERDUE_MARKED'' AV_None (AV_Amount (cf_outstanding_amount f)) ''''
            (db\<lparr>cr_invoices := update_row ci_id (ci_id v) (\<lambda>_. v\<lparr>ci_status := IN_OVERDUE\<rparr>)
               (cr_invoices db)\<rparr>), count + 1))"

definition mark_overdue_facilities ::
  "day \<Rightarrow> 'z credit_db_scheme \<Rightarrow> 'z credit_db_scheme \<times> nat" where
  "mark_overdue_facilities today db = fold mark_one_overdue (overdue_facilities today db) (db, 0)"

record reconciliation =
  rc_approved :: paise
  rc_credited :: paise
  rc_repaid :: paise
  rc_outstanding :: paise
  rc_invoice_outstanding :: paise
  rc_payments_total :: paise
  rc_consistent :: bool

text \<open>
  \<open>recompute_outstanding\<close> writes the recomputed amount into the facility object before the
  object's amount is compared with it, so that comparison is between equal values.
\<close>

definition reconcile_facility ::
  "credit_facility \<Rightarrow> 'z credit_db_scheme \<Rightarrow> reconciliation" where
  "reconcile_facility f0 db =
     (let outstanding = recompute_outstanding db (cf_id f0);
          f = f0\<lparr>cf_outstanding_amount := outstanding\<rparr>;
          repaid = ledger_sum db (cf_id f) CREDIT_REPAYMENT;
          paid = sum_list (map cp_amount (filter (\<lambda>p. cp_facility p = cf_id f) (cr_payments db)));
          invoice = current_invoice db (cf_id f)
      in \<lparr>rc_approved = (case cf_approved_amount f of None \<Rightarrow> 0 | Some a \<Rightarrow> a),
          rc_credited = ledger_sum db (cf_id f) WALLET_CREDIT, rc_repaid = repaid,
          rc_outstanding = outstanding,
          rc_invoice_outstanding = (case invoice of None \<Rightarrow> 0 | Some v \<Rightarrow> ci_outstanding_amount v),
          rc_payments_total = paid,
          rc_consistent = (outstanding = cf_outstanding_amount f \<and> repaid = paid \<and>
            (case invoice of None \<Rightarrow> True | Some v \<Rightarrow> ci_outstanding_amount v = outstanding))\<rparr>)"

end
