(* ===== verification/Credit_Books.thy ===== *)
theory Credit_Books
  imports Credit_Facility
begin

text \<open>
  The wallet credit facility's books: the invariant that ties a facility to its ledger
  entries, invoices and payments, every operation keeping it, and what follows for runs of the
  service together with everything else that moves money in the wallets.
\<close>

subsection \<open>The account of a facility\<close>

text \<open>
  What belongs to one facility: its ledger entries, invoices and payments.
\<close>

definition entries_of :: "'z credit_db_scheme \<Rightarrow> ident \<Rightarrow> credit_ledger_entry list" where
  "entries_of db i = filter (\<lambda>e. cl_facility e = i) (cr_ledger db)"

definition invoices_of :: "'z credit_db_scheme \<Rightarrow> ident \<Rightarrow> credit_invoice list" where
  "invoices_of db i = filter (\<lambda>v. ci_facility v = i) (cr_invoices db)"

definition payments_of :: "'z credit_db_scheme \<Rightarrow> ident \<Rightarrow> credit_payment list" where
  "payments_of db i = filter (\<lambda>p. cp_facility p = i) (cr_payments db)"

definition kind_sum :: "ledger_kind \<Rightarrow> credit_ledger_entry list \<Rightarrow> paise" where
  "kind_sum k es = sum_list (map cl_amount (filter (\<lambda>e. cl_kind e = k) es))"

definition postings_in :: "credit_ledger_entry list \<Rightarrow> credit_ledger_entry list" where
  "postings_in es = filter (\<lambda>e. cl_kind e = WALLET_CREDIT) es"

definition posting_key :: "ident \<Rightarrow> string" where
  "posting_key i = ''credit-post-'' @ decimal i"

definition live_invoice :: "credit_invoice list \<Rightarrow> credit_invoice option" where
  "live_invoice vs = find (\<lambda>v. ci_status v \<noteq> IN_CANCELLED) (rev vs)"

definition posted_statuses :: "facility_status set" where
  "posted_statuses = {CF_CREDITED, CF_PARTIALLY_SETTLED, CF_CLEARED}"

text \<open>
  The books of a facility are in order: at most one credit posting, under the facility's own
  key; every other entry a repayment; what is stored as outstanding is what was posted less
  what was repaid and never negative; the payments add up to the repayments; and the invoice
  in force shows the same amounts. A status that says the credit was posted is only there when
  it was.
\<close>

definition entry_ok :: "ident \<Rightarrow> credit_ledger_entry \<Rightarrow> bool" where
  "entry_ok i e \<longleftrightarrow> 0 < cl_amount e \<and>
     (cl_kind e = WALLET_CREDIT \<and> cl_reference e = posting_key i \<or>
      cl_kind e = CREDIT_REPAYMENT \<and> take 5 (cl_reference e) = ''REPAY'')"

definition account_ok ::
  "credit_facility \<Rightarrow> credit_ledger_entry list \<Rightarrow> credit_invoice list \<Rightarrow> credit_payment list \<Rightarrow> bool" where
  "account_ok f es vs ps \<longleftrightarrow>
     (cf_posting_key f = '''' \<or> cf_posting_key f = posting_key (cf_id f)) \<and>
     (\<forall>e\<in>set es. entry_ok (cf_id f) e) \<and> length (postings_in es) \<le> 1 \<and>
     kind_sum CREDIT_REPAYMENT es \<le> kind_sum WALLET_CREDIT es \<and>
     cf_outstanding_amount f = kind_sum WALLET_CREDIT es - kind_sum CREDIT_REPAYMENT es \<and>
     sum_list (map cp_amount ps) = kind_sum CREDIT_REPAYMENT es \<and>
     (postings_in es = [] \<longrightarrow> vs = []) \<and>
     (cf_status f \<in> posted_statuses \<longrightarrow> postings_in es \<noteq> []) \<and>
     (case live_invoice vs of
        None \<Rightarrow> True
      | Some v \<Rightarrow> ci_outstanding_amount v = cf_outstanding_amount f \<and>
                  ci_amount_settled v = kind_sum CREDIT_REPAYMENT es)"

definition credit_wf :: "'z credit_db_scheme \<Rightarrow> bool" where
  "credit_wf db \<longleftrightarrow>
     unique_keys cf_id (cr_facilities db) \<and> unique_keys ci_id (cr_invoices db) \<and>
     cl_facility ` set (cr_ledger db) \<subseteq> cf_id ` set (cr_facilities db) \<and>
     ci_facility ` set (cr_invoices db) \<subseteq> cf_id ` set (cr_facilities db) \<and>
     cp_facility ` set (cr_payments db) \<subseteq> cf_id ` set (cr_facilities db) \<and>
     (\<forall>f\<in>set (cr_facilities db).
        account_ok f (entries_of db (cf_id f)) (invoices_of db (cf_id f)) (payments_of db (cf_id f)))"

lemma kind_sum_simps [simp]:
  "kind_sum k [] = 0"
  "kind_sum k (e # es) = (if cl_kind e = k then cl_amount e else 0) + kind_sum k es"
  "kind_sum k (es @ es') = kind_sum k es + kind_sum k es'"
  by (simp_all add: kind_sum_def)

lemma postings_in_simps [simp]:
  "postings_in [] = []"
  "postings_in (e # es) = (if cl_kind e = WALLET_CREDIT then e # postings_in es else postings_in es)"
  "postings_in (es @ es') = postings_in es @ postings_in es'"
  by (simp_all add: postings_in_def)

lemma ledger_sum_kind_sum: "ledger_sum db i k = kind_sum k (entries_of db i)"
  by (simp add: ledger_sum_def kind_sum_def entries_of_def conj_commute)

lemma current_invoice_live: "current_invoice db i = live_invoice (invoices_of db i)"
proof -
  have "find (\<lambda>v. ci_facility v = i \<and> ci_status v \<noteq> IN_CANCELLED) xs =
      find (\<lambda>v. ci_status v \<noteq> IN_CANCELLED) (filter (\<lambda>v. ci_facility v = i) xs)" for xs
    by (induction xs) auto
  then show ?thesis by (simp add: current_invoice_def live_invoice_def invoices_of_def rev_filter)
qed

lemma account_sums:
  assumes "account_ok f es vs ps"
  shows "kind_sum CREDIT_ADJUSTMENT es = 0" "kind_sum CREDIT_REVERSAL es = 0"
    "0 \<le> kind_sum CREDIT_REPAYMENT es"
proof -
  have "\<forall>e\<in>set es. entry_ok (cf_id f) e" using assms by (simp add: account_ok_def)
  then show "kind_sum CREDIT_ADJUSTMENT es = 0" "kind_sum CREDIT_REVERSAL es = 0"
    "0 \<le> kind_sum CREDIT_REPAYMENT es"
    by (induction es) (auto simp: entry_ok_def)
qed

lemma recompute_is_stored:
  assumes "account_ok f (entries_of db (cf_id f)) vs ps"
  shows "recompute_outstanding db (cf_id f) = cf_outstanding_amount f"
  using assms account_sums [OF assms]
  by (simp add: recompute_outstanding_def ledger_sum_kind_sum account_ok_def Let_def)

lemma posting_key_inject: "posting_key i = posting_key j \<longleftrightarrow> i = j"
  by (simp add: posting_key_def decimal_inject)

lemma posting_key_of_ok:
  "account_ok f es vs ps \<Longrightarrow> posting_key_of f = posting_key (cf_id f)"
  by (auto simp: account_ok_def posting_key_of_def posting_key_def)

text \<open>A reference in the ledger that is a facility's key is the one of its own posting.\<close>

lemma key_used_posted:
  assumes "credit_wf db" "f \<in> set (cr_facilities db)"
    and "posting_key (cf_id f) \<in> cl_reference ` set (cr_ledger db)"
  shows "postings_in (entries_of db (cf_id f)) \<noteq> []"
proof -
  obtain e where e: "e \<in> set (cr_ledger db)" "cl_reference e = posting_key (cf_id f)"
    using assms(3) by auto
  with assms(1) obtain g where g: "g \<in> set (cr_facilities db)" "cl_facility e = cf_id g"
    by (auto simp: credit_wf_def)
  have "e \<in> set (entries_of db (cf_id g))" using e g by (simp add: entries_of_def)
  with assms(1) g have "entry_ok (cf_id g) e" by (auto simp: credit_wf_def account_ok_def)
  with e have "cl_kind e = WALLET_CREDIT" "cf_id g = cf_id f"
    by (auto simp: entry_ok_def posting_key_inject) (simp_all add: posting_key_def)
  with e g show ?thesis by (auto simp: postings_in_def entries_of_def filter_empty_conv)
qed

subsection \<open>Every operation keeps the books\<close>

lemma credit_wf_change:
  assumes wf: "credit_wf db" and f: "f \<in> set (cr_facilities db)" "cf_id f' = cf_id f"
    and rows: "cr_facilities db' = update_row cf_id (cf_id f) (\<lambda>_. f') (cr_facilities db)"
    and uk: "unique_keys ci_id (cr_invoices db')"
    and fk: "cl_facility ` set (cr_ledger db') \<subseteq> insert (cf_id f) (cl_facility ` set (cr_ledger db))"
      "ci_facility ` set (cr_invoices db') \<subseteq> insert (cf_id f) (ci_facility ` set (cr_invoices db))"
      "cp_facility ` set (cr_payments db') \<subseteq> insert (cf_id f) (cp_facility ` set (cr_payments db))"
    and other: "\<And>j. j \<noteq> cf_id f \<Longrightarrow> entries_of db' j = entries_of db j \<and>
      invoices_of db' j = invoices_of db j \<and> payments_of db' j = payments_of db j"
    and ok: "account_ok f' (entries_of db' (cf_id f)) (invoices_of db' (cf_id f))
      (payments_of db' (cf_id f))"
  shows "credit_wf db'"
proof -
  have u: "unique_keys cf_id (cr_facilities db)" using wf by (simp add: credit_wf_def)
  obtain xs ys where xs: "cr_facilities db = xs @ f # ys"
    "update_row cf_id (cf_id f) (\<lambda>_. f') (cr_facilities db) = xs @ f' # ys"
    using update_row_const [OF u f(1), of f'] by metis
  have ids: "cf_id ` set (cr_facilities db') = cf_id ` set (cr_facilities db)"
    unfolding rows xs(2) using f(2) by (simp add: xs(1))
  have "unique_keys cf_id (cr_facilities db')"
    using u f(2) unfolding rows xs(2) by (simp add: xs(1) unique_keys_def)
  moreover have "account_ok g (entries_of db' (cf_id g)) (invoices_of db' (cf_id g))
      (payments_of db' (cf_id g))" if g: "g \<in> set (cr_facilities db')" for g
  proof (cases "cf_id g = cf_id f")
    case True
    then have "g = f'"
      using g u unfolding rows xs(2) by (auto simp: xs(1) unique_keys_def rev_image_eqI)
    with ok f(2) show ?thesis by simp
  next
    case False
    then have "g \<in> set (cr_facilities db)"
      using g f(2) unfolding rows xs(2) by (auto simp: xs(1))
    with wf False show ?thesis by (simp add: credit_wf_def other)
  qed
  moreover have "cf_id f \<in> cf_id ` set (cr_facilities db)" using f(1) by simp
  then have "cl_facility ` set (cr_ledger db') \<subseteq> cf_id ` set (cr_facilities db')"
    "ci_facility ` set (cr_invoices db') \<subseteq> cf_id ` set (cr_facilities db')"
    "cp_facility ` set (cr_payments db') \<subseteq> cf_id ` set (cr_facilities db')"
    unfolding ids using wf fk unfolding credit_wf_def by (meson insert_subset subset_trans)+
  ultimately show ?thesis
    using uk by (simp add: credit_wf_def)
qed

text \<open>Changes of status and of what only concerns the review.\<close>

lemma credit_wf_status:
  assumes wf: "credit_wf db" and f: "f \<in> set (cr_facilities db)"
    and f': "cf_id f' = cf_id f" "cf_outstanding_amount f' = cf_outstanding_amount f"
      "cf_posting_key f' = '''' \<or> cf_posting_key f' = posting_key (cf_id f)"
    and st: "cf_status f' \<in> posted_statuses \<Longrightarrow> postings_in (entries_of db (cf_id f)) \<noteq> []"
    and rows: "cr_facilities db' = update_row cf_id (cf_id f) (\<lambda>_. f') (cr_facilities db)"
      "cr_ledger db' = cr_ledger db" "cr_invoices db' = cr_invoices db"
      "cr_payments db' = cr_payments db"
  shows "credit_wf db'"
proof (rule credit_wf_change [OF wf f f'(1) rows(1)])
  show "unique_keys ci_id (cr_invoices db')" using wf rows by (simp add: credit_wf_def)
  have "account_ok f (entries_of db (cf_id f)) (invoices_of db (cf_id f)) (payments_of db (cf_id f))"
    using wf f by (simp add: credit_wf_def)
  moreover have "entries_of db' = entries_of db" "invoices_of db' = invoices_of db"
    "payments_of db' = payments_of db"
    by (simp_all add: fun_eq_iff entries_of_def invoices_of_def payments_of_def rows)
  ultimately show "account_ok f' (entries_of db' (cf_id f)) (invoices_of db' (cf_id f))
      (payments_of db' (cf_id f))"
    using f' st by (auto simp: account_ok_def split: option.splits)
qed (auto simp: rows entries_of_def invoices_of_def payments_of_def)

lemma locked_facilityD: "locked_facility db i = Inr f \<Longrightarrow> f \<in> set (cr_facilities db) \<and> cf_id f = i"
  by (auto simp: locked_facility_def dest: row_of_SomeD split: option.splits)

lemma credit_wf_account:
  "credit_wf db \<Longrightarrow> f \<in> set (cr_facilities db) \<Longrightarrow>
   account_ok f (entries_of db (cf_id f)) (invoices_of db (cf_id f)) (payments_of db (cf_id f))"
  by (simp add: credit_wf_def)

lemma credit_wf_key:
  "credit_wf db \<Longrightarrow> f \<in> set (cr_facilities db) \<Longrightarrow>
   cf_posting_key f = '''' \<or> cf_posting_key f = posting_key (cf_id f)"
  using credit_wf_account by (auto simp: account_ok_def)

lemma audit_simps [simp]:
  "cr_facilities (audit i a x p n r db) = cr_facilities db"
  "cr_ledger (audit i a x p n r db) = cr_ledger db"
  "cr_invoices (audit i a x p n r db) = cr_invoices db"
  "cr_payments (audit i a x p n r db) = cr_payments db"
  by (simp_all add: audit_def)

lemma update_facility_simps [simp]:
  "cr_facilities (update_facility f db) = update_row cf_id (cf_id f) (\<lambda>_. f) (cr_facilities db)"
  "cr_ledger (update_facility f db) = cr_ledger db"
  "cr_invoices (update_facility f db) = cr_invoices db"
  "cr_payments (update_facility f db) = cr_payments db"
  by (simp_all add: update_facility_def)

text \<open>
  The four review operations change only fields of the review and the status, and none of them
  sets a status that says the credit was posted.
\<close>

definition reviewed :: "credit_facility \<Rightarrow> credit_facility \<Rightarrow> bool" where
  "reviewed f f' \<longleftrightarrow> cf_id f' = cf_id f \<and> cf_user f' = cf_user f \<and>
     cf_sub_wallet f' = cf_sub_wallet f \<and> cf_requested_amount f' = cf_requested_amount f \<and>
     cf_outstanding_amount f' = cf_outstanding_amount f \<and> cf_posting_key f' = cf_posting_key f \<and>
     cf_public_reference f' = cf_public_reference f \<and> cf_status f' \<notin> posted_statuses"

definition review_step :: "ident \<Rightarrow> 'z credit_db_scheme \<Rightarrow> credit_facility \<Rightarrow> 'z credit_db_scheme \<Rightarrow> bool" where
  "review_step i db f' db' \<longleftrightarrow> (\<exists>f. locked_facility db i = Inr f \<and> reviewed f f' \<and>
     cr_facilities db' = update_row cf_id i (\<lambda>_. f') (cr_facilities db) \<and>
     cr_ledger db' = cr_ledger db \<and> cr_invoices db' = cr_invoices db \<and>
     cr_payments db' = cr_payments db \<and> same_wallets db db')"

lemma same_wallets_audit [simp]: "same_wallets db (audit i a x p n r db') = same_wallets db db'"
  by (simp add: same_wallets_def audit_def)

lemma same_wallets_update_facility [simp]:
  "same_wallets db (update_facility f db') = same_wallets db db'"
  by (simp add: same_wallets_def update_facility_def)

lemma same_wallets_refl [simp]: "same_wallets db db"
  by (simp add: same_wallets_def)

lemma review_stepI:
  assumes "locked_facility db i = Inr f" "reviewed f f'"
  shows "review_step i db f' (audit i a x p n r (update_facility f' db))"
  using assms locked_facilityD [OF assms(1)]
  by (auto simp: review_step_def reviewed_def)

lemma mark_under_review_step:
  assumes "mark_under_review i actor db = Inr (db', f')"
  shows "review_step i db f' db'"
  using assms
  by (auto simp: mark_under_review_def and_then_eq_Inr Let_def reviewed_def posted_statuses_def
      split: if_splits intro!: review_stepI)

lemma approve_facility_step:
  assumes "approve_facility now today i actor a due reason db = Inr (db', f')"
  shows "review_step i db f' db'"
  using assms
  by (auto simp: approve_facility_def and_then_eq_Inr Let_def reviewed_def posted_statuses_def
      split: if_splits intro!: review_stepI)

lemma reject_facility_step:
  assumes "reject_facility now i actor reason db = Inr (db', f')"
  shows "review_step i db f' db'"
  using assms
  by (auto simp: reject_facility_def and_then_eq_Inr Let_def reviewed_def posted_statuses_def
      split: if_splits intro!: review_stepI)

lemma return_for_clarification_step:
  assumes "return_for_clarification i actor reason db = Inr (db', f')"
  shows "review_step i db f' db'"
  using assms
  by (auto simp: return_for_clarification_def and_then_eq_Inr Let_def reviewed_def
      posted_statuses_def split: if_splits intro!: review_stepI)

lemma review_step_wf:
  assumes "review_step i db f' db'" "credit_wf db"
  shows "credit_wf db'"
proof -
  from assms(1) obtain f where f: "locked_facility db i = Inr f" "reviewed f f'"
    and rows: "cr_facilities db' = update_row cf_id i (\<lambda>_. f') (cr_facilities db)"
      "cr_ledger db' = cr_ledger db" "cr_invoices db' = cr_invoices db"
      "cr_payments db' = cr_payments db"
    by (auto simp: review_step_def)
  have "f \<in> set (cr_facilities db)" "cf_id f = i" using locked_facilityD [OF f(1)] by auto
  with f(2) rows credit_wf_key [OF assms(2)] show ?thesis
    by (intro credit_wf_status [OF assms(2), of f f']) (auto simp: reviewed_def)
qed

lemma credit_more:
  fixes db :: "'z credit_db_scheme"
  assumes "wallet_db.more db' = wallet_db.more db"
  shows "cr_flags db' = cr_flags db" "cr_policy db' = cr_policy db" "cr_hods db' = cr_hods db"
    "cr_facilities db' = cr_facilities db" "cr_ledger db' = cr_ledger db"
    "cr_invoices db' = cr_invoices db" "cr_payments db' = cr_payments db"
    "cr_audit db' = cr_audit db"
  using assms by (cases db; cases db'; simp)+

lemma credit_wf_cong:
  "cr_facilities db' = cr_facilities db \<Longrightarrow> cr_ledger db' = cr_ledger db \<Longrightarrow>
   cr_invoices db' = cr_invoices db \<Longrightarrow> cr_payments db' = cr_payments db \<Longrightarrow>
   credit_wf db' = credit_wf db"
  by (simp add: credit_wf_def entries_of_def invoices_of_def payments_of_def)

lemma resolve_subwallet_cases:
  assumes "resolve_subwallet_for_user u d db = Inr (db1, sub)"
  obtains db0 w d0 where "wallet_get_or_create u db = Inr (db0, w)" "d = Some d0"
    "subwallet_get_or_create (w_id w) d0 db0 = (db1, sub)"
proof -
  obtain db0 w where w: "wallet_get_or_create u db = Inr (db0, w)"
    using assms by (auto simp: resolve_subwallet_for_user_def and_then_eq_Inr)
  obtain d0 where d0: "d = Some d0" "d0 \<noteq> 0"
    using assms w by (cases d) (auto simp: resolve_subwallet_for_user_def split: if_splits)
  have "subwallet_get_or_create (w_id w) d0 db0 = (db1, sub)"
    using assms w d0
    by (cases "find (\<lambda>r. d_id r = d0 \<and> d_internal r) (departments db0)";
        simp add: resolve_subwallet_for_user_def split: if_splits)
  with w d0 show thesis by (intro that) simp_all
qed

lemma resolve_subwallet_result:
  assumes "resolve_subwallet_for_user u d db = Inr (db1, sub)"
  shows "wallet_db.more db1 = wallet_db.more db \<and> (wallet_wf db \<longrightarrow> wallet_wf db1) \<and>
    balance_of db1 = balance_of db \<and> postings db1 = postings db \<and> users db1 = users db \<and>
    sub \<in> set (sub_wallets db1) \<and> d = Some (sw_department sub) \<and>
    (wallet_by_user db (u_id u) \<noteq> None \<or> can_have_wallet u)"
proof -
  from assms obtain db0 w d0 where w: "wallet_get_or_create u db = Inr (db0, w)"
    and sub: "subwallet_get_or_create (w_id w) d0 db0 = (db1, sub)" "d = Some d0"
    by (rule resolve_subwallet_cases)
  have "w_id w \<in> w_id ` set (wallets db0)" using wallet_get_or_create_result [OF w] by simp
  with wallet_get_or_create_result [OF w] subwallet_get_or_create_balances [OF sub(1)]
    subwallet_get_or_create_wf [OF sub(1)] subwallet_get_or_create_in [OF sub(1)] sub(2)
  have "wallet_db.more db1 = wallet_db.more db \<and> (wallet_wf db \<longrightarrow> wallet_wf db1) \<and>
    balance_of db1 = balance_of db \<and> postings db1 = postings db \<and> users db1 = users db \<and>
    sub \<in> set (sub_wallets db1) \<and> d = Some (sw_department sub)"
    by auto
  moreover have "wallet_by_user db (u_id u) \<noteq> None \<or> can_have_wallet u"
    using w by (auto simp: wallet_get_or_create_def split: option.splits if_splits)
  ultimately show ?thesis by simp
qed

lemma create_and_submit_result:
  assumes "create_and_submit_request now today year u a purpose d db = Inr (db', f)"
  obtains l db1 sub where
    "feature_enabled db" "can_request_wallet_credit (cr_flags db) today (cr_hods db) u = None"
    "row_of u_id (u_id u) (users db) = Some l" "user_has_blocking_facility db (u_id l) = None"
    "resolve_subwallet_for_user l d db = Inr (db1, sub)"
    "money a = Inr (cf_requested_amount f)" "pol_min_request (get_solo db) \<le> cf_requested_amount f"
    "cf_requested_amount f \<le> pol_max_credit (get_solo db)" "0 < cf_requested_amount f"
    "f = new_facility now year (u_id l) sub (cf_requested_amount f) (strip purpose) db1"
    "cf_public_reference f \<notin> cf_public_reference ` set (cr_facilities db1)"
    "cr_facilities db' = cr_facilities db1 @ [f]" "cr_ledger db' = cr_ledger db1"
    "cr_invoices db' = cr_invoices db1" "cr_payments db' = cr_payments db1"
    "same_wallets db1 db'"
proof -
  from assms obtain amount l db1 sub where *:
    "feature_enabled db" "assert_user_may_request_credit today db u = Inr ()"
    "money a = Inr amount" "pol_min_request (get_solo db) \<le> amount" "amount \<le> pol_max_credit (get_solo db)"
    "row_of u_id (u_id u) (users db) = Some l" "user_has_blocking_facility db (u_id l) = None"
    "resolve_subwallet_for_user l d db = Inr (db1, sub)" "0 < amount"
    "f = new_facility now year (u_id l) sub amount (strip purpose) db1"
    "cf_public_reference f \<notin> cf_public_reference ` set (cr_facilities db1)"
    "db' = audit (cf_id f) (Some (u_id l)) ''SUBMITTED'' AV_None (AV_Amount amount) (strip purpose)
       (db1\<lparr>cr_facilities := cr_facilities db1 @ [f]\<rparr>)"
    by (auto simp: create_and_submit_request_def and_then_eq_Inr Let_def
        split: if_splits option.splits)
  have "cf_requested_amount f = amount" using *(10) by (simp add: new_facility_def)
  moreover have "can_request_wallet_credit (cr_flags db) today (cr_hods db) u = None"
    using *(2) by (auto simp: assert_user_may_request_credit_def split: option.splits)
  ultimately show thesis
    using * by (intro that [of l db1 sub]) (simp_all add: same_wallets_def audit_def)
qed

lemma new_facility_fields [simp]:
  "cf_id (new_facility now year u sub a p db) = fresh_pk cf_id (cr_facilities db)"
  "cf_user (new_facility now year u sub a p db) = u"
  "cf_status (new_facility now year u sub a p db) = CF_SUBMITTED"
  "cf_outstanding_amount (new_facility now year u sub a p db) = 0"
  "cf_posting_key (new_facility now year u sub a p db) = ''''"
  "cf_sub_wallet (new_facility now year u sub a p db) = Some (sw_id sub)"
  "cf_public_reference (new_facility now year u sub a p db) = next_public_reference year db"
  "cf_approved_amount (new_facility now year u sub a p db) = None"
  by (simp_all add: new_facility_def)

lemma create_and_submit_wf:
  assumes "create_and_submit_request now today year u a purpose d db = Inr (db', f)"
    and wf: "credit_wf db"
  shows "credit_wf db'"
proof (rule create_and_submit_result [OF assms(1)])
  fix l db1 sub
  assume r: "resolve_subwallet_for_user l d db = Inr (db1, sub)"
    and f: "f = new_facility now year (u_id l) sub (cf_requested_amount f) (strip purpose) db1"
    and rows: "cr_facilities db' = cr_facilities db1 @ [f]" "cr_ledger db' = cr_ledger db1"
    "cr_invoices db' = cr_invoices db1" "cr_payments db' = cr_payments db1"
  have "wallet_db.more db1 = wallet_db.more db" using resolve_subwallet_result [OF r] by simp
  note same = credit_more [OF this]
  have wf1: "credit_wf db1" using wf by (simp add: credit_wf_cong [of db1 db] same)
  have new: "cf_id f \<notin> cf_id ` set (cr_facilities db1)"
    by (subst f) (simp add: fresh_pk_notin)
  have none: "entries_of db' (cf_id f) = []" "invoices_of db' (cf_id f) = []"
    "payments_of db' (cf_id f) = []"
  proof -
    have "cf_id f \<notin> cl_facility ` set (cr_ledger db1)" "cf_id f \<notin> ci_facility ` set (cr_invoices db1)"
      "cf_id f \<notin> cp_facility ` set (cr_payments db1)"
      using wf1 new unfolding credit_wf_def by blast+
    then show "entries_of db' (cf_id f) = []" "invoices_of db' (cf_id f) = []"
      "payments_of db' (cf_id f) = []"
      by (auto simp: entries_of_def invoices_of_def payments_of_def filter_empty_conv rows
          rev_image_eqI)
  qed
  have "account_ok f [] [] []"
    by (subst f) (simp add: account_ok_def posted_statuses_def live_invoice_def)
  moreover have "unique_keys cf_id (cr_facilities db')"
    using wf1 new unfolding rows by (intro unique_keys_append) (auto simp: credit_wf_def)
  moreover have "entries_of db' = entries_of db1" "invoices_of db' = invoices_of db1"
    "payments_of db' = payments_of db1"
    by (simp_all add: fun_eq_iff entries_of_def invoices_of_def payments_of_def rows)
  ultimately show "credit_wf db'"
    using wf1 none by (auto simp: credit_wf_def rows)
qed

lemma post_credit_cases:
  assumes "post_credit now today year i actor db = Inr (db', f')"
  obtains
    (again) "locked_facility db i = Inr f'" "cf_status f' = CF_CREDITED" "db' = db"
  | (found) f where "locked_facility db i = Inr f" "cf_status f = CF_APPROVED"
      "posting_key_of f \<in> cl_reference ` set (cr_ledger db)"
      "f' = f\<lparr>cf_status := CF_CREDITED, cf_posting_key := posting_key_of f\<rparr>"
      "db' = update_facility f' db"
  | (posted) f amount sub db1 txn db2 db3 v where "locked_facility db i = Inr f"
      "cf_status f = CF_APPROVED" "cf_approved_amount f = Some amount" "cf_sub_wallet f = Some sub"
      "0 < amount" "posting_key_of f \<notin> cl_reference ` set (cr_ledger db)"
      "credit now sub amount (''WALLET_CREDIT '' @ cf_public_reference f) (Some (cf_user f)) db
         = Inr (db1, txn)"
      "db2 = db1\<lparr>cr_ledger := cr_ledger db1 @
         [new_ledger_entry i WALLET_CREDIT amount (posting_key_of f) txn actor db1]\<rparr>"
      "f' = f\<lparr>cf_posting_key := posting_key_of f, cf_credited_at := Some now,
              cf_status := CF_CREDITED, cf_outstanding_amount := recompute_outstanding db2 i\<rparr>"
      "issue_invoice today year f' actor (update_facility f' db2) = Inr (db3, v)"
      "db' = audit i (Some (u_id actor)) ''CREDITED'' AV_None (AV_Amount amount) '''' db3"
proof -
  from assms obtain f where f: "locked_facility db i = Inr f"
    by (auto simp: post_credit_def and_then_eq_Inr)
  show thesis
  proof (cases "cf_status f = CF_CREDITED \<and> cf_posting_key f \<noteq> ''''")
    case True
    with assms f show thesis by (intro again) (auto simp: post_credit_def and_then_eq_Inr)
  next
    case False
    with assms f obtain amount sub where
      st: "cf_status f = CF_APPROVED" "cf_approved_amount f = Some amount" "0 < amount"
        "cf_sub_wallet f = Some sub"
      by (cases "cf_approved_amount f"; cases "cf_sub_wallet f")
        (auto simp: post_credit_def and_then_eq_Inr split: if_splits)
    show thesis
    proof (cases "posting_key_of f \<in> cl_reference ` set (cr_ledger db)")
      case True
      with assms f st show thesis
        by (intro found [of f]) (auto simp: post_credit_def and_then_eq_Inr Let_def)
    next
      case new: False
      with assms f st show thesis
        by (auto simp: post_credit_def and_then_eq_Inr Let_def intro: posted [OF f st(1,2,4,3) new])
    qed
  qed
qed

lemma credit_result_more: "credit now i a d u db = Inr (db', t) \<Longrightarrow> wallet_db.more db' = wallet_db.more db"
  using credit_result [of now i a d u db db' t] by (simp add: moved_def)

lemma debit_result_more: "debit now i a d u m db = Inr (db', t) \<Longrightarrow> wallet_db.more db' = wallet_db.more db"
  using debit_result [of now i a d u m db db' t] by (simp add: moved_def)

lemma new_ledger_entry_fields [simp]:
  "cl_facility (new_ledger_entry i k a r t u db) = i"
  "cl_kind (new_ledger_entry i k a r t u db) = k"
  "cl_amount (new_ledger_entry i k a r t u db) = a"
  "cl_reference (new_ledger_entry i k a r t u db) = r"
  by (simp_all add: new_ledger_entry_def)

lemma key_unused_not_posted:
  assumes "account_ok f (entries_of db (cf_id f)) vs ps"
    and "posting_key (cf_id f) \<notin> cl_reference ` set (cr_ledger db)"
  shows "postings_in (entries_of db (cf_id f)) = []" "entries_of db (cf_id f) = []" "vs = []"
proof -
  have "cl_kind e \<noteq> WALLET_CREDIT" if "e \<in> set (entries_of db (cf_id f))" for e
  proof
    assume "cl_kind e = WALLET_CREDIT"
    moreover have "entry_ok (cf_id f) e" using assms(1) that by (simp add: account_ok_def)
    ultimately have "cl_reference e = posting_key (cf_id f)" by (simp add: entry_ok_def)
    moreover have "e \<in> set (cr_ledger db)" using that by (simp add: entries_of_def)
    ultimately show False using assms(2) by (metis imageI)
  qed
  then show none: "postings_in (entries_of db (cf_id f)) = []"
    by (auto simp: postings_in_def filter_empty_conv)
  then show "vs = []" using assms(1) by (simp add: account_ok_def)
  show "entries_of db (cf_id f) = []"
  proof (rule ccontr)
    assume "entries_of db (cf_id f) \<noteq> []"
    then obtain e es where e: "entries_of db (cf_id f) = e # es" by (cases "entries_of db (cf_id f)") auto
    have all: "\<forall>x\<in>set (e # es). cl_kind x = CREDIT_REPAYMENT \<and> 0 < cl_amount x"
      using assms(1) none unfolding e account_ok_def
      by (auto simp: entry_ok_def postings_in_def filter_empty_conv)
    then have "0 \<le> kind_sum CREDIT_REPAYMENT es" by (induction es) auto
    moreover have "kind_sum WALLET_CREDIT (e # es) = 0"
      using all by (induction "e # es" arbitrary: e es) (auto simp: kind_sum_def)
    ultimately show False
      using assms(1) all unfolding account_ok_def e by auto
  qed
qed

lemma post_credit_wf:
  assumes post: "post_credit now today year i actor db = Inr (db', f')" and wf: "credit_wf db"
  shows "credit_wf db'"
  using post
proof (cases rule: post_credit_cases)
  case again
  with wf show ?thesis by simp
next
  case (found f)
  have f: "f \<in> set (cr_facilities db)" "cf_id f = i" using locked_facilityD [OF found(1)] by auto
  have key: "posting_key_of f = posting_key (cf_id f)"
    using posting_key_of_ok [OF credit_wf_account [OF wf f(1)]] .
  show ?thesis
    using key_used_posted [OF wf f(1)] found(3,4,5) key
    by (intro credit_wf_status [OF wf f(1), of f']) auto
next
  case (posted f amount sub db1 txn db2 db3 v)
  have f: "f \<in> set (cr_facilities db)" "cf_id f = i" using locked_facilityD [OF posted(1)] by auto
  note acc = credit_wf_account [OF wf f(1)]
  have key: "posting_key_of f = posting_key i" using posting_key_of_ok [OF acc] f by simp
  note none = key_unused_not_posted [OF acc posted(6) [unfolded key f(2) [symmetric]], unfolded f(2)]
  note same = credit_more [OF credit_result_more [OF posted(7)]]
  let ?e = "new_ledger_entry i WALLET_CREDIT amount (posting_key i) txn actor db1"
  let ?db = "update_facility f' db2"
  have f': "cf_id f' = i" using posted(9) f by simp
  have rows2: "cr_facilities ?db = update_row cf_id i (\<lambda>_. f') (cr_facilities db)"
    "cr_ledger ?db = cr_ledger db @ [?e]" "cr_invoices ?db = cr_invoices db"
    "cr_payments ?db = cr_payments db"
    using posted(8) f' same by (simp_all add: key)
  have es2: "entries_of ?db i = [?e]"
    using none(2) unfolding entries_of_def rows2(2) by simp
  have out: "cf_outstanding_amount f' = amount"
  proof -
    have "entries_of db2 i = [?e]" using es2 by (simp only: entries_of_def update_facility_simps)
    then have "recompute_outstanding db2 i = amount"
      using posted(5) by (simp add: recompute_outstanding_def ledger_sum_kind_sum)
    with posted(9) show ?thesis by simp
  qed
  have "invoices_of ?db i = []" using none(3) unfolding invoices_of_def rows2(3) .
  then have "current_invoice ?db i = None" by (simp add: current_invoice_live live_invoice_def)
  with posted(10) f' have v: "ci_facility v = i" "ci_status v = IN_ISSUED" "ci_amount_settled v = 0"
    "ci_outstanding_amount v = amount" "ci_id v = fresh_pk ci_id (cr_invoices db)"
    and db3: "db3 = audit i (Some (u_id actor)) ''INVOICE_ISSUED'' AV_None (AV_Text (ci_number v)) ''''
      (?db\<lparr>cr_invoices := cr_invoices ?db @ [v]\<rparr>)"
    using rows2(3) by (auto simp: issue_invoice_def Let_def out split: if_splits)
  have rows: "cr_facilities db' = update_row cf_id i (\<lambda>_. f') (cr_facilities db)"
    "cr_ledger db' = cr_ledger db @ [?e]" "cr_invoices db' = cr_invoices db @ [v]"
    "cr_payments db' = cr_payments db"
    unfolding posted(11) db3 by (simp_all add: rows2 del: update_facility_simps)
  show ?thesis
  proof (rule credit_wf_change [OF wf f(1), of f', unfolded f(2), OF f' rows(1)])
    show "unique_keys ci_id (cr_invoices db')"
      using wf unfolding rows by (intro unique_keys_append) (auto simp: credit_wf_def v fresh_pk_notin)
    show "account_ok f' (entries_of db' i) (invoices_of db' i) (payments_of db' i)"
    proof -
      have "entries_of db' i = [?e]" using es2 unfolding entries_of_def rows(2) rows2(2) .
      moreover have "invoices_of db' i = [v]"
        using none(3) v by (simp add: invoices_of_def rows)
      moreover have "sum_list (map cp_amount (payments_of db' i)) = 0"
        using acc none(2) f by (simp add: account_ok_def payments_of_def rows)
      ultimately show ?thesis
        using posted(5,9) out v f key by (simp add: account_ok_def entry_ok_def live_invoice_def)
    qed
  qed (auto simp: rows entries_of_def invoices_of_def payments_of_def v)
qed

lemma repay_cases:
  assumes "repay_from_wallet now today year stamp i actor amount mode utr remarks db = Inr (db', p)"
  obtains f pay sub db1 txn where "locked_facility db i = Inr f"
    "cf_user f = u_id actor \<or> u_type actor \<in> {Some ADMIN, Some FINANCE}"
    "cf_status f \<in> {CF_CREDITED, CF_PARTIALLY_SETTLED}" "money amount = Inr pay" "0 < pay"
    "pay \<le> recompute_outstanding db i" "cf_sub_wallet f = Some sub"
    "debit now sub pay (''CREDIT_REPAYMENT '' @ cf_public_reference f) (Some (cf_user f)) (Some 0) db
       = Inr (db1, txn)"
    "record_repayment now today year stamp f actor pay mode utr remarks txn db1 = Inr (db', p)"
  using assms by (auto simp: repay_from_wallet_def and_then_eq_Inr split: option.splits)

lemma record_repayment_cases:
  assumes "record_repayment now today year stamp f actor pay mode utr remarks txn db1 = Inr (db', p)"
  obtains db2 db3 db4 f' where
    "''REPAY-'' @ stamp \<notin> cl_reference ` set (cr_ledger db1)"
    "db2 = db1\<lparr>cr_ledger := cr_ledger db1 @
       [new_ledger_entry (cf_id f) CREDIT_REPAYMENT pay (''REPAY-'' @ stamp) txn actor db1]\<rparr>"
    "f' = f\<lparr>cf_outstanding_amount := recompute_outstanding db2 (cf_id f),
       cf_status := (if recompute_outstanding db2 (cf_id f) = 0 then CF_CLEARED else CF_PARTIALLY_SETTLED),
       cf_cleared_at :=
         (if recompute_outstanding db2 (cf_id f) = 0 then Some now else cf_cleared_at f)\<rparr>"
    "db3 = update_facility f' db2"
    "db4 = settle_invoice (current_invoice db3 (cf_id f)) (ledger_sum db3 (cf_id f) CREDIT_REPAYMENT)
       (recompute_outstanding db2 (cf_id f)) db3"
    "db' = audit (cf_id f) (Some (u_id actor)) ''REPAYMENT'' AV_None (AV_Amount pay) ''''
       (db4\<lparr>cr_payments := cr_payments db4 @ [p]\<rparr>)"
    "cp_facility p = cf_id f" "cp_amount p = pay"
proof -
  have "next_ledger_reference ''REPAY'' stamp = ''REPAY-'' @ stamp"
    by (simp add: next_ledger_reference_def)
  with assms show thesis
    unfolding record_repayment_def Let_def
    by (intro that [OF _ refl refl refl refl]) (auto split: if_splits)
qed

lemma live_invoice_replace:
  assumes "live_invoice vs = Some v" "distinct vs" "ci_status v' \<noteq> IN_CANCELLED"
    and "vs = xs @ v # ys"
  shows "live_invoice (xs @ v' # ys) = Some v'"
proof -
  have "find (\<lambda>v. ci_status v \<noteq> IN_CANCELLED) (rev ys) = None"
  proof (cases "find (\<lambda>v. ci_status v \<noteq> IN_CANCELLED) (rev ys)")
    case (Some y)
    then have "y \<in> set ys" by (simp add: find_rev_SomeD)
    moreover have "y = v" using assms(1,4) Some by (simp add: live_invoice_def find_append_case)
    ultimately show ?thesis using assms(2,4) by simp
  qed simp
  with assms(3) show ?thesis by (simp add: live_invoice_def find_append_case)
qed

lemma unique_keys_distinct: "unique_keys pk rows \<Longrightarrow> distinct rows"
  by (auto simp: unique_keys_def distinct_map)

text \<open>Saving the invoice in force: the invoices of the other facilities are as they were.\<close>

lemma settle_invoice_result:
  assumes uk: "unique_keys ci_id (cr_invoices db)" and v: "live_invoice (invoices_of db i) = Some v"
    and v': "ci_id v' = ci_id v" "ci_facility v' = ci_facility v" "ci_status v' \<noteq> IN_CANCELLED"
    and db': "cr_invoices db' = update_row ci_id (ci_id v) (\<lambda>_. v') (cr_invoices db)"
  shows "live_invoice (invoices_of db' i) = Some v'" "unique_keys ci_id (cr_invoices db')"
    "j \<noteq> i \<Longrightarrow> invoices_of db' j = invoices_of db j"
    "ci_facility ` set (cr_invoices db') = ci_facility ` set (cr_invoices db)"
    "invoices_of db' i = [] \<longleftrightarrow> invoices_of db i = []" "ci_facility v = i"
proof -
  have "v \<in> set (invoices_of db i)" using v by (auto simp: live_invoice_def dest: find_rev_SomeD)
  then have mem: "v \<in> set (cr_invoices db)" and fac: "ci_facility v = i" by (auto simp: invoices_of_def)
  show "ci_facility v = i" by (rule fac)
  obtain xs ys where xs: "cr_invoices db = xs @ v # ys"
    "update_row ci_id (ci_id v) (\<lambda>_. v') (cr_invoices db) = xs @ v' # ys"
    using update_row_const [OF uk mem, of v'] by metis
  let ?F = "filter (\<lambda>v. ci_facility v = i)"
  have vs: "invoices_of db i = ?F xs @ v # ?F ys" using xs(1) fac by (simp add: invoices_of_def)
  have vs': "invoices_of db' i = ?F xs @ v' # ?F ys"
    using fac v'(2) unfolding invoices_of_def db' xs(2) by simp
  have "distinct (invoices_of db i)"
    using unique_keys_distinct [OF uk] by (simp add: invoices_of_def)
  from live_invoice_replace [OF v this v'(3) vs]
  show "live_invoice (invoices_of db' i) = Some v'" unfolding vs' .
  show "unique_keys ci_id (cr_invoices db')"
    using uk v'(1) unfolding db' xs(2) by (simp add: xs(1) unique_keys_def)
  show "j \<noteq> i \<Longrightarrow> invoices_of db' j = invoices_of db j"
    using fac v'(2) unfolding invoices_of_def db' xs(2) by (simp add: xs(1))
  show "ci_facility ` set (cr_invoices db') = ci_facility ` set (cr_invoices db)"
    using v'(2) unfolding db' xs(2) by (simp add: xs(1))
  show "invoices_of db' i = [] \<longleftrightarrow> invoices_of db i = []" by (simp add: vs vs')
qed

lemma settle_invoice_simps [simp]:
  "cr_facilities (settle_invoice v s out db) = cr_facilities db"
  "cr_ledger (settle_invoice v s out db) = cr_ledger db"
  "cr_payments (settle_invoice v s out db) = cr_payments db"
  by (simp_all add: settle_invoice_def split: option.split)

lemma entries_of_cong: "cr_ledger db' = cr_ledger db \<Longrightarrow> entries_of db' = entries_of db"
  by (simp add: entries_of_def fun_eq_iff)

lemma invoices_of_cong: "cr_invoices db' = cr_invoices db \<Longrightarrow> invoices_of db' = invoices_of db"
  by (simp add: invoices_of_def fun_eq_iff)

lemma payments_of_cong: "cr_payments db' = cr_payments db \<Longrightarrow> payments_of db' = payments_of db"
  by (simp add: payments_of_def fun_eq_iff)

text \<open>The account after a repayment of at most what is outstanding.\<close>

lemma account_ok_repaid:
  assumes acc: "account_ok f es vs ps" and pay: "0 < pay" "pay \<le> cf_outstanding_amount f"
    and e: "cl_kind e = CREDIT_REPAYMENT" "cl_amount e = pay" "take 5 (cl_reference e) = ''REPAY''"
    and f': "cf_id f' = cf_id f" "cf_posting_key f' = cf_posting_key f"
      "cf_outstanding_amount f' = cf_outstanding_amount f - pay"
    and vs': "vs' = [] \<longleftrightarrow> vs = []"
      "case live_invoice vs' of None \<Rightarrow> True | Some v \<Rightarrow>
         ci_outstanding_amount v = cf_outstanding_amount f - pay \<and>
         ci_amount_settled v = kind_sum CREDIT_REPAYMENT es + pay"
    and p: "cp_amount p = pay"
  shows "account_ok f' (es @ [e]) vs' (ps @ [p])"
proof -
  have "entry_ok (cf_id f) e" using e pay by (simp add: entry_ok_def)
  moreover have "postings_in es \<noteq> []"
  proof
    assume none: "postings_in es = []"
    then have "kind_sum WALLET_CREDIT es = 0" by (simp add: kind_sum_def postings_in_def)
    with acc account_sums(3) [OF acc] pay show False by (simp add: account_ok_def)
  qed
  ultimately show ?thesis
    using acc pay e f' vs' p unfolding account_ok_def by (auto split: option.splits)
qed

lemma repay_wf:
  assumes repay: "repay_from_wallet now today year stamp i actor amount mode utr remarks db = Inr (db', p)"
    and wf: "credit_wf (db :: 'z credit_db_scheme)"
  shows "credit_wf db'"
proof (rule repay_cases [OF repay])
  fix f pay sub db1 txn
  assume lock: "locked_facility db i = Inr f" and pay: "0 < pay" "pay \<le> recompute_outstanding db i"
    and deb: "debit now sub pay (''CREDIT_REPAYMENT '' @ cf_public_reference f) (Some (cf_user f))
      (Some 0) db = Inr (db1, txn)"
    and rec: "record_repayment now today year stamp f actor pay mode utr remarks txn db1 = Inr (db', p)"
  have f: "f \<in> set (cr_facilities db)" "cf_id f = i" using locked_facilityD [OF lock] by auto
  note acc = credit_wf_account [OF wf f(1), unfolded f(2)]
  have out0: "recompute_outstanding db i = cf_outstanding_amount f"
    using recompute_is_stored [of f db] acc f(2) by simp
  note same = credit_more [OF debit_result_more [OF deb]]
  show "credit_wf db'"
  proof (rule record_repayment_cases [OF rec, unfolded f(2)])
    fix db2 db3 db4 :: "'z credit_db_scheme" and f'
    let ?e = "new_ledger_entry i CREDIT_REPAYMENT pay (''REPAY-'' @ stamp) txn actor db1"
    let ?out = "recompute_outstanding db2 i"
    assume db2: "db2 = db1\<lparr>cr_ledger := cr_ledger db1 @ [?e]\<rparr>"
      and f': "f' = f\<lparr>cf_outstanding_amount := ?out,
         cf_status := (if ?out = 0 then CF_CLEARED else CF_PARTIALLY_SETTLED),
         cf_cleared_at := (if ?out = 0 then Some now else cf_cleared_at f)\<rparr>"
      and db3: "db3 = update_facility f' db2"
      and db4: "db4 = settle_invoice (current_invoice db3 i) (ledger_sum db3 i CREDIT_REPAYMENT) ?out db3"
      and db': "db' = audit i (Some (u_id actor)) ''REPAYMENT'' AV_None (AV_Amount pay) ''''
         (db4\<lparr>cr_payments := cr_payments db4 @ [p]\<rparr>)"
      and p: "cp_facility p = i" "cp_amount p = pay"
    have rows: "cr_facilities db' = update_row cf_id i (\<lambda>_. f') (cr_facilities db)"
      "cr_ledger db' = cr_ledger db @ [?e]" "cr_payments db' = cr_payments db @ [p]"
      "cr_invoices db' = cr_invoices db4" "cr_invoices db3 = cr_invoices db"
      using f(2) same unfolding db' db4 db3 db2 by (simp_all add: f')
    have es: "entries_of db' i = entries_of db i @ [?e]" "entries_of db3 i = entries_of db i @ [?e]"
      "entries_of db2 i = entries_of db i @ [?e]"
      using same by (simp_all add: entries_of_def rows(2) db3 db2)
    have out: "?out = cf_outstanding_amount f - pay"
      using acc account_sums [OF acc] pay out0
      by (simp add: recompute_outstanding_def ledger_sum_kind_sum es account_ok_def)
    have settled: "ledger_sum db3 i CREDIT_REPAYMENT = kind_sum CREDIT_REPAYMENT (entries_of db i) + pay"
      by (simp add: ledger_sum_kind_sum es)
    have inv3: "invoices_of db3 = invoices_of db" using rows(5) by (rule invoices_of_cong)
    have uk: "unique_keys ci_id (cr_invoices db3)" using wf rows(5) by (simp add: credit_wf_def)
    have inv: "unique_keys ci_id (cr_invoices db') \<and> (\<forall>j. j \<noteq> i \<longrightarrow> invoices_of db' j = invoices_of db j) \<and>
      ci_facility ` set (cr_invoices db') = ci_facility ` set (cr_invoices db) \<and>
      (invoices_of db' i = [] \<longleftrightarrow> invoices_of db i = []) \<and>
      (case live_invoice (invoices_of db' i) of None \<Rightarrow> True | Some v \<Rightarrow>
         ci_outstanding_amount v = cf_outstanding_amount f - pay \<and>
         ci_amount_settled v = kind_sum CREDIT_REPAYMENT (entries_of db i) + pay)"
    proof (cases "current_invoice db3 i")
      case None
      then have "cr_invoices db' = cr_invoices db" using rows by (simp add: db4 settle_invoice_def)
      moreover from this have "invoices_of db' = invoices_of db" by (rule invoices_of_cong)
      moreover have "live_invoice (invoices_of db i) = None"
        using None by (simp add: current_invoice_live inv3)
      ultimately show ?thesis using uk rows by simp
    next
      case (Some v)
      let ?v = "v\<lparr>ci_amount_settled := ledger_sum db3 i CREDIT_REPAYMENT, ci_outstanding_amount := ?out,
              ci_status := (if ?out = 0 then IN_PAID else IN_PARTIALLY_PAID)\<rparr>"
      have "cr_invoices db' = update_row ci_id (ci_id v) (\<lambda>_. ?v) (cr_invoices db3)"
        using rows(4) Some by (simp add: db4 settle_invoice_def)
      from settle_invoice_result [OF uk Some [unfolded current_invoice_live] _ _ _ this]
      show ?thesis using out settled inv3 rows(5) by auto
    qed
    show "credit_wf db'"
    proof (rule credit_wf_change [OF wf f(1), of f', unfolded f(2), OF _ rows(1)])
      show "cf_id f' = i" using f(2) by (simp add: f')
      show "account_ok f' (entries_of db' i) (invoices_of db' i) (payments_of db' i)"
        unfolding es(1)
        using account_ok_repaid [OF acc pay(1), of ?e f' "invoices_of db' i" p] inv p f out pay out0
        by (simp add: f' payments_of_def rows(3))
    qed (use inv p rows in \<open>auto simp: entries_of_def payments_of_def\<close>)
  qed
qed

text \<open>Marking an invoice overdue changes nothing the books look at.\<close>

definition invoice_core :: "credit_invoice \<Rightarrow> ident \<times> ident \<times> paise \<times> paise \<times> bool" where
  "invoice_core v = (ci_id v, ci_facility v, ci_outstanding_amount v, ci_amount_settled v,
     ci_status v = IN_CANCELLED)"

lemma live_invoice_core:
  assumes "map invoice_core vs' = map invoice_core vs"
  shows "map_option invoice_core (live_invoice vs') = map_option invoice_core (live_invoice vs)"
proof -
  have "map_option invoice_core (find (\<lambda>v. ci_status v \<noteq> IN_CANCELLED) xs) =
      find (\<lambda>c. \<not> snd (snd (snd (snd c)))) (map invoice_core xs)" for xs
    by (induction xs) (auto simp: invoice_core_def)
  from this [of "rev vs'"] this [of "rev vs"] assms show ?thesis
    by (simp add: live_invoice_def flip: rev_map)
qed

lemma account_ok_core:
  assumes "map invoice_core vs' = map invoice_core vs"
  shows "account_ok f es vs' ps = account_ok f es vs ps"
proof -
  have "(case live_invoice vs' of None \<Rightarrow> True | Some v \<Rightarrow>
         ci_outstanding_amount v = x \<and> ci_amount_settled v = y) =
        (case live_invoice vs of None \<Rightarrow> True | Some v \<Rightarrow>
         ci_outstanding_amount v = x \<and> ci_amount_settled v = y)" for x y
    using live_invoice_core [OF assms]
    by (auto simp: invoice_core_def split: option.splits)
  moreover have "vs' = [] \<longleftrightarrow> vs = []" using assms by (metis Nil_is_map_conv)
  ultimately show ?thesis by (simp add: account_ok_def)
qed

lemma invoices_of_core:
  assumes "map invoice_core (cr_invoices db') = map invoice_core (cr_invoices db)"
  shows "map invoice_core (invoices_of db' i) = map invoice_core (invoices_of db i)"
proof -
  have "map invoice_core (filter (\<lambda>v. ci_facility v = i) xs) =
      filter (\<lambda>c. fst (snd c) = i) (map invoice_core xs)" for xs
    by (induction xs) (auto simp: invoice_core_def)
  with assms show ?thesis by (simp add: invoices_of_def)
qed

lemma credit_wf_core:
  assumes wf: "credit_wf db" and core: "map invoice_core (cr_invoices db') = map invoice_core (cr_invoices db)"
    and same: "cr_facilities db' = cr_facilities db" "cr_ledger db' = cr_ledger db"
      "cr_payments db' = cr_payments db"
  shows "credit_wf db'"
proof -
  have "ci_id = fst \<circ> invoice_core" "ci_facility = fst \<circ> snd \<circ> invoice_core"
    by (simp_all add: fun_eq_iff invoice_core_def)
  then have ids: "map ci_id (cr_invoices db') = map ci_id (cr_invoices db)"
    and facs: "map ci_facility (cr_invoices db') = map ci_facility (cr_invoices db)"
    using core by (metis list.map_comp)+
  have "unique_keys ci_id (cr_invoices db')"
    using wf ids by (simp add: credit_wf_def unique_keys_def)
  moreover have "ci_facility ` set (cr_invoices db') = ci_facility ` set (cr_invoices db)"
    using facs by (metis set_map)
  ultimately show ?thesis
    using wf account_ok_core [OF invoices_of_core [OF core]]
    by (simp add: credit_wf_def same entries_of_cong [OF same(2)] payments_of_cong [OF same(3)])
qed

lemma mark_one_overdue_result:
  assumes "unique_keys ci_id (cr_invoices db)" "mark_one_overdue f (db, n) = (db', n')"
  shows "map invoice_core (cr_invoices db') = map invoice_core (cr_invoices db) \<and>
    cr_facilities db' = cr_facilities db \<and> cr_ledger db' = cr_ledger db \<and>
    cr_payments db' = cr_payments db \<and> same_wallets db db'"
proof (cases "find (\<lambda>v. ci_facility v = cf_id f \<and> ci_status v = IN_ISSUED) (rev (cr_invoices db))")
  case None
  with assms(2) show ?thesis by (simp add: mark_one_overdue_def)
next
  case (Some v)
  then have v: "v \<in> set (cr_invoices db)" "ci_status v = IN_ISSUED" by (auto dest: find_rev_SomeD)
  have "map invoice_core (update_row ci_id (ci_id v) (\<lambda>_. v\<lparr>ci_status := IN_OVERDUE\<rparr>) (cr_invoices db))
      = map invoice_core (cr_invoices db)"
    using v by (intro map_update_row_const [OF assms(1)]) (simp_all add: invoice_core_def)
  with Some assms(2) show ?thesis by (auto simp: mark_one_overdue_def same_wallets_def audit_def)
qed

lemma fold_overdue_wf:
  assumes "credit_wf db"
  shows "credit_wf (fst (fold mark_one_overdue fs (db, n))) \<and>
    same_wallets db (fst (fold mark_one_overdue fs (db, n))) \<and>
    cr_ledger (fst (fold mark_one_overdue fs (db, n))) = cr_ledger db \<and>
    cr_facilities (fst (fold mark_one_overdue fs (db, n))) = cr_facilities db"
  using assms
proof (induction fs arbitrary: db n)
  case (Cons f fs)
  obtain db1 n1 where one: "mark_one_overdue f (db, n) = (db1, n1)" by fastforce
  have "unique_keys ci_id (cr_invoices db)" using Cons.prems by (simp add: credit_wf_def)
  from mark_one_overdue_result [OF this one]
  have r: "map invoice_core (cr_invoices db1) = map invoice_core (cr_invoices db)"
    "cr_facilities db1 = cr_facilities db" "cr_ledger db1 = cr_ledger db"
    "cr_payments db1 = cr_payments db" "same_wallets db db1" by simp_all
  have "credit_wf db1" by (rule credit_wf_core [OF Cons.prems r(1-4)])
  from Cons.IH [OF this, of n1] r(2,3,5) one show ?case by (auto simp: same_wallets_def)
qed simp

subsection \<open>Runs of the facility service\<close>

text \<open>
  The service's operations, by anyone and in any order, interleaved with every other movement
  of the wallets.
\<close>

inductive credit_step :: "'z credit_db_scheme \<Rightarrow> 'z credit_db_scheme \<Rightarrow> bool" where
  cs_submit: "create_and_submit_request now today year u a purpose d db = Inr (db', f) \<Longrightarrow>
    credit_step db db'"
| cs_review: "mark_under_review i actor1 db = Inr (db', f) \<Longrightarrow> credit_step db db'"
| cs_approve: "approve_facility now today i actor a due reason db = Inr (db', f) \<Longrightarrow> credit_step db db'"
| cs_reject: "reject_facility now i actor reason db = Inr (db', f) \<Longrightarrow> credit_step db db'"
| cs_clarify: "return_for_clarification i actor reason db = Inr (db', f) \<Longrightarrow> credit_step db db'"
| cs_post: "post_credit now today year i actor db = Inr (db', f) \<Longrightarrow> credit_step db db'"
| cs_repay: "repay_from_wallet now today year stamp i actor a mode utr remarks db = Inr (db', p) \<Longrightarrow>
    credit_step db db'"
| cs_overdue: "mark_overdue_facilities today db = (db', n) \<Longrightarrow> credit_step db db'"
| cs_wallet: "wallet_step db db' \<Longrightarrow> credit_step db db'"

lemma wallet_step_more:
  assumes "wallet_step db db'"
  shows "wallet_db.more db' = wallet_db.more db"
  using assms
proof (cases rule: wallet_step.cases)
  case (step_credit now i a d u t)
  then show ?thesis by (rule credit_result_more)
next
  case (step_debit now i a d u m t)
  then show ?thesis by (intro debit_result_more)
next
  case (step_wallet u w)
  then show ?thesis using wallet_get_or_create_result [OF step_wallet] by simp
next
  case (step_sub_wallet w d sw)
  then show ?thesis using subwallet_get_or_create_balances [OF step_sub_wallet(2)] by simp
next
  case (step_join r)
  then show ?thesis by (auto simp: join_save_def and_then_eq_Inr)
qed

lemma credit_step_wf:
  assumes "credit_wf db" "credit_step db db'"
  shows "credit_wf db'"
  using assms(2)
proof (cases rule: credit_step.cases)
  case (cs_overdue today n)
  then show ?thesis
    using fold_overdue_wf [OF assms(1), of "overdue_facilities today db" 0]
    by (simp add: mark_overdue_facilities_def)
next
  case cs_wallet
  from credit_more [OF wallet_step_more [OF this]] show ?thesis
    using assms(1) by (simp add: credit_wf_cong [of db' db])
next
  case cs_submit
  then show ?thesis using assms(1) by (rule create_and_submit_wf)
next
  case cs_review
  then show ?thesis by (intro review_step_wf [OF _ assms(1)]) (rule mark_under_review_step)
next
  case cs_approve
  then show ?thesis by (intro review_step_wf [OF _ assms(1)]) (rule approve_facility_step)
next
  case cs_reject
  then show ?thesis by (intro review_step_wf [OF _ assms(1)]) (rule reject_facility_step)
next
  case cs_clarify
  then show ?thesis by (intro review_step_wf [OF _ assms(1)]) (rule return_for_clarification_step)
next
  case cs_post
  then show ?thesis using assms(1) by (rule post_credit_wf)
next
  case cs_repay
  then show ?thesis using assms(1) by (rule repay_wf)
qed

interpretation credit_books: machine credit_step credit_wf
  by unfold_locales (rule credit_step_wf)

subsection \<open>The service moves money only through the wallets' own operations\<close>

lemma same_wallets_trans: "same_wallets a b \<Longrightarrow> same_wallets b c \<Longrightarrow> same_wallets a c"
  by (simp add: same_wallets_def)

text \<open>
  What a service operation does to the wallet tables, \<open>wallet_steps\<close> do as well.
\<close>

definition via_wallet :: "'z credit_db_scheme \<Rightarrow> 'z credit_db_scheme \<Rightarrow> bool" where
  "via_wallet db db' \<longleftrightarrow> (\<exists>db1. wallet_step\<^sup>*\<^sup>* db db1 \<and> same_wallets db1 db')"

lemma via_wallet_same: "same_wallets db db' \<Longrightarrow> via_wallet db db'"
  by (auto simp: via_wallet_def)

lemma via_wallet_step: "wallet_step db db1 \<Longrightarrow> same_wallets db1 db' \<Longrightarrow> via_wallet db db'"
  by (auto simp: via_wallet_def)

lemma settle_invoice_same [simp]: "same_wallets db (settle_invoice v s out db') = same_wallets db db'"
  by (simp add: settle_invoice_def same_wallets_def split: option.split)

lemma issue_invoice_same:
  assumes "issue_invoice today year f actor db = Inr (db', v)"
  shows "same_wallets db db'"
  using assms by (auto simp: issue_invoice_def Let_def same_wallets_def audit_def
      split: option.splits if_splits)

lemma submit_via_wallet:
  assumes "create_and_submit_request now today year u a purpose d db = Inr (db', f)"
  shows "via_wallet db db'"
proof (rule create_and_submit_result [OF assms])
  fix l db1 sub
  assume r: "resolve_subwallet_for_user l d db = Inr (db1, sub)" and s: "same_wallets db1 db'"
  from r obtain db0 w d0 where w: "wallet_get_or_create l db = Inr (db0, w)"
    and sub: "subwallet_get_or_create (w_id w) d0 db0 = (db1, sub)"
    by (rule resolve_subwallet_cases)
  have "wallet_step db db0" using w by (rule step_wallet)
  moreover have "wallet_step db0 db1"
    using wallet_get_or_create_result [OF w] by (intro step_sub_wallet [OF _ sub]) simp
  ultimately have "wallet_step\<^sup>*\<^sup>* db db1" by simp
  with s show ?thesis by (auto simp: via_wallet_def)
qed

lemma post_via_wallet:
  assumes "post_credit now today year i actor db = Inr (db', f)"
  shows "via_wallet db db'"
  using assms
proof (cases rule: post_credit_cases)
  case again
  then show ?thesis by (simp add: via_wallet_same)
next
  case (found f)
  then show ?thesis by (simp add: via_wallet_same)
next
  case (posted f0 amount sub db1 txn db2 db3 v)
  have "wallet_step db db1" using posted(7) by (rule step_credit)
  moreover have "same_wallets (update_facility f db2) db3" using issue_invoice_same [OF posted(10)] .
  then have "same_wallets db1 db'"
    unfolding posted(11) posted(8) by (simp add: same_wallets_def update_facility_def audit_def)
  ultimately show ?thesis by (rule via_wallet_step)
qed

lemma repay_via_wallet:
  assumes "repay_from_wallet now today year stamp i actor a mode utr remarks db = Inr (db', p)"
  shows "via_wallet (db :: 'z credit_db_scheme) db'"
proof (rule repay_cases [OF assms])
  fix f pay sub db1 txn
  assume d: "debit now sub pay (''CREDIT_REPAYMENT '' @ cf_public_reference f) (Some (cf_user f))
      (Some 0) db = Inr (db1, txn)"
    and rec: "record_repayment now today year stamp f actor pay mode utr remarks txn db1 = Inr (db', p)"
  have "same_wallets db1 db'"
    by (rule record_repayment_cases [OF rec])
      (simp add: same_wallets_def audit_def settle_invoice_def update_facility_def split: option.split)
  moreover have "wallet_step db db1" using d by (rule step_debit) simp
  ultimately show ?thesis by (intro via_wallet_step)
qed

lemma credit_step_via_wallet:
  assumes "credit_step db db'" "credit_wf db"
  shows "via_wallet db db'"
  using assms(1)
proof (cases rule: credit_step.cases)
  case cs_submit
  then show ?thesis by (rule submit_via_wallet)
next
  case cs_review
  then show ?thesis
    by (auto simp: review_step_def dest!: mark_under_review_step intro: via_wallet_same)
next
  case cs_approve
  then show ?thesis by (auto simp: review_step_def dest!: approve_facility_step intro: via_wallet_same)
next
  case cs_reject
  then show ?thesis by (auto simp: review_step_def dest!: reject_facility_step intro: via_wallet_same)
next
  case cs_clarify
  then show ?thesis
    by (auto simp: review_step_def dest!: return_for_clarification_step intro: via_wallet_same)
next
  case cs_post
  then show ?thesis by (rule post_via_wallet)
next
  case cs_repay
  then show ?thesis by (rule repay_via_wallet)
next
  case (cs_overdue today n)
  then show ?thesis
    using fold_overdue_wf [OF assms(2), of "overdue_facilities today db" 0]
    by (simp add: mark_overdue_facilities_def via_wallet_same)
next
  case cs_wallet
  then show ?thesis by (rule via_wallet_step) simp
qed

definition wallet_sound :: "'z wallet_db_scheme \<Rightarrow> bool" where
  "wallet_sound db \<longleftrightarrow> wallet_wf db \<and> solvent db \<and> reconciled db"

lemma wallet_sound_run:
  assumes "wallet_step\<^sup>*\<^sup>* db db'" "wallet_sound db"
  shows "wallet_sound db'"
  using wallet_machine.run_inv [OF assms(1)] wallet_ledger.run_reconciles [OF assms(1)] assms(2)
  by (simp add: wallet_sound_def reconciled_def)

lemma wallet_sound_same: "same_wallets db db' \<Longrightarrow> wallet_sound db' = wallet_sound db"
  by (simp add: wallet_sound_def same_walletsD solvent_def reconciled_def)

lemma credit_step_sound:
  assumes "credit_wf db \<and> wallet_sound db" "credit_step db db'"
  shows "credit_wf db' \<and> wallet_sound db'"
proof -
  obtain db1 where "wallet_step\<^sup>*\<^sup>* db db1" "same_wallets db1 db'"
    using credit_step_via_wallet [OF assms(2)] assms(1) by (auto simp: via_wallet_def)
  with assms(1) have "wallet_sound db'" by (simp add: wallet_sound_same wallet_sound_run)
  with credit_step_wf assms show ?thesis by blast
qed

interpretation credit_service: machine credit_step "\<lambda>db. credit_wf db \<and> wallet_sound db"
  by unfold_locales (rule credit_step_sound)

subsection \<open>The facility ledger is append-only\<close>

definition facility_outstanding :: "'z credit_db_scheme \<Rightarrow> ident \<Rightarrow> paise" where
  "facility_outstanding db i = (case row_of cf_id i (cr_facilities db) of
     None \<Rightarrow> 0 | Some f \<Rightarrow> cf_outstanding_amount f)"

definition facility_postings :: "'z credit_db_scheme \<Rightarrow> (ident \<times> int) list" where
  "facility_postings db = map (\<lambda>e. (cl_facility e,
     if cl_kind e = WALLET_CREDIT then cl_amount e else - cl_amount e)) (cr_ledger db)"

lemma outstanding_is_posted:
  assumes "credit_wf db"
  shows "facility_outstanding db i = posted i (facility_postings db)"
proof -
  have sums: "posted i (map (\<lambda>e. (cl_facility e,
      if cl_kind e = WALLET_CREDIT then cl_amount e else - cl_amount e)) es) =
    kind_sum WALLET_CREDIT (filter (\<lambda>e. cl_facility e = i) es) -
    kind_sum CREDIT_REPAYMENT (filter (\<lambda>e. cl_facility e = i) es)"
    if "\<forall>e\<in>set (filter (\<lambda>e. cl_facility e = i) es). cl_kind e \<in> {WALLET_CREDIT, CREDIT_REPAYMENT}"
    for es
    using that by (induction es) auto
  show ?thesis
  proof (cases "row_of cf_id i (cr_facilities db)")
    case None
    then have "i \<notin> cl_facility ` set (cr_ledger db)"
      using assms by (auto simp: row_of_None credit_wf_def)
    then have "i \<notin> fst ` set (facility_postings db)" by (auto simp: facility_postings_def)
    with None show ?thesis by (simp add: facility_outstanding_def posted_absent)
  next
    case (Some f)
    then have f: "f \<in> set (cr_facilities db)" "cf_id f = i" by (auto dest: row_of_SomeD)
    note acc = credit_wf_account [OF assms f(1), unfolded f(2)]
    then have "\<forall>e\<in>set (entries_of db i). cl_kind e \<in> {WALLET_CREDIT, CREDIT_REPAYMENT}"
      by (auto simp: account_ok_def entry_ok_def)
    then show ?thesis
      using acc Some sums [of "cr_ledger db"]
      by (simp add: facility_outstanding_def facility_postings_def entries_of_def account_ok_def)
  qed
qed

lemma credit_step_appends:
  assumes "credit_step db db'" "credit_wf db"
  shows "\<exists>new. cr_ledger db' = cr_ledger db @ new"
  using assms(1)
proof (cases rule: credit_step.cases)
  case (cs_submit now today year u a purpose d f)
  show ?thesis
  proof (rule create_and_submit_result [OF cs_submit])
    fix l db1 sub
    assume r: "resolve_subwallet_for_user l d db = Inr (db1, sub)" and "cr_ledger db' = cr_ledger db1"
    moreover have "wallet_db.more db1 = wallet_db.more db" using resolve_subwallet_result [OF r] by simp
    from credit_more(5) [OF this] have "cr_ledger db1 = cr_ledger db" .
    ultimately show ?thesis by simp
  qed
next
  case cs_review
  then show ?thesis by (auto simp: review_step_def dest!: mark_under_review_step)
next
  case cs_approve
  then show ?thesis by (auto simp: review_step_def dest!: approve_facility_step)
next
  case cs_reject
  then show ?thesis by (auto simp: review_step_def dest!: reject_facility_step)
next
  case cs_clarify
  then show ?thesis by (auto simp: review_step_def dest!: return_for_clarification_step)
next
  case (cs_post now today year i actor f)
  then show ?thesis
  proof (cases rule: post_credit_cases)
    case (posted f0 amount sub db1 txn db2 db3 v)
    have "cr_ledger db3 = cr_ledger db2"
      using posted(10) by (auto simp: issue_invoice_def Let_def split: option.splits if_splits)
    then show ?thesis
      using credit_more [OF credit_result_more [OF posted(7)]] posted(8,11) by simp
  qed simp_all
next
  case (cs_repay now today year stamp i actor a mode utr remarks p)
  show ?thesis
  proof (rule repay_cases [OF cs_repay])
    fix f pay sub db1 txn
    assume d: "debit now sub pay (''CREDIT_REPAYMENT '' @ cf_public_reference f) (Some (cf_user f))
        (Some 0) db = Inr (db1, txn)"
      and rec: "record_repayment now today year stamp f actor pay mode utr remarks txn db1 = Inr (db', p)"
    show ?thesis
      using credit_more [OF debit_result_more [OF d]]
      by (rule_tac record_repayment_cases [OF rec]) simp
  qed
next
  case (cs_overdue today n)
  then show ?thesis
    using fold_overdue_wf [OF assms(2), of "overdue_facilities today db" 0]
    by (simp add: mark_overdue_facilities_def)
next
  case cs_wallet
  from credit_more(5) [OF wallet_step_more [OF this]] show ?thesis by simp
qed

interpretation facility_ledger:
  ledger facility_outstanding facility_postings "\<lambda>db db'. credit_wf db \<and> credit_step db db'"
proof unfold_locales
  fix db db' :: "'z credit_db_scheme"
  assume step: "credit_wf db \<and> credit_step db db'"
  then obtain new where new: "cr_ledger db' = cr_ledger db @ new"
    using credit_step_appends by blast
  let ?new = "map (\<lambda>e. (cl_facility e,
     if cl_kind e = WALLET_CREDIT then cl_amount e else - cl_amount e)) new"
  have "facility_postings db' = facility_postings db @ ?new"
    by (simp add: facility_postings_def new)
  moreover from this have "\<forall>k. facility_outstanding db' k = facility_outstanding db k + posted k ?new"
    using step credit_step_wf [of db db'] by (simp add: outstanding_is_posted)
  ultimately show "\<exists>new. facility_postings db' = facility_postings db @ new \<and>
      (\<forall>k. facility_outstanding db' k = facility_outstanding db k + posted k new)" by blast
qed

subsection \<open>One active facility per user\<close>

definition active_of :: "ident \<Rightarrow> credit_facility list \<Rightarrow> credit_facility list" where
  "active_of u fs = filter (\<lambda>f. cf_user f = u \<and> cf_status f \<in> active_credit_blocking_statuses) fs"

definition one_active :: "'z credit_db_scheme \<Rightarrow> bool" where
  "one_active db \<longleftrightarrow> (\<forall>u. length (active_of u (cr_facilities db)) \<le> 1)"

text \<open>
  A step is careful when it returns for clarification only facilities that are still active:
  the code does not check this.
\<close>

definition careful :: "'z credit_db_scheme \<Rightarrow> 'z credit_db_scheme \<Rightarrow> bool" where
  "careful db db' \<longleftrightarrow> (\<forall>f\<in>set (cr_facilities db). \<forall>f'\<in>set (cr_facilities db').
     cf_id f' = cf_id f \<longrightarrow> cf_status f' = CF_CLARIFICATION \<longrightarrow>
     cf_status f \<in> active_credit_blocking_statuses)"

lemma one_active_update:
  assumes one: "one_active db" and uk: "unique_keys cf_id (cr_facilities db)"
    and f: "f \<in> set (cr_facilities db)" "cf_id f' = cf_id f" "cf_user f' = cf_user f"
    and st: "cf_status f' \<in> active_credit_blocking_statuses \<Longrightarrow>
      cf_status f \<in> active_credit_blocking_statuses"
    and rows: "cr_facilities db' = update_row cf_id (cf_id f) (\<lambda>_. f') (cr_facilities db)"
  shows "one_active db'"
proof -
  obtain xs ys where xs: "cr_facilities db = xs @ f # ys"
    "update_row cf_id (cf_id f) (\<lambda>_. f') (cr_facilities db) = xs @ f' # ys"
    using update_row_const [OF uk f(1), of f'] by metis
  have "length (active_of u (xs @ f' # ys)) \<le> length (active_of u (xs @ f # ys))" for u
    using f(3) st by (simp add: active_of_def)
  with one show ?thesis unfolding one_active_def rows xs(2) unfolding xs(1)
    by (meson order_trans)
qed

lemma updated_row_in:
  assumes "unique_keys pk rows" "r \<in> set rows"
  shows "r' \<in> set (update_row pk (pk r) (\<lambda>_. r') rows)"
  by (rule update_row_const [OF assms, of r']) simp

lemma review_one_active:
  assumes "review_step i db f' db'" "one_active db" "credit_wf db"
    and st: "\<And>f. locked_facility db i = Inr f \<Longrightarrow> cf_status f' \<in> active_credit_blocking_statuses \<Longrightarrow>
      cf_status f \<in> active_credit_blocking_statuses"
  shows "one_active db'"
proof -
  from assms(1) obtain f where f: "locked_facility db i = Inr f" "reviewed f f'"
    "cr_facilities db' = update_row cf_id i (\<lambda>_. f') (cr_facilities db)"
    by (auto simp: review_step_def)
  with locked_facilityD [OF f(1)] st [OF f(1)] assms(2,3) show ?thesis
    by (intro one_active_update [of db f f' db']) (auto simp: reviewed_def credit_wf_def)
qed

lemma approve_status:
  "approve_facility now today i actor a due reason db = Inr (db', f') \<Longrightarrow>
   locked_facility db i = Inr f \<Longrightarrow> cf_status f \<in> {CF_SUBMITTED, CF_UNDER_REVIEW, CF_CLARIFICATION}"
  by (auto simp: approve_facility_def and_then_eq_Inr)

lemma review_status:
  "mark_under_review i actor db = Inr (db', f') \<Longrightarrow> locked_facility db i = Inr f \<Longrightarrow>
   cf_status f \<in> {CF_SUBMITTED, CF_CLARIFICATION}"
  by (auto simp: mark_under_review_def and_then_eq_Inr split: if_splits)

lemma credit_step_one_active:
  assumes step: "credit_step db db'" and wf: "credit_wf (db :: 'z credit_db_scheme)" and one: "one_active db"
    and careful: "careful db db'"
  shows "one_active db'"
proof -
  have uk: "unique_keys cf_id (cr_facilities db)" using wf by (simp add: credit_wf_def)
  from step show ?thesis
proof (cases rule: credit_step.cases)
  case (cs_submit now today year u a purpose d f)
  show ?thesis
  proof (rule create_and_submit_result [OF cs_submit])
    fix l db1 sub
    assume r: "resolve_subwallet_for_user l d db = Inr (db1, sub)"
      and none: "user_has_blocking_facility db (u_id l) = None"
      and f: "f = new_facility now year (u_id l) sub (cf_requested_amount f) (strip purpose) db1"
      and rows: "cr_facilities db' = cr_facilities db1 @ [f]"
    have "wallet_db.more db1 = wallet_db.more db" using resolve_subwallet_result [OF r] by simp
    then have same: "cr_facilities db1 = cr_facilities db" by (rule credit_more(4))
    have user: "cf_user f = u_id l" by (subst f) simp
    have "active_of (u_id l) (cr_facilities db) = []"
      using none by (auto simp: user_has_blocking_facility_def find_None_iff active_of_def
          filter_empty_conv)
    then have "length (active_of v (cr_facilities db @ [f])) \<le> 1" for v
      using one user by (cases "v = u_id l") (auto simp: active_of_def one_active_def)
    then show ?thesis by (simp add: one_active_def rows same)
  qed
next
  case (cs_review i actor f)
  show ?thesis
    by (rule review_one_active [OF mark_under_review_step [OF cs_review] one wf])
      (use review_status [OF cs_review] in \<open>auto simp: active_credit_blocking_statuses_def\<close>)
next
  case (cs_approve now today i actor a due reason f)
  show ?thesis
    by (rule review_one_active [OF approve_facility_step [OF cs_approve] one wf])
      (use approve_status [OF cs_approve] in \<open>auto simp: active_credit_blocking_statuses_def\<close>)
next
  case (cs_reject now i actor reason f)
  then have "cf_status f = CF_REJECTED"
    by (auto simp: reject_facility_def and_then_eq_Inr Let_def split: if_splits)
  then show ?thesis
    by (intro review_one_active [OF reject_facility_step [OF cs_reject] one wf])
      (simp add: active_credit_blocking_statuses_def)
next
  case (cs_clarify i actor reason f)
  have f: "cf_status f = CF_CLARIFICATION"
    using cs_clarify by (auto simp: return_for_clarification_def and_then_eq_Inr Let_def)
  show ?thesis
  proof (rule review_one_active [OF return_for_clarification_step [OF cs_clarify] one wf])
    fix g assume g: "locked_facility db i = Inr g"
    then have gi: "g \<in> set (cr_facilities db)" "cf_id g = i" using locked_facilityD by auto
    obtain h where h: "locked_facility db i = Inr h" "reviewed h f"
      "cr_facilities db' = update_row cf_id i (\<lambda>_. f) (cr_facilities db)"
      using return_for_clarification_step [OF cs_clarify] by (auto simp: review_step_def)
    with g have "cf_id f = i" using gi by (simp add: reviewed_def)
    moreover have "unique_keys cf_id (cr_facilities db)" using wf by (simp add: credit_wf_def)
    from updated_row_in [OF this gi(1), of f] have "f \<in> set (cr_facilities db')"
      unfolding h(3) gi(2) .
    ultimately show "cf_status g \<in> active_credit_blocking_statuses"
      using careful gi f by (auto simp: careful_def)
  qed
next
  case (cs_post now today year i actor f')
  then show ?thesis
  proof (cases rule: post_credit_cases)
    case again
    with one show ?thesis by simp
  next
    case (found f)
    have f: "f \<in> set (cr_facilities db)" using locked_facilityD [OF found(1)] by simp
    show ?thesis
      by (rule one_active_update [OF one uk f, of f'])
        (simp_all add: found(2,4,5) active_credit_blocking_statuses_def)
  next
    case (posted f amount sub db1 txn db2 db3 v)
    have f: "f \<in> set (cr_facilities db)" "cf_id f = i" using locked_facilityD [OF posted(1)] by auto
    have "cr_facilities db3 = cr_facilities (update_facility f' db2)"
      using posted(10) by (auto simp: issue_invoice_def Let_def split: option.splits if_splits)
    then have "cr_facilities db' = update_row cf_id (cf_id f) (\<lambda>_. f') (cr_facilities db)"
      using credit_more(4) [OF credit_result_more [OF posted(7)]] posted(8,9,11) by simp
    from one_active_update [OF one uk f(1) _ _ _ this] show ?thesis
      by (simp add: posted(2,9) active_credit_blocking_statuses_def)
  qed
next
  case (cs_repay now today year stamp i actor a mode utr remarks p)
  show ?thesis
  proof (rule repay_cases [OF cs_repay])
    fix f pay sub db1 txn
    assume lock: "locked_facility db i = Inr f"
      and st: "cf_status f \<in> {CF_CREDITED, CF_PARTIALLY_SETTLED}"
      and d: "debit now sub pay (''CREDIT_REPAYMENT '' @ cf_public_reference f) (Some (cf_user f))
        (Some 0) db = Inr (db1, txn)"
      and rec: "record_repayment now today year stamp f actor pay mode utr remarks txn db1 = Inr (db', p)"
    have f: "f \<in> set (cr_facilities db)" using locked_facilityD [OF lock] by simp
    have same: "cr_facilities db1 = cr_facilities db"
      using credit_more(4) [OF debit_result_more [OF d]] .
    show ?thesis
    proof (rule record_repayment_cases [OF rec])
      fix db2 db3 db4 :: "'z credit_db_scheme" and f'
      assume *: "db2 = db1\<lparr>cr_ledger := cr_ledger db1 @
          [new_ledger_entry (cf_id f) CREDIT_REPAYMENT pay (''REPAY-'' @ stamp) txn actor db1]\<rparr>"
        and f': "f' = f\<lparr>cf_outstanding_amount := recompute_outstanding db2 (cf_id f),
          cf_status := (if recompute_outstanding db2 (cf_id f) = 0 then CF_CLEARED else CF_PARTIALLY_SETTLED),
          cf_cleared_at :=
            (if recompute_outstanding db2 (cf_id f) = 0 then Some now else cf_cleared_at f)\<rparr>"
        and **: "db3 = update_facility f' db2"
          "db4 = settle_invoice (current_invoice db3 (cf_id f)) (ledger_sum db3 (cf_id f) CREDIT_REPAYMENT)
             (recompute_outstanding db2 (cf_id f)) db3"
          "db' = audit (cf_id f) (Some (u_id actor)) ''REPAYMENT'' AV_None (AV_Amount pay) ''''
             (db4\<lparr>cr_payments := cr_payments db4 @ [p]\<rparr>)"
      have id: "cf_id f' = cf_id f" "cf_user f' = cf_user f" by (simp_all add: f')
      have "cr_facilities db' = update_row cf_id (cf_id f) (\<lambda>_. f') (cr_facilities db)"
        by (simp add: * ** same id)
      from one_active_update [OF one uk f id _ this] st show ?thesis
        by (auto simp: active_credit_blocking_statuses_def)
    qed
  qed
next
  case (cs_overdue today n)
  then show ?thesis
    using fold_overdue_wf [OF wf, of "overdue_facilities today db" 0] one
    by (simp add: mark_overdue_facilities_def one_active_def)
next
  case cs_wallet
  from credit_more(4) [OF wallet_step_more [OF this]] one show ?thesis by (simp add: one_active_def)
qed
qed

interpretation careful_service:
  machine "\<lambda>db db'. credit_step db db' \<and> careful db db'" "\<lambda>db. credit_wf db \<and> one_active db"
  by unfold_locales (blast intro: credit_step_wf credit_step_one_active)

lemma post_credit_row:
  assumes "post_credit now today year i actor db = Inr (db', f')" "credit_wf db"
  shows "f' \<in> set (cr_facilities db') \<and> cf_id f' = i"
  using assms(1)
proof (cases rule: post_credit_cases)
  case again
  then show ?thesis using locked_facilityD by blast
next
  case (found f)
  have f: "f \<in> set (cr_facilities db)" "cf_id f = i" using locked_facilityD [OF found(1)] by auto
  have uk: "unique_keys cf_id (cr_facilities db)" using assms(2) by (simp add: credit_wf_def)
  from updated_row_in [OF uk f(1), of f'] f show ?thesis by (simp add: found(4,5))
next
  case (posted f amount sub db1 txn db2 db3 v)
  have f: "f \<in> set (cr_facilities db)" "cf_id f = i" using locked_facilityD [OF posted(1)] by auto
  have uk: "unique_keys cf_id (cr_facilities db)" using assms(2) by (simp add: credit_wf_def)
  have id: "cf_id f' = i" using posted(9) f by simp
  have "cr_facilities db3 = cr_facilities (update_facility f' db2)"
    using posted(10) by (auto simp: issue_invoice_def Let_def split: option.splits if_splits)
  then have "cr_facilities db' = update_row cf_id (cf_id f) (\<lambda>_. f') (cr_facilities db)"
    using credit_more(4) [OF credit_result_more [OF posted(7)]] posted(8,11) id f by simp
  with updated_row_in [OF uk f(1), of f'] id show ?thesis by simp
qed

lemma post_credit_effect:
  assumes post: "post_credit now today year i actor db = Inr (db', f')" and wf: "credit_wf db"
  shows "(postings_in (entries_of db i) \<noteq> [] \<and> same_wallets db db' \<or>
      (\<exists>sub amount t db1. postings_in (entries_of db i) = [] \<and> cf_approved_amount f' = Some amount \<and>
        cf_sub_wallet f' = Some sub \<and> 0 < amount \<and> moved sub amount t db db1 \<and>
        same_wallets db1 db' \<and> kind_sum WALLET_CREDIT (entries_of db' i) = amount \<and>
        kind_sum CREDIT_REPAYMENT (entries_of db' i) = 0)) \<and>
    cf_status f' = CF_CREDITED"
  using post
proof (cases rule: post_credit_cases)
  case again
  have f: "f' \<in> set (cr_facilities db)" "cf_id f' = i" using locked_facilityD [OF again(1)] by auto
  then have "postings_in (entries_of db i) \<noteq> []"
    using credit_wf_account [OF wf f(1)] again(2) by (auto simp: account_ok_def posted_statuses_def)
  with again show ?thesis by simp
next
  case (found f)
  have f: "f \<in> set (cr_facilities db)" "cf_id f = i" using locked_facilityD [OF found(1)] by auto
  have "posting_key_of f = posting_key i"
    using posting_key_of_ok [OF credit_wf_account [OF wf f(1)]] f by simp
  then have "postings_in (entries_of db i) \<noteq> []"
    using key_used_posted [OF wf f(1)] found(3) f by simp
  with found show ?thesis by simp
next
  case (posted f amount sub db1 txn db2 db3 v)
  have f: "f \<in> set (cr_facilities db)" "cf_id f = i" using locked_facilityD [OF posted(1)] by auto
  note acc = credit_wf_account [OF wf f(1)]
  have key: "posting_key_of f = posting_key i" using posting_key_of_ok [OF acc] f by simp
  have none: "postings_in (entries_of db i) = []" "entries_of db i = []"
    using key_unused_not_posted(1,2) [OF acc] posted(6) key f by simp_all
  have "cr_ledger db3 = cr_ledger db2"
    using posted(10) by (auto simp: issue_invoice_def Let_def split: option.splits if_splits)
  then have "cr_ledger db' = cr_ledger db @
      [new_ledger_entry i WALLET_CREDIT amount (posting_key i) txn actor db1]"
    using credit_more(5) [OF credit_result_more [OF posted(7)]] posted(8,11) key by simp
  with none(2) have "entries_of db' i =
      [new_ledger_entry i WALLET_CREDIT amount (posting_key i) txn actor db1]"
    by (simp add: entries_of_def)
  moreover have "moved sub amount txn db db1" using credit_result [OF posted(7)] by simp
  moreover have "same_wallets db1 db'"
    using issue_invoice_same [OF posted(10)] unfolding posted(11) posted(8)
    by (simp add: same_wallets_def update_facility_def audit_def)
  ultimately show ?thesis using none(1) posted(3,4,5,9) by auto
qed

subsection \<open>A concrete facility\<close>

definition professor :: user where
  "professor = \<lparr>u_id = 1, u_name = ''A. Rao'', u_email = ''rao@x.in'', u_type = Some FACULTY,
     u_is_active = True, u_department = Some 7, u_joining_date = None, u_force_inactive = False,
     u_degree = None, u_is_superuser = False\<rparr>"

definition administrator :: user where
  "administrator = \<lparr>u_id = 2, u_name = ''Admin'', u_email = ''admin@x.in'', u_type = Some ADMIN,
     u_is_active = True, u_department = None, u_joining_date = None, u_force_inactive = False,
     u_degree = None, u_is_superuser = False\<rparr>"

definition credit_db0 :: credit_db where
  "credit_db0 = \<lparr>users = [professor, administrator],
     departments = [\<lparr>d_id = 7, d_name = ''Physics'', d_internal = True, d_grant_code = '''',
       d_enable_wallet_credit = True\<rparr>], sric_grant_code = '''', wallets = [], sub_wallets = [],
     sub_wallet_txns = [], join_requests = [], dept_settings = [], dept_facilities = [],
     dept_audit = [],
     cr_flags = \<lparr>wallet_credit_setting = True, wallet_credit_v2_setting = False\<rparr>,
     cr_policy = Some \<lparr>pol_enabled = True, pol_max_credit = 5000000, pol_max_outstanding = 5000000,
       pol_min_request = 10000, pol_max_days = 180\<rparr>,
     cr_hods = [], cr_facilities = [], cr_ledger = [], cr_invoices = [], cr_payments = [],
     cr_audit = []\<rparr>"

definition submitted_db :: credit_db where
  "submitted_db = fst (projr (create_and_submit_request 100 1 26 professor (Finite 1000) ''travel''
     (Some 7) credit_db0))"

definition approved_db :: credit_db where
  "approved_db = fst (projr (approve_facility 110 1 1 administrator (Finite 800) None ''budget''
     submitted_db))"

definition credited_db :: credit_db where
  "credited_db = fst (projr (post_credit 120 1 26 1 administrator approved_db))"

definition repaid_db :: credit_db where
  "repaid_db = fst (projr (repay_from_wallet 130 2 26 ''20260102'' 1 professor (Finite 300) '''' ''''
     '''' credited_db))"

lemma sample_steps:
  "credit_step credit_db0 submitted_db" "credit_step submitted_db approved_db"
  "credit_step approved_db credited_db" "credit_step credited_db repaid_db"
proof -
  have ok: "isl r = False \<Longrightarrow> r = Inr (fst (projr r), snd (projr r))" for r :: "exn + 'a \<times> 'b"
    by (cases r) auto
  have "isl (create_and_submit_request 100 1 26 professor (Finite 1000) ''travel'' (Some 7)
      credit_db0) = False" by code_simp
  from ok [OF this] show "credit_step credit_db0 submitted_db"
    unfolding submitted_db_def by (rule cs_submit)
  have "isl (approve_facility 110 1 1 administrator (Finite 800) None ''budget'' submitted_db) = False"
    by code_simp
  from ok [OF this] show "credit_step submitted_db approved_db"
    unfolding approved_db_def by (rule cs_approve)
  have "isl (post_credit 120 1 26 1 administrator approved_db) = False" by code_simp
  from ok [OF this] show "credit_step approved_db credited_db"
    unfolding credited_db_def by (rule cs_post)
  have "isl (repay_from_wallet 130 2 26 ''20260102'' 1 professor (Finite 300) '''' '''' ''''
      credited_db) = False" by code_simp
  from ok [OF this] show "credit_step credited_db repaid_db"
    unfolding repaid_db_def by (rule cs_repay)
qed

lemma sample_credit_run: "credit_step\<^sup>*\<^sup>* credit_db0 repaid_db"
  by (rule converse_rtranclp_into_rtranclp, rule sample_steps)+ simp

lemma credit_db0_ok: "credit_wf credit_db0" "wallet_sound credit_db0" "one_active credit_db0"
  by (simp_all add: credit_wf_def wallet_sound_def wallet_wf_def solvent_def reconciled_def
      balance_of_def postings_def one_active_def active_of_def credit_db0_def unique_keys_def
      professor_def administrator_def)

subsection \<open>Properties\<close>

text \<open>
  C7: along any run of the service by anyone, interleaved with all other wallet movements, the
  books of every facility balance: the credit was posted to the ledger at most once, what was
  repaid never exceeds it, the stored outstanding amount is the difference, the payments add up
  to the repayments, and the reconciliation report finds the facility consistent.
\<close>

theorem facility_books_balance:
  assumes "credit_step\<^sup>*\<^sup>* db db'" "credit_wf db" "f \<in> set (cr_facilities db')"
  shows "length (filter (\<lambda>e. cl_facility e = cf_id f \<and> cl_kind e = WALLET_CREDIT) (cr_ledger db')) \<le> 1 \<and>
    ledger_sum db' (cf_id f) CREDIT_REPAYMENT \<le> ledger_sum db' (cf_id f) WALLET_CREDIT \<and>
    cf_outstanding_amount f =
      ledger_sum db' (cf_id f) WALLET_CREDIT - ledger_sum db' (cf_id f) CREDIT_REPAYMENT \<and>
    sum_list (map cp_amount (filter (\<lambda>p. cp_facility p = cf_id f) (cr_payments db'))) =
      ledger_sum db' (cf_id f) CREDIT_REPAYMENT \<and>
    rc_consistent (reconcile_facility f db')"
proof -
  have "credit_wf db'" using credit_books.run_inv assms(1,2) by blast
  note acc = credit_wf_account [OF this assms(3)]
  have "postings_in (entries_of db' (cf_id f)) =
      filter (\<lambda>e. cl_facility e = cf_id f \<and> cl_kind e = WALLET_CREDIT) (cr_ledger db')"
    by (simp add: postings_in_def entries_of_def)
  moreover have "rc_consistent (reconcile_facility f db')"
    using acc recompute_is_stored [OF acc]
    by (auto simp: reconcile_facility_def Let_def account_ok_def ledger_sum_kind_sum
        current_invoice_live payments_of_def split: option.splits)
  ultimately show ?thesis
    using acc by (simp add: account_ok_def ledger_sum_kind_sum payments_of_def)
qed

theorem facility_books_balance_witness:
  "map cf_outstanding_amount (cr_facilities repaid_db) = map (\<lambda>f.
     ledger_sum repaid_db (cf_id f) WALLET_CREDIT - ledger_sum repaid_db (cf_id f) CREDIT_REPAYMENT)
     (cr_facilities repaid_db)"
  using facility_books_balance [OF sample_credit_run credit_db0_ok(1)] by simp

text \<open>
  C9: the service moves money only through the operations of the wallets. Along any of its runs
  the sub-wallets stay well-formed, reconciled with their transaction log and non-negative, and
  the facility ledger is only ever appended to.
\<close>

theorem credit_runs_keep_wallets:
  assumes "credit_step\<^sup>*\<^sup>* db db'" "credit_wf db" "wallet_sound db"
  shows "wallet_wf db' \<and> solvent db' \<and> reconciled db' \<and>
    (\<exists>new. facility_postings db' = facility_postings db @ new) \<and>
    (\<forall>i. facility_outstanding db' i = posted i (facility_postings db'))"
proof -
  have inv: "credit_wf db' \<and> wallet_sound db'"
    using credit_service.run_inv assms by blast
  have "(\<lambda>db db'. credit_wf db \<and> credit_step db db')\<^sup>*\<^sup>* db db' \<and> credit_wf db'"
    using assms(1,2)
  proof (induction rule: rtranclp_induct)
    case (step y z)
    from step.IH [OF step.prems] step.hyps(2) have yz: "credit_wf y \<and> credit_step y z" by simp
    then have "(\<lambda>db db'. credit_wf db \<and> credit_step db db')\<^sup>*\<^sup>* db z"
      using step.IH [OF step.prems]
        rtranclp.rtrancl_into_rtrancl [of "\<lambda>db db'. credit_wf db \<and> credit_step db db'" db y z]
      by simp
    with credit_step_wf [of y z] yz show ?case by simp
  qed simp
  with facility_ledger.run_appends inv show ?thesis
    by (auto simp: wallet_sound_def outstanding_is_posted)
qed

theorem credit_runs_keep_wallets_witness: "solvent repaid_db \<and> reconciled repaid_db"
  using credit_runs_keep_wallets [OF sample_credit_run credit_db0_ok(1,2)] by simp

text \<open>
  C8: posting is exactly once. When \<open>post_credit\<close> succeeds, either the ledger already holds the
  facility's posting and no wallet changes, or the approved amount is added to the facility's
  sub-wallet with one transaction and the facility owes exactly that amount; a second call then
  changes no balance.
\<close>

theorem post_credit_once:
  assumes "post_credit now today year i actor db = Inr (db', f')" "credit_wf db"
  shows "(postings_in (entries_of db i) \<noteq> [] \<and> balance_of db' = balance_of db \<and>
      postings db' = postings db \<or>
     (\<exists>sub amount. postings_in (entries_of db i) = [] \<and> cf_approved_amount f' = Some amount \<and>
        cf_sub_wallet f' = Some sub \<and> 0 < amount \<and>
        balance_of db' = (balance_of db)(sub := balance_of db sub + amount) \<and>
        postings db' = postings db @ [(sub, amount)] \<and> cf_outstanding_amount f' = amount)) \<and>
    cf_status f' = CF_CREDITED \<and>
    (\<forall>now2 today2 year2 actor2 db2 f2. post_credit now2 today2 year2 i actor2 db' = Inr (db2, f2) \<longrightarrow>
       balance_of db2 = balance_of db' \<and> postings db2 = postings db')"
proof -
  have wf': "credit_wf db'" using post_credit_wf assms by blast
  note row = post_credit_row [OF assms]
  note acc = credit_wf_account [OF wf' conjunct1 [OF row], unfolded conjunct2 [OF row]]
  note first = post_credit_effect [OF assms]
  have posted': "postings_in (entries_of db' i) \<noteq> []"
    using acc first by (auto simp: account_ok_def posted_statuses_def)
  have second: "balance_of db2 = balance_of db' \<and> postings db2 = postings db'"
    if "post_credit now2 today2 year2 i actor2 db' = Inr (db2, f2)" for now2 today2 year2 actor2 db2 f2
    using post_credit_effect [OF that wf'] posted' by (auto simp: same_walletsD)
  have "cf_outstanding_amount f' =
      kind_sum WALLET_CREDIT (entries_of db' i) - kind_sum CREDIT_REPAYMENT (entries_of db' i)"
    using acc by (simp add: account_ok_def)
  then show ?thesis
    using first second by (auto simp: same_walletsD moved_balance moved_postings)
qed

theorem post_credit_once_witness:
  "\<exists>sub. balance_of credited_db = (balance_of approved_db)(sub := balance_of approved_db sub + 80000)"
proof -
  have wf: "credit_wf approved_db"
    using sample_steps(1,2) credit_db0_ok(1) credit_step_wf by blast
  have "\<not> isl (post_credit 120 1 26 1 administrator approved_db)" by code_simp
  then obtain f where post: "post_credit 120 1 26 1 administrator approved_db = Inr (credited_db, f)"
    by (cases "post_credit 120 1 26 1 administrator approved_db") (auto simp: credited_db_def)
  have "cl_facility ` set (cr_ledger approved_db) = {}" by code_simp
  then have none: "postings_in (entries_of approved_db 1) = []"
    by (simp add: entries_of_def)
  have "map_option cf_approved_amount (row_of cf_id 1 (cr_facilities credited_db)) = Some (Some 80000)"
    by code_simp
  moreover have "row_of cf_id 1 (cr_facilities credited_db) = Some f"
    using post_credit_row [OF post wf] post_credit_wf [OF post wf] row_of_unique
    by (fastforce simp: credit_wf_def)
  ultimately have "cf_approved_amount f = Some 80000" by simp
  with post_credit_once [OF post wf] none show ?thesis by auto
qed

text \<open>
  An approval is within its bounds: only the main administrator approves, a request still
  under review, for a positive amount no larger than requested or than the policy allows, with a
  reason when it is less than requested, and due no later than the policy's maximum duration.
\<close>

theorem approval_within_bounds:
  assumes "approve_facility now today i actor a due reason db = Inr (db', f')"
  shows "u_type actor = Some ADMIN \<and> cf_status f' = CF_APPROVED \<and>
    (\<exists>f approved d. locked_facility db i = Inr f \<and>
       cf_status f \<in> {CF_SUBMITTED, CF_UNDER_REVIEW, CF_CLARIFICATION} \<and>
       cf_approved_amount f' = Some approved \<and> money a = Inr approved \<and> 0 < approved \<and>
       approved \<le> cf_requested_amount f \<and> approved \<le> pol_max_credit (get_solo db) \<and>
       (approved < cf_requested_amount f \<longrightarrow> strip reason \<noteq> '''') \<and>
       cf_due_date f' = Some d \<and> d \<le> today + int (pol_max_days (get_solo db)) \<and>
       cr_facilities db' = update_row cf_id i (\<lambda>_. f') (cr_facilities db))"
proof -
  obtain f where f: "locked_facility db i = Inr f"
    using assms by (auto simp: approve_facility_def and_then_eq_Inr)
  have "cf_id f = i" using locked_facilityD [OF f] by simp
  with assms f show ?thesis
    by (cases due) (auto simp: approve_facility_def and_then_eq_Inr Let_def split: if_splits)
qed

theorem approval_within_bounds_witness:
  "\<exists>f'. approve_facility 110 1 1 administrator (Finite 800) None ''budget'' submitted_db
     = Inr (approved_db, f') \<and> cf_status f' = CF_APPROVED"
proof -
  have "\<not> isl (approve_facility 110 1 1 administrator (Finite 800) None ''budget'' submitted_db)"
    by code_simp
  then obtain f' where "approve_facility 110 1 1 administrator (Finite 800) None ''budget''
      submitted_db = Inr (approved_db, f')"
    by (cases "approve_facility 110 1 1 administrator (Finite 800) None ''budget'' submitted_db")
      (auto simp: approved_db_def)
  with approval_within_bounds [OF this] show ?thesis by blast
qed

text \<open>
  A user has at most one active facility, as long as facilities are returned for
  clarification only while they are active themselves.
\<close>

theorem one_active_facility:
  assumes "(\<lambda>db db'. credit_step db db' \<and> careful db db')\<^sup>*\<^sup>* db db'" "credit_wf db" "one_active db"
  shows "length (filter (\<lambda>f. cf_user f = u \<and> cf_status f \<in> active_credit_blocking_statuses)
    (cr_facilities db')) \<le> 1"
proof -
  have "one_active db'" using careful_service.run_inv assms by blast
  then show ?thesis by (simp add: one_active_def active_of_def)
qed

theorem one_active_facility_witness:
  "length (filter (\<lambda>f. cf_user f = 1 \<and> cf_status f \<in> active_credit_blocking_statuses)
     (cr_facilities submitted_db)) \<le> 1"
proof (rule one_active_facility [OF _ credit_db0_ok(1,3)])
  have "careful credit_db0 submitted_db" by (simp add: careful_def credit_db0_def)
  with sample_steps(1) show "(\<lambda>db db'. credit_step db db' \<and> careful db db')\<^sup>*\<^sup>* credit_db0 submitted_db"
    by (intro r_into_rtranclp) simp
qed

definition reopened_db :: credit_db where
  "reopened_db = fst (projr (return_for_clarification 1 administrator ''docs'' credited_db))"

definition rejected_db :: credit_db where
  "rejected_db = fst (projr (reject_facility 140 1 administrator ''no'' reopened_db))"


text \<open>
  Staff are listed as eligible for credit, but a staff member without a wallet of their own
  can never submit a request: the wallet that the request creates on the way is refused by its
  own validation, because staff types cannot have wallets.
\<close>

theorem staff_requests_never_succeed:
  assumes "row_of u_id (u_id u) (users db) = Some u" "classify_user today (cr_hods db) u = C_STAFF"
    and "wallet_by_user db (u_id u) = None"
  shows "create_and_submit_request now today year u a purpose d db \<noteq> Inr (db', f)"
proof
  assume ok: "create_and_submit_request now today year u a purpose d db = Inr (db', f)"
  have "\<exists>t. u_type u = Some t \<and> t \<in> staff_portal_types"
    using assms(2) by (auto simp: classify_user_def split: option.splits if_splits degree_kind.splits)
  then have no: "\<not> can_have_wallet u"
    by (auto simp: can_have_wallet_def staff_portal_types_def user_group_defs)
  show False
  proof (rule create_and_submit_result [OF ok])
    fix l db1 sub
    assume "row_of u_id (u_id u) (users db) = Some l" "resolve_subwallet_for_user l d db = Inr (db1, sub)"
    with assms(1,3) no resolve_subwallet_result [of l d db db1 sub] show False by simp
  qed
qed

theorem staff_requests_never_succeed_witness:
  "can_request_wallet_credit (cr_flags credit_db0) 1 [] administrator = None \<and>
   (\<forall>db' f. create_and_submit_request 100 1 26 administrator (Finite 1000) ''travel'' (Some 7)
      credit_db0 \<noteq> Inr (db', f))"
proof
  show "can_request_wallet_credit (cr_flags credit_db0) 1 [] administrator = None" by code_simp
  show "\<forall>db' f. create_and_submit_request 100 1 26 administrator (Finite 1000) ''travel'' (Some 7)
      credit_db0 \<noteq> Inr (db', f)"
    by (intro allI staff_requests_never_succeed)
      (simp_all add: credit_db0_def administrator_def professor_def wallet_by_user_def
        classify_user_def staff_portal_types_def)
qed

text \<open>
  The reconciliation report cannot notice that the stored outstanding amount is wrong.
\<close>

lemma reconcile_ignores_stored:
  "reconcile_facility (f\<lparr>cf_outstanding_amount := x\<rparr>) db = reconcile_facility f db"
  by (simp add: reconcile_facility_def Let_def)

text \<open>
  As long as fewer than 999,999 references of a year have been given out, all by this
  function, the next facility reference is one that no facility has, so that the unique
  constraint on it is never violated; when 1,000,000 have been given out the function keeps
  returning a reference that is already taken.
\<close>

theorem public_references:
  assumes "0 < year"
  shows "((\<forall>s\<in>set (with_prefix (year_prefix ''WC'' year) (map cf_public_reference (cr_facilities db))).
        \<exists>k < 999999. s = year_prefix ''WC'' year @ pad6 k) \<longrightarrow>
      next_public_reference year db \<notin> cf_public_reference ` set (cr_facilities db)) \<and>
    (set (with_prefix (year_prefix ''WC'' year) (map cf_public_reference (cr_facilities db))) =
        (\<lambda>k. year_prefix ''WC'' year @ pad6 k) ` {1..1000000} \<longrightarrow>
      next_public_reference year db \<in> cf_public_reference ` set (cr_facilities db))"
proof -
  let ?p = "year_prefix ''WC'' year" and ?used = "map cf_public_reference (cr_facilities db)"
  have p: "?p \<noteq> []" "last ?p = CHR ''-''" by (simp_all add: year_prefix_def)
  have "next_public_reference year db \<notin> set ?used"
    if "\<forall>s\<in>set (with_prefix ?p ?used). \<exists>k < 999999. s = ?p @ pad6 k"
    unfolding next_public_reference_def using that by (intro next_number_fresh(1) [OF p]) blast
  moreover have "next_public_reference year db \<in> set ?used"
    if used: "set (with_prefix ?p ?used) = (\<lambda>k. ?p @ pad6 k) ` {1..1000000}"
  proof -
    have "next_public_reference year db = ?p @ pad6 1000000"
      unfolding next_public_reference_def by (rule next_number_stuck [OF p used])
    also have "\<dots> \<in> set (with_prefix ?p ?used)" unfolding used by simp
    finally show ?thesis by (simp add: with_prefix_def)
  qed
  ultimately show ?thesis by simp
qed

theorem public_references_witness:
  "next_public_reference 26 credit_db0 \<notin> cf_public_reference ` set (cr_facilities credit_db0) \<and>
   next_public_reference 26 credit_db0 = ''WC-26-000001''"
proof
  show "next_public_reference 26 credit_db0 \<notin> cf_public_reference ` set (cr_facilities credit_db0)"
    by (rule public_references [of 26 credit_db0, THEN conjunct1, THEN mp])
      (simp_all add: credit_db0_def with_prefix_def)
  show "next_public_reference 26 credit_db0 = ''WC-26-000001''" by code_simp
qed

end
