(* ===== verification/Proc_Access.thy ===== *)
theory Proc_Access
  imports Identity
begin

text \<open>
  Who may do what in the procurement module: \<^verbatim>\<open>procurement_management/access.py\<close>, with the roles
  and permissions of \<^verbatim>\<open>constants.py\<close>, the configuration row of \<^verbatim>\<open>models.py\<close> and the approver
  lists of \<^verbatim>\<open>notify.py\<close>. The tables the module reads but does not own are one record, \<open>org\<close>;
  the operations of the module take the \<open>org\<close> of the moment they run at, so that accounts, roles
  and settings may change in any way between two of them. A \<open>scope\<close> holds what \<^verbatim>\<open>UserScope\<close>
  computes once per request. A set of departments that the code takes apart is a list here.
\<close>

named_theorems access_simps

subsection \<open>Roles, permissions and configuration\<close>

datatype module_role =
    R_LAB_OPERATOR | R_OIC | R_OC_STORES | R_OFFICE | R_HOD | R_AUDITOR | R_MAIN_ADMIN
  | R_ACCOUNTS | R_LAB_INCHARGE

datatype office_permission =
    P_RECORD_SMALL_PURCHASE | P_CONSOLIDATE | P_PROCUREMENT | P_INVOICES | P_PAYMENTS | P_ASSETS
  | P_STOCK | P_AMC | P_MASTERS | P_OFFLINE_APPROVAL | P_BUDGET | P_REPORTS

definition assignable_roles :: "module_role set" where
  "assignable_roles = {R_OC_STORES, R_OFFICE, R_HOD, R_AUDITOR, R_ACCOUNTS, R_LAB_INCHARGE}"

definition all_office_permissions :: "office_permission list" where
  "all_office_permissions =
     [P_RECORD_SMALL_PURCHASE, P_CONSOLIDATE, P_PROCUREMENT, P_INVOICES, P_PAYMENTS, P_ASSETS,
      P_STOCK, P_AMC, P_MASTERS, P_OFFLINE_APPROVAL, P_BUDGET, P_REPORTS]"

definition stores_permissions :: "office_permission set" where
  "stores_permissions = {P_STOCK, P_ASSETS, P_MASTERS, P_REPORTS}"

definition accounts_permissions :: "office_permission set" where
  "accounts_permissions = {P_INVOICES, P_PAYMENTS, P_BUDGET, P_REPORTS}"

definition dept_wide_roles :: "module_role set" where
  "dept_wide_roles = {R_OC_STORES, R_OFFICE, R_HOD, R_AUDITOR, R_MAIN_ADMIN, R_ACCOUNTS}"

datatype hod_approval_mode = In_App | Offline_Only | Either_Way

record pm_config =
  cfg_department :: ident
  cfg_module_enabled :: bool
  cfg_pilot_mode :: bool
  cfg_pilot_users :: "ident list"
  cfg_consumables_enabled :: bool
  cfg_non_consumables_enabled :: bool
  cfg_plan_enabled :: bool
  cfg_non_plan_enabled :: bool
  cfg_amc_enabled :: bool
  cfg_general_purchase_enabled :: bool
  cfg_minor_purchase_enabled :: bool
  cfg_major_purchase_enabled :: bool
  cfg_limited_life_enabled :: bool
  cfg_small_purchase_threshold :: paise
  cfg_hod_approval_threshold :: paise
  cfg_require_specification :: bool
  cfg_allow_resubmission :: bool
  cfg_hod_approval_mode :: hod_approval_mode
  cfg_accounts_budget_check :: bool

record role_assignment =
  ra_id :: ident
  ra_department :: ident
  ra_user :: ident
  ra_role :: module_role
  ra_permissions :: "office_permission list"
  ra_equipment_ids :: "ident list"
  ra_active :: bool

record equipment_row =
  eq_id :: ident
  eq_department :: "ident option"

record laboratory =
  lab_id :: ident
  lab_department :: ident
  lab_is_active :: bool

record temporary_oic =
  to_equipment :: ident
  to_user :: ident
  to_active :: bool
  to_start_at :: "timestamp option"
  to_resume_at :: timestamp

record proc_audit =
  pa_actor :: ident
  pa_action :: string
  pa_department :: ident
  pa_object :: ident
  pa_reason :: string

record org =
  o_users :: "user list"
  o_heads :: "(ident \<times> ident option) list"
  o_hods :: "hod_assignment list"
  o_configs :: "pm_config list"
  o_roles :: "role_assignment list"
  o_equipment :: "equipment_row list"
  o_managers :: "(ident \<times> ident) list"
  o_temporary_oics :: "temporary_oic list"
  o_operators :: "(ident \<times> ident) list"
  o_audit :: "proc_audit list"

definition module_user_types :: "user_type set" where
  "module_user_types = {ADMIN, DEPT_ADMIN, MANAGER, OPERATOR, FINANCE, OC_STORES, HOD}"

definition is_main_admin :: "user \<Rightarrow> bool" where
  "is_main_admin u = (u_is_superuser u \<or> u_type u = Some ADMIN)"

definition user_type_allowed :: "user \<Rightarrow> bool" where
  "user_type_allowed u = (u_is_superuser u \<or> (\<exists>t\<in>module_user_types. u_type u = Some t))"

subsection \<open>Heads of department\<close>

definition current_hod_assignments :: "day \<Rightarrow> org \<Rightarrow> hod_assignment list" where
  "current_hod_assignments today org = filter (\<lambda>h. ha_active h \<and> ha_effective_from h \<le> today \<and>
     effective_to_covers today h) (o_hods org)"

definition hod_department_ids :: "day \<Rightarrow> org \<Rightarrow> ident \<Rightarrow> ident list" where
  "hod_department_ids today org uid = (let current = current_hod_assignments today org in
     map ha_department (filter (\<lambda>h. ha_user h = uid) current) @
     map fst (filter (\<lambda>(d, head). head = Some uid \<and> d \<notin> ha_department ` set current) (o_heads org)))"

definition department_hod_ids :: "day \<Rightarrow> org \<Rightarrow> ident \<Rightarrow> ident list" where
  "department_hod_ids today org d =
     (let ids = map ha_user (filter (\<lambda>h. ha_department h = d) (current_hod_assignments today org))
      in if ids = [] then (case map_of (o_heads org) d of Some (Some head) \<Rightarrow> [head] | _ \<Rightarrow> [])
         else ids)"

text \<open>\<open>None\<close>: any department.\<close>

definition allowed_department_ids :: "day \<Rightarrow> org \<Rightarrow> user \<Rightarrow> ident list option" where
  "allowed_department_ids today org u =
     (if user_type_allowed u then None else Some (hod_department_ids today org (u_id u)))"

definition user_allowed_in :: "day \<Rightarrow> org \<Rightarrow> user \<Rightarrow> ident \<Rightarrow> bool" where
  "user_allowed_in today org u d = (case allowed_department_ids today org u of
     None \<Rightarrow> True | Some ds \<Rightarrow> d \<in> set ds)"

subsection \<open>Departments the module is on in\<close>

definition get_config :: "org \<Rightarrow> ident \<Rightarrow> pm_config option" where
  "get_config org d = find (\<lambda>cfg. cfg_department cfg = d) (o_configs org)"

definition pilot_admits :: "ident \<Rightarrow> pm_config \<Rightarrow> bool" where
  "pilot_admits uid cfg = (\<not> cfg_pilot_mode cfg \<or> uid \<in> set (cfg_pilot_users cfg))"

definition enabled_department_ids :: "org \<Rightarrow> ident \<Rightarrow> ident list" where
  "enabled_department_ids org uid = remdups (map cfg_department
     (filter (\<lambda>cfg. cfg_module_enabled cfg \<and> pilot_admits uid cfg) (o_configs org)))"

definition pilot_blocked :: "org \<Rightarrow> ident \<Rightarrow> bool" where
  "pilot_blocked org uid =
     (if list_ex (\<lambda>cfg. cfg_module_enabled cfg \<and> \<not> cfg_pilot_mode cfg) (o_configs org) then False
      else \<not> list_ex (\<lambda>cfg. cfg_pilot_mode cfg \<and> uid \<in> set (cfg_pilot_users cfg)) (o_configs org))"

definition proc_disabled :: exn where
  "proc_disabled = ProcurementError ''procurement_disabled'' 403"

definition proc_forbidden :: exn where
  "proc_forbidden = ProcurementError ''forbidden'' 403"

definition proc_not_found :: exn where
  "proc_not_found = ProcurementError ''not_found'' 404"

definition proc_error :: "string \<Rightarrow> exn" where
  "proc_error code = ProcurementError code 400"

definition require_config :: "org \<Rightarrow> ident \<Rightarrow> exn + pm_config" where
  "require_config org d = (case get_config org d of
     None \<Rightarrow> Inl proc_disabled
   | Some cfg \<Rightarrow> if cfg_module_enabled cfg then Inr cfg else Inl proc_disabled)"

subsection \<open>People to ask\<close>

text \<open>
  \<^verbatim>\<open>EquipmentTemporaryOIC.objects.active()\<close>; \<^verbatim>\<open>equipment_oic_users\<close> of \<^verbatim>\<open>communication/in_app.py\<close> and
  the lists of \<^verbatim>\<open>notify.py\<close>. A user id that is in no account row stands for no account: the
  foreign keys rule it out.
\<close>

definition temporary_oic_active :: "timestamp \<Rightarrow> temporary_oic \<Rightarrow> bool" where
  "temporary_oic_active now row = (to_active row \<and> now < to_resume_at row \<and>
     (case to_start_at row of None \<Rightarrow> True | Some s \<Rightarrow> s \<le> now))"

definition users_of :: "org \<Rightarrow> ident list \<Rightarrow> user list" where
  "users_of org ids = concat (map (\<lambda>i. case row_of u_id i (o_users org) of
     None \<Rightarrow> [] | Some u \<Rightarrow> [u]) ids)"

fun unique_active :: "ident set \<Rightarrow> user list \<Rightarrow> user list" where
  "unique_active seen [] = []"
| "unique_active seen (u # us) =
     (if u_id u \<in> seen \<or> \<not> u_is_active u then unique_active seen us
      else u # unique_active (insert (u_id u) seen) us)"

definition equipment_oic_users :: "timestamp \<Rightarrow> org \<Rightarrow> ident option \<Rightarrow> user list" where
  "equipment_oic_users now org e = (case e of
     None \<Rightarrow> []
   | Some eid \<Rightarrow> unique_active {} (users_of org
       (map snd (filter (\<lambda>(q, _). q = eid) (o_managers org)) @
        map to_user (filter (\<lambda>row. to_equipment row = eid \<and> temporary_oic_active now row)
          (o_temporary_oics org)))))"

definition department_role_users ::
  "org \<Rightarrow> ident \<Rightarrow> module_role \<Rightarrow> office_permission option \<Rightarrow> user list" where
  "department_role_users org d role permission = users_of org (map ra_user
     (filter (\<lambda>row. ra_department row = d \<and> ra_role row = role \<and> ra_active row \<and>
        \<not> (role = R_OFFICE \<and> (case permission of
             None \<Rightarrow> False | Some p \<Rightarrow> p \<notin> set (ra_permissions row)))) (o_roles org)))"

definition hod_users :: "day \<Rightarrow> org \<Rightarrow> ident \<Rightarrow> user list" where
  "hod_users today org d =
     filter (\<lambda>u. u_id u \<in> set (department_hod_ids today org d) \<and> u_is_active u) (o_users org) @
     department_role_users org d R_HOD None"

definition office_users :: "org \<Rightarrow> ident \<Rightarrow> office_permission \<Rightarrow> user list" where
  "office_users org d p = department_role_users org d R_OFFICE (Some p)"

subsection \<open>The scope of one user\<close>

record scope =
  sc_user :: user
  sc_enabled :: "ident list"
  sc_blocked :: bool
  sc_oic_equipment :: "(ident \<times> ident option) list"
  sc_operator_equipment :: "(ident \<times> ident option) list"
  sc_assignments :: "role_assignment list"
  sc_incharge_equipment :: "(ident \<times> ident option) list"
  sc_hod_departments :: "ident list"

definition equipment_in :: "org \<Rightarrow> (equipment_row \<Rightarrow> bool) \<Rightarrow> (ident \<times> ident option) list" where
  "equipment_in org P = map (\<lambda>e. (eq_id e, eq_department e)) (filter P (o_equipment org))"

definition managed_by_oic :: "timestamp \<Rightarrow> org \<Rightarrow> ident \<Rightarrow> ident \<Rightarrow> bool" where
  "managed_by_oic now org uid e = ((e, uid) \<in> set (o_managers org) \<or>
     list_ex (\<lambda>row. to_user row = uid \<and> to_equipment row = e \<and> temporary_oic_active now row)
       (o_temporary_oics org))"

text \<open>An in-charge assignment without equipment covers every equipment of its department.\<close>

definition in_charge_of :: "ident list \<Rightarrow> role_assignment list \<Rightarrow> equipment_row \<Rightarrow> bool" where
  "in_charge_of enabled rows e = list_ex (\<lambda>row. ra_role row = R_LAB_INCHARGE \<and>
     ra_department row \<in> set enabled \<and> eq_department e = Some (ra_department row) \<and>
     (ra_equipment_ids row = [] \<or> eq_id e \<in> set (ra_equipment_ids row))) rows"

definition user_scope ::
  "timestamp \<Rightarrow> day \<Rightarrow> org \<Rightarrow> user \<Rightarrow> ident list \<Rightarrow> bool \<Rightarrow> scope" where
  "user_scope now today org u enabled blocked =
     (let rows = filter (\<lambda>row. ra_user row = u_id u \<and> ra_active row) (o_roles org) in
      \<lparr>sc_user = u, sc_enabled = enabled, sc_blocked = blocked,
       sc_oic_equipment = equipment_in org (\<lambda>e. managed_by_oic now org (u_id u) (eq_id e)),
       sc_operator_equipment = equipment_in org (\<lambda>e. (eq_id e, u_id u) \<in> set (o_operators org)),
       sc_assignments = rows,
       sc_incharge_equipment = equipment_in org (in_charge_of enabled rows),
       sc_hod_departments = hod_department_ids today org (u_id u)\<rparr>)"

definition scope_for :: "timestamp \<Rightarrow> day \<Rightarrow> org \<Rightarrow> user \<Rightarrow> scope" where
  "scope_for now today org u =
     (let allowed = allowed_department_ids today org u in
      if allowed = Some [] \<or> pilot_blocked org (u_id u) then user_scope now today org u [] True
      else (case allowed of
          None \<Rightarrow> user_scope now today org u (enabled_department_ids org (u_id u)) False
        | Some ds \<Rightarrow> (let enabled = filter (\<lambda>d. d \<in> set ds) (enabled_department_ids org (u_id u)) in
            user_scope now today org u enabled (enabled = []))))"

definition sc_admin :: "scope \<Rightarrow> bool" where
  "sc_admin sc = (\<not> sc_blocked sc \<and> is_main_admin (sc_user sc))"

text \<open>\<^verbatim>\<open>roles_by_department\<close> and the queries on it.\<close>

definition scope_roles :: "scope \<Rightarrow> ident \<Rightarrow> module_role set" where
  "scope_roles sc d = (if d \<notin> set (sc_enabled sc) then {} else
     (if sc_admin sc then {R_MAIN_ADMIN} else {}) \<union>
     (if Some d \<in> snd ` set (sc_oic_equipment sc) then {R_OIC} else {}) \<union>
     (if Some d \<in> snd ` set (sc_operator_equipment sc) then {R_LAB_OPERATOR} else {}) \<union>
     (if d \<in> set (sc_hod_departments sc) then {R_HOD} else {}) \<union>
     ra_role ` set (filter (\<lambda>row. ra_department row = d) (sc_assignments sc)))"

definition department_ids :: "scope \<Rightarrow> ident list" where
  "department_ids sc = filter (\<lambda>d. scope_roles sc d \<noteq> {}) (sc_enabled sc)"

definition has_role :: "scope \<Rightarrow> ident \<Rightarrow> module_role \<Rightarrow> bool" where
  "has_role sc d r = (r \<in> scope_roles sc d)"

definition dept_wide :: "scope \<Rightarrow> ident \<Rightarrow> bool" where
  "dept_wide sc d = (scope_roles sc d \<inter> dept_wide_roles \<noteq> {})"

definition assigned_permissions :: "scope \<Rightarrow> ident \<Rightarrow> module_role \<Rightarrow> office_permission set" where
  "assigned_permissions sc d r =
     (case find (\<lambda>row. ra_department row = d \<and> ra_role row = r) (rev (sc_assignments sc)) of
        None \<Rightarrow> {} | Some row \<Rightarrow> set (ra_permissions row))"

definition scope_permissions :: "scope \<Rightarrow> ident \<Rightarrow> office_permission set" where
  "scope_permissions sc d = (let roles = scope_roles sc d in
     if R_MAIN_ADMIN \<in> roles then set all_office_permissions
     else ((if R_OFFICE \<in> roles then assigned_permissions sc d R_OFFICE else {}) \<union>
       (if R_OC_STORES \<in> roles then stores_permissions \<union> assigned_permissions sc d R_OC_STORES else {}) \<union>
       (if R_ACCOUNTS \<in> roles then accounts_permissions \<union> assigned_permissions sc d R_ACCOUNTS else {}) \<union>
       (if roles \<inter> {R_HOD, R_AUDITOR} \<noteq> {} then {P_REPORTS} else {})) \<inter> set all_office_permissions)"

definition has_perm :: "scope \<Rightarrow> ident \<Rightarrow> office_permission \<Rightarrow> bool" where
  "has_perm sc d p = (p \<in> scope_permissions sc d)"

definition is_oic_for :: "scope \<Rightarrow> ident option \<Rightarrow> bool" where
  "is_oic_for sc e = (\<exists>i\<in>fst ` set (sc_oic_equipment sc). e = Some i)"

definition is_operator_for :: "scope \<Rightarrow> ident option \<Rightarrow> bool" where
  "is_operator_for sc e = (\<exists>i\<in>fst ` set (sc_operator_equipment sc). e = Some i)"

definition is_incharge_for :: "scope \<Rightarrow> ident option \<Rightarrow> bool" where
  "is_incharge_for sc e = (\<exists>i\<in>fst ` set (sc_incharge_equipment sc). e = Some i)"

definition is_lab_staff_for :: "scope \<Rightarrow> ident option \<Rightarrow> bool" where
  "is_lab_staff_for sc e = (is_operator_for sc e \<or> is_incharge_for sc e \<or> is_oic_for sc e)"

definition require_any_department :: "scope \<Rightarrow> exn + unit" where
  "require_any_department sc = ensure (department_ids sc \<noteq> []) proc_disabled"

definition require_perm :: "scope \<Rightarrow> ident \<Rightarrow> office_permission \<Rightarrow> exn + unit" where
  "require_perm sc d p = ensure (has_perm sc d p) proc_forbidden"

definition require_dept_wide :: "scope \<Rightarrow> ident \<Rightarrow> exn + unit" where
  "require_dept_wide sc d = ensure (dept_wide sc d) proc_forbidden"

subsection \<open>The department of a request and the role it is raised in\<close>

text \<open>
  An id in the request data: missing or empty, not a number, or a number. The model is of
  \<^verbatim>\<open>pick_department\<close>, \<^verbatim>\<open>resolve_department\<close>, \<^verbatim>\<open>raising_role\<close> and \<^verbatim>\<open>can_raise_for_equipment\<close>.
\<close>

datatype raw_id = Raw_Missing | Raw_Bad | Raw_Id ident

definition the_only_department :: "scope \<Rightarrow> exn + ident" where
  "the_only_department sc = (case department_ids sc of
     [d] \<Rightarrow> Inr d | _ \<Rightarrow> Inl (proc_error ''department_ambiguous''))"

definition pick_department :: "scope \<Rightarrow> raw_id \<Rightarrow> exn + ident" where
  "pick_department sc raw = (case raw of
     Raw_Missing \<Rightarrow> the_only_department sc
   | Raw_Bad \<Rightarrow> Inl (proc_error ''invalid_id'')
   | Raw_Id d \<Rightarrow> if d \<in> set (department_ids sc) then Inr d else Inl proc_not_found)"

definition resolve_department ::
  "scope \<Rightarrow> equipment_row option \<Rightarrow> laboratory option \<Rightarrow> raw_id \<Rightarrow> exn + ident" where
  "resolve_department sc equipment lab raw =
     and_then
       (case equipment of
          Some e \<Rightarrow> (case eq_department e of
              None \<Rightarrow> Inl (proc_error ''equipment_no_department'')
            | Some d \<Rightarrow> (case lab of
                Some l \<Rightarrow> if lab_department l \<noteq> d then Inl (proc_error ''lab_mismatch'') else Inr d
              | None \<Rightarrow> Inr d))
        | None \<Rightarrow> (case lab of
            Some l \<Rightarrow> Inr (lab_department l)
          | None \<Rightarrow> if raw \<noteq> Raw_Missing then pick_department sc raw else the_only_department sc))
       (\<lambda>d. if d \<notin> set (sc_enabled sc) then Inl proc_disabled
         else if d \<notin> set (department_ids sc) then Inl proc_forbidden
         else Inr d)"

definition raising_role :: "scope \<Rightarrow> ident \<Rightarrow> ident option \<Rightarrow> exn + module_role" where
  "raising_role sc d e =
     (if is_oic_for sc e then Inr R_OIC
      else if is_incharge_for sc e then Inr R_LAB_INCHARGE
      else if is_operator_for sc e then Inr R_LAB_OPERATOR
      else (case find (\<lambda>r. r \<in> scope_roles sc d)
          [R_OFFICE, R_OC_STORES, R_ACCOUNTS, R_HOD, R_MAIN_ADMIN, R_OIC, R_LAB_INCHARGE, R_LAB_OPERATOR] of
        Some r \<Rightarrow> Inr r | None \<Rightarrow> Inl proc_forbidden))"

definition can_raise_for_equipment :: "scope \<Rightarrow> ident \<Rightarrow> ident option \<Rightarrow> bool" where
  "can_raise_for_equipment sc d e = (e = None \<or> is_lab_staff_for sc e \<or> dept_wide sc d)"

subsection \<open>Assigning and revoking roles\<close>

text \<open>
  \<^verbatim>\<open>config_service.assign_role\<close> and \<^verbatim>\<open>revoke_role\<close> with \<^verbatim>\<open>_clean_permissions\<close> and
  \<^verbatim>\<open>_clean_equipment_ids\<close>. The list arguments come from request data: missing, no list, or a
  list, in which \<open>None\<close> is an entry that is not a known permission or not a number.
\<close>

datatype 'a raw_list = Raw_None | Raw_No_List | Raw_List "'a option list"

text \<open>The permissions in the order of their codes, which is that of \<^verbatim>\<open>sorted\<close>.\<close>

definition permissions_by_name :: "office_permission list" where
  "permissions_by_name = [P_AMC, P_ASSETS, P_BUDGET, P_CONSOLIDATE, P_INVOICES, P_MASTERS,
     P_OFFLINE_APPROVAL, P_PAYMENTS, P_PROCUREMENT, P_RECORD_SMALL_PURCHASE, P_REPORTS, P_STOCK]"

definition clean_permissions ::
  "module_role \<Rightarrow> office_permission raw_list \<Rightarrow> exn + office_permission list" where
  "clean_permissions role raw =
     (if role \<notin> {R_OFFICE, R_OC_STORES, R_ACCOUNTS} then Inr []
      else (case raw of
          Raw_None \<Rightarrow> Inr (if role = R_OFFICE then all_office_permissions else [])
        | Raw_No_List \<Rightarrow> Inl (proc_error ''invalid_permissions'')
        | Raw_List ps \<Rightarrow> if None \<in> set ps then Inl (proc_error ''invalid_permissions'')
            else Inr (filter (\<lambda>p. Some p \<in> set ps) permissions_by_name)))"

definition clean_equipment_ids ::
  "org \<Rightarrow> module_role \<Rightarrow> ident \<Rightarrow> ident raw_list \<Rightarrow> exn + ident list" where
  "clean_equipment_ids org role d raw =
     (if role \<noteq> R_LAB_INCHARGE then Inr []
      else (case raw of
          Raw_None \<Rightarrow> Inr []
        | Raw_No_List \<Rightarrow> Inl (proc_error ''invalid_equipment'')
        | Raw_List es \<Rightarrow> if None \<in> set es then Inl (proc_error ''invalid_equipment'')
            else let ids = sort (remdups (map the es)) in
              if list_all (\<lambda>i. list_ex (\<lambda>e. eq_id e = i \<and> eq_department e = Some d) (o_equipment org)) ids
              then Inr ids else Inl (proc_error ''invalid_equipment'')))"

definition put_role :: "role_assignment \<Rightarrow> org \<Rightarrow> org \<times> ident" where
  "put_role row org =
     (case find (\<lambda>r. ra_department r = ra_department row \<and> ra_user r = ra_user row \<and>
         ra_role r = ra_role row) (o_roles org) of
        Some r \<Rightarrow> (org\<lparr>o_roles := update_row ra_id (ra_id r) (\<lambda>_. row\<lparr>ra_id := ra_id r\<rparr>) (o_roles org)\<rparr>, ra_id r)
      | None \<Rightarrow> (let i = fresh_pk ra_id (o_roles org) in
          (org\<lparr>o_roles := o_roles org @ [row\<lparr>ra_id := i\<rparr>]\<rparr>, i)))"

definition org_audit :: "proc_audit \<Rightarrow> org \<Rightarrow> org" where
  "org_audit a org = org\<lparr>o_audit := o_audit org @ [a]\<rparr>"

definition assign_role ::
  "day \<Rightarrow> user \<Rightarrow> ident \<Rightarrow> user \<Rightarrow> module_role option \<Rightarrow> office_permission raw_list \<Rightarrow> ident raw_list \<Rightarrow>
   org \<Rightarrow> exn + org" where
  "assign_role today actor d u role permissions equipment_ids org =
     and_then (ensure (is_main_admin actor) proc_forbidden) (\<lambda>_.
     and_then (case role of
         None \<Rightarrow> Inl (proc_error ''invalid_role'')
       | Some r \<Rightarrow> if r \<in> assignable_roles then Inr r else Inl (proc_error ''invalid_role'')) (\<lambda>r.
     and_then (ensure (user_allowed_in today org u d) (proc_error ''user_type_not_allowed'')) (\<lambda>_.
     and_then (clean_permissions r permissions) (\<lambda>perms.
     and_then (clean_equipment_ids org r d equipment_ids) (\<lambda>ids.
       let (org', i) = put_role \<lparr>ra_id = 0, ra_department = d, ra_user = u_id u, ra_role = r,
             ra_permissions = perms, ra_equipment_ids = ids, ra_active = True\<rparr> org
       in Inr (org_audit \<lparr>pa_actor = u_id actor, pa_action = ''role.assigned'', pa_department = d,
             pa_object = i, pa_reason = []\<rparr> org'))))))"

definition revoke_role :: "user \<Rightarrow> role_assignment \<Rightarrow> string \<Rightarrow> org \<Rightarrow> exn + org" where
  "revoke_role actor row reason org =
     and_then (ensure (is_main_admin actor) proc_forbidden) (\<lambda>_.
       if \<not> ra_active row then Inr org
       else Inr (org_audit \<lparr>pa_actor = u_id actor, pa_action = ''role.revoked'',
           pa_department = ra_department row, pa_object = ra_id row, pa_reason = reason\<rparr>
         (org\<lparr>o_roles := update_row ra_id (ra_id row) (\<lambda>r. r\<lparr>ra_active := False\<rparr>) (o_roles org)\<rparr>)))"

text \<open>What the table of role assignments always satisfies.\<close>

definition roles_wf :: "org \<Rightarrow> bool" where
  "roles_wf org = (unique_keys ra_id (o_roles org) \<and>
     distinct (map (\<lambda>r. (ra_department r, ra_user r, ra_role r)) (o_roles org)) \<and>
     (\<forall>row\<in>set (o_roles org). ra_role row \<in> assignable_roles))"

inductive role_step :: "org \<Rightarrow> org \<Rightarrow> bool" where
  Assign: "assign_role today actor d u role ps es org = Inr org' \<Longrightarrow> role_step org org'"
| Revoke: "row \<in> set (o_roles org) \<Longrightarrow> revoke_role actor row reason org = Inr org' \<Longrightarrow> role_step org org'"

inductive_cases role_stepE: "role_step org org'"

subsection \<open>Lemmas\<close>

lemma user_scope_simps [access_simps]:
  "sc_user (user_scope now today org u ds b) = u"
  "sc_enabled (user_scope now today org u ds b) = ds"
  "sc_blocked (user_scope now today org u ds b) = b"
  "sc_hod_departments (user_scope now today org u ds b) = hod_department_ids today org (u_id u)"
  "sc_assignments (user_scope now today org u ds b) =
     filter (\<lambda>row. ra_user row = u_id u \<and> ra_active row) (o_roles org)"
  "sc_oic_equipment (user_scope now today org u ds b) =
     equipment_in org (\<lambda>e. managed_by_oic now org (u_id u) (eq_id e))"
  by (simp_all add: user_scope_def Let_def)

lemma scope_for_user [simp]: "sc_user (scope_for now today org u) = u"
  by (simp add: scope_for_def Let_def access_simps split: option.splits)

lemma enabled_department:
  assumes "d \<in> set (enabled_department_ids org uid)"
  obtains cfg where "cfg \<in> set (o_configs org)" "cfg_department cfg = d" "cfg_module_enabled cfg"
    "pilot_admits uid cfg"
  using assms by (auto simp: enabled_department_ids_def)

lemma scope_enabled:
  assumes "d \<in> set (sc_enabled (scope_for now today org u))"
  shows "d \<in> set (enabled_department_ids org (u_id u))"
    and "user_type_allowed u \<or> d \<in> set (hod_department_ids today org (u_id u))"
    and "\<not> pilot_blocked org (u_id u)"
  using assms
  by (auto simp: scope_for_def Let_def access_simps allowed_department_ids_def
      split: option.splits if_splits)

lemma scope_assignments [simp]:
  "sc_assignments (scope_for now today org u) =
     filter (\<lambda>row. ra_user row = u_id u \<and> ra_active row) (o_roles org)"
  by (simp add: scope_for_def Let_def access_simps split: option.splits)

lemma scope_not_blocked:
  "sc_enabled (scope_for now today org u) \<noteq> [] \<Longrightarrow> \<not> sc_blocked (scope_for now today org u)"
  by (auto simp: scope_for_def Let_def access_simps split: option.splits if_splits)

lemma roles_enabled: "r \<in> scope_roles sc d \<Longrightarrow> d \<in> set (sc_enabled sc)"
  by (auto simp: scope_roles_def split: if_splits)

lemma permissions_need_roles:
  assumes "p \<in> scope_permissions sc d"
  obtains r where "r \<in> scope_roles sc d" "r \<in> dept_wide_roles"
  using assms by (auto simp: scope_permissions_def dept_wide_roles_def Let_def split: if_splits)

lemma has_perm_enabled: "has_perm sc d p \<Longrightarrow> d \<in> set (sc_enabled sc)"
  by (auto simp: has_perm_def elim: permissions_need_roles dest: roles_enabled)

text \<open>Whoever the department's list of approvers names for a role holds the role.\<close>

lemma users_of_mem:
  assumes "u \<in> set (users_of org ids)"
  shows "u \<in> set (o_users org)" and "u_id u \<in> set ids"
proof -
  from assms obtain i where i: "i \<in> set ids" "row_of u_id i (o_users org) = Some u"
    by (auto simp: users_of_def split: option.splits)
  from row_of_SomeD [OF i(2)] i(1) show "u \<in> set (o_users org)" "u_id u \<in> set ids" by auto
qed

lemma role_users_assigned:
  assumes "u \<in> set (department_role_users org d r p)"
  shows "\<exists>row\<in>set (o_roles org). ra_department row = d \<and> ra_user row = u_id u \<and> ra_role row = r \<and>
    ra_active row"
  using users_of_mem(2) [OF assms [unfolded department_role_users_def]] by (auto simp: image_iff)

lemma unique_active_subset: "u \<in> set (unique_active seen us) \<Longrightarrow> u \<in> set us \<and> u_is_active u \<and> u_id u \<notin> seen"
  by (induction seen us rule: unique_active.induct) (auto split: if_splits)

lemma distinct_unique_active: "distinct (map u_id (unique_active seen us))"
  by (induction seen us rule: unique_active.induct) (auto dest: unique_active_subset)

lemma put_role_wf:
  assumes "roles_wf org" "ra_role row \<in> assignable_roles" "put_role row org = (org', i)"
  shows "roles_wf org'"
proof (cases "find (\<lambda>r. ra_department r = ra_department row \<and> ra_user r = ra_user row \<and>
    ra_role r = ra_role row) (o_roles org)")
  case None
  then have new: "(ra_department row, ra_user row, ra_role row) \<notin>
      (\<lambda>r. (ra_department r, ra_user r, ra_role r)) ` set (o_roles org)"
    by (auto simp: find_None_iff)
  have "unique_keys ra_id (o_roles org @ [row\<lparr>ra_id := fresh_pk ra_id (o_roles org)\<rparr>])"
    using assms(1) by (intro unique_keys_append) (auto simp: roles_wf_def fresh_pk_notin)
  then show ?thesis
    using assms new None by (auto simp: put_role_def roles_wf_def Let_def)
next
  case (Some r)
  then have r: "r \<in> set (o_roles org)" "ra_department r = ra_department row" "ra_user r = ra_user row"
      "ra_role r = ra_role row"
    by (auto dest: find_Some_set)
  let ?row = "row\<lparr>ra_id := ra_id r\<rparr>"
  have rows: "o_roles org' = update_row ra_id (ra_id r) (\<lambda>_. ?row) (o_roles org)"
    using assms(3) Some by (auto simp: put_role_def)
  have "unique_keys ra_id (o_roles org)" using assms(1) by (simp add: roles_wf_def)
  from map_update_row_const [OF this r(1), of ra_id ?row]
    map_update_row_const [OF this r(1), of "\<lambda>r. (ra_department r, ra_user r, ra_role r)" ?row]
  have "map ra_id (o_roles org') = map ra_id (o_roles org)"
    "map (\<lambda>r. (ra_department r, ra_user r, ra_role r)) (o_roles org') =
     map (\<lambda>r. (ra_department r, ra_user r, ra_role r)) (o_roles org)"
    unfolding rows using r by simp_all
  moreover have "x \<in> set (o_roles org') \<Longrightarrow> ra_role x \<in> assignable_roles" for x
    using assms(1,2) unfolding rows by (auto simp: update_row_def roles_wf_def)
  ultimately show ?thesis using assms(1) by (simp add: roles_wf_def unique_keys_def)
qed

lemma assign_role_result:
  assumes "assign_role today actor d u role ps es org = Inr org'"
  obtains r row org1 i a where "role = Some r" "r \<in> assignable_roles" "is_main_admin actor"
    "user_allowed_in today org u d" "put_role row org = (org1, i)" "org' = org_audit a org1"
    "ra_department row = d" "ra_user row = u_id u" "ra_role row = r" "ra_active row"
proof -
  from assms obtain r perms ids where r: "role = Some r" "r \<in> assignable_roles" "is_main_admin actor"
      "user_allowed_in today org u d"
    and org': "(let (org1, i) = put_role \<lparr>ra_id = 0, ra_department = d, ra_user = u_id u, ra_role = r,
         ra_permissions = perms, ra_equipment_ids = ids, ra_active = True\<rparr> org
       in Inr (org_audit \<lparr>pa_actor = u_id actor, pa_action = ''role.assigned'', pa_department = d,
             pa_object = i, pa_reason = []\<rparr> org1)) = (Inr org' :: exn + org)"
    unfolding assign_role_def
    by (auto simp only: and_then_eq_Inr ensure_eq_Inr split: option.splits if_splits)
  obtain org1 i where put: "put_role \<lparr>ra_id = 0, ra_department = d, ra_user = u_id u, ra_role = r,
      ra_permissions = perms, ra_equipment_ids = ids, ra_active = True\<rparr> org = (org1, i)"
    by force
  from org' put have "org' = org_audit \<lparr>pa_actor = u_id actor, pa_action = ''role.assigned'',
      pa_department = d, pa_object = i, pa_reason = []\<rparr> org1" by simp
  from that [OF r put this] show thesis by simp
qed

lemma roles_wf_audit [simp]: "roles_wf (org_audit a org) = roles_wf org"
  by (simp add: org_audit_def roles_wf_def)

lemma role_step_wf: "role_step org org' \<Longrightarrow> roles_wf org \<Longrightarrow> roles_wf org'"
proof (erule role_stepE)
  fix today actor d u role ps es
  assume wf: "roles_wf org" and step: "assign_role today actor d u role ps es org = Inr org'"
  show "roles_wf org'"
    by (rule assign_role_result [OF step]) (auto dest: put_role_wf [OF wf])
next
  fix row :: role_assignment and actor reason
  let ?rows = "update_row ra_id (ra_id row) (\<lambda>r. r\<lparr>ra_active := False\<rparr>) (o_roles org)"
  assume step: "revoke_role actor row reason org = Inr org'" and wf: "roles_wf org"
  have "map (\<lambda>r. (ra_department r, ra_user r, ra_role r)) ?rows =
      map (\<lambda>r. (ra_department r, ra_user r, ra_role r)) (o_roles org)"
    by (auto simp: update_row_def)
  moreover have "unique_keys ra_id ?rows" using wf by (simp add: unique_keys_update_row roles_wf_def)
  moreover have "\<forall>r\<in>set ?rows. ra_role r \<in> assignable_roles"
    using wf by (auto simp: update_row_def roles_wf_def)
  ultimately have "roles_wf (org\<lparr>o_roles := ?rows\<rparr>)" using wf by (simp add: roles_wf_def)
  then show "roles_wf org'"
    using step wf by (auto simp: revoke_role_def result_simps split: if_splits)
qed

interpretation role_admin: machine role_step roles_wf
  by unfold_locales (rule role_step_wf)

subsection \<open>Properties\<close>


text \<open>A department in its pilot, with one pilot user among its officers.\<close>

definition stores_officer :: user where
  "stores_officer = \<lparr>u_id = 4, u_name = ''Rao'', u_email = ''rao'', u_type = Some OC_STORES,
     u_is_active = True, u_department = Some 7, u_joining_date = None, u_force_inactive = False,
     u_degree = None, u_is_superuser = False\<rparr>"

definition portal_admin :: user where
  "portal_admin = stores_officer\<lparr>u_id := 1, u_name := ''Iyer'', u_type := Some ADMIN\<rparr>"

definition pilot_config :: pm_config where
  "pilot_config = \<lparr>cfg_department = 7, cfg_module_enabled = True, cfg_pilot_mode = True,
     cfg_pilot_users = [4, 5, 6], cfg_consumables_enabled = True, cfg_non_consumables_enabled = True,
     cfg_plan_enabled = True, cfg_non_plan_enabled = True, cfg_amc_enabled = True,
     cfg_general_purchase_enabled = True, cfg_minor_purchase_enabled = True,
     cfg_major_purchase_enabled = True, cfg_limited_life_enabled = True,
     cfg_small_purchase_threshold = 200000, cfg_hod_approval_threshold = 2500000,
     cfg_require_specification = True, cfg_allow_resubmission = True,
     cfg_hod_approval_mode = Either_Way, cfg_accounts_budget_check = False\<rparr>"

definition pilot_org :: org where
  "pilot_org = \<lparr>o_users = [portal_admin, stores_officer], o_heads = [(7, None)], o_hods = [],
     o_configs = [pilot_config], o_roles = [], o_equipment = [], o_managers = [],
     o_temporary_oics = [], o_operators = [], o_audit = []\<rparr>"

definition staffed_org :: org where
  "staffed_org = projr (assign_role 100 portal_admin 7 stores_officer (Some R_OC_STORES) Raw_None Raw_None pilot_org)"


end
