(* ===== verification/Proc_Numbers.thy ===== *)
theory Proc_Numbers
  imports Numbering Money Proc_Access
begin

text \<open>
  The input parsing of \<^verbatim>\<open>procurement_management/api.py\<close>, the financial years of \<^verbatim>\<open>fy.py\<close> and the
  document numbers of \<^verbatim>\<open>numbering.py\<close>. A quantity is an integer number of thousandths, an amount
  an integer number of paise. A date is its year and month where only those matter.
\<close>

type_synonym thousandths = int

subsection \<open>Reading request data\<close>

text \<open>
  \<^verbatim>\<open>parse_qty\<close> and \<^verbatim>\<open>parse_money\<close>. \<^verbatim>\<open>quantize\<close> raises \<^verbatim>\<open>InvalidOperation\<close>, which nothing catches,
  when the value needs more than 28 digits.
\<close>

definition parse_qty :: "decimal_in \<Rightarrow> exn + thousandths" where
  "parse_qty v = (case v of
     Missing \<Rightarrow> Inl (proc_error ''required'')
   | Finite x \<Rightarrow>
       (if x \<le> 0 then Inl (proc_error ''invalid_number'')
        else let n = round_half_even (x * 1000) in
          if decimal_digits \<le> \<bar>n\<bar> then Inl InvalidOperation
          else if of_int n \<noteq> x * 1000 then Inl (proc_error ''invalid_number'')
          else Inr n)
   | _ \<Rightarrow> Inl (proc_error ''invalid_number''))"

definition parse_money :: "bool \<Rightarrow> bool \<Rightarrow> decimal_in \<Rightarrow> exn + paise option" where
  "parse_money required allow_zero v = (case v of
     Missing \<Rightarrow> if required then Inl (proc_error ''required'') else Inr None
   | Finite x \<Rightarrow>
       (if x < 0 \<or> \<not> allow_zero \<and> x = 0 then Inl (proc_error ''invalid_number'')
        else let n = round_half_even (x * 100) in
          if decimal_digits \<le> \<bar>n\<bar> then Inl InvalidOperation
          else if of_int n \<noteq> x * 100 then Inl (proc_error ''invalid_number'')
          else if 100000000000000 \<le> n then Inl (proc_error ''invalid_number'')
          else Inr (Some n))
   | _ \<Rightarrow> Inl (proc_error ''invalid_number''))"

text \<open>\<^verbatim>\<open>parse_rate\<close>: a percentage in hundredths.\<close>

definition parse_rate :: "decimal_in \<Rightarrow> exn + int" where
  "parse_rate v = (if v = Missing then Inr 0
     else and_then (parse_money True True v) (\<lambda>r. case r of
         None \<Rightarrow> Inr 0
       | Some n \<Rightarrow> if 10000 < n then Inl (proc_error ''invalid_number'') else Inr n))"

text \<open>\<^verbatim>\<open>req_str\<close> and \<^verbatim>\<open>req_reason\<close>; a missing value is the empty string.\<close>

definition req_str :: "nat \<Rightarrow> bool \<Rightarrow> string \<Rightarrow> exn + string" where
  "req_str max_len required raw = (let value = strip raw in
     if required \<and> value = [] then Inl (proc_error ''required'')
     else if max_len < length value then Inl (proc_error ''too_long'')
     else Inr value)"

definition req_reason :: "string \<Rightarrow> exn + string" where
  "req_reason raw = (let value = strip raw in
     if value = [] then Inl (proc_error ''reason_required'') else Inr value)"

text \<open>\<^verbatim>\<open>parse_day\<close>, \<^verbatim>\<open>parse_int\<close> and \<^verbatim>\<open>choice\<close>.\<close>

datatype raw_day = Day_Missing | Day_Bad | Day day

definition parse_day :: "raw_day \<Rightarrow> exn + day option" where
  "parse_day raw = (case raw of
     Day_Missing \<Rightarrow> Inr None | Day_Bad \<Rightarrow> Inl (proc_error ''invalid_date'') | Day d \<Rightarrow> Inr (Some d))"

definition parse_id :: "bool \<Rightarrow> raw_id \<Rightarrow> exn + ident option" where
  "parse_id required raw = (case raw of
     Raw_Missing \<Rightarrow> if required then Inl (proc_error ''required'') else Inr None
   | Raw_Bad \<Rightarrow> Inl (proc_error ''invalid_id'')
   | Raw_Id i \<Rightarrow> Inr (Some i))"

datatype 'a raw_choice = Choice_Missing | Choice_Unknown | Choice 'a

definition choice :: "'a option \<Rightarrow> 'a raw_choice \<Rightarrow> exn + 'a" where
  "choice dflt raw = (case raw of
     Choice_Missing \<Rightarrow> (case dflt of Some x \<Rightarrow> Inr x | None \<Rightarrow> Inl (proc_error ''required''))
   | Choice_Unknown \<Rightarrow> Inl (proc_error ''invalid_choice'')
   | Choice x \<Rightarrow> Inr x)"

lemma parse_qty_positive: "parse_qty v = Inr n \<Longrightarrow> 0 < n"
proof (cases v)
  case (Finite x)
  assume "parse_qty v = Inr n"
  with Finite have "0 < x" "of_int n = x * 1000"
    by (auto simp: parse_qty_def Let_def split: if_splits)
  then show "0 < n" by (metis of_int_0_less_iff mult_pos_pos zero_less_numeral)
qed (auto simp: parse_qty_def)

lemma parse_money_range:
  assumes "parse_money required allow_zero v = Inr (Some n)"
  shows "0 \<le> n \<and> n < 100000000000000 \<and> (allow_zero \<or> 0 < n)"
proof (cases v)
  case (Finite x)
  with assms have n: "of_int n = x * 100" "n < 100000000000000" "\<not> (x < 0 \<or> \<not> allow_zero \<and> x = 0)"
    by (auto simp: parse_money_def Let_def split: if_splits)
  have "0 \<le> (of_int n :: rat)" "allow_zero \<or> 0 < (of_int n :: rat)" using n by auto
  then show ?thesis using n(2) by simp
qed (use assms in \<open>auto simp: parse_money_def split: if_splits\<close>)

subsection \<open>Financial years\<close>

definition fy_start_year :: "nat \<Rightarrow> nat \<Rightarrow> nat" where
  "fy_start_year year month = (if 4 \<le> month then year else year - 1)"

text \<open>\<^verbatim>\<open>str(n)[-2:]\<close>.\<close>

definition last_two :: "nat \<Rightarrow> string" where
  "last_two n = (let s = decimal n in drop (length s - 2) s)"

definition fy_label :: "nat \<Rightarrow> nat \<Rightarrow> string" where
  "fy_label year month = (let start = fy_start_year year month in
     decimal start @ ''-'' @ last_two (start + 1))"

text \<open>
  \<^verbatim>\<open>parse_fy_label\<close>: four digits, a dash and two digits, of consecutive years (the pattern
  is read with ASCII digits).
\<close>

definition parse_fy_label :: "string \<Rightarrow> exn + nat" where
  "parse_fy_label raw = (let s = strip raw in
     if length s = 7 \<and> list_all is_digit (take 4 s) \<and> s ! 4 = CHR ''-'' \<and> list_all is_digit (drop 5 s)
     then (let start = foldl (\<lambda>a c. 10 * a + (of_char c - 48)) 0 (take 4 s) in
       if last_two (start + 1) = drop 5 s then Inr start else Inl (ValueError ''fy''))
     else Inl (ValueError ''fy''))"

definition is_valid_fy_label :: "string \<Rightarrow> bool" where
  "is_valid_fy_label raw = (case parse_fy_label raw of Inl _ \<Rightarrow> False | Inr _ \<Rightarrow> True)"

text \<open>\<^verbatim>\<open>fy_bounds\<close>, a day as year, month and day of the month.\<close>

definition fy_bounds :: "string \<Rightarrow> exn + (nat \<times> nat \<times> nat) \<times> (nat \<times> nat \<times> nat)" where
  "fy_bounds label = and_then (parse_fy_label label) (\<lambda>start.
     Inr ((start, 4, 1), (start + 1, 3, 31)))"

subsection \<open>Document numbers\<close>

record number_sequence =
  ns_prefix :: string
  ns_fy :: string
  ns_last :: nat

definition pad5 :: "nat \<Rightarrow> string" where
  "pad5 n = (let d = decimal n in replicate (5 - length d) (CHR ''0'') @ d)"

definition document_number :: "string \<Rightarrow> string \<Rightarrow> nat \<Rightarrow> string" where
  "document_number p fy n = p @ ''/'' @ fy @ ''/'' @ pad5 n"

definition sequence_last :: "string \<Rightarrow> string \<Rightarrow> number_sequence list \<Rightarrow> nat option" where
  "sequence_last p fy seqs =
     map_option ns_last (find (\<lambda>s. ns_prefix s = p \<and> ns_fy s = fy) seqs)"

text \<open>\<^verbatim>\<open>next_number\<close>: the counter row of the prefix and year, made when it is missing.\<close>

definition take_number ::
  "string \<Rightarrow> string \<Rightarrow> number_sequence list \<Rightarrow> number_sequence list \<times> string" where
  "take_number p fy seqs =
     (let rows = (case sequence_last p fy seqs of
          None \<Rightarrow> seqs @ [\<lparr>ns_prefix = p, ns_fy = fy, ns_last = 0\<rparr>] | Some _ \<Rightarrow> seqs);
        n = (case sequence_last p fy seqs of None \<Rightarrow> 1 | Some k \<Rightarrow> k + 1)
      in (map (\<lambda>s. if ns_prefix s = p \<and> ns_fy s = fy then s\<lparr>ns_last := n\<rparr> else s) rows,
          document_number p fy n))"

text \<open>The numbers a list of requests for numbers is given, one after the other.\<close>

fun take_numbers ::
  "(string \<times> string) list \<Rightarrow> number_sequence list \<Rightarrow> number_sequence list \<times> string list" where
  "take_numbers [] seqs = (seqs, [])"
| "take_numbers ((p, fy) # qs) seqs =
     (let (seqs1, n) = take_number p fy seqs; (seqs2, ns) = take_numbers qs seqs1 in (seqs2, n # ns))"

lemma foldl_zeros: "foldl (\<lambda>a c. 10 * a + (of_char c - 48)) (0::nat) (replicate k (CHR ''0'')) = 0"
  by (induction k) auto

lemma foldl_pad5: "foldl (\<lambda>a c. 10 * a + (of_char c - 48)) 0 (pad5 n) = n"
  by (simp add: pad5_def Let_def foldl_zeros foldl_decimal)

lemma pad5_inject: "pad5 m = pad5 n \<longleftrightarrow> m = n"
  by (metis foldl_pad5)

lemma split_at_slash:
  assumes "CHR ''/'' \<notin> set xs" "CHR ''/'' \<notin> set ys" "xs @ CHR ''/'' # us = ys @ CHR ''/'' # vs"
  shows "xs = ys \<and> us = vs"
  using assms
proof (induction xs arbitrary: ys)
  case (Cons x xs)
  then show ?case by (cases ys) auto
next
  case Nil
  then show ?case by (cases ys) auto
qed

lemma document_number_inject:
  assumes "CHR ''/'' \<notin> set p" "CHR ''/'' \<notin> set fy" "CHR ''/'' \<notin> set q" "CHR ''/'' \<notin> set gy"
    and "document_number p fy m = document_number q gy n"
  shows "p = q \<and> fy = gy \<and> m = n"
proof -
  from assms(5) have "p = q \<and> fy @ CHR ''/'' # pad5 m = gy @ CHR ''/'' # pad5 n"
    unfolding document_number_def by (intro split_at_slash [OF assms(1,3)]) simp
  then have "p = q" and rest: "fy @ CHR ''/'' # pad5 m = gy @ CHR ''/'' # pad5 n" by simp_all
  from split_at_slash [OF assms(2,4) rest] \<open>p = q\<close> show ?thesis by (simp add: pad5_inject)
qed

lemma sequence_last_take:
  "sequence_last q gy (fst (take_number p fy seqs)) =
     (if q = p \<and> gy = fy then Some (case sequence_last p fy seqs of None \<Rightarrow> 1 | Some k \<Rightarrow> k + 1)
      else sequence_last q gy seqs)"
proof -
  have upd: "map_option ns_last (find (\<lambda>s. ns_prefix s = q \<and> ns_fy s = gy)
        (map (\<lambda>s. if ns_prefix s = p \<and> ns_fy s = fy then s\<lparr>ns_last := n\<rparr> else s) rows)) =
      (if q = p \<and> gy = fy then map_option (\<lambda>_. n) (find (\<lambda>s. ns_prefix s = p \<and> ns_fy s = fy) rows)
       else map_option ns_last (find (\<lambda>s. ns_prefix s = q \<and> ns_fy s = gy) rows))"
    for n and rows :: "number_sequence list"
    by (induction rows) auto
  show ?thesis
    by (auto simp: take_number_def Let_def sequence_last_def upd table_simps split: option.splits)
qed

definition number_given :: "number_sequence list \<Rightarrow> string \<Rightarrow> string \<Rightarrow> nat \<Rightarrow> bool" where
  "number_given seqs p fy n = (\<exists>k. sequence_last p fy seqs = Some k \<and> n \<le> k)"

lemma take_number_result:
  assumes "take_number p fy seqs = (seqs1, n)"
  obtains k where "n = document_number p fy k" "\<not> number_given seqs p fy k"
    "number_given seqs1 p fy k" "\<And>q gy m. number_given seqs q gy m \<Longrightarrow> number_given seqs1 q gy m"
proof -
  let ?k = "case sequence_last p fy seqs of None \<Rightarrow> 1 | Some k \<Rightarrow> k + 1"
  have seqs1: "seqs1 = fst (take_number p fy seqs)" using assms by simp
  show thesis
  proof (rule that [of ?k])
    show "n = document_number p fy ?k" using assms by (auto simp: take_number_def Let_def)
    show "\<not> number_given seqs p fy ?k" by (auto simp: number_given_def)
    show "number_given seqs1 p fy ?k" by (simp add: seqs1 number_given_def sequence_last_take)
    show "number_given seqs1 q gy m" if "number_given seqs q gy m" for q gy m
      using that by (auto simp: seqs1 number_given_def sequence_last_take)
  qed
qed

lemma take_numbers_fresh:
  assumes "take_numbers qs seqs = (seqs', ns)" "n \<in> set ns"
  shows "\<exists>p fy k. (p, fy) \<in> set qs \<and> n = document_number p fy k \<and> \<not> number_given seqs p fy k"
  using assms
proof (induction qs arbitrary: seqs ns)
  case (Cons q qs)
  obtain p fy where q: "q = (p, fy)" by force
  obtain seqs1 n1 where take: "take_number p fy seqs = (seqs1, n1)" by force
  obtain seqs2 ms where rest: "take_numbers qs seqs1 = (seqs2, ms)" by force
  from Cons.prems q take rest have "seqs2 = seqs'" and ns: "ns = n1 # ms" by simp_all
  from take obtain k where k: "n1 = document_number p fy k" "\<not> number_given seqs p fy k"
      "\<And>q gy m. number_given seqs q gy m \<Longrightarrow> number_given seqs1 q gy m"
    by (rule take_number_result) blast
  from Cons.prems(2) ns consider "n = n1" | "n \<in> set ms" by auto
  then show ?case
  proof cases
    case 1
    with k(1,2) q show ?thesis by auto
  next
    case 2
    with Cons.IH [of seqs1 ms] rest \<open>seqs2 = seqs'\<close> k(3) show ?thesis by fastforce
  qed
qed simp

definition slash_free :: "string \<times> string \<Rightarrow> bool" where
  "slash_free q = (CHR ''/'' \<notin> set (fst q) \<and> CHR ''/'' \<notin> set (snd q))"

text \<open>
  C12: document numbers are unique. However many numbers are asked for, of whatever prefixes and
  financial years (none of which contains a slash), no number is given twice, and none that the
  counters had already given out.
\<close>

theorem document_numbers_unique:
  assumes "list_all slash_free qs"
  shows "distinct (snd (take_numbers qs seqs)) \<and>
    (\<forall>p fy m. slash_free (p, fy) \<and> number_given seqs p fy m \<longrightarrow>
      document_number p fy m \<notin> set (snd (take_numbers qs seqs)))"
proof -
  have fresh: "document_number p fy m \<notin> set ns"
    if "take_numbers qs seqs = (seqs', ns)" "list_all slash_free qs" "slash_free (p, fy)"
      "number_given seqs p fy m" for qs seqs seqs' ns p fy m
  proof
    assume "document_number p fy m \<in> set ns"
    from take_numbers_fresh [OF that(1) this] obtain q gy k where *: "(q, gy) \<in> set qs"
        "document_number p fy m = document_number q gy k" "\<not> number_given seqs q gy k" by blast
    moreover from * that(2) have "slash_free (q, gy)" by (auto simp: list_all_iff)
    ultimately have "p = q \<and> fy = gy \<and> m = k"
      using that(3) by (intro document_number_inject) (simp_all add: slash_free_def)
    with * that(4) show False by simp
  qed
  have "distinct ns" if "take_numbers qs seqs = (seqs', ns)" "list_all slash_free qs" for qs seqs seqs' ns
    using that
  proof (induction qs arbitrary: seqs seqs' ns)
    case (Cons q qs)
    obtain p fy where q: "q = (p, fy)" by force
    obtain seqs1 n1 where take: "take_number p fy seqs = (seqs1, n1)" by force
    obtain seqs2 ms where rest: "take_numbers qs seqs1 = (seqs2, ms)" by force
    from Cons.prems q take rest have ns: "ns = n1 # ms" by simp
    from take obtain k where "n1 = document_number p fy k" "number_given seqs1 p fy k"
      by (rule take_number_result)
    with fresh [OF rest] Cons.IH [OF rest] Cons.prems(2) q show ?case by (simp add: ns)
  qed simp
  with fresh assms show ?thesis by (cases "take_numbers qs seqs") auto
qed

theorem document_numbers_unique_witness:
  "distinct (snd (take_numbers [(''REQ'', ''26-27''), (''STK'', ''26-27''), (''REQ'', ''26-27'')] [])) \<and>
   take_numbers [(''REQ'', ''26-27''), (''REQ'', ''26-27'')] [] =
     ([\<lparr>ns_prefix = ''REQ'', ns_fy = ''26-27'', ns_last = 2\<rparr>],
      [''REQ/26-27/00001'', ''REQ/26-27/00002''])"
proof
  show "distinct (snd (take_numbers [(''REQ'', ''26-27''), (''STK'', ''26-27''), (''REQ'', ''26-27'')] []))"
    by (rule document_numbers_unique [THEN conjunct1]) (simp add: slash_free_def)
qed code_simp

subsection \<open>Labels of financial years\<close>

lemma digit_not_space: "is_digit c \<Longrightarrow> \<not> is_space c"
  by (auto simp: is_digit_def is_space_def Let_def)

lemma strip_same:
  assumes "s \<noteq> []" "\<not> is_space (hd s)" "\<not> is_space (last s)"
  shows "strip s = s"
proof -
  have "dropWhile is_space xs = xs" if "xs \<noteq> []" "\<not> is_space (hd xs)" for xs
    using that by (cases xs) auto
  with assms show ?thesis by (simp add: strip_def hd_rev)
qed

lemma decimal_step: "10 \<le> n \<Longrightarrow> decimal n = decimal (n div 10) @ [digit n]"
  by (simp add: decimal.simps [of n])

lemma decimal_one: "n < 10 \<Longrightarrow> decimal n = [digit n]"
  by (simp add: decimal.simps [of n])

lemma last_two_digits:
  assumes "10 \<le> n"
  shows "last_two n = [digit (n div 10), digit n]"
proof -
  obtain xs where "decimal (n div 10) = xs @ [digit (n div 10)]"
    by (cases "n div 10 < 10") (auto simp: decimal_one decimal_step)
  with decimal_step [OF assms] show ?thesis by (simp add: last_two_def Let_def)
qed

lemma width_four:
  "width 4 n = [digit (n div 10 div 10 div 10), digit (n div 10 div 10), digit (n div 10), digit n]"
proof -
  have "4 = Suc (Suc (Suc (Suc 0)))" by simp
  then show ?thesis by (simp only: width.simps append.simps)
qed

lemma decimal_four:
  assumes "1000 \<le> n" "n < 10000"
  shows "decimal n = width 4 n"
proof -
  have "10 \<le> n" "10 \<le> n div 10" "10 \<le> n div 10 div 10" "n div 10 div 10 div 10 < 10"
    using assms by linarith+
  then show ?thesis by (simp only: decimal_step decimal_one width_four append.simps)
qed

lemma four_digits:
  assumes "list_all is_digit ds" "length ds = 4"
  shows "ds = width 4 (foldl (\<lambda>a c. 10 * a + (of_char c - 48)) 0 ds)"
proof -
  have digit_value: "digit (of_char c - 48 + 10 * k) = c" if "is_digit c" for c and k :: nat
  proof -
    define j :: nat where "j = of_char c - 48"
    have j: "of_char c = 48 + j" "j < 10"
      using that by (auto simp: j_def is_digit_def Let_def)
    then have "48 + (of_char c - 48 + 10 * k) mod 10 = (of_char c :: nat)" by simp
    then show ?thesis by (simp only: digit_def char_of_char)
  qed
  have small: "(of_char c - 48 :: nat) < 10" if "is_digit c" for c
    using that by (auto simp: is_digit_def Let_def)
  from assms(2) obtain a b c d where ds: "ds = [a, b, c, d]"
    by (auto simp: eval_nat_numeral length_Suc_conv)
  have digits: "is_digit a" "is_digit b" "is_digit c" "is_digit d" using assms(1) ds by auto
  define A B C D :: nat where v: "A = of_char a - 48" "B = of_char b - 48" "C = of_char c - 48" "D = of_char d - 48"
  have lt: "A < 10" "B < 10" "C < 10" "D < 10" unfolding v using digits small by blast+
  have val: "foldl (\<lambda>a c. 10 * a + (of_char c - 48)) 0 ds = D + 10 * (C + 10 * (B + 10 * A))"
    by (simp add: ds v)
  have "(D + 10 * (C + 10 * (B + 10 * A))) div 10 = C + 10 * (B + 10 * A)"
    "(C + 10 * (B + 10 * A)) div 10 = B + 10 * A" "(B + 10 * A) div 10 = A"
    using lt by simp_all
  moreover have "digit A = a" "digit (B + 10 * A) = b" "digit (C + 10 * (B + 10 * A)) = c"
      "digit (D + 10 * (C + 10 * (B + 10 * A))) = d"
    unfolding v using digit_value [OF digits(1), of 0] digit_value [OF digits(2)]
      digit_value [OF digits(3)] digit_value [OF digits(4)] by (simp_all only: mult_0_right add_0_right)
  ultimately show ?thesis by (simp only: val [unfolded ds] width_four ds)
qed

text \<open>
  A label of a financial year is read back as the year it was written for, and its bounds
  are the first of April of that year and the last of March of the next; only such labels, with
  blanks around them, are read as that year.
\<close>

theorem fy_labels_round_trip:
  assumes "1000 \<le> fy_start_year year month" "fy_start_year year month < 10000"
  shows "parse_fy_label (fy_label year month) = Inr (fy_start_year year month) \<and>
    fy_bounds (fy_label year month) =
      Inr ((fy_start_year year month, 4, 1), (fy_start_year year month + 1, 3, 31)) \<and>
    (parse_fy_label s = Inr (fy_start_year year month) \<longrightarrow> strip s = fy_label year month)"
proof -
  define y where y: "y = fy_start_year year month"
  have range: "1000 \<le> y" "y < 10000" "10 \<le> y + 1" using assms by (simp_all add: y)
  have label: "fy_label year month = width 4 y @ CHR ''-'' # last_two (y + 1)"
    using range by (simp add: fy_label_def Let_def decimal_four flip: y)
  have "strip (fy_label year month) = fy_label year month"
    using range by (intro strip_same) (simp_all add: label width_four last_two_digits digit_not_space)
  moreover have "foldl (\<lambda>a c. 10 * a + (of_char c - 48)) 0 (width 4 y) = y"
    using range by (simp add: foldl_width)
  moreover have "list_all is_digit (width 4 y)" "list_all is_digit (last_two (y + 1))"
    using range by (simp_all add: width_four last_two_digits)
  moreover have "length (last_two (y + 1)) = 2" using range by (simp add: last_two_digits)
  ultimately have parse: "parse_fy_label (fy_label year month) = Inr y"
    by (simp add: parse_fy_label_def label nth_append)
  have "strip s = fy_label year month" if read: "parse_fy_label s = Inr y"
  proof -
    let ?s = "strip s"
    from read have s: "length ?s = 7" "list_all is_digit (take 4 ?s)" "?s ! 4 = CHR ''-''"
        "foldl (\<lambda>a c. 10 * a + (of_char c - 48)) 0 (take 4 ?s) = y" "drop 5 ?s = last_two (y + 1)"
      by (auto simp: parse_fy_label_def Let_def split: if_splits)
    from four_digits [OF s(2)] s(1,4) have "take 4 ?s = width 4 y" by simp
    moreover have "?s = take 4 ?s @ ?s ! 4 # drop (Suc 4) ?s" by (rule id_take_nth_drop) (simp add: s(1))
    ultimately show ?thesis using s(3,5) by (simp add: label)
  qed
  with parse show ?thesis by (simp add: fy_bounds_def y)
qed

theorem fy_labels_round_trip_witness:
  "fy_label 2027 2 = ''2026-27'' \<and> parse_fy_label (fy_label 2027 2) = Inr 2026 \<and>
   is_valid_fy_label ''2026-28'' = False"
proof -
  have "digit 0 = CHR ''0'' \<and> digit 2 = CHR ''2'' \<and> digit 6 = CHR ''6'' \<and> digit 7 = CHR ''7''" by code_simp
  then have names: "digit 20 = CHR ''0''" "digit 2 = CHR ''2''" "digit 202 = CHR ''2''"
      "digit 2026 = CHR ''6''" "digit 2027 = CHR ''7''"
    using digit_mod [of 20] digit_mod [of 202] digit_mod [of 2026] digit_mod [of 2027] by simp_all
  have label: "fy_label 2027 2 = ''2026-27''"
    by (simp add: fy_label_def fy_start_year_def Let_def last_two_digits decimal_step decimal_one)
      (simp add: names)
  have "parse_fy_label (fy_label 2027 2) = Inr 2026"
    using fy_labels_round_trip [of 2027 2 "[]"] by (simp add: fy_start_year_def)
  moreover have "last_two 2027 = ''27''" by (simp add: last_two_digits names)
  then have "is_valid_fy_label ''2026-28'' = False"
    by (simp add: is_valid_fy_label_def parse_fy_label_def strip_def is_space_def is_digit_def)
  ultimately show ?thesis using label by simp
qed

end
