(* ===== verification/Stock.thy ===== *)
theory Stock
  imports Proc_Numbers
begin

text \<open>
  The stock ledger of consumables, \<^verbatim>\<open>procurement_management/stock.py\<close>, with the rows of
  \<^verbatim>\<open>ItemCategory\<close>, \<^verbatim>\<open>Item\<close>, \<^verbatim>\<open>StockBalance\<close> and \<^verbatim>\<open>StockTransaction\<close>. A store is a laboratory
  or, where there is none, the central store of the department. Items and laboratories are
  master data another module keeps: they are passed in. The quantities are thousandths.
\<close>

named_theorems stock_simps

subsection \<open>Rows\<close>

datatype item_nature =
    N_CONSUMABLE | N_NON_CONSUMABLE | N_LIMITED_LIFE_ASSET | N_MINOR_ASSET | N_MAJOR_ASSET
  | N_AMC_SERVICE | N_GENERAL_OFFICE

record item_category =
  ic_id :: ident
  ic_department :: ident
  ic_nature :: item_nature
  ic_is_asset :: bool
  ic_tracks_stock :: bool
  ic_small_purchase_allowed :: bool
  ic_approval_exempt :: bool
  ic_hod_required_always :: bool
  ic_active :: bool

record item =
  it_id :: ident
  it_department :: ident
  it_name :: string
  it_specification :: string
  it_uom :: string
  it_default_gst :: "int option"
  it_category :: item_category
  it_min_level :: thousandths
  it_reorder_level :: thousandths
  it_tracks_batch :: bool
  it_is_archived :: bool
  it_active :: bool

datatype stock_tx_type =
  T_OPENING | T_RECEIPT | T_ISSUE | T_ADJUSTMENT_IN | T_ADJUSTMENT_OUT | T_RETURN

definition stock_inward :: "stock_tx_type set" where
  "stock_inward = {T_OPENING, T_RECEIPT, T_ADJUSTMENT_IN, T_RETURN}"

datatype stock_reason =
  SR_DAMAGED | SR_EXPIRED | SR_COUNT_CORRECTION | SR_LOST | SR_CONSUMED_IN_REPAIR | SR_OTHER

text \<open>The key of a balance: department, laboratory or central store, item.\<close>

type_synonym store_key = "ident \<times> ident option \<times> ident"

record stock_balance =
  sb_key :: store_key
  sb_quantity :: thousandths
  sb_min_level :: thousandths
  sb_reorder_level :: thousandths

record stock_tx =
  st_number :: string
  st_key :: store_key
  st_type :: stock_tx_type
  st_quantity :: thousandths
  st_balance_after :: thousandths
  st_unit_cost :: "paise option"
  st_date :: day
  st_reference_type :: string
  st_reference_number :: string
  st_purchase_request :: "ident option"
  st_invoice :: "ident option"
  st_issued_to :: "ident option"
  st_remarks :: string
  st_performed_by :: ident
  st_batch :: string
  st_expiry :: "day option"
  st_reason_code :: "stock_reason option"
  st_equipment :: "ident option"

text \<open>
  \<open>sk_alerts\<close> records the calls of \<^verbatim>\<open>notify\<close> for low stock, \<open>sk_audit\<close> those of \<^verbatim>\<open>audit.record\<close>.
\<close>

record stock_db =
  sk_balances :: "stock_balance list"
  sk_txs :: "stock_tx list"
  sk_sequences :: "number_sequence list"
  sk_alerts :: "store_key list"
  sk_audit :: "proc_audit list"

definition tx_code :: "stock_tx_type \<Rightarrow> string" where
  "tx_code t = (case t of T_OPENING \<Rightarrow> ''opening'' | T_RECEIPT \<Rightarrow> ''receipt'' | T_ISSUE \<Rightarrow> ''issue''
     | T_ADJUSTMENT_IN \<Rightarrow> ''adjustment_in'' | T_ADJUSTMENT_OUT \<Rightarrow> ''adjustment_out'' | T_RETURN \<Rightarrow> ''return'')"

definition signed_quantity :: "stock_tx \<Rightarrow> thousandths" where
  "signed_quantity t = (if st_type t \<in> stock_inward then st_quantity t else - st_quantity t)"

definition tracks :: "item option \<Rightarrow> bool" where
  "tracks it = (case it of None \<Rightarrow> False | Some i \<Rightarrow> ic_tracks_stock (it_category i))"

definition balance_row :: "store_key \<Rightarrow> 'z stock_db_scheme \<Rightarrow> stock_balance option" where
  "balance_row k db = find (\<lambda>b. sb_key b = k) (sk_balances db)"

text \<open>\<^verbatim>\<open>_balance_for_update\<close>: the locked row, made with zeros when there is none.\<close>

definition balance_for_update ::
  "store_key \<Rightarrow> 'z stock_db_scheme \<Rightarrow> 'z stock_db_scheme \<times> stock_balance" where
  "balance_for_update k db = (case balance_row k db of
     Some b \<Rightarrow> (db, b)
   | None \<Rightarrow> (let b = \<lparr>sb_key = k, sb_quantity = 0, sb_min_level = 0, sb_reorder_level = 0\<rparr> in
       (db\<lparr>sk_balances := sk_balances db @ [b]\<rparr>, b)))"

definition save_balance :: "stock_balance \<Rightarrow> 'z stock_db_scheme \<Rightarrow> 'z stock_db_scheme" where
  "save_balance b db = db\<lparr>sk_balances :=
     map (\<lambda>c. if sb_key c = sb_key b then b else c) (sk_balances db)\<rparr>"

subsection \<open>Posting\<close>

text \<open>The keyword arguments of \<^verbatim>\<open>post\<close>.\<close>

record movement =
  mv_department :: ident
  mv_item :: item
  mv_type :: stock_tx_type
  mv_quantity :: thousandths
  mv_laboratory :: "laboratory option"
  mv_unit_cost :: "paise option"
  mv_date :: "day option"
  mv_reference_type :: string
  mv_reference_number :: string
  mv_purchase_request :: "ident option"
  mv_invoice :: "ident option"
  mv_issued_to :: "ident option"
  mv_remarks :: string
  mv_batch :: string
  mv_expiry :: "day option"
  mv_reason_code :: "stock_reason option"
  mv_equipment :: "ident option"

definition movement_key :: "movement \<Rightarrow> store_key" where
  "movement_key mv = (mv_department mv, map_option lab_id (mv_laboratory mv), it_id (mv_item mv))"

text \<open>\<^verbatim>\<open>_alert_low_stock\<close>: the first level that is not zero decides.\<close>

definition alert_level :: "stock_balance \<Rightarrow> item \<Rightarrow> thousandths" where
  "alert_level b it =
     (if sb_reorder_level b \<noteq> 0 then sb_reorder_level b
      else if sb_min_level b \<noteq> 0 then sb_min_level b
      else if it_reorder_level it \<noteq> 0 then it_reorder_level it
      else it_min_level it)"

definition alert_low_stock ::
  "stock_balance \<Rightarrow> item \<Rightarrow> thousandths \<Rightarrow> 'z stock_db_scheme \<Rightarrow> 'z stock_db_scheme" where
  "alert_low_stock b it before db = (let level = alert_level b it in
     if level = 0 \<or> \<not> (sb_quantity b \<le> level \<and> level < before) then db
     else db\<lparr>sk_alerts := sk_alerts db @ [sb_key b]\<rparr>)"

definition move_checks :: "movement \<Rightarrow> exn + unit" where
  "move_checks mv =
     and_then (ensure (it_department (mv_item mv) = mv_department mv) (proc_error ''department_mismatch'')) (\<lambda>_.
     and_then (ensure (tracks (Some (mv_item mv))) (proc_error ''not_stock_item'')) (\<lambda>_.
     and_then (ensure (case mv_laboratory mv of None \<Rightarrow> True
         | Some l \<Rightarrow> lab_department l = mv_department mv) (proc_error ''lab_mismatch'')) (\<lambda>_.
     ensure (0 < mv_quantity mv) (proc_error ''invalid_quantity''))))"

text \<open>The row of the ledger for a movement that leaves \<open>q\<close> on the balance.\<close>

definition tx_of :: "scope \<Rightarrow> day \<Rightarrow> movement \<Rightarrow> string \<Rightarrow> thousandths \<Rightarrow> stock_tx" where
  "tx_of sc today mv number q =
     \<lparr>st_number = number, st_key = movement_key mv, st_type = mv_type mv,
      st_quantity = mv_quantity mv, st_balance_after = q, st_unit_cost = mv_unit_cost mv,
      st_date = (case mv_date mv of None \<Rightarrow> today | Some d \<Rightarrow> d),
      st_reference_type = take 40 (mv_reference_type mv),
      st_reference_number = take 80 (mv_reference_number mv),
      st_purchase_request = mv_purchase_request mv, st_invoice = mv_invoice mv,
      st_issued_to = mv_issued_to mv, st_remarks = mv_remarks mv,
      st_performed_by = u_id (sc_user sc), st_batch = take 60 (mv_batch mv),
      st_expiry = mv_expiry mv, st_reason_code = mv_reason_code mv, st_equipment = mv_equipment mv\<rparr>"

definition post ::
  "scope \<Rightarrow> day \<Rightarrow> string \<Rightarrow> movement \<Rightarrow> 'z stock_db_scheme \<Rightarrow> exn + 'z stock_db_scheme \<times> stock_tx" where
  "post sc today fy mv db =
     and_then (move_checks mv) (\<lambda>_.
     let (db1, bal) = balance_for_update (movement_key mv) db in
     and_then (ensure (\<not> (mv_type mv = T_OPENING \<and>
         list_ex (\<lambda>t. st_key t = movement_key mv) (sk_txs db1))) (proc_error ''opening_exists'')) (\<lambda>_.
     let signed = (if mv_type mv \<in> stock_inward then mv_quantity mv else - mv_quantity mv);
         new_qty = sb_quantity bal + signed in
     and_then (ensure (0 \<le> new_qty) (proc_error ''insufficient_stock'')) (\<lambda>_.
     let bal' = bal\<lparr>sb_quantity := new_qty\<rparr>;
         db2 = save_balance bal' db1;
         (seqs, number) = take_number ''STK'' fy (sk_sequences db2);
         tx = tx_of sc today mv number new_qty;
         db3 = db2\<lparr>sk_sequences := seqs, sk_txs := sk_txs db2 @ [tx],
           sk_audit := sk_audit db2 @ [\<lparr>pa_actor = u_id (sc_user sc), 
             pa_action = ''stock.'' @ tx_code (mv_type mv), pa_department = mv_department mv,
             pa_object = Suc (length (sk_txs db2)), pa_reason = mv_remarks mv\<rparr>]\<rparr>
     in Inr (if signed < 0 \<and> mv_laboratory mv = None
             then alert_low_stock bal' (mv_item mv) (new_qty - signed) db3 else db3, tx))))"

text \<open>Several movements, one after the other; the first that fails is raised.\<close>

fun post_all ::
  "scope \<Rightarrow> day \<Rightarrow> string \<Rightarrow> movement list \<Rightarrow> 'z stock_db_scheme \<Rightarrow> exn + 'z stock_db_scheme \<times> stock_tx list" where
  "post_all sc today fy [] db = Inr (db, [])"
| "post_all sc today fy (mv # mvs) db =
     and_then (post sc today fy mv db) (\<lambda>(db1, tx).
     and_then (post_all sc today fy mvs db1) (\<lambda>(db2, txs). Inr (db2, tx # txs)))"

definition plain_movement ::
  "ident \<Rightarrow> item \<Rightarrow> stock_tx_type \<Rightarrow> thousandths \<Rightarrow> string \<Rightarrow> string \<Rightarrow> string \<Rightarrow> movement" where
  "plain_movement d it ty q reference_type reference_number remarks =
     \<lparr>mv_department = d, mv_item = it, mv_type = ty, mv_quantity = q, mv_laboratory = None,
      mv_unit_cost = None, mv_date = None, mv_reference_type = reference_type,
      mv_reference_number = reference_number, mv_purchase_request = None, mv_invoice = None,
      mv_issued_to = None, mv_remarks = remarks, mv_batch = [], mv_expiry = None,
      mv_reason_code = None, mv_equipment = None\<rparr>"

text \<open>
  \<^verbatim>\<open>issue_for_request\<close>: the lines of a request with the quantity to issue of each; lines with no
  item, or with an item whose stock is not kept, are passed over.
\<close>

definition issue_for_request ::
  "scope \<Rightarrow> day \<Rightarrow> string \<Rightarrow> ident \<Rightarrow> ident \<Rightarrow> string \<Rightarrow> ident \<Rightarrow> (item option \<times> thousandths) list \<Rightarrow>
   'z stock_db_scheme \<Rightarrow> exn + 'z stock_db_scheme \<times> stock_tx list" where
  "issue_for_request sc today fy d request number requested_by lines =
     post_all sc today fy (map (\<lambda>(it, q). (plain_movement d (the it) T_ISSUE q ''PurchaseRequest'' number
         (''Issued against '' @ number))\<lparr>mv_purchase_request := Some request, mv_issued_to := Some requested_by\<rparr>)
       (filter (\<lambda>(it, q). tracks it) lines))"

text \<open>\<^verbatim>\<open>receive_for_invoice\<close>: the lines of a bill with quantity and unit price.\<close>

definition receive_for_invoice ::
  "scope \<Rightarrow> day \<Rightarrow> string \<Rightarrow> ident \<Rightarrow> ident \<Rightarrow> day \<Rightarrow> string \<Rightarrow> (item option \<times> thousandths \<times> paise) list \<Rightarrow>
   'z stock_db_scheme \<Rightarrow> exn + 'z stock_db_scheme \<times> stock_tx list" where
  "receive_for_invoice sc today fy d invoice invoice_date number lines =
     post_all sc today fy (map (\<lambda>(it, q, price). (plain_movement d (the it) T_RECEIPT q ''Invoice'' number
         (''Received on bill '' @ number))\<lparr>mv_unit_cost := Some price, mv_date := Some invoice_date,
           mv_invoice := Some invoice\<rparr>)
       (filter (\<lambda>(it, q, price). tracks it) lines))"

subsection \<open>Manual entries and levels\<close>

text \<open>Items, laboratories, equipment and accounts the request data may name.\<close>

record masters =
  m_items :: "item list"
  m_laboratories :: "laboratory list"

definition lookup_laboratory :: "'m masters_scheme \<Rightarrow> raw_id \<Rightarrow> exn + laboratory option" where
  "lookup_laboratory ms raw = (case raw of
     Raw_Missing \<Rightarrow> Inr None
   | Raw_Bad \<Rightarrow> Inl (proc_error ''invalid_laboratory'')
   | Raw_Id i \<Rightarrow> (case find (\<lambda>l. lab_id l = i \<and> lab_is_active l) (m_laboratories ms) of
        None \<Rightarrow> Inl (proc_error ''invalid_laboratory'') | Some l \<Rightarrow> Inr (Some l)))"

definition find_laboratory :: "'m masters_scheme \<Rightarrow> raw_id \<Rightarrow> ident \<Rightarrow> exn + laboratory option" where
  "find_laboratory ms raw d = and_then (lookup_laboratory ms raw) (\<lambda>lab. case lab of
     None \<Rightarrow> Inr None
   | Some l \<Rightarrow> if lab_department l \<noteq> d then Inl proc_not_found else Inr (Some l))"

definition find_item :: "'m masters_scheme \<Rightarrow> raw_id \<Rightarrow> ident \<Rightarrow> exn + item" where
  "find_item ms raw d = and_then (parse_id True raw) (\<lambda>i.
     case find (\<lambda>it. Some (it_id it) = i \<and> it_department it = d \<and> \<not> it_is_archived it) (m_items ms) of
       None \<Rightarrow> Inl proc_not_found | Some it \<Rightarrow> Inr it)"

record manual_data =
  md_tx_type :: "stock_tx_type raw_choice"
  md_item :: raw_id
  md_reason_code :: "stock_reason raw_choice"
  md_remarks :: string
  md_batch :: string
  md_expiry :: raw_day
  md_equipment :: raw_id
  md_issued_to :: raw_id
  md_date :: raw_day
  md_quantity :: decimal_in
  md_laboratory :: raw_id
  md_unit_cost :: decimal_in
  md_reference_number :: string

definition reason_required :: "stock_tx_type set" where
  "reason_required = {T_ISSUE, T_ADJUSTMENT_IN, T_ADJUSTMENT_OUT, T_RETURN}"

text \<open>The reason code of an entry; an empty code is \<open>None\<close>.\<close>

definition manual_reason :: "stock_tx_type \<Rightarrow> stock_reason raw_choice \<Rightarrow> exn + stock_reason option" where
  "manual_reason ty raw = and_then
     (case raw of Choice_Missing \<Rightarrow> Inr None | Choice_Unknown \<Rightarrow> Inl (proc_error ''invalid_choice'')
        | Choice r \<Rightarrow> Inr (Some r))
     (\<lambda>r. Inr (if ty \<in> {T_ADJUSTMENT_IN, T_ADJUSTMENT_OUT} \<and> r = None then Some SR_OTHER else r))"

text \<open>An id that is missing or zero is no id.\<close>

definition given_id :: "raw_id \<Rightarrow> exn + ident option" where
  "given_id raw = and_then (parse_id False raw) (\<lambda>i. Inr (if i = Some 0 then None else i))"

definition manual_equipment :: "org \<Rightarrow> ident \<Rightarrow> raw_id \<Rightarrow> exn + ident option" where
  "manual_equipment org d raw = and_then (given_id raw) (\<lambda>i. case i of
     None \<Rightarrow> Inr None
   | Some e \<Rightarrow> if list_ex (\<lambda>q. eq_id q = e \<and> eq_department q = Some d) (o_equipment org)
       then Inr (Some e) else Inl (proc_error ''invalid_equipment''))"

definition manual_recipient :: "org \<Rightarrow> stock_tx_type \<Rightarrow> raw_id \<Rightarrow> exn + ident option" where
  "manual_recipient org ty raw = (if ty \<noteq> T_ISSUE then Inr None else and_then (given_id raw) (\<lambda>i. case i of
     None \<Rightarrow> Inr None
   | Some u \<Rightarrow> if list_ex (\<lambda>v. u_id v = u \<and> u_is_active v) (o_users org)
       then Inr (Some u) else Inl (proc_error ''invalid_user'')))"

definition manual_entry ::
  "org \<Rightarrow> 'm masters_scheme \<Rightarrow> scope \<Rightarrow> day \<Rightarrow> string \<Rightarrow> ident \<Rightarrow> manual_data \<Rightarrow> 'z stock_db_scheme \<Rightarrow>
   exn + 'z stock_db_scheme \<times> stock_tx" where
  "manual_entry org ms sc today fy d data db =
     and_then (require_config org d) (\<lambda>_.
     and_then (require_perm sc d P_STOCK) (\<lambda>_.
     and_then (choice None (md_tx_type data)) (\<lambda>ty.
     and_then (find_item ms (md_item data) d) (\<lambda>it.
     and_then (manual_reason ty (md_reason_code data)) (\<lambda>reason.
     and_then (req_str 2000 (ty \<in> reason_required) (md_remarks data)) (\<lambda>remarks.
     and_then (req_str 60 False (md_batch data)) (\<lambda>batch.
     and_then (parse_day (md_expiry data)) (\<lambda>expiry.
     and_then (ensure (\<not> (it_tracks_batch it \<and> ty \<in> {T_OPENING, T_RECEIPT} \<and> batch = []))
       (proc_error ''required'')) (\<lambda>_.
     and_then (manual_equipment org d (md_equipment data)) (\<lambda>equipment.
     and_then (manual_recipient org ty (md_issued_to data)) (\<lambda>issued_to.
     and_then (parse_day (md_date data)) (\<lambda>tx_date.
     and_then (ensure (\<not> (case tx_date of None \<Rightarrow> False | Some t \<Rightarrow> today < t))
       (proc_error ''future_date'')) (\<lambda>_.
     and_then (parse_qty (md_quantity data)) (\<lambda>q.
     and_then (find_laboratory ms (md_laboratory data) d) (\<lambda>lab.
     and_then (parse_money False True (md_unit_cost data)) (\<lambda>cost.
     and_then (req_str 80 False (md_reference_number data)) (\<lambda>reference.
       post sc today fy ((plain_movement d it ty q ''Manual'' reference remarks)\<lparr>mv_laboratory := lab,
         mv_unit_cost := cost, mv_date := tx_date, mv_issued_to := issued_to, mv_batch := batch,
         mv_expiry := expiry, mv_reason_code := reason, mv_equipment := equipment\<rparr>) db)))))))))))))))))"

text \<open>\<^verbatim>\<open>_non_negative\<close> and \<^verbatim>\<open>set_levels\<close>; a missing level keeps its value.\<close>

definition non_negative :: "decimal_in \<Rightarrow> exn + thousandths" where
  "non_negative v = (case v of
     Finite x \<Rightarrow> (let n = round_half_even (x * 1000) in
       if decimal_digits \<le> \<bar>n\<bar> \<or> n < 0 then Inl (proc_error ''invalid'') else Inr n)
   | NaN \<Rightarrow> Inl InvalidOperation
   | _ \<Rightarrow> Inl (proc_error ''invalid''))"

definition new_level :: "thousandths \<Rightarrow> decimal_in \<Rightarrow> exn + thousandths" where
  "new_level old v = (if v = Missing then Inr old else non_negative v)"

definition set_levels ::
  "org \<Rightarrow> 'm masters_scheme \<Rightarrow> scope \<Rightarrow> ident \<Rightarrow> raw_id \<Rightarrow> raw_id \<Rightarrow> decimal_in \<Rightarrow> decimal_in \<Rightarrow> 'z stock_db_scheme \<Rightarrow>
   exn + 'z stock_db_scheme \<times> stock_balance" where
  "set_levels org ms sc d raw_item raw_lab min_level reorder_level db =
     and_then (require_config org d) (\<lambda>_.
     and_then (require_perm sc d P_STOCK) (\<lambda>_.
     and_then (find_item ms raw_item d) (\<lambda>it.
     and_then (ensure (tracks (Some it)) (proc_error ''not_stock_item'')) (\<lambda>_.
     and_then (find_laboratory ms raw_lab d) (\<lambda>lab.
     let (db1, bal) = balance_for_update (d, map_option lab_id lab, it_id it) db in
     and_then (new_level (sb_min_level bal) min_level) (\<lambda>min.
     and_then (new_level (sb_reorder_level bal) reorder_level) (\<lambda>reorder.
     let bal' = bal\<lparr>sb_min_level := min, sb_reorder_level := reorder\<rparr>;
         db2 = save_balance bal' db1
     in Inr (db2\<lparr>sk_audit := sk_audit db2 @ [\<lparr>pa_actor = u_id (sc_user sc),
          pa_action = ''stock.levels_set'', pa_department = d, pa_object = it_id it, pa_reason = []\<rparr>]\<rparr>,
        bal'))))))))"

end
