(* ===== verification/Proc_Requests.thy ===== *)
theory Proc_Requests
  imports Stock
begin

text \<open>
  Purchase requests before they enter the approval workflow: the request and line rows of
  \<^verbatim>\<open>models.py\<close>, \<^verbatim>\<open>requests_service.py\<close> (features, line totals, drafting, completeness at
  submission) and the small-purchase rule of \<^verbatim>\<open>small_purchase.py\<close>. Request types and categories
  are rows of the masters of the moment, looked up by key. A GST rate is in hundredths of a
  percent. Amounts are assumed to stay within the 28 digits of the decimal context.
\<close>

subsection \<open>Rows\<close>

datatype request_type_code =
    RT_GENERAL_OFFICE | RT_CONSUMABLE | RT_NON_CONSUMABLE | RT_MINOR_ASSET | RT_MAJOR_ASSET
  | RT_LIMITED_LIFE_ASSET | RT_AMC | RT_REPAIR_MAINTENANCE | RT_SERVICE | RT_PLAN_GRANT | RT_NON_PLAN
  | RT_OTHER

datatype hod_rule = Hod_Always | Hod_Above_Threshold | Hod_Never

datatype funding_type = F_PLAN | F_NON_PLAN | F_OTHER

datatype priority = PR_LOW | PR_NORMAL | PR_HIGH | PR_URGENT

datatype line_fulfilment = FF_UNDECIDED | FF_STOCK | FF_PROCURE

record request_type =
  rt_id :: ident
  rt_department :: ident
  rt_code :: request_type_code
  rt_default_nature :: "item_nature option"
  rt_requires_oic :: bool
  rt_requires_stores :: bool
  rt_hod_rule :: hod_rule
  rt_stores_issue_flow :: bool
  rt_allow_small_purchase :: bool
  rt_requires_specification :: bool
  rt_active :: bool

datatype request_status =
    RS_DRAFT | RS_PENDING_OIC | RS_PENDING_STORES | RS_PENDING_HOD | RS_PENDING_ACCOUNTS
  | RS_ON_HOLD | RS_REJECTED | RS_APPROVED | RS_STORES_AVAILABLE | RS_STORES_PARTIAL
  | RS_STORES_NOT_AVAILABLE | RS_ISSUED | RS_IN_PROCUREMENT | RS_AWAITING_INVOICE
  | RS_AWAITING_RECEIPT | RS_COMPLETED | RS_CANCELLED

definition pending_statuses :: "request_status set" where
  "pending_statuses = {RS_PENDING_OIC, RS_PENDING_STORES, RS_PENDING_ACCOUNTS, RS_PENDING_HOD}"

definition terminal_statuses :: "request_status set" where
  "terminal_statuses = {RS_COMPLETED, RS_CANCELLED, RS_ISSUED}"

datatype stage = S_REQUESTER | S_OIC | S_STORES | S_HOD | S_OFFICE | S_SYSTEM | S_ACCOUNTS

definition stage_status :: "stage \<Rightarrow> request_status" where
  "stage_status s = (case s of S_OIC \<Rightarrow> RS_PENDING_OIC | S_STORES \<Rightarrow> RS_PENDING_STORES
     | S_ACCOUNTS \<Rightarrow> RS_PENDING_ACCOUNTS | S_HOD \<Rightarrow> RS_PENDING_HOD | _ \<Rightarrow> RS_DRAFT)"

record purchase_request =
  pr_id :: ident
  pr_number :: string
  pr_department :: ident
  pr_laboratory :: "ident option"
  pr_equipment :: "ident option"
  pr_request_type :: ident
  pr_category :: "ident option"
  pr_nature :: "item_nature option"
  pr_funding_type :: funding_type
  pr_financial_year :: string
  pr_title :: string
  pr_justification :: string
  pr_specification :: string
  pr_required_by :: "day option"
  pr_priority :: priority
  pr_requested_by :: ident
  pr_raised_as_role :: module_role
  pr_status :: request_status
  pr_held_from_status :: "request_status option"
  pr_approval_route :: "stage list"
  pr_route_index :: nat
  pr_estimated_total :: paise
  pr_approved_amount :: "paise option"
  pr_is_small_purchase :: bool
  pr_hod_required :: bool
  pr_last_reason :: string
  pr_resubmission_count :: nat
  pr_submitted_at :: "timestamp option"
  pr_approved_at :: "timestamp option"
  pr_completed_at :: "timestamp option"
  pr_stage_entered_at :: "timestamp option"

text \<open>\<^verbatim>\<open>current_stage\<close>; the empty string is \<open>None\<close>.\<close>

definition current_stage :: "purchase_request \<Rightarrow> stage option" where
  "current_stage r = (if pr_status r \<in> pending_statuses \<and> pr_route_index r < length (pr_approval_route r)
     then Some (pr_approval_route r ! pr_route_index r) else None)"

text \<open>The values of a line before the stores changed it: \<^verbatim>\<open>store_original\<close>.\<close>

record line_snapshot =
  sn_item :: "ident option"
  sn_description :: string
  sn_quantity :: thousandths
  sn_uom :: string
  sn_unit_price :: paise
  sn_gst_rate :: int

record request_line =
  ln_id :: ident
  ln_request :: ident
  ln_item :: "ident option"
  ln_description :: string
  ln_specification :: string
  ln_uom :: string
  ln_quantity :: thousandths
  ln_unit_price :: paise
  ln_gst_rate :: int
  ln_line_total :: paise
  ln_issued_quantity :: thousandths
  ln_fulfilment :: line_fulfilment
  ln_store_note :: string
  ln_store_original :: "line_snapshot option"
  ln_added_by_stores :: bool

record proc_masters = masters +
  m_request_types :: "request_type list"
  m_categories :: "item_category list"

definition request_type_of :: "'m proc_masters_scheme \<Rightarrow> purchase_request \<Rightarrow> request_type" where
  "request_type_of ms r = the (row_of rt_id (pr_request_type r) (m_request_types ms))"

definition category_of :: "'m proc_masters_scheme \<Rightarrow> purchase_request \<Rightarrow> item_category option" where
  "category_of ms r = (case pr_category r of None \<Rightarrow> None | Some i \<Rightarrow> row_of ic_id i (m_categories ms))"

definition item_of :: "'m masters_scheme \<Rightarrow> request_line \<Rightarrow> item option" where
  "item_of ms l = (case ln_item l of None \<Rightarrow> None | Some i \<Rightarrow> row_of it_id i (m_items ms))"

subsection \<open>Totals, features and the small-purchase rule\<close>

definition line_total :: "thousandths \<Rightarrow> paise \<Rightarrow> int \<Rightarrow> paise" where
  "line_total quantity unit_price gst_rate =
     (let base = of_int quantity / 1000 * of_int unit_price :: rat in
      round_half_up (base + base * (of_int gst_rate / 100) / 100))"

definition nature_enabled :: "pm_config \<Rightarrow> item_nature \<Rightarrow> bool" where
  "nature_enabled cfg n = (case n of
     N_CONSUMABLE \<Rightarrow> cfg_consumables_enabled cfg
   | N_NON_CONSUMABLE \<Rightarrow> cfg_non_consumables_enabled cfg
   | N_LIMITED_LIFE_ASSET \<Rightarrow> cfg_limited_life_enabled cfg
   | N_MINOR_ASSET \<Rightarrow> cfg_minor_purchase_enabled cfg
   | N_MAJOR_ASSET \<Rightarrow> cfg_major_purchase_enabled cfg
   | N_AMC_SERVICE \<Rightarrow> cfg_amc_enabled cfg
   | N_GENERAL_OFFICE \<Rightarrow> cfg_general_purchase_enabled cfg)"

definition request_type_enabled :: "pm_config \<Rightarrow> request_type_code \<Rightarrow> bool" where
  "request_type_enabled cfg code = (case code of
     RT_PLAN_GRANT \<Rightarrow> cfg_plan_enabled cfg | RT_NON_PLAN \<Rightarrow> cfg_non_plan_enabled cfg | _ \<Rightarrow> True)"

definition funding_enabled :: "pm_config \<Rightarrow> funding_type \<Rightarrow> bool" where
  "funding_enabled cfg f = (case f of
     F_PLAN \<Rightarrow> cfg_plan_enabled cfg | F_NON_PLAN \<Rightarrow> cfg_non_plan_enabled cfg | F_OTHER \<Rightarrow> True)"

definition check_features ::
  "pm_config \<Rightarrow> request_type \<Rightarrow> item_nature option \<Rightarrow> funding_type \<Rightarrow> exn + unit" where
  "check_features cfg rt nature funding = ensure
     ((case nature of None \<Rightarrow> True | Some n \<Rightarrow> nature_enabled cfg n) \<and>
      request_type_enabled cfg (rt_code rt) \<and> funding_enabled cfg funding)
     (proc_error ''feature_disabled'')"

datatype small_reason =
  Category_Exempt | Category_Not_Allowed | Request_Type_Not_Allowed | Within_Threshold | Above_Threshold

text \<open>\<^verbatim>\<open>evaluate\<close>: whether a direct small purchase is allowed, and why.\<close>

definition evaluate ::
  "pm_config \<Rightarrow> paise \<Rightarrow> item_category option \<Rightarrow> request_type option \<Rightarrow> bool \<times> small_reason" where
  "evaluate cfg amount category rt =
     (if (case category of Some c \<Rightarrow> ic_approval_exempt c | None \<Rightarrow> False) then (True, Category_Exempt)
      else if (case category of Some c \<Rightarrow> \<not> ic_small_purchase_allowed c | None \<Rightarrow> False)
      then (False, Category_Not_Allowed)
      else if (case rt of Some t \<Rightarrow> \<not> rt_allow_small_purchase t | None \<Rightarrow> False)
      then (False, Request_Type_Not_Allowed)
      else if amount \<le> cfg_small_purchase_threshold cfg then (True, Within_Threshold)
      else (False, Above_Threshold))"

definition spec_natures :: "item_nature set" where
  "spec_natures = {N_NON_CONSUMABLE, N_LIMITED_LIFE_ASSET, N_MINOR_ASSET, N_MAJOR_ASSET}"

definition lab_roles :: "module_role set" where
  "lab_roles = {R_OIC, R_LAB_OPERATOR, R_LAB_INCHARGE}"

definition needs_specification :: "pm_config \<Rightarrow> request_type \<Rightarrow> purchase_request \<Rightarrow> bool" where
  "needs_specification cfg rt r = (cfg_require_specification cfg \<and>
     (rt_requires_specification rt \<or> (\<exists>n\<in>spec_natures. pr_nature r = Some n)))"

definition validate_for_submit ::
  "'m proc_masters_scheme \<Rightarrow> pm_config \<Rightarrow> request_line list \<Rightarrow> purchase_request \<Rightarrow> exn + unit" where
  "validate_for_submit ms cfg lines r =
     (let rt = request_type_of ms r in
     and_then (check_features cfg rt (pr_nature r) (pr_funding_type r)) (\<lambda>_.
     and_then (ensure (rt_active rt) (proc_error ''invalid_request_type'')) (\<lambda>_.
     and_then (ensure (lines \<noteq> []) (proc_error ''lines_required'')) (\<lambda>_.
     and_then (ensure (0 < pr_estimated_total r) (proc_error ''invalid_total'')) (\<lambda>_.
     and_then (ensure (strip (pr_justification r) \<noteq> []) (proc_error ''required'')) (\<lambda>_.
     and_then (ensure (\<not> (needs_specification cfg rt r \<and> strip (pr_specification r) = [] \<and>
         \<not> list_all (\<lambda>l. strip (ln_specification l) \<noteq> []) lines)) (proc_error ''specification_required'')) (\<lambda>_.
     ensure (\<not> (pr_raised_as_role r \<in> lab_roles \<and> pr_equipment r = None))
       (proc_error ''equipment_required''))))))))"

subsection \<open>The tables of the module\<close>

datatype approval_action =
    A_SUBMIT | A_APPROVE | A_REJECT | A_HOLD | A_RESUME | A_RESUBMIT | A_CANCEL | A_OFFLINE_APPROVE
  | A_OFFLINE_REJECT | A_STORES_AVAILABLE | A_STORES_PARTIAL | A_STORES_NOT_AVAILABLE | A_ISSUE
  | A_START_PROCUREMENT | A_MARK_PURCHASED | A_INVOICE_RECORDED | A_COMPLETE | A_SEND_FOR_APPROVAL
  | A_REAPPROVAL_REQUIRED | A_STORES_EDIT

text \<open>A decision; \<open>aa_offline\<close> holds the name and date of an approver who signed on paper.\<close>

record action_row =
  aa_request :: ident
  aa_stage :: stage
  aa_action :: approval_action
  aa_from :: request_status
  aa_to :: request_status
  aa_actor :: ident
  aa_actor_role :: "module_role option"
  aa_comments :: string
  aa_amount :: "paise option"
  aa_offline :: "(string \<times> day) option"

record proc_db = stock_db +
  p_requests :: "purchase_request list"
  p_lines :: "request_line list"
  p_actions :: "action_row list"

definition lines_of :: "'z proc_db_scheme \<Rightarrow> ident \<Rightarrow> request_line list" where
  "lines_of db i = filter (\<lambda>l. ln_request l = i) (p_lines db)"

definition save_request :: "purchase_request \<Rightarrow> 'z proc_db_scheme \<Rightarrow> 'z proc_db_scheme" where
  "save_request r db = db\<lparr>p_requests := update_row pr_id (pr_id r) (\<lambda>_. r) (p_requests db)\<rparr>"

definition proc_record_audit :: "scope \<Rightarrow> string \<Rightarrow> purchase_request \<Rightarrow> string \<Rightarrow> 'z proc_db_scheme \<Rightarrow> 'z proc_db_scheme" where
  "proc_record_audit sc action r reason db = db\<lparr>sk_audit := sk_audit db @
     [\<lparr>pa_actor = u_id (sc_user sc), pa_action = action, pa_department = pr_department r,
       pa_object = pr_id r, pa_reason = reason\<rparr>]\<rparr>"

subsection \<open>Drafting\<close>

text \<open>
  Request data: a field the data does not mention is \<open>None\<close>. \<open>Lines\<close> holds the raw lines, where
  \<open>None\<close> is an entry that is no object.
\<close>

record line_data =
  ld_item :: raw_id
  ld_description :: string
  ld_specification :: string
  ld_uom :: string
  ld_quantity :: decimal_in
  ld_unit_price :: decimal_in
  ld_gst :: decimal_in

datatype raw_lines = Lines_Missing | Lines_No_List | Lines "line_data option list"

record request_data =
  rd_equipment :: raw_id
  rd_laboratory :: "raw_id option"
  rd_department :: raw_id
  rd_request_type_id :: "raw_id option"
  rd_request_type :: "request_type_code option option"
  rd_category :: "raw_id option"
  rd_title :: "string option"
  rd_justification :: "string option"
  rd_specification :: "string option"
  rd_required_by :: "raw_day option"
  rd_priority :: "priority raw_choice option"
  rd_funding_type :: "funding_type raw_choice option"
  rd_lines :: "raw_lines option"

definition lookup_equipment :: "org \<Rightarrow> raw_id \<Rightarrow> exn + equipment_row option" where
  "lookup_equipment org raw = and_then (given_id raw) (\<lambda>i. case i of
     None \<Rightarrow> Inr None
   | Some e \<Rightarrow> (case find (\<lambda>q. eq_id q = e) (o_equipment org) of
        None \<Rightarrow> Inl (proc_error ''invalid_equipment'') | Some q \<Rightarrow> Inr (Some q)))"

definition given :: "raw_id option \<Rightarrow> raw_id" where
  "given raw = (case raw of None \<Rightarrow> Raw_Missing | Some i \<Rightarrow> i)"

definition lookup_request_type ::
  "'m proc_masters_scheme \<Rightarrow> ident \<Rightarrow> request_data \<Rightarrow> exn + request_type" where
  "lookup_request_type ms d data =
     and_then (if given (rd_request_type_id data) \<noteq> Raw_Missing
         then and_then (parse_id False (given (rd_request_type_id data))) (\<lambda>i.
           Inr (find (\<lambda>t. rt_department t = d \<and> rt_active t \<and> Some (rt_id t) = i) (m_request_types ms)))
         else Inr (case rd_request_type data of
             Some (Some code) \<Rightarrow>
               find (\<lambda>t. rt_department t = d \<and> rt_active t \<and> rt_code t = code) (m_request_types ms)
           | _ \<Rightarrow> None))
       (\<lambda>rt. case rt of None \<Rightarrow> Inl (proc_error ''invalid_request_type'') | Some t \<Rightarrow> Inr t)"

definition lookup_category ::
  "'m proc_masters_scheme \<Rightarrow> ident \<Rightarrow> raw_id \<Rightarrow> exn + item_category option" where
  "lookup_category ms d raw = (if raw = Raw_Missing then Inr None
     else and_then (parse_id False raw) (\<lambda>i.
       case find (\<lambda>c. ic_department c = d \<and> Some (ic_id c) = i \<and> ic_active c) (m_categories ms) of
         None \<Rightarrow> Inl (proc_error ''invalid_category'') | Some c \<Rightarrow> Inr (Some c)))"

definition line_item :: "'m masters_scheme \<Rightarrow> ident \<Rightarrow> raw_id \<Rightarrow> exn + item option" where
  "line_item ms d raw = (if raw = Raw_Missing then Inr None
     else and_then (parse_id False raw) (\<lambda>i.
       case find (\<lambda>it. Some (it_id it) = i \<and> it_department it = d \<and> \<not> it_is_archived it \<and> it_active it)
           (m_items ms) of
         None \<Rightarrow> Inl (proc_error ''invalid_item'') | Some it \<Rightarrow> Inr (Some it)))"

definition line_gst :: "item option \<Rightarrow> decimal_in \<Rightarrow> exn + int" where
  "line_gst it raw = (case it of
     Some i \<Rightarrow> (case it_default_gst i of
         Some g \<Rightarrow> if raw = Missing then Inr g else parse_rate raw | None \<Rightarrow> parse_rate raw)
   | None \<Rightarrow> parse_rate raw)"

definition build_line ::
  "'m masters_scheme \<Rightarrow> ident \<Rightarrow> line_data option \<Rightarrow> exn + request_line" where
  "build_line ms d raw = (case raw of
     None \<Rightarrow> Inl (proc_error ''invalid'')
   | Some l \<Rightarrow>
       and_then (line_item ms d (ld_item l)) (\<lambda>it.
       let description = strip (if ld_description l \<noteq> [] then ld_description l
             else case it of None \<Rightarrow> [] | Some i \<Rightarrow> it_name i) in
       and_then (ensure (description \<noteq> []) (proc_error ''required'')) (\<lambda>_.
       and_then (parse_qty (ld_quantity l)) (\<lambda>q.
       and_then (parse_money True True (ld_unit_price l)) (\<lambda>p.
       and_then (line_gst it (ld_gst l)) (\<lambda>gst.
         let price = (case p of None \<Rightarrow> 0 | Some x \<Rightarrow> x) in
         Inr \<lparr>ln_id = 0, ln_request = 0, ln_item = map_option it_id it,
           ln_description = take 255 description,
           ln_specification = take 10000 (if ld_specification l \<noteq> [] then ld_specification l
             else case it of None \<Rightarrow> [] | Some i \<Rightarrow> it_specification i),
           ln_uom = take 30 (if ld_uom l \<noteq> [] then ld_uom l
             else case it of None \<Rightarrow> ''Nos'' | Some i \<Rightarrow> it_uom i),
           ln_quantity = q, ln_unit_price = price, ln_gst_rate = gst,
           ln_line_total = line_total q price gst, ln_issued_quantity = 0,
           ln_fulfilment = FF_UNDECIDED, ln_store_note = [], ln_store_original = None,
           ln_added_by_stores = False\<rparr>))))))"

fun build_all ::
  "'m masters_scheme \<Rightarrow> ident \<Rightarrow> line_data option list \<Rightarrow> exn + request_line list" where
  "build_all ms d [] = Inr []"
| "build_all ms d (raw # raws) = and_then (build_line ms d raw) (\<lambda>l.
     and_then (build_all ms d raws) (\<lambda>ls. Inr (l # ls)))"

definition build_lines :: "'m masters_scheme \<Rightarrow> ident \<Rightarrow> raw_lines \<Rightarrow> exn + request_line list" where
  "build_lines ms d raw = (case raw of
     Lines_Missing \<Rightarrow> Inr []
   | Lines_No_List \<Rightarrow> Inl (proc_error ''invalid'')
   | Lines ls \<Rightarrow> if 200 < length ls then Inl (proc_error ''invalid'') else build_all ms d ls)"

text \<open>\<^verbatim>\<open>_replace_lines\<close>: the lines get the next keys in order.\<close>

fun number_lines :: "ident \<Rightarrow> ident \<Rightarrow> request_line list \<Rightarrow> request_line list" where
  "number_lines pk request [] = []"
| "number_lines pk request (l # ls) = l\<lparr>ln_id := pk, ln_request := request\<rparr> # number_lines (Suc pk) request ls"

definition lines_total :: "request_line list \<Rightarrow> paise" where
  "lines_total ls = sum_list (map ln_line_total ls)"

definition replace_lines ::
  "purchase_request \<Rightarrow> request_line list \<Rightarrow> 'z proc_db_scheme \<Rightarrow> 'z proc_db_scheme \<times> purchase_request" where
  "replace_lines r ls db =
     (db\<lparr>p_lines := filter (\<lambda>l. ln_request l \<noteq> pr_id r) (p_lines db) @
        number_lines (fresh_pk ln_id (p_lines db)) (pr_id r) ls\<rparr>,
      r\<lparr>pr_estimated_total := lines_total ls\<rparr>)"

text \<open>\<^verbatim>\<open>_apply_header\<close>.\<close>

definition default_funding :: "request_type \<Rightarrow> funding_type" where
  "default_funding rt = (if rt_code rt = RT_PLAN_GRANT then F_PLAN
     else if rt_code rt = RT_NON_PLAN then F_NON_PLAN else F_OTHER)"

definition header_text :: "nat \<Rightarrow> bool \<Rightarrow> string option \<Rightarrow> string \<Rightarrow> exn + string" where
  "header_text max_len required raw old = (case raw of
     None \<Rightarrow> Inr old | Some s \<Rightarrow> req_str max_len required s)"

definition header_choice :: "bool \<Rightarrow> 'a \<Rightarrow> 'a raw_choice option \<Rightarrow> 'a \<Rightarrow> exn + 'a" where
  "header_choice creating dflt raw old = (case raw of
     Some c \<Rightarrow> choice (Some dflt) c
   | None \<Rightarrow> if creating then Inr dflt else Inr old)"

definition apply_header ::
  "bool \<Rightarrow> request_type \<Rightarrow> request_data \<Rightarrow> purchase_request \<Rightarrow> exn + purchase_request" where
  "apply_header creating rt data r =
     and_then (header_text 255 True
       (if creating \<and> rd_title data = None then Some [] else rd_title data) (pr_title r)) (\<lambda>title.
     and_then (header_text 10000 False (rd_justification data) (pr_justification r)) (\<lambda>justification.
     and_then (header_text 20000 False (rd_specification data) (pr_specification r)) (\<lambda>spec.
     and_then (case rd_required_by data of None \<Rightarrow> Inr (pr_required_by r) | Some d \<Rightarrow> parse_day d) (\<lambda>required_by.
     and_then (header_choice creating PR_NORMAL (rd_priority data) (pr_priority r)) (\<lambda>prio.
     and_then (header_choice creating (default_funding rt) (rd_funding_type data) (pr_funding_type r)) (\<lambda>funding.
       Inr (r\<lparr>pr_title := title, pr_justification := justification, pr_specification := spec,
         pr_required_by := required_by, pr_priority := prio, pr_funding_type := funding\<rparr>)))))))"

text \<open>
  \<^verbatim>\<open>create_request\<close>. The masters are those after \<^verbatim>\<open>ensure_department_defaults\<close>; \<open>fy\<close> is the
  label of the current financial year.
\<close>

definition blank_request :: purchase_request where
  "blank_request = \<lparr>pr_id = 0, pr_number = [], pr_department = 0, pr_laboratory = None,
     pr_equipment = None, pr_request_type = 0, pr_category = None, pr_nature = None,
     pr_funding_type = F_OTHER, pr_financial_year = [], pr_title = [], pr_justification = [],
     pr_specification = [], pr_required_by = None, pr_priority = PR_NORMAL, pr_requested_by = 0,
     pr_raised_as_role = R_OFFICE, pr_status = RS_DRAFT, pr_held_from_status = None,
     pr_approval_route = [], pr_route_index = 0, pr_estimated_total = 0, pr_approved_amount = None,
     pr_is_small_purchase = False, pr_hod_required = False, pr_last_reason = [],
     pr_resubmission_count = 0, pr_submitted_at = None, pr_approved_at = None,
     pr_completed_at = None, pr_stage_entered_at = None\<rparr>"

definition nature_for :: "item_category option \<Rightarrow> request_type \<Rightarrow> item_nature option" where
  "nature_for category rt = (case category of Some c \<Rightarrow> Some (ic_nature c) | None \<Rightarrow> rt_default_nature rt)"

text \<open>How the request is numbered and stored with its lines.\<close>

definition store_request ::
  "scope \<Rightarrow> string \<Rightarrow> purchase_request \<Rightarrow> request_line list \<Rightarrow> 'z proc_db_scheme \<Rightarrow>
   'z proc_db_scheme \<times> purchase_request" where
  "store_request sc fy r ls db =
     (let (seqs, number) = take_number ''REQ'' fy (sk_sequences db);
          r1 = r\<lparr>pr_id := fresh_pk pr_id (p_requests db), pr_number := number\<rparr>;
          (db2, r2) = replace_lines r1 ls
            (db\<lparr>sk_sequences := seqs, p_requests := p_requests db @ [r1]\<rparr>)
      in (proc_record_audit sc ''request.created'' r2 [] (save_request r2 db2), r2))"

definition create_request ::
  "org \<Rightarrow> 'm proc_masters_scheme \<Rightarrow> scope \<Rightarrow> string \<Rightarrow> request_data \<Rightarrow> 'z proc_db_scheme \<Rightarrow>
   exn + 'z proc_db_scheme \<times> purchase_request" where
  "create_request org ms sc fy data db =
     and_then (lookup_equipment org (rd_equipment data)) (\<lambda>equipment.
     and_then (lookup_laboratory ms (given (rd_laboratory data))) (\<lambda>lab.
     and_then (resolve_department sc equipment lab (rd_department data)) (\<lambda>d.
     and_then (require_config org d) (\<lambda>cfg.
     and_then (ensure (can_raise_for_equipment sc d (map_option eq_id equipment)) proc_forbidden) (\<lambda>_.
     and_then (raising_role sc d (map_option eq_id equipment)) (\<lambda>role.
     and_then (ensure (\<not> (role \<in> lab_roles \<and> equipment = None)) (proc_error ''equipment_required'')) (\<lambda>_.
     and_then (lookup_request_type ms d data) (\<lambda>rt.
     and_then (lookup_category ms d (given (rd_category data))) (\<lambda>category.
     and_then (apply_header True rt data (blank_request\<lparr>pr_department := d,
         pr_laboratory := map_option lab_id lab, pr_equipment := map_option eq_id equipment,
         pr_request_type := rt_id rt, pr_category := map_option ic_id category,
         pr_nature := nature_for category rt, pr_financial_year := fy,
         pr_requested_by := u_id (sc_user sc), pr_raised_as_role := role\<rparr>)) (\<lambda>r.
     and_then (check_features cfg rt (pr_nature r) (pr_funding_type r)) (\<lambda>_.
     and_then (build_lines ms d (case rd_lines data of None \<Rightarrow> Lines_Missing | Some l \<Rightarrow> l)) (\<lambda>ls.
       Inr (store_request sc fy r ls db)))))))))))))"

definition editable_statuses :: "request_status set" where
  "editable_statuses = {RS_DRAFT, RS_REJECTED}"

text \<open>\<^verbatim>\<open>update_request\<close>, on the locked row.\<close>

definition update_request ::
  "org \<Rightarrow> 'm proc_masters_scheme \<Rightarrow> scope \<Rightarrow> ident \<Rightarrow> request_data \<Rightarrow> 'z proc_db_scheme \<Rightarrow>
   exn + 'z proc_db_scheme \<times> purchase_request" where
  "update_request org ms sc i data db =
     and_then (case row_of pr_id i (p_requests db) of None \<Rightarrow> Inl DoesNotExist | Some r \<Rightarrow> Inr r) (\<lambda>r.
     and_then (ensure (pr_requested_by r = u_id (sc_user sc)) proc_forbidden) (\<lambda>_.
     and_then (require_config org (pr_department r)) (\<lambda>cfg.
     and_then (ensure (pr_status r \<in> editable_statuses \<and>
         \<not> (pr_status r = RS_REJECTED \<and> \<not> cfg_allow_resubmission cfg)) (proc_error ''not_editable'')) (\<lambda>_.
     and_then (if rd_request_type_id data \<noteq> None \<or> rd_request_type data \<noteq> None
         then lookup_request_type ms (pr_department r) data else Inr (request_type_of ms r)) (\<lambda>rt.
     and_then (case rd_category data of None \<Rightarrow> Inr (category_of ms r)
         | Some raw \<Rightarrow> lookup_category ms (pr_department r) raw) (\<lambda>category.
     and_then (case rd_laboratory data of None \<Rightarrow> Inr (pr_laboratory r)
         | Some raw \<Rightarrow> and_then (lookup_laboratory ms raw) (\<lambda>lab. case lab of
             None \<Rightarrow> Inr None
           | Some l \<Rightarrow> if lab_department l \<noteq> pr_department r then Inl (proc_error ''lab_mismatch'')
               else Inr (Some (lab_id l)))) (\<lambda>lab.
     and_then (apply_header False rt data (r\<lparr>pr_request_type := rt_id rt,
         pr_category := map_option ic_id category, pr_nature := nature_for category rt,
         pr_laboratory := lab\<rparr>)) (\<lambda>r1.
     and_then (check_features cfg rt (pr_nature r1) (pr_funding_type r1)) (\<lambda>_.
     and_then (case rd_lines data of None \<Rightarrow> Inr (db, r1)
         | Some raw \<Rightarrow> and_then (build_lines ms (pr_department r) raw) (\<lambda>ls. Inr (replace_lines r1 ls db)))
       (\<lambda>(db1, r2).
       Inr (proc_record_audit sc ''request.updated'' r2 [] (save_request r2 db1), r2)))))))))))"

subsection \<open>Lemmas\<close>

lemma line_total_nonneg:
  assumes "0 \<le> q" "0 \<le> p" "0 \<le> gst"
  shows "0 \<le> line_total q p gst"
proof -
  have "0 \<le> (of_int q / 1000 * of_int p :: rat)" using assms by simp
  then have "0 \<le> (of_int q / 1000 * of_int p + of_int q / 1000 * of_int p * (of_int gst / 100) / 100 :: rat)"
    using assms by simp
  then show ?thesis by (simp add: line_total_def Let_def round_half_up_def)
qed

lemma evaluate_eligible:
  "fst (evaluate cfg amount category rt) \<longleftrightarrow>
     (case category of Some c \<Rightarrow> ic_approval_exempt c | None \<Rightarrow> False) \<or>
     (case category of Some c \<Rightarrow> ic_small_purchase_allowed c | None \<Rightarrow> True) \<and>
     (case rt of Some t \<Rightarrow> rt_allow_small_purchase t | None \<Rightarrow> True) \<and>
     amount \<le> cfg_small_purchase_threshold cfg"
  by (auto simp: evaluate_def split: option.splits)

lemma lines_total_number [simp]: "lines_total (number_lines pk i ls) = lines_total ls"
  by (induction pk i ls rule: number_lines.induct) (auto simp: lines_total_def)

lemma number_lines_request: "l \<in> set (number_lines pk i ls) \<Longrightarrow> ln_request l = i"
  by (induction pk i ls rule: number_lines.induct) auto

lemma number_lines_keys: "map ln_id (number_lines pk i ls) = [pk..<pk + length ls]"
proof (induction pk i ls rule: number_lines.induct)
  case (2 pk i l ls)
  then show ?case by (simp add: upt_conv_Cons del: upt_Suc)
qed simp

lemma replace_lines_of:
  assumes "replace_lines r ls db = (db', r')"
  shows "lines_of db' (pr_id r) = number_lines (fresh_pk ln_id (p_lines db)) (pr_id r) ls"
    "i \<noteq> pr_id r \<Longrightarrow> lines_of db' i = lines_of db i" "r' = r\<lparr>pr_estimated_total := lines_total ls\<rparr>"
    "p_requests db' = p_requests db" "p_actions db' = p_actions db"
    "pr_estimated_total r' = lines_total (lines_of db' (pr_id r))"
proof -
  let ?new = "number_lines (fresh_pk ln_id (p_lines db)) (pr_id r) ls"
  have all: "filter (\<lambda>l. ln_request l = pr_id r) ?new = ?new"
    using number_lines_request by (auto simp: filter_id_conv)
  have none: "filter (\<lambda>l. ln_request l = i) ?new = []" if "i \<noteq> pr_id r" for i
    using that number_lines_request by (auto simp: filter_empty_conv)
  from assms show "lines_of db' (pr_id r) = ?new" "r' = r\<lparr>pr_estimated_total := lines_total ls\<rparr>"
    "p_requests db' = p_requests db" "p_actions db' = p_actions db"
    "pr_estimated_total r' = lines_total (lines_of db' (pr_id r))"
    by (auto simp: replace_lines_def lines_of_def all)
  show "lines_of db' i = lines_of db i" if "i \<noteq> pr_id r"
    using assms that by (auto simp: replace_lines_def lines_of_def none intro: filter_cong)
qed

end
