(* ===== verification/Proc_Workflow.thy ===== *)
theory Proc_Workflow
  imports Proc_Requests
begin

text \<open>
  The approval state machine of purchase requests, \<^verbatim>\<open>procurement_management/workflow.py\<close>, in the
  order of the file, with the approver lists of \<^verbatim>\<open>notify.py\<close> it asks for. Every transition locks
  the row, which is a lookup here, and is one database transaction: when it raises, nothing of
  it stays. The tables it reads but does not write (\<open>org\<close>, the masters) are those of the moment.
  A timestamp is in seconds; the dates of the portal are those of \<^verbatim>\<open>Asia/Kolkata\<close>. Notifications
  and the composed texts of comments are not modelled; storing an uploaded document is an
  argument that succeeds or raises.
\<close>

subsection \<open>The route\<close>

definition cancellable :: "request_status set" where
  "cancellable = {RS_DRAFT, RS_PENDING_OIC, RS_PENDING_STORES, RS_PENDING_HOD, RS_ON_HOLD, RS_REJECTED,
     RS_APPROVED, RS_STORES_AVAILABLE}"

definition stage_role :: "stage \<Rightarrow> module_role option" where
  "stage_role s = (case s of S_OIC \<Rightarrow> Some R_OIC | S_STORES \<Rightarrow> Some R_OC_STORES
     | S_ACCOUNTS \<Rightarrow> Some R_ACCOUNTS | S_HOD \<Rightarrow> Some R_HOD | _ \<Rightarrow> None)"

definition hod_required :: "'m proc_masters_scheme \<Rightarrow> pm_config \<Rightarrow> purchase_request \<Rightarrow> bool" where
  "hod_required ms cfg r =
     (if (case category_of ms r of Some c \<Rightarrow> ic_hod_required_always c | None \<Rightarrow> False) then True
      else (case rt_hod_rule (request_type_of ms r) of
          Hod_Always \<Rightarrow> True
        | Hod_Above_Threshold \<Rightarrow> cfg_hod_approval_threshold cfg < pr_estimated_total r
        | Hod_Never \<Rightarrow> False))"

definition compute_route :: "'m proc_masters_scheme \<Rightarrow> pm_config \<Rightarrow> purchase_request \<Rightarrow> stage list" where
  "compute_route ms cfg r =
     (if rt_requires_oic (request_type_of ms r) \<and> pr_equipment r \<noteq> None \<and> pr_raised_as_role r \<noteq> R_OIC
      then [S_OIC] else []) @
     (if rt_requires_stores (request_type_of ms r) then [S_STORES] else []) @
     (if cfg_accounts_budget_check cfg then [S_ACCOUNTS] else []) @
     (if hod_required ms cfg r then [S_HOD] else [])"

text \<open>\<^verbatim>\<open>notify.stage_approvers\<close>, \<^verbatim>\<open>_offline_recorders\<close> and \<^verbatim>\<open>_ensure_approvers\<close>.\<close>

definition stage_approvers :: "timestamp \<Rightarrow> day \<Rightarrow> org \<Rightarrow> purchase_request \<Rightarrow> stage \<Rightarrow> user list" where
  "stage_approvers now today org r s = unique_active {pr_requested_by r} (case s of
     S_OIC \<Rightarrow> equipment_oic_users now org (pr_equipment r)
   | S_STORES \<Rightarrow> department_role_users org (pr_department r) R_OC_STORES None
   | S_ACCOUNTS \<Rightarrow> department_role_users org (pr_department r) R_ACCOUNTS None
   | S_HOD \<Rightarrow> hod_users today org (pr_department r)
   | _ \<Rightarrow> [])"

definition offline_recorders :: "org \<Rightarrow> purchase_request \<Rightarrow> user list" where
  "offline_recorders org r = filter (\<lambda>u. u_id u \<noteq> pr_requested_by r)
     (office_users org (pr_department r) P_OFFLINE_APPROVAL)"

definition stage_has_approver ::
  "timestamp \<Rightarrow> day \<Rightarrow> org \<Rightarrow> pm_config \<Rightarrow> purchase_request \<Rightarrow> stage \<Rightarrow> bool" where
  "stage_has_approver now today org cfg r s =
     ((if s = S_HOD \<and> cfg_hod_approval_mode cfg = Offline_Only then [] else stage_approvers now today org r s) @
      (if s = S_HOD \<and> cfg_hod_approval_mode cfg \<noteq> In_App then offline_recorders org r else []) \<noteq> [])"

definition ensure_approvers ::
  "timestamp \<Rightarrow> day \<Rightarrow> org \<Rightarrow> pm_config \<Rightarrow> purchase_request \<Rightarrow> stage list \<Rightarrow> exn + unit" where
  "ensure_approvers now today org cfg r route =
     ensure (list_all (stage_has_approver now today org cfg r) route) (proc_error ''no_approver'')"

subsection \<open>Who may act\<close>

definition can_act_on_stage :: "scope \<Rightarrow> pm_config \<Rightarrow> purchase_request \<Rightarrow> stage \<Rightarrow> bool" where
  "can_act_on_stage sc cfg r s =
     (if u_id (sc_user sc) = pr_requested_by r then False
      else (case s of
          S_OIC \<Rightarrow> is_oic_for sc (pr_equipment r)
        | S_STORES \<Rightarrow> has_role sc (pr_department r) R_OC_STORES
        | S_ACCOUNTS \<Rightarrow> has_role sc (pr_department r) R_ACCOUNTS
        | S_HOD \<Rightarrow> has_role sc (pr_department r) R_HOD \<and> cfg_hod_approval_mode cfg \<noteq> Offline_Only
        | _ \<Rightarrow> False))"

definition can_record_offline :: "scope \<Rightarrow> pm_config \<Rightarrow> purchase_request \<Rightarrow> bool" where
  "can_record_offline sc cfg r =
     (pr_status r = RS_PENDING_HOD \<and> current_stage r = Some S_HOD \<and>
      u_id (sc_user sc) \<noteq> pr_requested_by r \<and> cfg_hod_approval_mode cfg \<noteq> In_App \<and>
      has_perm sc (pr_department r) P_OFFLINE_APPROVAL)"

definition held_stage :: "purchase_request \<Rightarrow> stage option" where
  "held_stage r = (if pr_route_index r < length (pr_approval_route r)
     then Some (pr_approval_route r ! pr_route_index r) else None)"

definition require_stage :: "scope \<Rightarrow> pm_config \<Rightarrow> purchase_request \<Rightarrow> stage option \<Rightarrow> exn + unit" where
  "require_stage sc cfg r s =
     and_then (ensure (u_id (sc_user sc) \<noteq> pr_requested_by r) proc_forbidden) (\<lambda>_.
     ensure (case s of Some st \<Rightarrow> can_act_on_stage sc cfg r st | None \<Rightarrow> False) proc_forbidden)"

subsection \<open>Recording and advancing\<close>

definition locked_request :: "'z proc_db_scheme \<Rightarrow> ident \<Rightarrow> exn + purchase_request" where
  "locked_request db i = (case row_of pr_id i (p_requests db) of None \<Rightarrow> Inl DoesNotExist | Some r \<Rightarrow> Inr r)"

definition action_code :: "approval_action \<Rightarrow> string" where
  "action_code a = (case a of
     A_SUBMIT \<Rightarrow> ''submit'' | A_APPROVE \<Rightarrow> ''approve'' | A_REJECT \<Rightarrow> ''reject'' | A_HOLD \<Rightarrow> ''hold''
   | A_RESUME \<Rightarrow> ''resume'' | A_RESUBMIT \<Rightarrow> ''resubmit'' | A_CANCEL \<Rightarrow> ''cancel''
   | A_OFFLINE_APPROVE \<Rightarrow> ''offline_approve'' | A_OFFLINE_REJECT \<Rightarrow> ''offline_reject''
   | A_STORES_AVAILABLE \<Rightarrow> ''stores_available'' | A_STORES_PARTIAL \<Rightarrow> ''stores_partial''
   | A_STORES_NOT_AVAILABLE \<Rightarrow> ''stores_not_available'' | A_ISSUE \<Rightarrow> ''issue''
   | A_START_PROCUREMENT \<Rightarrow> ''start_procurement'' | A_MARK_PURCHASED \<Rightarrow> ''mark_purchased''
   | A_INVOICE_RECORDED \<Rightarrow> ''invoice_recorded'' | A_COMPLETE \<Rightarrow> ''complete''
   | A_SEND_FOR_APPROVAL \<Rightarrow> ''send_for_approval'' | A_REAPPROVAL_REQUIRED \<Rightarrow> ''reapproval_required''
   | A_STORES_EDIT \<Rightarrow> ''stores_edit'')"

definition actor_role_for ::
  "scope \<Rightarrow> purchase_request \<Rightarrow> stage \<Rightarrow> bool \<Rightarrow> module_role option" where
  "actor_role_for sc r s offline = (let roles = scope_roles sc (pr_department r) in
     case stage_role s of
       Some role \<Rightarrow> (if role \<in> roles then Some role else if offline then Some R_OFFICE
         else if R_MAIN_ADMIN \<in> roles then Some R_MAIN_ADMIN else None)
     | None \<Rightarrow> (if s = S_REQUESTER then Some (pr_raised_as_role r) else if offline then Some R_OFFICE
         else if R_MAIN_ADMIN \<in> roles then Some R_MAIN_ADMIN else None))"

text \<open>\<^verbatim>\<open>_act\<close>, after the row has been saved.\<close>

definition act ::
  "timestamp \<Rightarrow> scope \<Rightarrow> stage \<Rightarrow> approval_action \<Rightarrow> request_status \<Rightarrow> string \<Rightarrow> paise option \<Rightarrow>
   (string \<times> day) option \<Rightarrow> purchase_request \<Rightarrow> 'z proc_db_scheme \<Rightarrow> 'z proc_db_scheme \<times> purchase_request" where
  "act now sc s action from_status comments amount offline r db =
     (let r1 = (if pr_status r \<noteq> from_status then r\<lparr>pr_stage_entered_at := Some now\<rparr> else r);
          db1 = save_request r1 db;
          row = \<lparr>aa_request = pr_id r, aa_stage = s, aa_action = action, aa_from = from_status,
            aa_to = pr_status r, aa_actor = u_id (sc_user sc),
            aa_actor_role = actor_role_for sc r s (offline \<noteq> None), aa_comments = comments,
            aa_amount = amount, aa_offline = offline\<rparr>
      in (proc_record_audit sc (''request.'' @ action_code action) r1 comments
            (db1\<lparr>p_actions := p_actions db1 @ [row]\<rparr>), r1))"

definition advanced :: "timestamp \<Rightarrow> paise option \<Rightarrow> purchase_request \<Rightarrow> purchase_request" where
  "advanced now amount r =
     (let r1 = (if amount \<noteq> None then r\<lparr>pr_approved_amount := amount\<rparr> else r);
          r2 = r1\<lparr>pr_route_index := pr_route_index r1 + 1\<rparr>
      in if pr_route_index r2 < length (pr_approval_route r2)
         then r2\<lparr>pr_status := stage_status (pr_approval_route r2 ! pr_route_index r2)\<rparr>
         else r2\<lparr>pr_status := RS_APPROVED, pr_approved_at := Some now,
           pr_approved_amount := (case pr_approved_amount r2 of
             None \<Rightarrow> Some (pr_estimated_total r2) | Some a \<Rightarrow> Some a)\<rparr>)"

definition advance ::
  "timestamp \<Rightarrow> scope \<Rightarrow> stage \<Rightarrow> approval_action \<Rightarrow> string \<Rightarrow> paise option \<Rightarrow> (string \<times> day) option \<Rightarrow>
   purchase_request \<Rightarrow> 'z proc_db_scheme \<Rightarrow> 'z proc_db_scheme \<times> purchase_request" where
  "advance now sc s action comments amount offline r db =
     act now sc s action (pr_status r) comments amount offline (advanced now amount r) db"

definition check_amount :: "purchase_request \<Rightarrow> paise option \<Rightarrow> exn + unit" where
  "check_amount r amount = (case amount of
     None \<Rightarrow> Inr ()
   | Some a \<Rightarrow> (let cap = (case pr_approved_amount r of Some x \<Rightarrow> x | None \<Rightarrow> pr_estimated_total r) in
       ensure (\<not> (a \<le> 0 \<or> cap < a)) (proc_error ''invalid_amount'')))"

subsection \<open>Transitions\<close>

definition submitted ::
  "timestamp \<Rightarrow> bool \<Rightarrow> bool \<Rightarrow> stage list \<Rightarrow> purchase_request \<Rightarrow> purchase_request" where
  "submitted now small hod route r =
     (let r1 = r\<lparr>pr_is_small_purchase := small, pr_hod_required := hod, pr_approval_route := route,
           pr_route_index := 0, pr_held_from_status := None, pr_last_reason := [],
           pr_approved_amount := None, pr_approved_at := None, pr_submitted_at := Some now\<rparr>
      in case route of
           s # _ \<Rightarrow> r1\<lparr>pr_status := stage_status s\<rparr>
         | [] \<Rightarrow> r1\<lparr>pr_status := RS_APPROVED, pr_approved_at := Some now,
             pr_approved_amount := Some (pr_estimated_total r1)\<rparr>)"

definition submit ::
  "timestamp \<Rightarrow> day \<Rightarrow> org \<Rightarrow> 'm proc_masters_scheme \<Rightarrow> scope \<Rightarrow> ident \<Rightarrow> string \<Rightarrow> 'z proc_db_scheme \<Rightarrow>
   exn + 'z proc_db_scheme \<times> purchase_request" where
  "submit now today org ms sc i comments db =
     and_then (locked_request db i) (\<lambda>r.
     and_then (ensure (pr_requested_by r = u_id (sc_user sc)) proc_forbidden) (\<lambda>_.
     and_then (require_config org (pr_department r)) (\<lambda>cfg.
     and_then (if pr_status r = RS_DRAFT then Inr (A_SUBMIT, r)
         else if pr_status r = RS_REJECTED
         then (if cfg_allow_resubmission cfg
               then Inr (A_RESUBMIT, r\<lparr>pr_resubmission_count := pr_resubmission_count r + 1\<rparr>)
               else Inl (proc_error ''resubmission_disabled''))
         else Inl (proc_error ''invalid_status'')) (\<lambda>(action, r1).
     and_then (validate_for_submit ms cfg (lines_of db i) r1) (\<lambda>_.
     let small = fst (evaluate cfg (pr_estimated_total r1) (category_of ms r1) (Some (request_type_of ms r1)));
         route = compute_route ms cfg r1
     in and_then (ensure_approvers now today org cfg r1 route) (\<lambda>_.
       Inr (act now sc S_REQUESTER action (pr_status r) comments None None
         (submitted now small (hod_required ms cfg r1) route r1) db)))))))"

text \<open>What \<^verbatim>\<open>approve\<close>, \<^verbatim>\<open>reject\<close> and \<^verbatim>\<open>hold\<close> begin with.\<close>

definition at_stage ::
  "org \<Rightarrow> scope \<Rightarrow> ident \<Rightarrow> 'z proc_db_scheme \<Rightarrow> exn + purchase_request \<times> stage" where
  "at_stage org sc i db =
     and_then (locked_request db i) (\<lambda>r.
     and_then (require_config org (pr_department r)) (\<lambda>cfg.
     and_then (ensure (current_stage r \<noteq> None) (proc_error ''invalid_status'')) (\<lambda>_.
     and_then (require_stage sc cfg r (current_stage r)) (\<lambda>_.
       Inr (r, the (current_stage r))))))"

definition approve ::
  "timestamp \<Rightarrow> org \<Rightarrow> scope \<Rightarrow> ident \<Rightarrow> string \<Rightarrow> paise option \<Rightarrow> 'z proc_db_scheme \<Rightarrow>
   exn + 'z proc_db_scheme \<times> purchase_request" where
  "approve now org sc i comments amount db =
     and_then (at_stage org sc i db) (\<lambda>(r, s).
     and_then (check_amount r amount) (\<lambda>_.
       Inr (advance now sc s A_APPROVE comments amount None r db)))"

definition reject ::
  "timestamp \<Rightarrow> org \<Rightarrow> scope \<Rightarrow> ident \<Rightarrow> string \<Rightarrow> 'z proc_db_scheme \<Rightarrow>
   exn + 'z proc_db_scheme \<times> purchase_request" where
  "reject now org sc i reason db =
     and_then (at_stage org sc i db) (\<lambda>(r, s).
       Inr (act now sc s A_REJECT (pr_status r) reason None None
         (r\<lparr>pr_status := RS_REJECTED, pr_last_reason := reason\<rparr>) db))"

definition hold ::
  "timestamp \<Rightarrow> org \<Rightarrow> scope \<Rightarrow> ident \<Rightarrow> string \<Rightarrow> 'z proc_db_scheme \<Rightarrow>
   exn + 'z proc_db_scheme \<times> purchase_request" where
  "hold now org sc i reason db =
     and_then (at_stage org sc i db) (\<lambda>(r, s).
       Inr (act now sc s A_HOLD (pr_status r) reason None None
         (r\<lparr>pr_held_from_status := Some (pr_status r), pr_status := RS_ON_HOLD, pr_last_reason := reason\<rparr>) db))"

definition resume ::
  "timestamp \<Rightarrow> org \<Rightarrow> scope \<Rightarrow> ident \<Rightarrow> string \<Rightarrow> 'z proc_db_scheme \<Rightarrow>
   exn + 'z proc_db_scheme \<times> purchase_request" where
  "resume now org sc i comments db =
     and_then (locked_request db i) (\<lambda>r.
     and_then (require_config org (pr_department r)) (\<lambda>cfg.
     and_then (ensure (\<not> (pr_status r \<noteq> RS_ON_HOLD \<or> pr_held_from_status r = None))
       (proc_error ''invalid_status'')) (\<lambda>_.
     and_then (require_stage sc cfg r (held_stage r)) (\<lambda>_.
       Inr (act now sc (the (held_stage r)) A_RESUME (pr_status r) comments None None
         (r\<lparr>pr_status := the (pr_held_from_status r), pr_held_from_status := None\<rparr>) db)))))"

definition cancel ::
  "timestamp \<Rightarrow> org \<Rightarrow> scope \<Rightarrow> ident \<Rightarrow> string \<Rightarrow> 'z proc_db_scheme \<Rightarrow>
   exn + 'z proc_db_scheme \<times> purchase_request" where
  "cancel now org sc i reason db =
     and_then (locked_request db i) (\<lambda>r.
     and_then (require_config org (pr_department r)) (\<lambda>_.
     let is_requester = (pr_requested_by r = u_id (sc_user sc)) in
     and_then (ensure (is_requester \<or> has_role sc (pr_department r) R_MAIN_ADMIN) proc_forbidden) (\<lambda>_.
     and_then (ensure (pr_status r \<in> cancellable) (proc_error ''invalid_status'')) (\<lambda>_.
       Inr (act now sc (if is_requester then S_REQUESTER else S_SYSTEM) A_CANCEL (pr_status r) reason None None
         (r\<lparr>pr_status := RS_CANCELLED, pr_last_reason := reason, pr_held_from_status := None\<rparr>) db)))))"

subsection \<open>The stores\<close>

definition open_quantity :: "request_line \<Rightarrow> thousandths" where
  "open_quantity l = ln_quantity l - ln_issued_quantity l"

text \<open>\<^verbatim>\<open>_remaining_total\<close>, line by line.\<close>

definition remaining_value :: "request_line \<Rightarrow> paise" where
  "remaining_value l = (if ln_quantity l \<le> 0 then 0
     else round_half_even (of_int (ln_line_total l) * of_int (open_quantity l) / of_int (ln_quantity l)))"

definition remaining_total :: "request_line list \<Rightarrow> paise" where
  "remaining_total ls = sum_list (map remaining_value ls)"

text \<open>Quantities to issue by line; a line without one, or with zero, is passed over.\<close>

type_synonym quantities = "ident \<Rightarrow> thousandths option"

definition to_issue :: "quantities \<Rightarrow> request_line \<Rightarrow> bool" where
  "to_issue q l = (case q (ln_id l) of None \<Rightarrow> False | Some n \<Rightarrow> n \<noteq> 0)"

definition issue_lines ::
  "day \<Rightarrow> string \<Rightarrow> 'm masters_scheme \<Rightarrow> scope \<Rightarrow> purchase_request \<Rightarrow> quantities \<Rightarrow> 'z proc_db_scheme \<Rightarrow>
   exn + 'z proc_db_scheme \<times> stock_tx list" where
  "issue_lines today fy ms sc r q db =
     (let issued = filter (to_issue q) (lines_of db (pr_id r));
          db1 = db\<lparr>p_lines := map (\<lambda>l. if ln_request l = pr_id r \<and> to_issue q l
            then l\<lparr>ln_issued_quantity := ln_issued_quantity l + the (q (ln_id l))\<rparr> else l) (p_lines db)\<rparr>
      in issue_for_request sc today fy (pr_department r) (pr_id r) (pr_number r) (pr_requested_by r)
           (map (\<lambda>l. (item_of ms l, the (q (ln_id l)))) issued) db1)"

datatype store_decision = D_Available | D_Partial | D_Not_Available | D_By_Lines | D_Other

text \<open>The quantities of the request data, or \<open>None\<close> when they are no list.\<close>

type_synonym raw_issue = "(raw_id \<times> decimal_in) list option"

fun parse_issue :: "request_line list \<Rightarrow> (raw_id \<times> decimal_in) list \<Rightarrow> quantities \<Rightarrow> exn + quantities" where
  "parse_issue ls [] q = Inr q"
| "parse_issue ls ((raw, amount) # raws) q =
     and_then (parse_id True raw) (\<lambda>i.
     and_then (case find (\<lambda>l. Some (ln_id l) = i) ls of None \<Rightarrow> Inl (proc_error ''invalid'') | Some l \<Rightarrow> Inr l) (\<lambda>l.
     and_then (parse_qty amount) (\<lambda>n.
     and_then (ensure (n \<le> open_quantity l) (proc_error ''invalid_quantity'')) (\<lambda>_.
       parse_issue ls raws (q(ln_id l := Some n))))))"

definition wanted :: "quantities \<Rightarrow> request_line \<Rightarrow> thousandths" where
  "wanted q l = (case q (ln_id l) of None \<Rightarrow> 0 | Some n \<Rightarrow> n)"

text \<open>\<^verbatim>\<open>BY_LINES\<close> reads the decision off the fulfilment of the open lines.\<close>

definition decide_by_lines :: "request_line list \<Rightarrow> store_decision \<times> raw_issue" where
  "decide_by_lines ls =
     (let open_lines = filter (\<lambda>l. ln_issued_quantity l < ln_quantity l) ls;
          stock = filter (\<lambda>l. ln_fulfilment l = FF_STOCK) open_lines
      in if length stock = length open_lines then (D_Available, None)
         else if stock = [] then (D_Not_Available, None)
         else (D_Partial, Some (map (\<lambda>l. (Raw_Id (ln_id l), Finite (of_int (open_quantity l) / 1000))) stock)))"

definition issue_partially ::
  "timestamp \<Rightarrow> day \<Rightarrow> string \<Rightarrow> 'm masters_scheme \<Rightarrow> scope \<Rightarrow> purchase_request \<Rightarrow> raw_issue \<Rightarrow> string \<Rightarrow>
   'z proc_db_scheme \<Rightarrow> exn + 'z proc_db_scheme \<times> purchase_request" where
  "issue_partially now today fy ms sc r raws comments db =
     (let ls = lines_of db (pr_id r) in
     and_then (case raws of None \<Rightarrow> Inl (proc_error ''lines_required'')
         | Some rs \<Rightarrow> if rs = [] then Inl (proc_error ''lines_required'') else Inr rs) (\<lambda>rs.
     and_then (parse_issue ls rs (\<lambda>_. None)) (\<lambda>q.
     and_then (ensure (\<not> list_all (\<lambda>l. wanted q l = open_quantity l) ls) (proc_error ''use_available'')) (\<lambda>_.
     and_then (issue_lines today fy ms sc r q db) (\<lambda>(db1, _).
       Inr (advance now sc S_STORES A_STORES_PARTIAL comments None None
         (r\<lparr>pr_approved_amount := Some (remaining_total (lines_of db1 (pr_id r)))\<rparr>) db1))))))"

definition stores_review ::
  "timestamp \<Rightarrow> day \<Rightarrow> string \<Rightarrow> org \<Rightarrow> 'm proc_masters_scheme \<Rightarrow> scope \<Rightarrow> ident \<Rightarrow> store_decision \<Rightarrow> raw_issue \<Rightarrow>
   string \<Rightarrow> 'z proc_db_scheme \<Rightarrow> exn + 'z proc_db_scheme \<times> purchase_request" where
  "stores_review now today fy org ms sc i decision raws comments db =
     and_then (locked_request db i) (\<lambda>r.
     and_then (require_config org (pr_department r)) (\<lambda>cfg.
     and_then (ensure (current_stage r = Some S_STORES) (proc_error ''invalid_status'')) (\<lambda>_.
     and_then (require_stage sc cfg r (Some S_STORES)) (\<lambda>_.
     and_then (ensure (rt_stores_issue_flow (request_type_of ms r)) (proc_error ''not_applicable'')) (\<lambda>_.
     let (d, rs) = (if decision = D_By_Lines then decide_by_lines (lines_of db i) else (decision, raws)) in
     case d of
       D_Available \<Rightarrow> Inr (act now sc S_STORES A_STORES_AVAILABLE (pr_status r) comments None None
         (r\<lparr>pr_status := RS_STORES_AVAILABLE\<rparr>) db)
     | D_Not_Available \<Rightarrow> Inr (advance now sc S_STORES A_STORES_NOT_AVAILABLE comments None None r db)
     | D_Partial \<Rightarrow> issue_partially now today fy ms sc r rs comments db
     | _ \<Rightarrow> Inl (proc_error ''invalid_choice''))))))"

definition open_quantities :: "request_line list \<Rightarrow> quantities" where
  "open_quantities ls = (\<lambda>i. map_option open_quantity
     (find (\<lambda>l. ln_id l = i \<and> ln_issued_quantity l < ln_quantity l) ls))"

definition issue ::
  "timestamp \<Rightarrow> day \<Rightarrow> string \<Rightarrow> org \<Rightarrow> 'm masters_scheme \<Rightarrow> scope \<Rightarrow> ident \<Rightarrow> string \<Rightarrow> 'z proc_db_scheme \<Rightarrow>
   exn + 'z proc_db_scheme \<times> purchase_request" where
  "issue now today fy org ms sc i comments db =
     and_then (locked_request db i) (\<lambda>r.
     and_then (require_config org (pr_department r)) (\<lambda>_.
     and_then (ensure (pr_status r = RS_STORES_AVAILABLE) (proc_error ''invalid_status'')) (\<lambda>_.
     and_then (ensure (u_id (sc_user sc) \<noteq> pr_requested_by r) proc_forbidden) (\<lambda>_.
     and_then (ensure (has_role sc (pr_department r) R_OC_STORES) proc_forbidden) (\<lambda>_.
     and_then (issue_lines today fy ms sc r (open_quantities (lines_of db i)) db) (\<lambda>(db1, _).
       Inr (act now sc S_STORES A_ISSUE (pr_status r) comments None None
         (r\<lparr>pr_status := RS_ISSUED, pr_completed_at := Some now\<rparr>) db1)))))))"

subsection \<open>Decisions signed on paper\<close>

definition local_day :: "timestamp \<Rightarrow> day" where
  "local_day t = (t + 19800) div 86400"

definition offline_hod_decision ::
  "timestamp \<Rightarrow> day \<Rightarrow> org \<Rightarrow> scope \<Rightarrow> ident \<Rightarrow> bool option \<Rightarrow> exn + unit \<Rightarrow> string \<Rightarrow> day option \<Rightarrow> string \<Rightarrow>
   paise option \<Rightarrow> 'z proc_db_scheme \<Rightarrow> exn + 'z proc_db_scheme \<times> purchase_request" where
  "offline_hod_decision now today org sc i decision upload name approval_date comments amount db =
     and_then (locked_request db i) (\<lambda>r.
     and_then (require_config org (pr_department r)) (\<lambda>cfg.
     and_then (ensure (u_id (sc_user sc) \<noteq> pr_requested_by r) proc_forbidden) (\<lambda>_.
     and_then (if can_record_offline sc cfg r then Inr ()
         else if pr_status r \<noteq> RS_PENDING_HOD then Inl (proc_error ''invalid_status'')
         else if cfg_hod_approval_mode cfg = In_App then Inl (proc_error ''offline_disabled'')
         else Inl proc_forbidden) (\<lambda>_.
     and_then (case decision of None \<Rightarrow> Inl (proc_error ''invalid_choice'') | Some d \<Rightarrow> Inr d) (\<lambda>approved.
     and_then (case approval_date of None \<Rightarrow> Inl (proc_error ''required'') | Some d \<Rightarrow> Inr d) (\<lambda>date.
     and_then (ensure (date \<le> today) (proc_error ''invalid_date'')) (\<lambda>_.
     and_then (ensure (case pr_submitted_at r of None \<Rightarrow> True | Some t \<Rightarrow> local_day t \<le> date)
       (proc_error ''invalid_date'')) (\<lambda>_.
     and_then (ensure (approved \<or> strip comments \<noteq> []) (proc_error ''reason_required'')) (\<lambda>_.
     and_then (check_amount r amount) (\<lambda>_.
     and_then upload (\<lambda>_.
       if approved
       then Inr (advance now sc S_HOD A_OFFLINE_APPROVE comments amount (Some (name, date)) r db)
       else Inr (act now sc S_HOD A_OFFLINE_REJECT (pr_status r) comments None (Some (name, date))
         (r\<lparr>pr_status := RS_REJECTED, pr_last_reason := comments\<rparr>) db))))))))))))"

subsection \<open>Queries\<close>

datatype ui_action =
    U_Edit | U_Submit | U_Resubmit | U_Cancel | U_Approve | U_Reject | U_Hold | U_Stores_Review
  | U_Stores_Edit | U_Resume | U_Offline_Hod_Decision | U_Issue | U_Start_Procurement | U_Record_Purchase

definition available_actions ::
  "org \<Rightarrow> 'm proc_masters_scheme \<Rightarrow> scope \<Rightarrow> purchase_request \<Rightarrow> ui_action list" where
  "available_actions org ms sc r = (case get_config org (pr_department r) of
     None \<Rightarrow> []
   | Some cfg \<Rightarrow> if \<not> cfg_module_enabled cfg then []
     else (let mine = (pr_requested_by r = u_id (sc_user sc));
         acts = (\<lambda>s. case s of Some st \<Rightarrow> can_act_on_stage sc cfg r st | None \<Rightarrow> False) in
       (if mine \<and> pr_status r = RS_DRAFT then [U_Edit, U_Submit] else []) @
       (if mine \<and> pr_status r = RS_REJECTED \<and> cfg_allow_resubmission cfg then [U_Edit, U_Resubmit] else []) @
       (if pr_status r \<in> cancellable \<and> (mine \<or> has_role sc (pr_department r) R_MAIN_ADMIN)
        then [U_Cancel] else []) @
       (if acts (current_stage r)
        then [U_Approve, U_Reject, U_Hold] @
          (if current_stage r = Some S_STORES \<and> rt_stores_issue_flow (request_type_of ms r)
           then [U_Stores_Review] else []) @
          (if current_stage r = Some S_STORES then [U_Stores_Edit] else []) else []) @
       (if pr_status r = RS_ON_HOLD \<and> acts (held_stage r) then [U_Resume] else []) @
       (if can_record_offline sc cfg r then [U_Offline_Hod_Decision] else []) @
       (if pr_status r = RS_STORES_AVAILABLE \<and> \<not> mine \<and> has_role sc (pr_department r) R_OC_STORES
        then [U_Issue] else []) @
       (if pr_status r = RS_APPROVED \<and> has_perm sc (pr_department r) P_PROCUREMENT
        then [U_Start_Procurement] else []) @
       (if pr_status r = RS_APPROVED \<and> pr_is_small_purchase r \<and>
           has_perm sc (pr_department r) P_RECORD_SMALL_PURCHASE
        then [U_Record_Purchase] else [])))"

text \<open>\<^verbatim>\<open>pending_for_me_q\<close>, as a test of one request.\<close>

definition waits_at :: "purchase_request \<Rightarrow> request_status \<Rightarrow> bool" where
  "waits_at r s = (pr_status r = s \<or> pr_status r = RS_ON_HOLD \<and> pr_held_from_status r = Some s)"

definition pending_for_me :: "scope \<Rightarrow> purchase_request \<Rightarrow> bool" where
  "pending_for_me sc r =
     ((waits_at r RS_PENDING_OIC \<and> is_oic_for sc (pr_equipment r) \<or>
       (waits_at r RS_PENDING_STORES \<or> pr_status r = RS_STORES_AVAILABLE) \<and>
         has_role sc (pr_department r) R_OC_STORES \<or>
       waits_at r RS_PENDING_ACCOUNTS \<and> has_role sc (pr_department r) R_ACCOUNTS \<or>
       waits_at r RS_PENDING_HOD \<and> (has_role sc (pr_department r) R_HOD \<or>
         has_perm sc (pr_department r) P_OFFLINE_APPROVAL)) \<and>
      pr_department r \<in> set (department_ids sc) \<and> pr_requested_by r \<noteq> u_id (sc_user sc))"

text \<open>\<^verbatim>\<open>visible_requests_q\<close> of \<^verbatim>\<open>access.py\<close>.\<close>

definition visible_request :: "scope \<Rightarrow> purchase_request \<Rightarrow> bool" where
  "visible_request sc r =
     (pr_department r \<in> set (department_ids sc) \<and>
       (dept_wide sc (pr_department r) \<or> pr_requested_by r = u_id (sc_user sc) \<or>
        is_oic_for sc (pr_equipment r) \<or> is_incharge_for sc (pr_equipment r)))"

end
