(* ===== verification/Store_Lines.thy ===== *)
theory Store_Lines
  imports Proc_Workflow
begin

text \<open>
  The edits of the stores to the lines of a request, \<^verbatim>\<open>procurement_management/store_lines.py\<close>, in
  the order of the file. A field of an edit that the data does not mention, or gives as empty
  where the code treats both alike, is missing. The texts of the summary are not modelled: the
  summary is whether there was anything to say.
\<close>

record line_edit =
  le_id :: raw_id
  le_remove :: bool
  le_item :: "raw_id option"
  le_description :: string
  le_specification :: "string option"
  le_uom :: string
  le_quantity :: decimal_in
  le_unit_price :: decimal_in
  le_gst :: decimal_in
  le_fulfilment :: "line_fulfilment option option"
  le_store_note :: "string option"

datatype changed_field =
    C_Item | C_Description | C_Specification | C_Uom | C_Quantity | C_Unit_Price | C_Gst
  | C_Fulfilment | C_Store_Note

text \<open>\<^verbatim>\<open>_snapshot\<close>, \<^verbatim>\<open>_item\<close> (which is \<open>line_item\<close>) and \<^verbatim>\<open>_fulfilment\<close>.\<close>

definition snapshot :: "request_line \<Rightarrow> line_snapshot" where
  "snapshot l = \<lparr>sn_item = ln_item l, sn_description = ln_description l, sn_quantity = ln_quantity l,
     sn_uom = ln_uom l, sn_unit_price = ln_unit_price l, sn_gst_rate = ln_gst_rate l\<rparr>"

definition read_fulfilment :: "line_fulfilment option option \<Rightarrow> exn + line_fulfilment" where
  "read_fulfilment raw = (case raw of
     None \<Rightarrow> Inr FF_UNDECIDED
   | Some None \<Rightarrow> Inl (proc_error ''invalid_choice'')
   | Some (Some f) \<Rightarrow> Inr f)"

text \<open>
  The parts of \<^verbatim>\<open>_apply\<close>, one for each field, as functions of the line and the fields changed
  so far.
\<close>

definition set_field :: "'a \<Rightarrow> (request_line \<Rightarrow> 'a) \<Rightarrow> (request_line \<Rightarrow> request_line) \<Rightarrow> changed_field \<Rightarrow>
    request_line \<times> changed_field list \<Rightarrow> request_line \<times> changed_field list" where
  "set_field x old put field lc = (case lc of (l, changed) \<Rightarrow>
     if x = old l then (l, changed) else (put l, changed @ [field]))"

definition edit_item :: "line_edit \<Rightarrow> item option \<Rightarrow> request_line \<Rightarrow> request_line \<times> changed_field list" where
  "edit_item raw it l =
     (if map_option it_id it = ln_item l then (l, [])
      else (case it of
          Some i \<Rightarrow> if strip (le_description raw) = []
            then (l\<lparr>ln_item := Some (it_id i), ln_description := take 255 (it_name i),
              ln_uom := (if it_uom i \<noteq> [] then it_uom i else ln_uom l),
              ln_gst_rate := (case it_default_gst i of
                  Some g \<Rightarrow> if le_gst raw = Missing then g else ln_gst_rate l | None \<Rightarrow> ln_gst_rate l)\<rparr>, [C_Item])
            else (l\<lparr>ln_item := Some (it_id i)\<rparr>, [C_Item])
        | None \<Rightarrow> (l\<lparr>ln_item := None\<rparr>, [C_Item])))"

definition edit_texts :: "line_edit \<Rightarrow> request_line \<times> changed_field list \<Rightarrow> request_line \<times> changed_field list" where
  "edit_texts raw lc =
     (let d = take 255 (strip (le_description raw));
          lc1 = (if strip (le_description raw) = [] then lc
            else set_field d ln_description (\<lambda>l. l\<lparr>ln_description := d\<rparr>) C_Description lc);
          lc2 = (case le_specification raw of None \<Rightarrow> lc1
            | Some s \<Rightarrow> set_field (take 10000 s) ln_specification
                (\<lambda>l. l\<lparr>ln_specification := take 10000 s\<rparr>) C_Specification lc1);
          u = take 30 (le_uom raw)
      in if le_uom raw = [] then lc2 else set_field u ln_uom (\<lambda>l. l\<lparr>ln_uom := u\<rparr>) C_Uom lc2)"

definition edit_quantity ::
  "line_edit \<Rightarrow> request_line \<times> changed_field list \<Rightarrow> exn + request_line \<times> changed_field list" where
  "edit_quantity raw lc = (if le_quantity raw = Missing then Inr lc
     else and_then (parse_qty (le_quantity raw)) (\<lambda>q.
       and_then (ensure (ln_issued_quantity (fst lc) \<le> q) (proc_error ''invalid_quantity'')) (\<lambda>_.
         Inr (set_field q ln_quantity (\<lambda>l. l\<lparr>ln_quantity := q\<rparr>) C_Quantity lc))))"

definition edit_price ::
  "line_edit \<Rightarrow> request_line \<times> changed_field list \<Rightarrow> exn + request_line \<times> changed_field list" where
  "edit_price raw lc = (if le_unit_price raw = Missing then Inr lc
     else and_then (parse_money True True (le_unit_price raw)) (\<lambda>p. case p of None \<Rightarrow> Inr lc
       | Some x \<Rightarrow> Inr (set_field x ln_unit_price (\<lambda>l. l\<lparr>ln_unit_price := x\<rparr>) C_Unit_Price lc)))"

definition edit_gst ::
  "line_edit \<Rightarrow> request_line \<times> changed_field list \<Rightarrow> exn + request_line \<times> changed_field list" where
  "edit_gst raw lc = (if le_gst raw = Missing then Inr lc
     else and_then (parse_rate (le_gst raw)) (\<lambda>g.
       Inr (set_field g ln_gst_rate (\<lambda>l. l\<lparr>ln_gst_rate := g\<rparr>) C_Gst lc)))"

definition edit_decision ::
  "line_edit \<Rightarrow> request_line \<times> changed_field list \<Rightarrow> exn + request_line \<times> changed_field list" where
  "edit_decision raw lc =
     and_then (case le_fulfilment raw of None \<Rightarrow> Inr lc
       | Some f \<Rightarrow> and_then (read_fulfilment (Some f)) (\<lambda>f.
           Inr (set_field f ln_fulfilment (\<lambda>l. l\<lparr>ln_fulfilment := f\<rparr>) C_Fulfilment lc))) (\<lambda>lc1.
     Inr (case le_store_note raw of None \<Rightarrow> lc1
       | Some n \<Rightarrow> set_field (take 2000 n) ln_store_note (\<lambda>l. l\<lparr>ln_store_note := take 2000 n\<rparr>) C_Store_Note lc1))"

definition apply_edit ::
  "'m masters_scheme \<Rightarrow> ident \<Rightarrow> line_edit \<Rightarrow> request_line \<Rightarrow> exn + request_line \<times> changed_field list" where
  "apply_edit ms d raw l =
     and_then (case le_item raw of None \<Rightarrow> Inr (l, [])
       | Some i \<Rightarrow> and_then (line_item ms d i) (\<lambda>it. Inr (edit_item raw it l))) (\<lambda>lc.
     and_then (edit_quantity raw (edit_texts raw lc)) (\<lambda>lc.
     and_then (edit_price raw lc) (\<lambda>lc.
     and_then (edit_gst raw lc) (\<lambda>lc.
     and_then (edit_decision raw lc) (\<lambda>(l', changed).
       Inr (l'\<lparr>ln_line_total := line_total (ln_quantity l') (ln_unit_price l') (ln_gst_rate l')\<rparr>,
         changed))))))"

text \<open>The changes that make the stores keep the values of the requester.\<close>

definition keeps_original :: "changed_field set" where
  "keeps_original = {C_Item, C_Description, C_Quantity, C_Uom, C_Unit_Price, C_Gst}"

definition remember :: "request_line \<Rightarrow> changed_field list \<Rightarrow> request_line \<Rightarrow> request_line" where
  "remember before changed l =
     (if list_ex (\<lambda>f. f \<in> keeps_original) changed \<and> ln_store_original l = None \<and> \<not> ln_added_by_stores l
      then l\<lparr>ln_store_original := Some (snapshot before)\<rparr> else l)"

definition added_line ::
  "'m masters_scheme \<Rightarrow> ident \<Rightarrow> line_edit \<Rightarrow> exn + request_line" where
  "added_line ms d raw =
     and_then (line_item ms d (given (le_item raw))) (\<lambda>it.
     let description = strip (if le_description raw \<noteq> [] then le_description raw
           else case it of None \<Rightarrow> [] | Some i \<Rightarrow> it_name i) in
     and_then (ensure (description \<noteq> []) (proc_error ''required'')) (\<lambda>_.
     and_then (parse_qty (le_quantity raw)) (\<lambda>q.
     and_then (if le_unit_price raw = Missing then Inr (Some 0) else parse_money True True (le_unit_price raw)) (\<lambda>p.
     and_then (line_gst it (le_gst raw)) (\<lambda>gst.
     and_then (read_fulfilment (le_fulfilment raw)) (\<lambda>f.
       let price = (case p of None \<Rightarrow> 0 | Some x \<Rightarrow> x) in
       Inr \<lparr>ln_id = 0, ln_request = 0, ln_item = map_option it_id it, ln_description = take 255 description,
         ln_specification = take 10000 (case le_specification raw of
             Some (c # cs) \<Rightarrow> c # cs | _ \<Rightarrow> (case it of None \<Rightarrow> [] | Some i \<Rightarrow> it_specification i)),
         ln_uom = take 30 (if le_uom raw \<noteq> [] then le_uom raw
             else case it of None \<Rightarrow> ''Nos'' | Some i \<Rightarrow> it_uom i),
         ln_quantity = q, ln_unit_price = price, ln_gst_rate = gst, ln_line_total = line_total q price gst,
         ln_issued_quantity = 0, ln_fulfilment = f,
         ln_store_note = take 2000 (case le_store_note raw of None \<Rightarrow> [] | Some n \<Rightarrow> n),
         ln_store_original = None, ln_added_by_stores = True\<rparr>))))))"

text \<open>One entry of the list; the flag says whether the summary has an entry.\<close>

definition edit_line ::
  "'m masters_scheme \<Rightarrow> purchase_request \<Rightarrow> line_edit option \<Rightarrow> 'z proc_db_scheme \<Rightarrow>
   exn + 'z proc_db_scheme \<times> bool" where
  "edit_line ms r raw db = (case raw of
     None \<Rightarrow> Inl (proc_error ''invalid'')
   | Some e \<Rightarrow>
       and_then (parse_id False (le_id e)) (\<lambda>i. case i of
         Some k \<Rightarrow> (case find (\<lambda>l. ln_id l = k) (lines_of db (pr_id r)) of
             None \<Rightarrow> Inl (proc_error ''invalid'')
           | Some l \<Rightarrow> if le_remove e
               then (if 0 < ln_issued_quantity l then Inl (proc_error ''line_issued'')
                 else Inr (db\<lparr>p_lines := filter (\<lambda>l'. ln_id l' \<noteq> k) (p_lines db)\<rparr>, True))
               else and_then (apply_edit ms (pr_department r) e l) (\<lambda>(l', changed).
                 if changed = [] then Inr (db, False)
                 else Inr (db\<lparr>p_lines := update_row ln_id k (\<lambda>_. remember l changed l') (p_lines db)\<rparr>, True)))
       | None \<Rightarrow> and_then (added_line ms (pr_department r) e) (\<lambda>l.
           Inr (db\<lparr>p_lines := p_lines db @ [l\<lparr>ln_id := fresh_pk ln_id (p_lines db), ln_request := pr_id r\<rparr>]\<rparr>,
             True))))"

fun edit_each ::
  "'m masters_scheme \<Rightarrow> purchase_request \<Rightarrow> line_edit option list \<Rightarrow> 'z proc_db_scheme \<Rightarrow>
   exn + 'z proc_db_scheme \<times> bool" where
  "edit_each ms r [] db = Inr (db, False)"
| "edit_each ms r (raw # raws) db = and_then (edit_line ms r raw db) (\<lambda>(db1, b).
     and_then (edit_each ms r raws db1) (\<lambda>(db2, c). Inr (db2, b \<or> c)))"

text \<open>The rest of the route, computed anew.\<close>

fun after_stores :: "stage list \<Rightarrow> stage list option" where
  "after_stores [] = None"
| "after_stores (s # route) = (if s = S_STORES then Some route else after_stores route)"

definition new_tail :: "stage list \<Rightarrow> purchase_request \<Rightarrow> stage list" where
  "new_tail full r = (case after_stores full of
     Some t \<Rightarrow> t | None \<Rightarrow> drop (pr_route_index r + 1) (pr_approval_route r))"

definition with_total :: "paise \<Rightarrow> purchase_request \<Rightarrow> purchase_request" where
  "with_total t r = (let r1 = r\<lparr>pr_estimated_total := t\<rparr> in
     if pr_approved_amount r \<noteq> None \<and> t \<noteq> pr_estimated_total r then r1\<lparr>pr_approved_amount := None\<rparr> else r1)"

definition edit_lines ::
  "timestamp \<Rightarrow> day \<Rightarrow> org \<Rightarrow> 'm proc_masters_scheme \<Rightarrow> scope \<Rightarrow> ident \<Rightarrow> line_edit option list option \<Rightarrow>
   string \<Rightarrow> 'z proc_db_scheme \<Rightarrow> exn + 'z proc_db_scheme \<times> purchase_request" where
  "edit_lines now today org ms sc i raws comments db =
     and_then (locked_request db i) (\<lambda>r.
     and_then (require_config org (pr_department r)) (\<lambda>cfg.
     and_then (ensure (current_stage r = Some S_STORES \<and> pr_status r = RS_PENDING_STORES)
       (proc_error ''invalid_status'')) (\<lambda>_.
     and_then (require_stage sc cfg r (Some S_STORES)) (\<lambda>_.
     and_then (case raws of None \<Rightarrow> Inl (proc_error ''lines_required'')
       | Some rs \<Rightarrow> if rs = [] then Inl (proc_error ''lines_required'')
           else if 200 < length rs then Inl (proc_error ''invalid'') else Inr rs) (\<lambda>rs.
     and_then (edit_each ms r rs db) (\<lambda>(db1, summary).
     and_then (ensure (lines_of db1 i \<noteq> []) (proc_error ''lines_required'')) (\<lambda>_.
     if \<not> summary then Inr (db1, r)
     else let r1 = with_total (lines_total (lines_of db1 i)) r;
              r2 = r1\<lparr>pr_hod_required := hod_required ms cfg r1\<rparr>;
              old_tail = drop (pr_route_index r + 1) (pr_approval_route r);
              tail = new_tail (compute_route ms cfg r2) r2;
              r3 = r2\<lparr>pr_approval_route := take (pr_route_index r + 1) (pr_approval_route r) @ tail\<rparr>
       in and_then (if tail = old_tail then Inr () else ensure_approvers now today org cfg r2 tail) (\<lambda>_.
         Inr (act now sc S_STORES A_STORES_EDIT (pr_status r3) comments None None r3 db1)))))))))"

text \<open>\<^verbatim>\<open>suggest_fulfilment\<close>: for each line the stock on hand of its item in all stores of the department.\<close>

definition on_hand :: "'z proc_db_scheme \<Rightarrow> ident \<Rightarrow> request_line \<Rightarrow> thousandths option" where
  "on_hand db d l = (case ln_item l of
     None \<Rightarrow> None
   | Some i \<Rightarrow> (let rows = filter (\<lambda>b. fst (sb_key b) = d \<and> snd (snd (sb_key b)) = i) (sk_balances db) in
       if rows = [] then None else Some (sum_list (map sb_quantity rows))))"

definition suggest_fulfilment ::
  "'z proc_db_scheme \<Rightarrow> purchase_request \<Rightarrow> (ident \<times> thousandths option \<times> line_fulfilment) list" where
  "suggest_fulfilment db r = map (\<lambda>l. let have = on_hand db (pr_department r) l in
     (ln_id l, have, case have of None \<Rightarrow> FF_UNDECIDED
        | Some h \<Rightarrow> if open_quantity l \<le> h then FF_STOCK else FF_PROCURE)) (lines_of db (pr_id r))"

end
