(* ===== verification/Stock_Books.thy ===== *)
theory Stock_Books
  imports Stock
begin

text \<open>
  What \<^verbatim>\<open>stock.py\<close> promises in its header: the balance of every store equals the sum of its
  ledger and never falls below zero. An abstract inventory, a function from store keys to
  quantities, is refined by \<open>post\<close>; the ledger interface is interpreted on the stock tables.
\<close>

subsection \<open>The abstract inventory\<close>

type_synonym inventory = "store_key \<Rightarrow> thousandths"

definition move_inventory :: "store_key \<Rightarrow> thousandths \<Rightarrow> inventory \<Rightarrow> inventory option" where
  "move_inventory k q stock = (if stock k + q < 0 then None else Some (stock(k := stock k + q)))"

definition stock_of :: "'z stock_db_scheme \<Rightarrow> inventory" where
  "stock_of db k = (case balance_row k db of None \<Rightarrow> 0 | Some b \<Rightarrow> sb_quantity b)"

definition signed_move :: "movement \<Rightarrow> thousandths" where
  "signed_move mv = (if mv_type mv \<in> stock_inward then mv_quantity mv else - mv_quantity mv)"

definition stock_postings :: "'z stock_db_scheme \<Rightarrow> (store_key \<times> int) list" where
  "stock_postings db = map (\<lambda>t. (st_key t, signed_quantity t)) (sk_txs db)"

definition has_moved :: "store_key \<Rightarrow> 'z stock_db_scheme \<Rightarrow> bool" where
  "has_moved k db = list_ex (\<lambda>t. st_key t = k) (sk_txs db)"

lemma balance_for_update_result:
  assumes "balance_for_update k db = (db1, b)"
  shows "stock_of db1 = stock_of db" "sb_key b = k" "sb_quantity b = stock_of db k"
    "balance_row k db1 = Some b"
    "sk_txs db1 = sk_txs db" "sk_sequences db1 = sk_sequences db" "sk_alerts db1 = sk_alerts db"
    "map sb_key (sk_balances db1) = map sb_key (sk_balances db) @
       (if balance_row k db = None then [k] else [])"
    "c \<in> set (sk_balances db1) \<Longrightarrow> c \<in> set (sk_balances db) \<or> sb_quantity c = 0"
    "stock_db.more db1 = stock_db.more db" "sk_audit db1 = sk_audit db"
proof -
  have key: "sb_key c = k" if "balance_row k db = Some c" for c
    using that by (auto simp: balance_row_def dest: find_Some_set)
  show "stock_of db1 = stock_of db" "sb_key b = k" "sb_quantity b = stock_of db k"
    "balance_row k db1 = Some b"
    "sk_txs db1 = sk_txs db" "sk_sequences db1 = sk_sequences db" "sk_alerts db1 = sk_alerts db"
    "map sb_key (sk_balances db1) = map sb_key (sk_balances db) @
       (if balance_row k db = None then [k] else [])"
    "stock_db.more db1 = stock_db.more db" "sk_audit db1 = sk_audit db"
    using assms key
    by (auto simp: balance_for_update_def Let_def stock_of_def balance_row_def table_simps fun_eq_iff
        split: option.splits if_splits)
  show "c \<in> set (sk_balances db1) \<Longrightarrow> c \<in> set (sk_balances db) \<or> sb_quantity c = 0"
    using assms by (auto simp: balance_for_update_def Let_def split: option.splits)
qed

lemma save_balance_result:
  assumes "balance_row (sb_key b) db \<noteq> None"
  shows "stock_of (save_balance b db) = (stock_of db)(sb_key b := sb_quantity b)"
proof
  fix k
  have "find (\<lambda>c. sb_key c = k) (map (\<lambda>c. if sb_key c = sb_key b then b else c) rows) =
      (if k = sb_key b then map_option (\<lambda>_. b) (find (\<lambda>c. sb_key c = sb_key b) rows)
       else find (\<lambda>c. sb_key c = k) rows)" for rows
    by (induction rows) auto
  with assms show "stock_of (save_balance b db) k = ((stock_of db)(sb_key b := sb_quantity b)) k"
    by (auto simp: stock_of_def balance_row_def save_balance_def)
qed

lemma save_balance_simps [simp]:
  "sk_txs (save_balance b db) = sk_txs db"
  "sk_sequences (save_balance b db) = sk_sequences db"
  "sk_alerts (save_balance b db) = sk_alerts db"
  "sk_audit (save_balance b db) = sk_audit db"
  "map sb_key (sk_balances (save_balance b db)) = map sb_key (sk_balances db)"
  "stock_db.more (save_balance b db) = stock_db.more db"
  by (auto simp: save_balance_def)

lemma alert_low_stock_simps [simp]:
  "sk_txs (alert_low_stock b it q db) = sk_txs db"
  "sk_sequences (alert_low_stock b it q db) = sk_sequences db"
  "sk_balances (alert_low_stock b it q db) = sk_balances db"
  "stock_of (alert_low_stock b it q db) = stock_of db"
  "stock_db.more (alert_low_stock b it q db) = stock_db.more db"
  by (auto simp: alert_low_stock_def Let_def stock_of_def balance_row_def fun_eq_iff)

lemma stock_of_cong: "sk_balances db = sk_balances db' \<Longrightarrow> stock_of db = stock_of db'"
  by (simp add: stock_of_def balance_row_def fun_eq_iff)

text \<open>Everything a movement that succeeds does.\<close>

lemma post_result:
  assumes "post sc today fy mv db = Inr (db', tx)"
  obtains seqs number b where
    "move_checks mv = Inr ()" "0 \<le> stock_of db (movement_key mv) + signed_move mv"
    "\<not> (mv_type mv = T_OPENING \<and> has_moved (movement_key mv) db)"
    "take_number ''STK'' fy (sk_sequences db) = (seqs, number)" "sk_sequences db' = seqs"
    "tx = tx_of sc today mv number (stock_of db (movement_key mv) + signed_move mv)"
    "sk_txs db' = sk_txs db @ [tx]"
    "stock_of db' = (stock_of db)(movement_key mv := stock_of db (movement_key mv) + signed_move mv)"
    "map sb_key (sk_balances db') = map sb_key (sk_balances db) @
       (if balance_row (movement_key mv) db = None then [movement_key mv] else [])"
    "\<And>c. c \<in> set (sk_balances db') \<Longrightarrow> c \<in> set (sk_balances db) \<or> sb_quantity c = 0 \<or>
       sb_quantity c = stock_of db (movement_key mv) + signed_move mv"
    "snd (balance_for_update (movement_key mv) db) = b"
    "sk_alerts db' = sk_alerts db @ (if signed_move mv < 0 \<and> mv_laboratory mv = None \<and>
       alert_level b (mv_item mv) \<noteq> 0 \<and>
       stock_of db (movement_key mv) + signed_move mv \<le> alert_level b (mv_item mv) \<and>
       alert_level b (mv_item mv) < stock_of db (movement_key mv) then [movement_key mv] else [])"
    "stock_db.more db' = stock_db.more db"
    "balance_row (movement_key mv) db' =
       Some (b\<lparr>sb_quantity := stock_of db (movement_key mv) + signed_move mv\<rparr>)"
proof -
  obtain db1 b where bal: "balance_for_update (movement_key mv) db = (db1, b)" by force
  note b = balance_for_update_result [OF bal]
  obtain seqs number where num: "take_number ''STK'' fy (sk_sequences db) = (seqs, number)" by force
  let ?k = "movement_key mv" and ?q = "stock_of db (movement_key mv) + signed_move mv"
  let ?b = "b\<lparr>sb_quantity := ?q\<rparr>"
  have row: "balance_row (sb_key ?b) db1 \<noteq> None" using b(2,4) by simp
  define db3 where "db3 = (save_balance ?b db1)\<lparr>sk_sequences := seqs,
      sk_txs := sk_txs db @ [tx_of sc today mv number ?q],
      sk_audit := sk_audit db @ [\<lparr>pa_actor = u_id (sc_user sc),
        pa_action = ''stock.'' @ tx_code (mv_type mv), pa_department = mv_department mv,
        pa_object = Suc (length (sk_txs db)), pa_reason = mv_remarks mv\<rparr>]\<rparr>"
  from assms have ok: "move_checks mv = Inr ()" "\<not> (mv_type mv = T_OPENING \<and> has_moved ?k db)" "0 \<le> ?q"
    and res: "db' = (if signed_move mv < 0 \<and> mv_laboratory mv = None
        then alert_low_stock ?b (mv_item mv) (?q - signed_move mv) db3 else db3)"
      "tx = tx_of sc today mv number ?q"
    unfolding post_def bal by (auto simp: result_simps Let_def b num has_moved_def signed_move_def db3_def)
  have db3: "stock_of db3 = (stock_of db)(?k := ?q)" "sk_balances db3 = sk_balances (save_balance ?b db1)"
    using save_balance_result [OF row] b(1,2)
    by (simp_all add: db3_def stock_of_def balance_row_def fun_eq_iff)
  have level: "alert_level ?b (mv_item mv) = alert_level b (mv_item mv)" by (simp add: alert_level_def)
  have bals: "sk_balances db' = sk_balances (save_balance ?b db1)" by (simp add: res db3(2))
  show thesis
  proof (rule that [OF ok(1,3,2) num, of b])
    show "sk_sequences db' = seqs" "sk_txs db' = sk_txs db @ [tx]" "tx = tx_of sc today mv number ?q"
      "stock_of db' = (stock_of db)(?k := ?q)" "stock_db.more db' = stock_db.more db"
      using db3 by (auto simp: res b) (simp_all add: db3_def b)
    show "map sb_key (sk_balances db') = map sb_key (sk_balances db) @
        (if balance_row ?k db = None then [?k] else [])"
      using b(8) by (simp add: bals)
    show "c \<in> set (sk_balances db) \<or> sb_quantity c = 0 \<or> sb_quantity c = ?q"
      if "c \<in> set (sk_balances db')" for c
      using that b(9) [of c] by (auto simp: bals save_balance_def)
    show "snd (balance_for_update ?k db) = b" by (simp add: bal)
    have "find (\<lambda>c. sb_key c = sb_key ?b) (map (\<lambda>c. if sb_key c = sb_key ?b then ?b else c) rows) =
        map_option (\<lambda>_. ?b) (find (\<lambda>c. sb_key c = sb_key ?b) rows)" for rows
      by (induction rows) auto
    then show "balance_row ?k db' = Some ?b"
      using row b(2) by (auto simp: balance_row_def bals save_balance_def)
    show "sk_alerts db' = sk_alerts db @ (if signed_move mv < 0 \<and> mv_laboratory mv = None \<and>
       alert_level b (mv_item mv) \<noteq> 0 \<and> ?q \<le> alert_level b (mv_item mv) \<and>
       alert_level b (mv_item mv) < stock_of db ?k then [?k] else [])"
      by (simp add: res alert_low_stock_def level Let_def b) (simp add: db3_def b)
  qed
qed

subsection \<open>The steps of the stock tables\<close>

inductive stock_step :: "'z stock_db_scheme \<Rightarrow> 'z stock_db_scheme \<Rightarrow> bool" where
  Manual: "manual_entry org (ms :: masters) sc today (fy_label year month) d data db = Inr (db', tx) \<Longrightarrow> stock_step db db'"
| Issue: "issue_for_request sc today (fy_label year month) d request number requested_by lines db
      = Inr (db', txs) \<Longrightarrow> stock_step db db'"
| Receive: "receive_for_invoice sc today (fy_label year month) d invoice invoice_date number bill db
      = Inr (db', txs) \<Longrightarrow> stock_step db db'"
| Levels: "set_levels org (ms :: masters) sc d item lab min_level reorder_level db = Inr (db', b) \<Longrightarrow> stock_step db db'"

inductive_cases stock_stepE: "stock_step db db'"

text \<open>A single posting, or a change of levels that moves nothing: every step is made of these.\<close>

definition levels_only :: "'z stock_db_scheme \<Rightarrow> 'z stock_db_scheme \<Rightarrow> bool" where
  "levels_only db db' = (stock_of db' = stock_of db \<and> sk_txs db' = sk_txs db \<and>
     sk_sequences db' = sk_sequences db \<and> sk_alerts db' = sk_alerts db \<and>
     (distinct (map sb_key (sk_balances db)) \<longrightarrow> distinct (map sb_key (sk_balances db'))) \<and>
     (\<forall>c\<in>set (sk_balances db'). sb_quantity c = 0 \<or> sb_quantity c = stock_of db (sb_key c) \<or>
       c \<in> set (sk_balances db)))"

definition posting_step :: "'z stock_db_scheme \<Rightarrow> 'z stock_db_scheme \<Rightarrow> bool" where
  "posting_step db db' = ((\<exists>sc today year month mv tx.
     post sc today (fy_label year month) mv db = Inr (db', tx)) \<or> levels_only db db')"

lemma post_all_steps:
  assumes "post_all sc today (fy_label year month) mvs db = Inr (db', txs)"
  shows "posting_step\<^sup>*\<^sup>* db db'"
  using assms
proof (induction mvs arbitrary: db txs)
  case (Cons mv mvs)
  then obtain db1 tx txs1 where "post sc today (fy_label year month) mv db = Inr (db1, tx)"
      "post_all sc today (fy_label year month) mvs db1 = Inr (db', txs1)"
    by (auto simp: result_simps)
  then show ?case
    using Cons.IH by (metis (no_types, lifting) converse_rtranclp_into_rtranclp posting_step_def)
qed simp

lemma row_key_absent: "balance_row k db = None \<Longrightarrow> k \<notin> set (map sb_key (sk_balances db))"
  by (auto simp: balance_row_def find_None_iff)

lemma set_levels_only:
  assumes "set_levels org ms sc d item lab min_level reorder_level db = Inr (db', b)"
  shows "levels_only db db'"
proof -
  from assms obtain k where res: "(let (db1, bal) = balance_for_update k db in
     and_then (new_level (sb_min_level bal) min_level) (\<lambda>min.
     and_then (new_level (sb_reorder_level bal) reorder_level) (\<lambda>reorder.
     let bal' = bal\<lparr>sb_min_level := min, sb_reorder_level := reorder\<rparr>;
         db2 = save_balance bal' db1
     in Inr (db2\<lparr>sk_audit := sk_audit db2 @ [\<lparr>pa_actor = u_id (sc_user sc),
          pa_action = ''stock.levels_set'', pa_department = d, pa_object = snd (snd k), pa_reason = []\<rparr>]\<rparr>,
        bal')))) = Inr (db', b)"
    unfolding set_levels_def by (force simp only: and_then_eq_Inr snd_conv)
  obtain db1 c where bal: "balance_for_update k db = (db1, c)" by force
  from res obtain min reorder where
    db': "sk_balances db' = sk_balances (save_balance (c\<lparr>sb_min_level := min, sb_reorder_level := reorder\<rparr>) db1)"
      "sk_txs db' = sk_txs db1" "sk_sequences db' = sk_sequences db1" "sk_alerts db' = sk_alerts db1"
    unfolding bal by (auto simp: result_simps Let_def)
  note c = balance_for_update_result [OF bal]
  let ?c = "c\<lparr>sb_min_level := min, sb_reorder_level := reorder\<rparr>"
  have row: "balance_row (sb_key ?c) db1 \<noteq> None" using c(2,4) by simp
  from save_balance_result [OF this] stock_of_cong [OF db'(1)] c(1-3)
  have stock: "stock_of db' = stock_of db" by (simp add: fun_eq_iff)
  have "sb_quantity x = 0 \<or> sb_quantity x = stock_of db (sb_key x) \<or> x \<in> set (sk_balances db)"
    if "x \<in> set (sk_balances db')" for x
    using that c(2,3) c(9) [of x] by (auto simp: db'(1) save_balance_def)
  moreover have "distinct (map sb_key (sk_balances db'))" if "distinct (map sb_key (sk_balances db))"
    using that c(8) row_key_absent [of k db] by (cases "balance_row k db") (simp_all add: db'(1))
  ultimately show ?thesis using stock db' c(5-8) by (simp add: levels_only_def)
qed

lemma stock_step_postings: "stock_step db db' \<Longrightarrow> posting_step\<^sup>*\<^sup>* db db'"
proof (erule stock_stepE)
  fix org and ms :: masters and sc today year month d data tx
  assume "manual_entry org ms sc today (fy_label year month) d data db = Inr (db', tx)"
  then have "\<exists>mv. post sc today (fy_label year month) mv db = Inr (db', tx)"
    unfolding manual_entry_def by (simp only: and_then_eq_Inr) blast
  then have "posting_step db db'" unfolding posting_step_def by blast
  then show "posting_step\<^sup>*\<^sup>* db db'" by blast
next
  fix org and ms :: masters and sc d item lab min_level reorder_level b
  assume "set_levels org ms sc d item lab min_level reorder_level db = Inr (db', b)"
  then have "posting_step db db'" unfolding posting_step_def by (blast dest: set_levels_only)
  then show "posting_step\<^sup>*\<^sup>* db db'" by blast
qed (auto simp: issue_for_request_def receive_for_invoice_def dest: post_all_steps)

lemma stock_run_postings: "stock_step\<^sup>*\<^sup>* db db' \<Longrightarrow> posting_step\<^sup>*\<^sup>* db db'"
  by (induction rule: rtranclp_induct) (auto dest: stock_step_postings)

subsection \<open>The invariant\<close>

definition tx_ok :: "stock_tx list \<Rightarrow> stock_tx \<Rightarrow> bool" where
  "tx_ok before t = (0 < st_quantity t \<and> 0 \<le> st_balance_after t \<and>
     st_balance_after t = posted (st_key t) (map (\<lambda>t. (st_key t, signed_quantity t)) (before @ [t])) \<and>
     (st_type t = T_OPENING \<longrightarrow> st_key t \<notin> st_key ` set before))"

definition ledger_ok :: "stock_tx list \<Rightarrow> bool" where
  "ledger_ok ts = (\<forall>i<length ts. tx_ok (take i ts) (ts ! i))"

definition numbers_ok :: "number_sequence list \<Rightarrow> stock_tx list \<Rightarrow> bool" where
  "numbers_ok seqs ts = (distinct (map st_number ts) \<and>
     (\<forall>t\<in>set ts. \<exists>fy k. CHR ''/'' \<notin> set fy \<and> st_number t = document_number ''STK'' fy k \<and>
        number_given seqs ''STK'' fy k))"

definition stock_wf :: "'z stock_db_scheme \<Rightarrow> bool" where
  "stock_wf db = (distinct (map sb_key (sk_balances db)) \<and> (\<forall>b\<in>set (sk_balances db). 0 \<le> sb_quantity b) \<and>
     (\<forall>k. stock_of db k = posted k (stock_postings db)) \<and> ledger_ok (sk_txs db) \<and>
     numbers_ok (sk_sequences db) (sk_txs db))"

lemma ledger_ok_snoc: "ledger_ok (ts @ [t]) \<longleftrightarrow> ledger_ok ts \<and> tx_ok ts t"
  by (auto simp: ledger_ok_def nth_append less_Suc_eq)

lemma tx_of_simps [simp]:
  "st_number (tx_of sc today mv n q) = n" "st_key (tx_of sc today mv n q) = movement_key mv"
  "st_type (tx_of sc today mv n q) = mv_type mv" "st_quantity (tx_of sc today mv n q) = mv_quantity mv"
  "st_balance_after (tx_of sc today mv n q) = q"
  "signed_quantity (tx_of sc today mv n q) = signed_move mv"
  by (simp_all add: tx_of_def signed_quantity_def signed_move_def)

lemma move_checks_positive: "move_checks mv = Inr u \<Longrightarrow> 0 < mv_quantity mv"
  by (simp add: move_checks_def result_simps)

lemma fy_label_no_slash: "CHR ''/'' \<notin> set (fy_label year month)"
proof -
  have digits: "c \<in> set (decimal n) \<Longrightarrow> is_digit c" for c n
    by (induction n rule: decimal.induct) (subst (asm) (2) decimal.simps, auto split: if_splits)
  have "\<not> is_digit CHR ''/''" by (simp add: is_digit_def)
  with digits show ?thesis
    unfolding fy_label_def Let_def last_two_def by (auto dest!: in_set_dropD)
qed

lemma numbers_ok_snoc:
  assumes "numbers_ok seqs ts" "take_number ''STK'' fy seqs = (seqs', n)" "CHR ''/'' \<notin> set fy" "st_number t = n"
  shows "numbers_ok seqs' (ts @ [t])"
proof -
  from assms(2) obtain k where k: "n = document_number ''STK'' fy k" "\<not> number_given seqs ''STK'' fy k"
      "number_given seqs' ''STK'' fy k" "\<And>q gy m. number_given seqs q gy m \<Longrightarrow> number_given seqs' q gy m"
    by (rule take_number_result) blast
  have "n \<notin> st_number ` set ts"
  proof
    assume "n \<in> st_number ` set ts"
    with assms(1) k(1) obtain gy m where m: "CHR ''/'' \<notin> set gy" "number_given seqs ''STK'' gy m"
        "document_number ''STK'' fy k = document_number ''STK'' gy m"
      unfolding numbers_ok_def by fastforce
    from document_number_inject [OF _ assms(3) _ m(1,3)] m(2) k(2) show False by simp
  qed
  then show ?thesis
    using assms(1,3,4) k unfolding numbers_ok_def by (auto; fastforce)
qed

lemma post_wf:
  assumes "post sc today (fy_label year month) mv db = Inr (db', tx)" "stock_wf db"
  shows "stock_wf db'"
proof (rule post_result [OF assms(1)])
  fix seqs number
  let ?k = "movement_key mv" and ?q = "stock_of db (movement_key mv) + signed_move mv"
  assume ok: "move_checks mv = Inr ()" "0 \<le> ?q" "\<not> (mv_type mv = T_OPENING \<and> has_moved ?k db)"
    "take_number ''STK'' (fy_label year month) (sk_sequences db) = (seqs, number)" "sk_sequences db' = seqs"
    "tx = tx_of sc today mv number ?q" "sk_txs db' = sk_txs db @ [tx]" "stock_of db' = (stock_of db)(?k := ?q)"
    and keys: "map sb_key (sk_balances db') = map sb_key (sk_balances db) @
       (if balance_row ?k db = None then [?k] else [])"
    and rows: "\<And>c. c \<in> set (sk_balances db') \<Longrightarrow> c \<in> set (sk_balances db) \<or> sb_quantity c = 0 \<or> sb_quantity c = ?q"
  have bal: "stock_of db k = posted k (stock_postings db)" for k using assms(2) unfolding stock_wf_def by blast
  have "distinct (map sb_key (sk_balances db'))"
    using keys assms(2) row_key_absent [of ?k db]
    by (cases "balance_row ?k db") (simp_all add: stock_wf_def)
  moreover have "0 \<le> sb_quantity b" if "b \<in> set (sk_balances db')" for b
    using rows [OF that] assms(2) ok(2) by (auto simp: stock_wf_def)
  moreover have "stock_of db' k = posted k (stock_postings db')" for k
    using bal [of k] bal [of ?k] by (simp add: ok stock_postings_def)
  moreover have "tx_ok (sk_txs db) tx"
    using ok(1-3) bal [of ?k] move_checks_positive [OF ok(1)]
    by (auto simp: ok(6) tx_ok_def stock_postings_def has_moved_def list_ex_iff)
  moreover have "numbers_ok (sk_sequences db') (sk_txs db')"
    using assms(2) ok(4-7) fy_label_no_slash by (auto simp: stock_wf_def intro!: numbers_ok_snoc)
  ultimately show "stock_wf db'" using assms(2) by (simp add: stock_wf_def ok(7) ledger_ok_snoc)
qed

lemma row_quantity:
  assumes "distinct (map sb_key (sk_balances db))" "b \<in> set (sk_balances db)"
  shows "stock_of db (sb_key b) = sb_quantity b"
proof -
  have "find (\<lambda>c. sb_key c = sb_key b) rows = Some b" if "distinct (map sb_key rows)" "b \<in> set rows" for rows
    using that by (induction rows) auto
  with assms show ?thesis by (simp add: stock_of_def balance_row_def)
qed

lemma posting_step_wf:
  assumes "posting_step db db'" "stock_wf db"
  shows "stock_wf db'"
  using assms(1) unfolding posting_step_def
proof (elim disjE exE)
  assume lv: "levels_only db db'"
  have pos: "0 \<le> stock_of db k" for k
    using assms(2) by (auto simp: stock_wf_def stock_of_def balance_row_def dest: find_Some_set split: option.splits)
  have "0 \<le> sb_quantity b" if "b \<in> set (sk_balances db')" for b
  proof -
    from that lv have "sb_quantity b = 0 \<or> sb_quantity b = stock_of db (sb_key b) \<or> b \<in> set (sk_balances db)"
      unfolding levels_only_def by blast
    then show ?thesis using pos [of "sb_key b"] assms(2) unfolding stock_wf_def by auto
  qed
  moreover have "stock_postings db' = stock_postings db" "stock_of db' = stock_of db"
      "distinct (map sb_key (sk_balances db'))"
    using lv assms(2) by (auto simp: levels_only_def stock_wf_def stock_postings_def)
  ultimately show ?thesis
    using lv assms(2) unfolding levels_only_def stock_wf_def by simp
qed (use assms(2) post_wf in blast)

interpretation stock_machine: machine posting_step stock_wf
  by unfold_locales (rule posting_step_wf)

interpretation stock_books: ledger stock_of stock_postings posting_step
proof
  fix db db' :: "'a stock_db_scheme"
  assume "posting_step db db'"
  then show "\<exists>new. stock_postings db' = stock_postings db @ new \<and> (\<forall>k. stock_of db' k = stock_of db k + posted k new)"
    unfolding posting_step_def
  proof (elim disjE exE)
    fix sc today year month mv tx
    assume "post sc today (fy_label year month) mv db = Inr (db', tx)"
    then show ?thesis
      by (rule post_result) (intro exI [of _ "[(movement_key mv, signed_move mv)]"],
        simp add: stock_postings_def)
  qed (auto simp: levels_only_def stock_postings_def)
qed

lemma post_all_result:
  assumes "post_all sc today fy mvs db = Inr (db', txs)"
  shows "sk_txs db' = sk_txs db @ txs \<and> length txs = length mvs \<and> stock_db.more db' = stock_db.more db"
  using assms
proof (induction mvs arbitrary: db txs)
  case (Cons mv mvs)
  then obtain db1 tx txs1 where "post sc today fy mv db = Inr (db1, tx)"
      "post_all sc today fy mvs db1 = Inr (db', txs1)" "txs = tx # txs1"
    by (auto simp: result_simps)
  with Cons.IH show ?case by (auto elim!: post_result)
qed simp

text \<open>The issues of one item from the central store: the levels stay and the stock only falls.\<close>

lemma issues_alert:
  assumes "post_all sc today fy mvs db = Inr (db', txs)"
    and "\<forall>mv\<in>set mvs. movement_key mv = k \<and> mv_type mv = T_ISSUE \<and> mv_laboratory mv = None \<and> mv_item mv = it"
    and "snd (balance_for_update k db) = b"
  shows "sk_alerts db' = sk_alerts db @ (if alert_level b it \<noteq> 0 \<and> alert_level b it < stock_of db k \<and>
      stock_of db' k \<le> alert_level b it then [k] else []) \<and> stock_of db' k \<le> stock_of db k"
  using assms
proof (induction mvs arbitrary: db txs b)
  case (Cons mv mvs)
  then obtain db1 tx txs1 where first: "post sc today fy mv db = Inr (db1, tx)"
      and rest: "post_all sc today fy mvs db1 = Inr (db', txs1)"
    by (auto simp: result_simps)
  have mv: "movement_key mv = k" "mv_laboratory mv = None" "mv_item mv = it"
      "signed_move mv = - mv_quantity mv"
    using Cons.prems(2) by (simp_all add: signed_move_def stock_inward_def)
  obtain b1 where b1: "snd (balance_for_update k db1) = b1" "alert_level b1 it = alert_level b it"
    and alerts: "sk_alerts db1 = sk_alerts db @ (if alert_level b it \<noteq> 0 \<and>
       stock_of db1 k \<le> alert_level b it \<and> alert_level b it < stock_of db k then [k] else [])"
    and less: "stock_of db1 k < stock_of db k"
  proof (rule post_result [OF first])
    fix c
    assume "snd (balance_for_update (movement_key mv) db) = c"
    moreover assume "balance_row (movement_key mv) db1 =
       Some (c\<lparr>sb_quantity := stock_of db (movement_key mv) + signed_move mv\<rparr>)"
    moreover assume "move_checks mv = Inr ()" "stock_of db1 = (stock_of db)
        (movement_key mv := stock_of db (movement_key mv) + signed_move mv)"
      "sk_alerts db1 = sk_alerts db @ (if signed_move mv < 0 \<and> mv_laboratory mv = None \<and>
       alert_level c (mv_item mv) \<noteq> 0 \<and>
       stock_of db (movement_key mv) + signed_move mv \<le> alert_level c (mv_item mv) \<and>
       alert_level c (mv_item mv) < stock_of db (movement_key mv) then [movement_key mv] else [])"
    ultimately show thesis
      using mv Cons.prems(3) move_checks_positive [of mv]
      by (intro that [of "snd (balance_for_update k db1)"])
        (simp_all add: balance_for_update_def alert_level_def)
  qed
  from Cons.IH [OF rest _ b1(1)] Cons.prems(2) b1(2) alerts less show ?case by auto
qed simp

subsection \<open>Properties\<close>

text \<open>
  C13: the stock ledger. However the stock of all stores is entered, received, issued and its
  levels are set, the quantity of every balance row is the sum of the signed movements of its
  store and item, none is ever negative, the balance noted with each movement is the sum up to
  it, no two movements have the same number, and the ledger is only appended to.
\<close>

theorem stock_is_its_ledger:
  assumes "stock_step\<^sup>*\<^sup>* db db'" "stock_wf db"
  shows "(\<forall>b\<in>set (sk_balances db'). sb_quantity b = posted (sb_key b) (stock_postings db') \<and>
      0 \<le> sb_quantity b) \<and>
    (\<forall>i<length (sk_txs db'). st_balance_after (sk_txs db' ! i) = posted (st_key (sk_txs db' ! i))
      (map (\<lambda>t. (st_key t, signed_quantity t)) (take (Suc i) (sk_txs db')))) \<and>
    distinct (map st_number (sk_txs db')) \<and>
    (\<exists>new. stock_postings db' = stock_postings db @ new)"
proof -
  note run = stock_run_postings [OF assms(1)]
  have wf: "stock_wf db'" using stock_machine.run_inv [OF run assms(2)] .
  moreover have "sb_quantity b = posted (sb_key b) (stock_postings db')" if "b \<in> set (sk_balances db')" for b
    using wf row_quantity [of db' b] that unfolding stock_wf_def by metis
  moreover have "\<forall>b\<in>set (sk_balances db'). 0 \<le> sb_quantity b" "ledger_ok (sk_txs db')"
      "distinct (map st_number (sk_txs db'))"
    using wf by (simp_all add: stock_wf_def numbers_ok_def)
  moreover note stock_books.run_appends [OF run]
  ultimately show ?thesis by (simp add: ledger_ok_def tx_ok_def take_Suc_conv_app_nth)
qed


text \<open>
  One low-stock alert. When an item is issued from the central store, in any number of
  movements, the stores are alerted exactly once if the stock falls from above the level in
  force to it or below, and not at all otherwise.
\<close>

theorem one_low_stock_alert:
  assumes "post_all sc today fy mvs db = Inr (db', txs)"
    and "\<forall>mv\<in>set mvs. movement_key mv = k \<and> mv_type mv = T_ISSUE \<and> mv_laboratory mv = None \<and> mv_item mv = it"
  shows "let level = alert_level (snd (balance_for_update k db)) it in
    sk_alerts db' = sk_alerts db @
      (if level \<noteq> 0 \<and> level < stock_of db k \<and> stock_of db' k \<le> level then [k] else [])"
  using issues_alert [OF assms refl] by (simp add: Let_def)

subsection \<open>A sample store\<close>

definition gloves :: item where
  "gloves = \<lparr>it_id = 3, it_department = 7, it_name = ''Gloves'', it_specification = [], it_uom = ''Box'',
     it_default_gst = None, it_category = \<lparr>ic_id = 1, ic_department = 7, ic_nature = N_CONSUMABLE,
       ic_is_asset = False, ic_tracks_stock = True, ic_small_purchase_allowed = True,
       ic_approval_exempt = False, ic_hod_required_always = False, ic_active = True\<rparr>,
     it_min_level = 0, it_reorder_level = 5000, it_tracks_batch = False, it_is_archived = False, it_active = True\<rparr>"

definition stores_scope :: scope where
  "stores_scope = scope_for 0 100 staffed_org stores_officer"

definition empty_stock :: stock_db where
  "empty_stock = \<lparr>sk_balances = [], sk_txs = [], sk_sequences = [], sk_alerts = [], sk_audit = []\<rparr>"

definition opening_entry :: manual_data where
  "opening_entry = \<lparr>md_tx_type = Choice T_OPENING, md_item = Raw_Id 3, md_reason_code = Choice_Missing,
     md_remarks = [], md_batch = [], md_expiry = Day_Missing, md_equipment = Raw_Missing,
     md_issued_to = Raw_Missing, md_date = Day_Missing, md_quantity = Finite 8,
     md_laboratory = Raw_Missing, md_unit_cost = Missing, md_reference_number = []\<rparr>"

definition enter_manually :: "manual_data \<Rightarrow> stock_db \<Rightarrow> exn + stock_db \<times> stock_tx" where
  "enter_manually data = manual_entry staffed_org \<lparr>m_items = [gloves], m_laboratories = []\<rparr> stores_scope
     100 (fy_label 26 5) 7 data"

definition opened_stock :: stock_db where
  "opened_stock = fst (projr (enter_manually opening_entry empty_stock))"

definition issued_stock :: stock_db where
  "issued_stock = fst (projr (enter_manually (opening_entry\<lparr>md_tx_type := Choice T_ISSUE,
     md_remarks := ''lab'', md_quantity := Finite (7/2)\<rparr>) opened_stock))"

lemma sample_stock_run: "stock_step\<^sup>*\<^sup>* empty_stock issued_stock"
proof -
  have step: "stock_step db (fst (projr (enter_manually data db)))"
    if "\<not> isl (enter_manually data db)" for db :: stock_db and data
    using succeeded [OF that] unfolding enter_manually_def by (rule Manual)
  have "\<not> isl (enter_manually opening_entry empty_stock)" by code_simp
  moreover have "\<not> isl (enter_manually (opening_entry\<lparr>md_tx_type := Choice T_ISSUE,
     md_remarks := ''lab'', md_quantity := Finite (7/2)\<rparr>) opened_stock)" by code_simp
  ultimately have "stock_step empty_stock opened_stock" "stock_step opened_stock issued_stock"
    unfolding opened_stock_def issued_stock_def by (auto intro: step)
  then show ?thesis by (rule converse_rtranclp_into_rtranclp [OF _ r_into_rtranclp])
qed

theorem stock_is_its_ledger_witness:
  "map sb_quantity (sk_balances issued_stock) = [4500] \<and>
   map (\<lambda>b. posted (sb_key b) (stock_postings issued_stock)) (sk_balances issued_stock) =
     map sb_quantity (sk_balances issued_stock)"
proof -
  have "stock_wf empty_stock"
    by (simp add: stock_wf_def empty_stock_def ledger_ok_def numbers_ok_def stock_of_def balance_row_def
        stock_postings_def)
  from stock_is_its_ledger [OF sample_stock_run this]
  have "map (\<lambda>b. posted (sb_key b) (stock_postings issued_stock)) (sk_balances issued_stock) =
     map sb_quantity (sk_balances issued_stock)" by auto
  moreover have "map sb_quantity (sk_balances issued_stock) = [4500]" by code_simp
  ultimately show ?thesis by blast
qed


theorem one_low_stock_alert_witness:
  "\<exists>db' txs. post_all stores_scope 100 ''26-27'' (replicate 4 (plain_movement 7 gloves T_ISSUE 1500 [] [] []))
       opened_stock = Inr (db', txs) \<and> sk_alerts db' = [(7, None, 3)]"
proof -
  let ?mvs = "replicate 4 (plain_movement 7 gloves T_ISSUE 1500 [] [] [])"
  have "\<not> isl (post_all stores_scope 100 ''26-27'' ?mvs opened_stock)" by code_simp
  from succeeded [OF this] obtain db' txs
    where run: "post_all stores_scope 100 ''26-27'' ?mvs opened_stock = Inr (db', txs)" by blast
  have "\<forall>mv\<in>set ?mvs. movement_key mv = (7, None, 3) \<and> mv_type mv = T_ISSUE \<and> mv_laboratory mv = None \<and>
      mv_item mv = gloves"
    by (simp add: movement_key_def plain_movement_def gloves_def)
  note alerts = one_low_stock_alert [OF run this]
  have "stock_of (fst (projr (post_all stores_scope 100 ''26-27'' ?mvs opened_stock))) (7, None, 3) = 2000"
    "alert_level (snd (balance_for_update (7, None, 3) opened_stock)) gloves = 5000"
    "stock_of opened_stock (7, None, 3) = 8000" "sk_alerts opened_stock = []"
    by code_simp+
  with alerts run show ?thesis by (simp add: Let_def)
qed

end
