(* ===== verification/Proc_Books.thy ===== *)
theory Proc_Books
  imports Store_Lines Stock_Books
begin

text \<open>
  What the workflow of purchase requests promises. The abstract machine is \<open>lifecycle\<close>: a request
  moves along its route by decisions. Every operation of \<^verbatim>\<open>workflow.py\<close> and \<^verbatim>\<open>store_lines.py\<close>
  that succeeds is one decision (\<open>decided\<close>), the operations of \<^verbatim>\<open>requests_service.py\<close> make or
  edit a draft, and the invariant \<open>proc_wf\<close> of the tables follows from the abstract machine alone.
\<close>

named_theorems decision_simps

subsection \<open>The decisions on a request\<close>

definition approval_stages :: "stage list" where
  "approval_stages = [S_OIC, S_STORES, S_ACCOUNTS, S_HOD]"

text \<open>A route has stages of the list above, each at most once and in that order.\<close>

definition legal_route :: "stage list \<Rightarrow> bool" where
  "legal_route route = (filter (\<lambda>s. s \<in> set route) approval_stages = route)"

definition passing_actions :: "approval_action set" where
  "passing_actions = {A_APPROVE, A_OFFLINE_APPROVE, A_STORES_PARTIAL, A_STORES_NOT_AVAILABLE}"

definition amount_ok :: "paise \<Rightarrow> paise option \<Rightarrow> bool" where
  "amount_ok est amount = (case amount of None \<Rightarrow> True | Some a \<Rightarrow> 0 \<le> a \<and> a \<le> est)"

inductive lifecycle :: "purchase_request \<Rightarrow> action_row \<Rightarrow> purchase_request \<Rightarrow> bool" where
  Submits: "pr_status r \<in> {RS_DRAFT, RS_REJECTED} \<Longrightarrow> aa_action a \<in> {A_SUBMIT, A_RESUBMIT} \<Longrightarrow>
    aa_stage a = S_REQUESTER \<Longrightarrow> aa_actor a = pr_requested_by r \<Longrightarrow>
    legal_route (pr_approval_route r') \<Longrightarrow> pr_route_index r' = 0 \<Longrightarrow>
    pr_estimated_total r' = pr_estimated_total r \<Longrightarrow> 0 < pr_estimated_total r \<Longrightarrow>
    pr_status r' = (case pr_approval_route r' of [] \<Rightarrow> RS_APPROVED | s # _ \<Rightarrow> stage_status s) \<Longrightarrow>
    pr_approved_amount r' = (if pr_approval_route r' = [] then Some (pr_estimated_total r) else None) \<Longrightarrow>
    lifecycle r a r'"
| Passes: "current_stage r = Some s \<Longrightarrow> aa_stage a = s \<Longrightarrow> aa_action a \<in> passing_actions \<Longrightarrow>
    aa_actor a \<noteq> pr_requested_by r \<Longrightarrow>
    pr_approval_route r' = pr_approval_route r \<Longrightarrow> pr_route_index r' = Suc (pr_route_index r) \<Longrightarrow>
    pr_estimated_total r' = pr_estimated_total r \<Longrightarrow>
    pr_status r' = (if Suc (pr_route_index r) < length (pr_approval_route r)
      then stage_status (pr_approval_route r ! Suc (pr_route_index r)) else RS_APPROVED) \<Longrightarrow>
    (amount_ok (pr_estimated_total r) (pr_approved_amount r) \<Longrightarrow>
      0 \<le> pr_estimated_total r \<Longrightarrow> amount_ok (pr_estimated_total r) (pr_approved_amount r')) \<Longrightarrow>
    (pr_status r' = RS_APPROVED \<Longrightarrow> pr_approved_amount r' \<noteq> None) \<Longrightarrow> lifecycle r a r'"
| Sends_Back: "current_stage r = Some s \<Longrightarrow> aa_stage a = s \<Longrightarrow> aa_action a \<in> {A_REJECT, A_OFFLINE_REJECT} \<Longrightarrow>
    aa_actor a \<noteq> pr_requested_by r \<Longrightarrow>
    r' = r\<lparr>pr_status := RS_REJECTED, pr_last_reason := t, pr_stage_entered_at := e\<rparr> \<Longrightarrow> lifecycle r a r'"
| Holds: "current_stage r = Some s \<Longrightarrow> aa_stage a = s \<Longrightarrow> aa_action a = A_HOLD \<Longrightarrow>
    aa_actor a \<noteq> pr_requested_by r \<Longrightarrow>
    r' = r\<lparr>pr_held_from_status := Some (pr_status r), pr_status := RS_ON_HOLD, pr_last_reason := t,
      pr_stage_entered_at := e\<rparr> \<Longrightarrow> lifecycle r a r'"
| Resumes: "pr_status r = RS_ON_HOLD \<Longrightarrow> pr_held_from_status r = Some st \<Longrightarrow> held_stage r = Some s \<Longrightarrow>
    aa_stage a = s \<Longrightarrow> aa_action a = A_RESUME \<Longrightarrow> aa_actor a \<noteq> pr_requested_by r \<Longrightarrow>
    r' = r\<lparr>pr_status := st, pr_held_from_status := None, pr_stage_entered_at := e\<rparr> \<Longrightarrow> lifecycle r a r'"
| Cancels: "pr_status r \<in> cancellable \<Longrightarrow> aa_stage a \<in> {S_REQUESTER, S_SYSTEM} \<Longrightarrow> aa_action a = A_CANCEL \<Longrightarrow>
    r' = r\<lparr>pr_status := RS_CANCELLED, pr_last_reason := t, pr_held_from_status := None,
      pr_stage_entered_at := e\<rparr> \<Longrightarrow> lifecycle r a r'"
| Finds_In_Stock: "current_stage r = Some S_STORES \<Longrightarrow> aa_stage a = S_STORES \<Longrightarrow> aa_action a = A_STORES_AVAILABLE \<Longrightarrow>
    aa_actor a \<noteq> pr_requested_by r \<Longrightarrow>
    r' = r\<lparr>pr_status := RS_STORES_AVAILABLE, pr_stage_entered_at := e\<rparr> \<Longrightarrow> lifecycle r a r'"
| Issues: "pr_status r = RS_STORES_AVAILABLE \<Longrightarrow> aa_stage a = S_STORES \<Longrightarrow> aa_action a = A_ISSUE \<Longrightarrow>
    aa_actor a \<noteq> pr_requested_by r \<Longrightarrow>
    r' = r\<lparr>pr_status := RS_ISSUED, pr_completed_at := t, pr_stage_entered_at := e\<rparr> \<Longrightarrow> lifecycle r a r'"
| Rewrites: "pr_status r = RS_PENDING_STORES \<Longrightarrow> current_stage r = Some S_STORES \<Longrightarrow> aa_stage a = S_STORES \<Longrightarrow>
    aa_action a = A_STORES_EDIT \<Longrightarrow> aa_actor a \<noteq> pr_requested_by r \<Longrightarrow> pr_status r' = pr_status r \<Longrightarrow>
    pr_route_index r' = pr_route_index r \<Longrightarrow>
    (legal_route (pr_approval_route r) \<Longrightarrow> legal_route (pr_approval_route r')) \<Longrightarrow>
    take (Suc (pr_route_index r)) (pr_approval_route r') = take (Suc (pr_route_index r)) (pr_approval_route r) \<Longrightarrow>
    pr_approved_amount r' = (if pr_estimated_total r' = pr_estimated_total r then pr_approved_amount r else None) \<Longrightarrow>
    lifecycle r a r'"

inductive_cases lifecycleE: "lifecycle r a r'"

text \<open>A decision is about one request, keeps who asked for what, and notes the statuses.\<close>

definition decided :: "purchase_request \<Rightarrow> action_row \<Rightarrow> purchase_request \<Rightarrow> bool" where
  "decided r a r' = (lifecycle r a r' \<and> aa_request a = pr_id r \<and> aa_from a = pr_status r \<and>
     aa_to a = pr_status r' \<and> pr_id r' = pr_id r \<and> pr_requested_by r' = pr_requested_by r \<and>
     pr_department r' = pr_department r \<and> pr_number r' = pr_number r)"

subsection \<open>The invariant of one request\<close>

definition note_pass :: "stage list \<Rightarrow> action_row \<Rightarrow> stage list" where
  "note_pass ss a = (if aa_action a \<in> {A_SUBMIT, A_RESUBMIT} then []
     else if aa_action a \<in> passing_actions then ss @ [aa_stage a] else ss)"

text \<open>The stages passed since the last submission, and the status, read off the decisions.\<close>

definition passed :: "action_row list \<Rightarrow> stage list" where
  "passed h = foldl note_pass [] h"

definition note_status :: "request_status option \<Rightarrow> action_row \<Rightarrow> request_status option" where
  "note_status st a = (if st = Some (aa_from a) then Some (aa_to a) else None)"

definition logged_status :: "action_row list \<Rightarrow> request_status option" where
  "logged_status h = foldl note_status (Some RS_DRAFT) h"

definition phase_ok :: "purchase_request \<Rightarrow> bool" where
  "phase_ok r = (let i = pr_route_index r; route = pr_approval_route r; here = i < length route in
     case pr_status r of
       RS_DRAFT \<Rightarrow> i = 0
     | RS_REJECTED \<Rightarrow> True
     | RS_CANCELLED \<Rightarrow> True
     | RS_ISSUED \<Rightarrow> True
     | RS_APPROVED \<Rightarrow> i = length route \<and> pr_approved_amount r \<noteq> None
     | RS_STORES_AVAILABLE \<Rightarrow> here \<and> route ! i = S_STORES
     | RS_ON_HOLD \<Rightarrow> here \<and> pr_held_from_status r = Some (stage_status (route ! i))
     | st \<Rightarrow> here \<and> st = stage_status (route ! i))"

definition request_ok :: "action_row list \<Rightarrow> request_line list \<Rightarrow> purchase_request \<Rightarrow> bool" where
  "request_ok h ls r = (legal_route (pr_approval_route r) \<and> pr_route_index r \<le> length (pr_approval_route r) \<and>
     passed h = take (pr_route_index r) (pr_approval_route r) \<and> logged_status h = Some (pr_status r) \<and>
     phase_ok r \<and> pr_estimated_total r = lines_total ls \<and> 0 \<le> pr_estimated_total r \<and>
     (pr_status r \<notin> {RS_DRAFT, RS_REJECTED, RS_CANCELLED} \<longrightarrow>
        amount_ok (pr_estimated_total r) (pr_approved_amount r)))"

lemma approval_stage_status:
  assumes "legal_route route" "i < length route"
  shows "route ! i \<in> set approval_stages" "stage_status (route ! i) \<in> pending_statuses"
    "stage_status (route ! i) \<noteq> RS_ON_HOLD"
proof -
  from assms(2) have "route ! i \<in> set route" by simp
  with assms(1) show *: "route ! i \<in> set approval_stages"
    unfolding legal_route_def by (metis filter_is_subset subsetD)
  then show "stage_status (route ! i) \<in> pending_statuses" "stage_status (route ! i) \<noteq> RS_ON_HOLD"
    by (auto simp: approval_stages_def stage_status_def pending_statuses_def)
qed

lemma passed_snoc [simp]: "passed (h @ [a]) = note_pass (passed h) a"
  by (simp add: passed_def)

lemma logged_status_snoc [simp]: "logged_status (h @ [a]) = note_status (logged_status h) a"
  by (simp add: logged_status_def)

lemma current_stage_Some:
  "current_stage r = Some s \<longleftrightarrow> pr_status r \<in> pending_statuses \<and>
     pr_route_index r < length (pr_approval_route r) \<and> s = pr_approval_route r ! pr_route_index r"
  by (auto simp: current_stage_def)

lemma phase_pending:
  "pr_status r \<in> pending_statuses \<Longrightarrow> phase_ok r \<longleftrightarrow>
     pr_route_index r < length (pr_approval_route r) \<and>
     pr_status r = stage_status (pr_approval_route r ! pr_route_index r)"
  by (auto simp: phase_ok_def pending_statuses_def Let_def)

text \<open>Decisions keep the invariant of the request.\<close>

lemma lifecycle_ok:
  assumes "decided r a r'" "request_ok h ls r" "lines_total ls' = pr_estimated_total r'"
    "0 \<le> pr_estimated_total r'"
  shows "request_ok (h @ [a]) ls' r'"
proof -
  have a: "aa_from a = pr_status r" "aa_to a = pr_status r'" "lifecycle r a r'"
    using assms(1) by (simp_all add: decided_def)
  note ok = assms(2) [unfolded request_ok_def]
  have pend: "pr_status r \<notin> {RS_DRAFT, RS_REJECTED, RS_CANCELLED, RS_ON_HOLD}" if "current_stage r = Some s" for s
    using that by (auto simp: current_stage_Some pending_statuses_def)
  note core = request_ok_def note_status_def note_pass_def passing_actions_def a(1,2) assms(3,4)
  from a(3) show ?thesis
  proof (cases rule: lifecycle.cases)
    case Submits
    have "phase_ok r'"
    proof (cases "pr_approval_route r'")
      case Nil
      with Submits show ?thesis by (simp add: phase_ok_def)
    next
      case (Cons s route)
      with Submits approval_stage_status [of "pr_approval_route r'" 0]
      have "pr_status r' \<in> pending_statuses" "pr_status r' = stage_status s" by auto
      with Submits Cons show ?thesis by (simp add: phase_pending)
    qed
    with Submits ok assms(3,4) show ?thesis
      by (auto simp: core amount_ok_def split: list.splits)
  next
    case (Passes s)
    let ?i = "Suc (pr_route_index r)"
    have i: "pr_route_index r < length (pr_approval_route r)" using Passes(1) by (simp add: current_stage_Some)
    have "phase_ok r'"
    proof (cases "?i < length (pr_approval_route r)")
      case True
      with Passes ok approval_stage_status [of "pr_approval_route r" ?i]
      have "pr_status r' \<in> pending_statuses" by simp
      with Passes True show ?thesis by (simp add: phase_pending)
    next
      case False
      with Passes i show ?thesis by (simp add: phase_ok_def)
    qed
    with Passes ok i pend assms(3,4) show ?thesis
      by (auto simp: core current_stage_Some take_Suc_conv_app_nth)
  next
    case Holds
    with ok pend phase_pending [of r] assms(3,4) show ?thesis
      by (auto simp: core current_stage_Some phase_ok_def)
  next
    case (Resumes st)
    have st: "pr_route_index r < length (pr_approval_route r)"
        "st = stage_status (pr_approval_route r ! pr_route_index r)"
      using Resumes ok by (auto simp: phase_ok_def Let_def)
    with approval_stage_status(2) [of "pr_approval_route r" "pr_route_index r"] ok
    have "st \<in> pending_statuses" by simp
    with st Resumes phase_pending [of r'] have "phase_ok r'" by simp
    with Resumes ok assms(3,4) show ?thesis by (auto simp: core)
  next
    case Rewrites
    have i: "pr_route_index r < length (pr_approval_route r)" using Rewrites(2) by (simp add: current_stage_Some)
    have len: "pr_route_index r < length (pr_approval_route r')"
      using arg_cong [OF Rewrites(9), of length] i by simp
    have nth: "pr_approval_route r' ! pr_route_index r = pr_approval_route r ! pr_route_index r"
      using arg_cong [OF Rewrites(9), of "\<lambda>xs. xs ! pr_route_index r"] i by simp
    have take: "take (pr_route_index r) (pr_approval_route r') = take (pr_route_index r) (pr_approval_route r)"
      using arg_cong [OF Rewrites(9), of "take (pr_route_index r)"] by (simp add: min_def)
    have "phase_ok r'"
      using Rewrites ok len nth phase_pending [of r] phase_pending [of r'] by (simp add: pending_statuses_def)
    with Rewrites ok len take assms(3,4) show ?thesis
      by (auto simp: core amount_ok_def split: option.splits)
  qed (use ok pend assms(3,4) in \<open>auto simp: core current_stage_Some phase_ok_def Let_def cancellable_def\<close>)
qed

subsection \<open>The tables\<close>

definition line_ok :: "request_line \<Rightarrow> bool" where
  "line_ok l = (0 < ln_quantity l \<and> 0 \<le> ln_issued_quantity l \<and> ln_issued_quantity l \<le> ln_quantity l \<and>
     0 \<le> ln_unit_price l \<and> 0 \<le> ln_gst_rate l \<and>
     ln_line_total l = line_total (ln_quantity l) (ln_unit_price l) (ln_gst_rate l))"

definition lines_wf :: "'z proc_db_scheme \<Rightarrow> bool" where
  "lines_wf db = (unique_keys ln_id (p_lines db) \<and> (\<forall>l\<in>set (p_lines db). line_ok l))"

definition history :: "'z proc_db_scheme \<Rightarrow> ident \<Rightarrow> action_row list" where
  "history db i = filter (\<lambda>a. aa_request a = i) (p_actions db)"

text \<open>The requester decides at no stage of the own request.\<close>

definition four_eyes :: "purchase_request \<Rightarrow> action_row \<Rightarrow> bool" where
  "four_eyes r a = (aa_stage a \<in> set approval_stages \<longrightarrow> aa_actor a \<noteq> pr_requested_by r)"

definition proc_wf :: "'z proc_db_scheme \<Rightarrow> bool" where
  "proc_wf db = (unique_keys pr_id (p_requests db) \<and> lines_wf db \<and>
     (\<forall>a\<in>set (p_actions db). aa_request a \<in> pr_id ` set (p_requests db)) \<and>
     (\<forall>r\<in>set (p_requests db). request_ok (history db (pr_id r)) (lines_of db (pr_id r)) r \<and>
        (\<forall>a\<in>set (history db (pr_id r)). four_eyes r a)))"

lemma line_total_ok: "line_ok l \<Longrightarrow> 0 \<le> ln_line_total l"
  by (simp add: line_ok_def line_total_nonneg)

lemma lines_total_nonneg: "lines_wf db \<Longrightarrow> 0 \<le> lines_total (lines_of db i)"
  unfolding lines_total_def lines_wf_def lines_of_def by (intro sum_list_nonneg) (auto simp: line_total_ok)

text \<open>What one decision does to the tables of the module.\<close>

definition turned ::
  "purchase_request \<Rightarrow> action_row \<Rightarrow> purchase_request \<Rightarrow> 'z proc_db_scheme \<Rightarrow> 'z proc_db_scheme \<Rightarrow> bool" where
  "turned r a r' db db' = (row_of pr_id (pr_id r) (p_requests db) = Some r \<and> decided r a r' \<and>
     p_requests db' = update_row pr_id (pr_id r) (\<lambda>_. r') (p_requests db) \<and>
     p_actions db' = p_actions db @ [a] \<and>
     (\<forall>i. i \<noteq> pr_id r \<longrightarrow> lines_of db' i = lines_of db i) \<and>
     (lines_wf db \<longrightarrow> lines_wf db') \<and>
     (lines_total (lines_of db (pr_id r)) = pr_estimated_total r \<longrightarrow>
        lines_total (lines_of db' (pr_id r)) = pr_estimated_total r'))"

lemma decided_four_eyes: "decided r a r' \<Longrightarrow> four_eyes r a"
  by (auto simp: decided_def four_eyes_def approval_stages_def elim!: lifecycleE)

lemma turned_wf:
  assumes t: "turned r a r' db db'" and wf: "proc_wf db"
  shows "proc_wf db'"
proof -
  have row: "row_of pr_id (pr_id r) (p_requests db) = Some r" and d: "decided r a r'"
    and reqs: "p_requests db' = update_row pr_id (pr_id r) (\<lambda>_. r') (p_requests db)"
    and acts: "p_actions db' = p_actions db @ [a]" and lines: "i \<noteq> pr_id r \<Longrightarrow> lines_of db' i = lines_of db i"
    and lwf: "lines_wf db'"
    and total: "lines_total (lines_of db (pr_id r)) = pr_estimated_total r \<Longrightarrow>
        lines_total (lines_of db' (pr_id r)) = pr_estimated_total r'" for i
    using t wf by (auto simp: turned_def proc_wf_def)
  from row_of_SomeD [OF row] have r: "r \<in> set (p_requests db)" by simp
  have keys: "unique_keys pr_id (p_requests db)" using wf by (simp add: proc_wf_def)
  have same: "pr_id r' = pr_id r" "pr_requested_by r' = pr_requested_by r" "aa_request a = pr_id r"
    using d by (simp_all add: decided_def)
  from update_row_const [OF keys r, of r'] obtain xs ys where
    split: "p_requests db = xs @ r # ys" "p_requests db' = xs @ r' # ys"
    unfolding reqs by blast
  have hist: "history db' i = history db i @ (if i = pr_id r then [a] else [])" for i
    by (simp add: history_def acts same)
  have ok: "request_ok (history db (pr_id q)) (lines_of db (pr_id q)) q" and
    eyes: "\<forall>b\<in>set (history db (pr_id q)). four_eyes q b" if "q \<in> set (p_requests db)" for q
    using wf that by (auto simp: proc_wf_def)
  have tot: "lines_total (lines_of db' (pr_id r)) = pr_estimated_total r'"
    using total ok [OF r] by (simp add: request_ok_def)
  have r'ok: "request_ok (history db (pr_id r) @ [a]) (lines_of db' (pr_id r)) r'"
    using lifecycle_ok [OF d ok [OF r] tot] lines_total_nonneg [OF lwf, of "pr_id r"] tot by simp
  have r'eyes: "four_eyes r' b" if "four_eyes r b" for b
    using that by (simp add: four_eyes_def same)
  have others: "pr_id q \<noteq> pr_id r" if "q \<in> set xs \<union> set ys" for q
    using keys that unfolding unique_keys_def split(1) by (auto simp: image_iff)
  have "request_ok (history db' (pr_id q)) (lines_of db' (pr_id q)) q \<and>
      (\<forall>b\<in>set (history db' (pr_id q)). four_eyes q b)" if "q \<in> set (p_requests db')" for q
  proof (cases "q = r'")
    case True
    then show ?thesis
      using r'ok r'eyes eyes [OF r] decided_four_eyes [OF d] by (auto simp: hist same)
  next
    case False
    with that have "q \<in> set xs \<union> set ys" by (auto simp: split(2))
    then show ?thesis using others [of q] ok [of q] eyes [of q] lines [of "pr_id q"] by (auto simp: hist split(1))
  qed
  moreover have "map pr_id (p_requests db') = map pr_id (p_requests db)" by (simp add: split same)
  then have "unique_keys pr_id (p_requests db')" "pr_id ` set (p_requests db') = pr_id ` set (p_requests db)"
    using keys by (simp add: unique_keys_def, metis list.set_map)
  ultimately show ?thesis
    using lwf wf r by (auto simp: proc_wf_def acts same)
qed

text \<open>What \<open>act\<close> writes, and the tables it leaves alone.\<close>

definition same_stock :: "'z stock_db_scheme \<Rightarrow> 'z stock_db_scheme \<Rightarrow> bool" where
  "same_stock db db' = (sk_balances db' = sk_balances db \<and> sk_txs db' = sk_txs db \<and>
     sk_sequences db' = sk_sequences db \<and> sk_alerts db' = sk_alerts db)"

lemma act_result:
  assumes "act now sc s action st comments amount offline r db = (db', r')"
  obtains a e where "r' = r\<lparr>pr_stage_entered_at := e\<rparr>" "same_stock db db'" "p_lines db' = p_lines db"
    "p_requests db' = update_row pr_id (pr_id r) (\<lambda>_. r') (p_requests db)" "p_actions db' = p_actions db @ [a]"
    "aa_request a = pr_id r" "aa_stage a = s" "aa_action a = action" "aa_from a = st"
    "aa_to a = pr_status r" "aa_actor a = u_id (sc_user sc)" "aa_amount a = amount"
proof -
  have r': "r' = r\<lparr>pr_stage_entered_at := pr_stage_entered_at r'\<rparr>"
    using assms by (auto simp: act_def Let_def split: if_splits)
  then have "pr_id r' = pr_id r" by (metis purchase_request.select_convs(1) purchase_request.surjective
      purchase_request.update_convs(31))
  with r' show thesis
    using assms by (intro that [of "pr_stage_entered_at r'"])
      (auto simp: act_def Let_def same_stock_def save_request_def proc_record_audit_def split: if_splits)
qed

lemma locked_requestD:
  "locked_request db i = Inr r \<Longrightarrow> pr_id r = i \<and> row_of pr_id (pr_id r) (p_requests db) = Some r"
  by (auto simp: locked_request_def dest: row_of_SomeD split: option.splits)

text \<open>
  \<open>act\<close> on a request that was \<open>r\<close> when it was locked: what is left to show is that the decision
  is one of the life cycle, and that the lines still add up where they have changed.
\<close>

definition same_lines :: "ident \<Rightarrow> purchase_request \<Rightarrow> 'z proc_db_scheme \<Rightarrow> 'z proc_db_scheme \<Rightarrow> purchase_request \<Rightarrow> bool" where
  "same_lines i r db db1 r1 = (p_requests db1 = p_requests db \<and> p_actions db1 = p_actions db \<and>
     (\<forall>j. j \<noteq> i \<longrightarrow> lines_of db1 j = lines_of db j) \<and> (lines_wf db \<longrightarrow> lines_wf db1) \<and>
     (lines_total (lines_of db i) = pr_estimated_total r \<longrightarrow> lines_total (lines_of db1 i) = pr_estimated_total r1))"

lemma same_lines_refl [simp]: "pr_estimated_total r1 = pr_estimated_total r \<Longrightarrow> same_lines i r db db r1"
  by (simp add: same_lines_def)

definition kept :: "purchase_request \<Rightarrow> purchase_request \<Rightarrow> bool" where
  "kept r r' = (pr_id r' = pr_id r \<and> pr_requested_by r' = pr_requested_by r \<and>
     pr_department r' = pr_department r \<and> pr_number r' = pr_number r)"

lemma act_turned:
  assumes act: "act now sc s action (pr_status r) comments amount offline r1 db1 = (db', r')"
    and locked: "locked_request db i = Inr r" and same: "same_lines i r db db1 r1" "kept r r1"
    and life: "\<And>a e. r' = r1\<lparr>pr_stage_entered_at := e\<rparr> \<Longrightarrow> aa_stage a = s \<Longrightarrow> aa_action a = action \<Longrightarrow>
      aa_actor a = u_id (sc_user sc) \<Longrightarrow> lifecycle r a r'"
  shows "\<exists>a. turned r a r' db db' \<and> aa_action a = action \<and> aa_stage a = s \<and> aa_actor a = u_id (sc_user sc)"
    "same_stock db1 db'" "p_lines db' = p_lines db1"
proof -
  from locked_requestD [OF locked] have r: "pr_id r = i" "row_of pr_id (pr_id r) (p_requests db) = Some r" by auto
  obtain a e where a: "r' = r1\<lparr>pr_stage_entered_at := e\<rparr>" "same_stock db1 db'" "p_lines db' = p_lines db1"
    "p_requests db' = update_row pr_id (pr_id r1) (\<lambda>_. r') (p_requests db1)" "p_actions db' = p_actions db1 @ [a]"
    "aa_request a = pr_id r1" "aa_stage a = s" "aa_action a = action" "aa_from a = pr_status r"
    "aa_to a = pr_status r1" "aa_actor a = u_id (sc_user sc)"
    by (rule act_result [OF act]) blast
  have "decided r a r'" using life [OF a(1,7,8,11)] a same(2) by (simp add: decided_def kept_def)
  moreover have "lines_of db' j = lines_of db1 j" "lines_wf db' = lines_wf db1" for j
    using a(3) by (simp_all add: lines_of_def lines_wf_def)
  ultimately have "turned r a r' db db'"
    using r same a by (simp add: turned_def same_lines_def kept_def)
  with a show "\<exists>a. turned r a r' db db' \<and> aa_action a = action \<and> aa_stage a = s \<and> aa_actor a = u_id (sc_user sc)"
    "same_stock db1 db'" "p_lines db' = p_lines db1"
    by blast+
qed

lemma require_stageD:
  "require_stage sc cfg r s = Inr u \<Longrightarrow> u_id (sc_user sc) \<noteq> pr_requested_by r \<and>
     (\<exists>st. s = Some st \<and> can_act_on_stage sc cfg r st)"
  by (auto simp: require_stage_def result_simps split: option.splits)

lemma at_stageD:
  assumes "at_stage org sc i db = Inr (r, s)"
  obtains cfg where "locked_request db i = Inr r" "current_stage r = Some s" "require_config org (pr_department r) = Inr cfg"
    "can_act_on_stage sc cfg r s" "u_id (sc_user sc) \<noteq> pr_requested_by r"
  using assms by (auto simp: at_stage_def result_simps dest!: require_stageD)

lemma advanced_fields:
  "pr_approval_route (advanced now amount r) = pr_approval_route r"
  "pr_route_index (advanced now amount r) = Suc (pr_route_index r)"
  "pr_estimated_total (advanced now amount r) = pr_estimated_total r"
  "kept r (advanced now amount r)"
  "pr_status (advanced now amount r) = (if Suc (pr_route_index r) < length (pr_approval_route r)
     then stage_status (pr_approval_route r ! Suc (pr_route_index r)) else RS_APPROVED)"
  "pr_approved_amount (advanced now amount r) = (let x = if amount \<noteq> None then amount else pr_approved_amount r in
     if Suc (pr_route_index r) < length (pr_approval_route r) \<or> x \<noteq> None then x else Some (pr_estimated_total r))"
  by (auto simp: advanced_def Let_def kept_def split: option.splits)

lemma check_amountD:
  "check_amount r (Some a) = Inr u \<Longrightarrow> 0 < a \<and>
     a \<le> (case pr_approved_amount r of Some x \<Rightarrow> x | None \<Rightarrow> pr_estimated_total r)"
  by (auto simp: check_amount_def Let_def split: option.splits)

text \<open>A stage of a legal route is never followed by itself, so a stage passed is left.\<close>

lemma legal_route_approved:
  assumes "legal_route route" "i < length route"
  shows "stage_status (route ! i) \<noteq> RS_APPROVED"
  using approval_stage_status [OF assms] by (auto simp: pending_statuses_def)

lemma advanced_life:
  assumes "current_stage r = Some s" "aa_stage a = s" "aa_action a \<in> passing_actions"
    "aa_actor a \<noteq> pr_requested_by r" "r1 = r\<lparr>pr_approved_amount := x\<rparr>"
    "r' = (advanced now amount r1)\<lparr>pr_stage_entered_at := e\<rparr>"
    "\<And>y. amount = Some y \<Longrightarrow> check_amount r (Some y) = Inr ()"
    "amount_ok (pr_estimated_total r) (pr_approved_amount r) \<Longrightarrow> 0 \<le> pr_estimated_total r \<Longrightarrow>
       amount_ok (pr_estimated_total r) x"
    "legal_route (pr_approval_route r)"
  shows "lifecycle r a r'"
proof (rule Passes [OF assms(1-4)])
  show "pr_approval_route r' = pr_approval_route r" "pr_route_index r' = Suc (pr_route_index r)"
    "pr_estimated_total r' = pr_estimated_total r"
    "pr_status r' = (if Suc (pr_route_index r) < length (pr_approval_route r)
      then stage_status (pr_approval_route r ! Suc (pr_route_index r)) else RS_APPROVED)"
    by (simp_all add: assms(5,6) advanced_fields)
  show "pr_approved_amount r' \<noteq> None" if "pr_status r' = RS_APPROVED"
    using that legal_route_approved [OF assms(9), of "Suc (pr_route_index r)"]
    by (auto simp: assms(5,6) advanced_fields Let_def split: if_splits)
  show "amount_ok (pr_estimated_total r) (pr_approved_amount r')"
    if "amount_ok (pr_estimated_total r) (pr_approved_amount r)" "0 \<le> pr_estimated_total r"
  proof (cases amount)
    case None
    with assms(8) [OF that] that(2) show ?thesis
      by (auto simp: assms(5,6) advanced_fields Let_def amount_ok_def split: option.splits)
  next
    case (Some y)
    with check_amountD [OF assms(7) [OF Some]] that show ?thesis
      by (auto simp: assms(5,6) advanced_fields Let_def amount_ok_def split: option.splits)
  qed
qed

subsection \<open>Every operation of the workflow is one decision\<close>

definition by_decision ::
  "scope \<Rightarrow> ident \<Rightarrow> purchase_request \<Rightarrow> 'z proc_db_scheme \<Rightarrow> 'z proc_db_scheme \<Rightarrow> bool" where
  "by_decision sc i r' db db' = (\<exists>r a. locked_request db i = Inr r \<and> turned r a r' db db' \<and>
     aa_actor a = u_id (sc_user sc))"

lemma wf_request:
  assumes "proc_wf db" "locked_request db i = Inr r"
  shows "request_ok (history db i) (lines_of db i) r" "legal_route (pr_approval_route r)"
proof -
  from locked_requestD [OF assms(2)] have "pr_id r = i" "r \<in> set (p_requests db)" by (auto dest: row_of_SomeD)
  with assms(1) show "request_ok (history db i) (lines_of db i) r" unfolding proc_wf_def by blast
  then show "legal_route (pr_approval_route r)" by (simp add: request_ok_def)
qed

lemma act_by_decision:
  assumes "act now sc s action (pr_status r) comments amount offline r1 db1 = (db', r')"
    and "locked_request db i = Inr r" "same_lines i r db db1 r1" "kept r r1"
    and "\<And>a e. r' = r1\<lparr>pr_stage_entered_at := e\<rparr> \<Longrightarrow> aa_stage a = s \<Longrightarrow> aa_action a = action \<Longrightarrow>
      aa_actor a = u_id (sc_user sc) \<Longrightarrow> lifecycle r a r'"
  shows "by_decision sc i r' db db' \<and> same_stock db1 db'"
proof -
  have "\<exists>a. turned r a r' db db' \<and> aa_action a = action \<and> aa_stage a = s \<and> aa_actor a = u_id (sc_user sc)"
    by (rule act_turned(1) [OF assms(1-4)]) (rule assms(5))
  moreover have "same_stock db1 db'" by (rule act_turned(2) [OF assms(1-4)]) (rule assms(5))
  ultimately show ?thesis using assms(2) unfolding by_decision_def by blast
qed

lemma compute_route_legal: "legal_route (compute_route ms cfg r)"
  by (simp add: compute_route_def legal_route_def approval_stages_def)

lemma submit_decides:
  assumes "submit now today org ms sc i comments db = Inr (db', r')"
  shows "by_decision sc i r' db db' \<and> same_stock db db'"
proof -
  from assms obtain r cfg action r1 small u where locked: "locked_request db i = Inr r"
    and mine: "pr_requested_by r = u_id (sc_user sc)"
    and first: "(if pr_status r = RS_DRAFT then Inr (A_SUBMIT, r)
         else if pr_status r = RS_REJECTED
         then (if cfg_allow_resubmission cfg
               then Inr (A_RESUBMIT, r\<lparr>pr_resubmission_count := pr_resubmission_count r + 1\<rparr>)
               else Inl (proc_error ''resubmission_disabled''))
         else Inl (proc_error ''invalid_status'')) = Inr (action, r1)"
    and valid: "validate_for_submit ms cfg (lines_of db i) r1 = Inr u"
    and act: "act now sc S_REQUESTER action (pr_status r) comments None None
      (submitted now small (hod_required ms cfg r1) (compute_route ms cfg r1) r1) db = (db', r')"
    unfolding submit_def Let_def and_then_eq_Inr prod.case split_paired_Ex ensure_eq_Inr sum.inject
    by (elim exE conjE) (rule that, assumption+)
  from first have st: "pr_status r \<in> {RS_DRAFT, RS_REJECTED}" "action \<in> {A_SUBMIT, A_RESUBMIT}"
    and "r1 = r\<lparr>pr_resubmission_count := pr_resubmission_count r1\<rparr>"
    by (auto split: if_splits)
  then obtain n where r1: "r1 = r\<lparr>pr_resubmission_count := n\<rparr>" by blast
  have pos: "0 < pr_estimated_total r" using valid by (auto simp: r1 validate_for_submit_def Let_def result_simps)
  show ?thesis
  proof (rule act_by_decision [OF act locked])
    show "same_lines i r db db (submitted now small (hod_required ms cfg r1) (compute_route ms cfg r1) r1)"
      "kept r (submitted now small (hod_required ms cfg r1) (compute_route ms cfg r1) r1)"
      by (simp_all add: r1 submitted_def Let_def kept_def split: list.splits)
    show "lifecycle r a r'" if "r' = (submitted now small (hod_required ms cfg r1) (compute_route ms cfg r1) r1)
        \<lparr>pr_stage_entered_at := e\<rparr>" "aa_stage a = S_REQUESTER" "aa_action a = action"
        "aa_actor a = u_id (sc_user sc)" for a e
      by (rule Submits) (use that st mine pos compute_route_legal [of ms cfg r1] in
        \<open>auto simp: r1 submitted_def Let_def split: list.splits\<close>)
  qed
qed

lemma approve_decides:
  assumes "approve now org sc i comments amount db = Inr (db', r')" "proc_wf db"
  shows "by_decision sc i r' db db' \<and> same_stock db db'"
proof -
  from assms(1) obtain r s where at: "at_stage org sc i db = Inr (r, s)" and amt: "check_amount r amount = Inr ()"
    and act: "advance now sc s A_APPROVE comments amount None r db = (db', r')"
    unfolding approve_def by (auto simp: result_simps)
  show ?thesis
  proof (rule at_stageD [OF at])
    assume r: "locked_request db i = Inr r" "current_stage r = Some s" "u_id (sc_user sc) \<noteq> pr_requested_by r"
    show ?thesis
    proof (rule act_by_decision [OF act [unfolded advance_def] r(1)])
      show "lifecycle r a r'" if "r' = (advanced now amount r)\<lparr>pr_stage_entered_at := e\<rparr>" "aa_stage a = s"
          "aa_action a = A_APPROVE" "aa_actor a = u_id (sc_user sc)" for a e
        by (rule advanced_life [where x = "pr_approved_amount r" and ?r1.0 = r])
          (use that r amt wf_request [OF assms(2) r(1)] in \<open>auto simp: passing_actions_def\<close>)
    qed (simp_all add: advanced_fields)
  qed
qed

lemma reject_decides:
  assumes "reject now org sc i reason db = Inr (db', r')"
  shows "by_decision sc i r' db db' \<and> same_stock db db'"
proof -
  from assms obtain r s where at: "at_stage org sc i db = Inr (r, s)"
    and act: "act now sc s A_REJECT (pr_status r) reason None None
         (r\<lparr>pr_status := RS_REJECTED, pr_last_reason := reason\<rparr>) db = (db', r')"
    unfolding reject_def by (auto simp: result_simps)
  from at show ?thesis
    by (rule at_stageD) (rule act_by_decision [OF act], auto simp: kept_def intro!: Sends_Back)
qed

lemma hold_decides:
  assumes "hold now org sc i reason db = Inr (db', r')"
  shows "by_decision sc i r' db db' \<and> same_stock db db'"
proof -
  from assms obtain r s where at: "at_stage org sc i db = Inr (r, s)"
    and act: "act now sc s A_HOLD (pr_status r) reason None None (r\<lparr>pr_held_from_status := Some (pr_status r),
         pr_status := RS_ON_HOLD, pr_last_reason := reason\<rparr>) db = (db', r')"
    unfolding hold_def by (auto simp: result_simps)
  from at show ?thesis
    by (rule at_stageD) (rule act_by_decision [OF act], auto simp: kept_def intro!: Holds)
qed

lemma resume_decides:
  assumes "resume now org sc i comments db = Inr (db', r')"
  shows "by_decision sc i r' db db' \<and> same_stock db db'"
proof -
  from assms obtain r cfg st s where locked: "locked_request db i = Inr r"
    and r: "pr_status r = RS_ON_HOLD" "pr_held_from_status r = Some st" "held_stage r = Some s"
      "u_id (sc_user sc) \<noteq> pr_requested_by r"
    and act: "act now sc s A_RESUME (pr_status r) comments None None
         (r\<lparr>pr_status := st, pr_held_from_status := None\<rparr>) db = (db', r')"
    unfolding resume_def by (auto simp: result_simps dest!: require_stageD)
  then show ?thesis
    by (intro act_by_decision [OF act locked]) (auto simp: kept_def intro!: Resumes)
qed

lemma cancel_decides:
  assumes "cancel now org sc i reason db = Inr (db', r')"
  shows "by_decision sc i r' db db' \<and> same_stock db db'"
proof -
  from assms obtain r where locked: "locked_request db i = Inr r" and st: "pr_status r \<in> cancellable"
    and act: "act now sc (if pr_requested_by r = u_id (sc_user sc) then S_REQUESTER else S_SYSTEM) A_CANCEL
         (pr_status r) reason None None
         (r\<lparr>pr_status := RS_CANCELLED, pr_last_reason := reason, pr_held_from_status := None\<rparr>) db = (db', r')"
    unfolding cancel_def Let_def by (auto simp: result_simps)
  then show ?thesis
    by (intro act_by_decision [OF act locked]) (auto simp: kept_def intro!: Cancels)
qed

lemma offline_decides:
  assumes "offline_hod_decision now today org sc i decision upload name date comments amount db = Inr (db', r')"
    "proc_wf db"
  shows "by_decision sc i r' db db' \<and> same_stock db db'"
proof -
  from assms(1) obtain r cfg approved d u v where locked: "locked_request db i = Inr r"
    and offline: "(if can_record_offline sc cfg r then Inr ()
         else if pr_status r \<noteq> RS_PENDING_HOD then Inl (proc_error ''invalid_status'')
         else if cfg_hod_approval_mode cfg = In_App then Inl (proc_error ''offline_disabled'')
         else Inl proc_forbidden) = Inr u" and amt: "check_amount r amount = Inr v"
    and act: "(if approved then Inr (advance now sc S_HOD A_OFFLINE_APPROVE comments amount (Some (name, d)) r db)
      else Inr (act now sc S_HOD A_OFFLINE_REJECT (pr_status r) comments None (Some (name, d))
         (r\<lparr>pr_status := RS_REJECTED, pr_last_reason := comments\<rparr>) db)) = (Inr (db', r') :: exn + _)"
    unfolding offline_hod_decision_def and_then_eq_Inr ensure_eq_Inr
    by (elim exE conjE) (rule that, assumption+)
  from offline have r: "current_stage r = Some S_HOD" "u_id (sc_user sc) \<noteq> pr_requested_by r"
    by (auto simp: can_record_offline_def split: if_splits)
  show ?thesis
  proof (cases approved)
    case True
    then have run: "act now sc S_HOD A_OFFLINE_APPROVE (pr_status r) comments amount (Some (name, d))
        (advanced now amount r) db = (db', r')"
      using act by (simp add: advance_def)
    show ?thesis
    proof (rule act_by_decision [OF run locked])
      show "lifecycle r a r'" if "r' = (advanced now amount r)\<lparr>pr_stage_entered_at := e\<rparr>" "aa_stage a = S_HOD"
          "aa_action a = A_OFFLINE_APPROVE" "aa_actor a = u_id (sc_user sc)" for a e
        by (rule advanced_life [where x = "pr_approved_amount r" and ?r1.0 = r])
          (use that r amt wf_request [OF assms(2) locked] in \<open>auto simp: passing_actions_def\<close>)
    qed (simp_all add: advanced_fields)
  next
    case False
    then have run: "act now sc S_HOD A_OFFLINE_REJECT (pr_status r) comments None (Some (name, d))
        (r\<lparr>pr_status := RS_REJECTED, pr_last_reason := comments\<rparr>) db = (db', r')"
      using act by simp
    show ?thesis
      by (rule act_by_decision [OF run locked]) (use r in \<open>auto simp: kept_def intro!: Sends_Back\<close>)
  qed
qed

subsection \<open>Stock that is issued\<close>

lemma sum_list_le: "(\<And>x. x \<in> set xs \<Longrightarrow> f x \<le> g x) \<Longrightarrow> sum_list (map f xs) \<le> (sum_list (map g xs) :: int)"
  by (induction xs) (auto intro: add_mono)

lemma round_half_even_bounds:
  assumes "0 \<le> x" "x \<le> of_int n"
  shows "0 \<le> round_half_even x" "round_half_even x \<le> n"
  using assms by (auto simp: round_half_even_def Let_def floor_less_iff le_floor_iff not_le; linarith)+

lemma remaining_value_bounds:
  assumes "line_ok l"
  shows "0 \<le> remaining_value l \<and> remaining_value l \<le> ln_line_total l"
proof -
  from assms have l: "0 < ln_quantity l" "0 \<le> open_quantity l" "open_quantity l \<le> ln_quantity l"
      "0 \<le> ln_line_total l"
    by (auto simp: line_ok_def open_quantity_def line_total_nonneg)
  let ?x = "of_int (ln_line_total l) * of_int (open_quantity l) / of_int (ln_quantity l) :: rat"
  have "0 \<le> ?x" using l by simp
  moreover have "(of_int (ln_line_total l) :: rat) * of_int (open_quantity l) \<le>
      of_int (ln_line_total l) * of_int (ln_quantity l)"
    using l by (intro mult_left_mono) simp_all
  then have "?x \<le> of_int (ln_line_total l)" using l(1) by (simp add: divide_le_eq)
  ultimately show ?thesis
    using l round_half_even_bounds [of ?x "ln_line_total l"] by (simp add: remaining_value_def)
qed

lemma remaining_total_bounds:
  assumes "\<forall>l\<in>set ls. line_ok l"
  shows "0 \<le> remaining_total ls" "remaining_total ls \<le> lines_total ls"
proof -
  have part: "0 \<le> remaining_value l" "remaining_value l \<le> ln_line_total l" if "l \<in> set ls" for l
    using assms that remaining_value_bounds by blast+
  show "0 \<le> remaining_total ls"
    unfolding remaining_total_def by (rule sum_list_nonneg) (use part(1) in auto)
  show "remaining_total ls \<le> lines_total ls"
    unfolding remaining_total_def lines_total_def by (rule sum_list_le) (rule part(2))
qed

lemma same_stock_of: "same_stock db db' \<Longrightarrow> stock_of db' = stock_of db"
  by (rule stock_of_cong) (simp add: same_stock_def)

lemma same_stock_wf:
  assumes "same_stock db db'" "stock_wf db"
  shows "stock_wf db'"
  using assms same_stock_of [OF assms(1)] by (simp add: same_stock_def stock_wf_def stock_postings_def)

lemma more_tables:
  assumes "stock_db.more db' = stock_db.more db"
  shows "p_requests db' = p_requests db" "p_lines db' = p_lines db" "p_actions db' = p_actions db"
  using assms by (cases db, cases db', simp)+

definition issued_line :: "ident \<Rightarrow> quantities \<Rightarrow> request_line \<Rightarrow> request_line" where
  "issued_line i q l = (if ln_request l = i \<and> to_issue q l
     then l\<lparr>ln_issued_quantity := ln_issued_quantity l + the (q (ln_id l))\<rparr> else l)"

lemma issued_line_simps [simp]:
  "ln_id (issued_line i q l) = ln_id l" "ln_request (issued_line i q l) = ln_request l"
  "ln_line_total (issued_line i q l) = ln_line_total l" "ln_quantity (issued_line i q l) = ln_quantity l"
  by (simp_all add: issued_line_def)

definition within_open :: "quantities \<Rightarrow> request_line list \<Rightarrow> bool" where
  "within_open q ls = (\<forall>l\<in>set ls. \<forall>n. q (ln_id l) = Some n \<longrightarrow> 0 \<le> n \<and> n \<le> open_quantity l)"

lemma issue_lines_result:
  assumes "issue_lines today (fy_label year month) ms sc r q db = Inr (db', txs)"
  shows "p_requests db' = p_requests db" "p_actions db' = p_actions db"
    "p_lines db' = map (issued_line (pr_id r) q) (p_lines db)"
    "stock_wf db \<Longrightarrow> stock_wf db'"
    "\<exists>mvs. sk_txs db' = sk_txs db @ txs \<and> post_all sc today (fy_label year month) mvs
       (db\<lparr>p_lines := map (issued_line (pr_id r) q) (p_lines db)\<rparr>) = Inr (db', txs)"
proof -
  let ?db = "db\<lparr>p_lines := map (issued_line (pr_id r) q) (p_lines db)\<rparr>"
  from assms obtain mvs where post: "post_all sc today (fy_label year month) mvs ?db = Inr (db', txs)"
    unfolding issue_lines_def Let_def issue_for_request_def issued_line_def by blast
  note res = post_all_result [OF post]
  from more_tables [of db' ?db] res
  show "p_requests db' = p_requests db" "p_actions db' = p_actions db"
    "p_lines db' = map (issued_line (pr_id r) q) (p_lines db)" by simp_all
  show "stock_wf db'" if "stock_wf db"
    by (rule stock_machine.run_inv [OF post_all_steps [OF post]], rule same_stock_wf [OF _ that])
      (simp add: same_stock_def)
  show "\<exists>mvs. sk_txs db' = sk_txs db @ txs \<and> post_all sc today (fy_label year month) mvs ?db = Inr (db', txs)"
    using post res by auto
qed

lemma issued_lines_of:
  assumes "p_lines db' = map (issued_line i q) (p_lines db)"
  shows "lines_of db' j = (if j = i then map (issued_line i q) (lines_of db i) else lines_of db j)"
proof -
  have "filter (\<lambda>l. ln_request l = j) (map (issued_line i q) ls) =
      map (issued_line i q) (filter (\<lambda>l. ln_request l = j) ls)" for ls
    by (induction ls) simp_all
  moreover have "map (issued_line i q) (filter (\<lambda>l. ln_request l = j) ls) = filter (\<lambda>l. ln_request l = j) ls" if "j \<noteq> i" for ls
    using that by (induction ls) (auto simp: issued_line_def)
  ultimately show ?thesis using assms by (simp add: lines_of_def)
qed

lemma issued_lines_wf:
  assumes "p_lines db' = map (issued_line i q) (p_lines db)" "within_open q (lines_of db i)" "lines_wf db"
  shows "lines_wf db'"
proof -
  have "map ln_id (p_lines db') = map ln_id (p_lines db)" by (simp add: assms(1) comp_def)
  moreover have "line_ok (issued_line i q l)" if "l \<in> set (p_lines db)" for l
  proof (cases "ln_request l = i \<and> to_issue q l")
    case True
    then obtain n where n: "q (ln_id l) = Some n" by (auto simp: to_issue_def split: option.splits)
    with True that assms(2) have "0 \<le> n" "n \<le> open_quantity l" by (auto simp: within_open_def lines_of_def)
    with n that assms(3) show ?thesis
      by (auto simp: issued_line_def line_ok_def lines_wf_def open_quantity_def)
  next
    case False
    with that assms(3) show ?thesis by (auto simp: issued_line_def lines_wf_def)
  qed
  ultimately show ?thesis
    using assms(3) unfolding lines_wf_def unique_keys_def by (simp only: assms(1) set_map) blast
qed

lemma issued_same_lines:
  assumes "issue_lines today (fy_label year month) ms sc r q db = Inr (db', txs)"
    and "within_open q (lines_of db (pr_id r))" "pr_estimated_total r1 = pr_estimated_total r"
  shows "same_lines (pr_id r) r db db' r1"
  using issue_lines_result [OF assms(1)] issued_lines_of [of db' "pr_id r" q db]
    issued_lines_wf [of db' "pr_id r" q db] assms(2,3)
  by (auto simp: same_lines_def lines_total_def comp_def)

lemma parse_issue_within:
  assumes "parse_issue ls raws q = Inr q'" "within_open q ls" "distinct (map ln_id ls)"
  shows "within_open q' ls"
  using assms
proof (induction ls raws q rule: parse_issue.induct)
  case (2 ls raw amount raws q)
  from 2(2) obtain i l n where i: "parse_id True raw = Inr i" "find (\<lambda>l. Some (ln_id l) = i) ls = Some l"
      "parse_qty amount = Inr n" "n \<le> open_quantity l" and rest: "parse_issue ls raws (q(ln_id l := Some n)) = Inr q'"
    by (auto simp: result_simps split: option.splits)
  have "l \<in> set ls" "Some (ln_id l) = i" using find_Some_set [OF i(2)] by auto
  moreover have "m = l" if "m \<in> set ls" "ln_id m = ln_id l" for m
    using that \<open>l \<in> set ls\<close> 2(4) by (auto simp: distinct_map inj_on_def)
  ultimately have "within_open (q(ln_id l := Some n)) ls"
    using 2(3) i(4) parse_qty_positive [OF i(3)] by (auto simp: within_open_def)
  moreover have "(case find (\<lambda>l. Some (ln_id l) = i) ls of None \<Rightarrow> Inl (proc_error ''invalid'') | Some l \<Rightarrow> Inr l) = Inr l"
    by (simp add: i(2))
  ultimately show ?case using i(4) by (intro 2(1) [OF i(1) _ i(3) _ rest _ 2(4)]) (simp_all add: fun_upd_def)
qed auto

lemma open_within: "lines_wf db \<Longrightarrow> distinct (map ln_id ls) \<Longrightarrow> within_open (open_quantities ls) ls"
proof -
  assume "distinct (map ln_id ls)"
  then have "m = l" if "m \<in> set ls" "l \<in> set ls" "ln_id m = ln_id l" for m l
    using that by (auto simp: distinct_map inj_on_def)
  then show "within_open (open_quantities ls) ls"
    by (fastforce simp: within_open_def open_quantities_def open_quantity_def dest!: find_Some_set)
qed

lemma lines_of_distinct: "lines_wf db \<Longrightarrow> distinct (map ln_id (lines_of db i))"
  by (simp add: lines_wf_def unique_keys_def lines_of_def distinct_map_filter)

lemma proc_wf_lines: "proc_wf db \<Longrightarrow> lines_wf db"
  by (simp add: proc_wf_def)

lemma issue_decides:
  assumes "issue now today (fy_label year month) org ms sc i comments db = Inr (db', r')" "proc_wf db"
  obtains db1 r txs where "by_decision sc i r' db db'" "same_stock db1 db'" "p_lines db' = p_lines db1"
    "locked_request db i = Inr r"
    "issue_lines today (fy_label year month) ms sc r (open_quantities (lines_of db i)) db = Inr (db1, txs)"
proof -
  let ?q = "open_quantities (lines_of db i)"
  from assms(1) obtain r db1 txs where locked: "locked_request db i = Inr r"
    and r: "pr_status r = RS_STORES_AVAILABLE" "u_id (sc_user sc) \<noteq> pr_requested_by r"
    and lines: "issue_lines today (fy_label year month) ms sc r ?q db = Inr (db1, txs)"
    and act: "act now sc S_STORES A_ISSUE (pr_status r) comments None None
         (r\<lparr>pr_status := RS_ISSUED, pr_completed_at := Some now\<rparr>) db1 = (db', r')"
    unfolding issue_def by (auto simp: result_simps)
  from locked_requestD [OF locked] have i: "pr_id r = i" by simp
  note wf = proc_wf_lines [OF assms(2)]
  have same: "same_lines i r db db1 (r\<lparr>pr_status := RS_ISSUED, pr_completed_at := Some now\<rparr>)"
    using issued_same_lines [OF lines] open_within [OF wf lines_of_distinct [OF wf]] i by simp
  have life: "lifecycle r a r'" if "r' = r\<lparr>pr_status := RS_ISSUED, pr_completed_at := Some now\<rparr>\<lparr>pr_stage_entered_at := e\<rparr>"
      "aa_stage a = S_STORES" "aa_action a = A_ISSUE" "aa_actor a = u_id (sc_user sc)" for a e
    using that r by (auto intro!: Issues)
  have "by_decision sc i r' db db' \<and> same_stock db1 db'"
    by (rule act_by_decision [OF act locked same]) (simp add: kept_def, erule life)
  moreover have "p_lines db' = p_lines db1"
    by (rule act_turned(3) [OF act locked same]) (simp add: kept_def, erule life)
  ultimately show thesis using that locked lines by blast
qed

text \<open>The review of the stores, where the partial issue is the one that changes lines.\<close>

lemma stores_review_cases:
  assumes "stores_review now today fy org ms sc i decision raws comments db = Inr (db', r')"
  obtains r cfg where "locked_request db i = Inr r" "require_config org (pr_department r) = Inr cfg"
    "current_stage r = Some S_STORES" "can_act_on_stage sc cfg r S_STORES" "u_id (sc_user sc) \<noteq> pr_requested_by r"
    "act now sc S_STORES A_STORES_AVAILABLE (pr_status r) comments None None
         (r\<lparr>pr_status := RS_STORES_AVAILABLE\<rparr>) db = (db', r') \<or>
     advance now sc S_STORES A_STORES_NOT_AVAILABLE comments None None r db = (db', r') \<or>
     (\<exists>rs q db1 txs. parse_issue (lines_of db i) rs (\<lambda>_. None) = Inr q \<and>
        \<not> list_all (\<lambda>l. wanted q l = open_quantity l) (lines_of db i) \<and>
        issue_lines today fy ms sc r q db = Inr (db1, txs) \<and>
        advance now sc S_STORES A_STORES_PARTIAL comments None None
          (r\<lparr>pr_approved_amount := Some (remaining_total (lines_of db1 i))\<rparr>) db1 = (db', r'))"
proof -
  from assms obtain r cfg d rs u where r: "locked_request db i = Inr r"
      "require_config org (pr_department r) = Inr cfg" "current_stage r = Some S_STORES"
    and req: "require_stage sc cfg r (Some S_STORES) = Inr u"
    and res: "(case d of
       D_Available \<Rightarrow> Inr (act now sc S_STORES A_STORES_AVAILABLE (pr_status r) comments None None
         (r\<lparr>pr_status := RS_STORES_AVAILABLE\<rparr>) db)
     | D_Not_Available \<Rightarrow> Inr (advance now sc S_STORES A_STORES_NOT_AVAILABLE comments None None r db)
     | D_Partial \<Rightarrow> issue_partially now today fy ms sc r rs comments db
     | _ \<Rightarrow> Inl (proc_error ''invalid_choice'')) = Inr (db', r')"
    unfolding stores_review_def Let_def case_prod_beta and_then_eq_Inr ensure_eq_Inr
    by (elim exE conjE) (rule that, assumption+)
  from locked_requestD [OF r(1)] have i: "pr_id r = i" by simp
  have "\<exists>rs q db1 txs. parse_issue (lines_of db i) rs (\<lambda>_. None) = Inr q \<and>
        \<not> list_all (\<lambda>l. wanted q l = open_quantity l) (lines_of db i) \<and>
        issue_lines today fy ms sc r q db = Inr (db1, txs) \<and>
        advance now sc S_STORES A_STORES_PARTIAL comments None None
          (r\<lparr>pr_approved_amount := Some (remaining_total (lines_of db1 i))\<rparr>) db1 = (db', r')"
    if "issue_partially now today fy ms sc r rs comments db = Inr (db', r')"
    using that unfolding issue_partially_def Let_def i by (simp only: and_then_eq_Inr ensure_eq_Inr) force
  with res have "act now sc S_STORES A_STORES_AVAILABLE (pr_status r) comments None None
         (r\<lparr>pr_status := RS_STORES_AVAILABLE\<rparr>) db = (db', r') \<or>
     advance now sc S_STORES A_STORES_NOT_AVAILABLE comments None None r db = (db', r') \<or>
     (\<exists>rs q db1 txs. parse_issue (lines_of db i) rs (\<lambda>_. None) = Inr q \<and>
        \<not> list_all (\<lambda>l. wanted q l = open_quantity l) (lines_of db i) \<and>
        issue_lines today fy ms sc r q db = Inr (db1, txs) \<and>
        advance now sc S_STORES A_STORES_PARTIAL comments None None
          (r\<lparr>pr_approved_amount := Some (remaining_total (lines_of db1 i))\<rparr>) db1 = (db', r'))"
    by (cases d) simp_all
  with that r require_stageD [OF req] show thesis by simp
qed

lemma stores_review_decides:
  assumes "stores_review now today (fy_label year month) org ms sc i decision raws comments db = Inr (db', r')"
    "proc_wf db"
  shows "by_decision sc i r' db db' \<and> (stock_wf db \<longrightarrow> stock_wf db')"
proof (rule stores_review_cases [OF assms(1)])
  fix r cfg
  assume locked: "locked_request db i = Inr r" and stage: "current_stage r = Some S_STORES"
    and actor: "u_id (sc_user sc) \<noteq> pr_requested_by r"
    and "act now sc S_STORES A_STORES_AVAILABLE (pr_status r) comments None None
         (r\<lparr>pr_status := RS_STORES_AVAILABLE\<rparr>) db = (db', r') \<or>
     advance now sc S_STORES A_STORES_NOT_AVAILABLE comments None None r db = (db', r') \<or>
     (\<exists>rs q db1 txs. parse_issue (lines_of db i) rs (\<lambda>_. None) = Inr q \<and>
        \<not> list_all (\<lambda>l. wanted q l = open_quantity l) (lines_of db i) \<and>
        issue_lines today (fy_label year month) ms sc r q db = Inr (db1, txs) \<and>
        advance now sc S_STORES A_STORES_PARTIAL comments None None
          (r\<lparr>pr_approved_amount := Some (remaining_total (lines_of db1 i))\<rparr>) db1 = (db', r'))"
  then consider
      (available) "act now sc S_STORES A_STORES_AVAILABLE (pr_status r) comments None None
         (r\<lparr>pr_status := RS_STORES_AVAILABLE\<rparr>) db = (db', r')"
    | (not_available) "advance now sc S_STORES A_STORES_NOT_AVAILABLE comments None None r db = (db', r')"
    | (partly) rs q db1 txs where "parse_issue (lines_of db i) rs (\<lambda>_. None) = Inr q"
        "issue_lines today (fy_label year month) ms sc r q db = Inr (db1, txs)"
        "advance now sc S_STORES A_STORES_PARTIAL comments None None
          (r\<lparr>pr_approved_amount := Some (remaining_total (lines_of db1 i))\<rparr>) db1 = (db', r')"
    by blast
  then show ?thesis
  proof cases
    case available
    have "by_decision sc i r' db db' \<and> same_stock db db'"
      by (rule act_by_decision [OF available locked])
        (use stage actor in \<open>auto simp: kept_def intro!: Finds_In_Stock\<close>)
    then show ?thesis using same_stock_wf by blast
  next
    case not_available
    have "by_decision sc i r' db db' \<and> same_stock db db'"
    proof (rule act_by_decision [OF not_available [unfolded advance_def] locked])
      show "lifecycle r a r'" if "r' = (advanced now None r)\<lparr>pr_stage_entered_at := e\<rparr>" "aa_stage a = S_STORES"
          "aa_action a = A_STORES_NOT_AVAILABLE" "aa_actor a = u_id (sc_user sc)" for a e
        by (rule advanced_life [where x = "pr_approved_amount r" and ?r1.0 = r])
          (use that stage actor wf_request [OF assms(2) locked] in \<open>auto simp: passing_actions_def\<close>)
    qed (simp_all add: advanced_fields)
    then show ?thesis using same_stock_wf by blast
  next
    case (partly rs q db1 txs)
    from locked_requestD [OF locked] have i: "pr_id r = i" by simp
    note wf = proc_wf_lines [OF assms(2)]
    let ?x = "Some (remaining_total (lines_of db1 i))"
    let ?r1 = "advanced now None (r\<lparr>pr_approved_amount := ?x\<rparr>)"
    have run: "act now sc S_STORES A_STORES_PARTIAL (pr_status r) comments None None ?r1 db1 = (db', r')"
      using partly(3) by (simp add: advance_def)
    have "within_open q (lines_of db i)"
      by (rule parse_issue_within [OF partly(1) _ lines_of_distinct [OF wf]]) (simp add: within_open_def)
    then have same: "same_lines (pr_id r) r db db1 ?r1"
      by (intro issued_same_lines [OF partly(2)]) (simp_all add: i advanced_fields)
    then have "lines_total (lines_of db1 i) = pr_estimated_total r" "lines_wf db1"
      using wf wf_request(1) [OF assms(2) locked] by (simp_all add: same_lines_def i request_ok_def advanced_fields)
    with remaining_total_bounds [of "lines_of db1 i"]
    have amt: "amount_ok (pr_estimated_total r) ?x" by (simp add: amount_ok_def lines_wf_def lines_of_def)
    have "by_decision sc i r' db db' \<and> same_stock db1 db'"
    proof (rule act_by_decision [OF run locked])
      show "lifecycle r a r'" if "r' = ?r1\<lparr>pr_stage_entered_at := e\<rparr>" "aa_stage a = S_STORES"
          "aa_action a = A_STORES_PARTIAL" "aa_actor a = u_id (sc_user sc)" for a e
        by (rule advanced_life [where x = ?x and ?r1.0 = "r\<lparr>pr_approved_amount := ?x\<rparr>"])
          (use that stage actor amt wf_request [OF assms(2) locked] in \<open>auto simp: passing_actions_def\<close>)
    next
      show "same_lines i r db db1 ?r1" using same by (simp add: i)
      show "kept r ?r1"
        using advanced_fields(4) [of "r\<lparr>pr_approved_amount := ?x\<rparr>" now None] by (simp add: kept_def)
    qed
    then show ?thesis using same_stock_wf issue_lines_result(4) [OF partly(2)] by blast
  qed
qed

subsection \<open>Edits of the stores\<close>

definition rates_ok :: "'m masters_scheme \<Rightarrow> bool" where
  "rates_ok ms = (\<forall>it\<in>set (m_items ms). case it_default_gst it of None \<Rightarrow> True | Some g \<Rightarrow> 0 \<le> g)"

lemma line_item_rate:
  assumes "line_item ms d raw = Inr (Some it)" "rates_ok ms" "it_default_gst it = Some g"
  shows "0 \<le> g"
proof -
  from assms(1) obtain P where "find P (m_items ms) = Some it"
    by (auto simp: line_item_def result_simps split: option.splits if_splits)
  then have "it \<in> set (m_items ms)" by (auto dest: find_Some_set)
  with assms(2,3) show ?thesis by (force simp: rates_ok_def)
qed

lemma parse_rate_nonneg: "parse_rate raw = Inr g \<Longrightarrow> 0 \<le> g"
  by (auto simp: parse_rate_def result_simps dest: parse_money_range split: if_splits option.splits)

definition edit_step :: "request_line \<Rightarrow> request_line \<Rightarrow> bool" where
  "edit_step l l' = (ln_id l' = ln_id l \<and> ln_request l' = ln_request l \<and>
     ln_issued_quantity l' = ln_issued_quantity l \<and> 0 < ln_quantity l' \<and>
     ln_issued_quantity l \<le> ln_quantity l' \<and> 0 \<le> ln_unit_price l' \<and> 0 \<le> ln_gst_rate l')"

lemma edit_step_simps [simp]:
  "edit_step l0 (l\<lparr>ln_description := t\<rparr>) = edit_step l0 l" "edit_step l0 (l\<lparr>ln_specification := t\<rparr>) = edit_step l0 l"
  "edit_step l0 (l\<lparr>ln_uom := t\<rparr>) = edit_step l0 l" "edit_step l0 (l\<lparr>ln_item := it\<rparr>) = edit_step l0 l"
  "edit_step l0 (l\<lparr>ln_fulfilment := f\<rparr>) = edit_step l0 l" "edit_step l0 (l\<lparr>ln_store_note := t\<rparr>) = edit_step l0 l"
  by (simp_all add: edit_step_def)

lemma edit_step_set:
  "edit_step l0 l \<Longrightarrow> 0 < q \<Longrightarrow> ln_issued_quantity l \<le> q \<Longrightarrow> edit_step l0 (l\<lparr>ln_quantity := q\<rparr>)"
  "edit_step l0 l \<Longrightarrow> 0 \<le> p \<Longrightarrow> edit_step l0 (l\<lparr>ln_unit_price := p\<rparr>)"
  "edit_step l0 l \<Longrightarrow> 0 \<le> g \<Longrightarrow> edit_step l0 (l\<lparr>ln_gst_rate := g\<rparr>)"
  by (simp_all add: edit_step_def)

lemma edit_step_put:
  assumes "edit_step l0 (fst lc)" "edit_step l0 (fst lc) \<Longrightarrow> edit_step l0 (put (fst lc))"
  shows "edit_step l0 (fst (set_field x old put field lc))"
  using assms by (cases lc) (simp add: set_field_def)

lemma edit_texts_ok: "edit_step l0 (fst lc) \<Longrightarrow> edit_step l0 (fst (edit_texts raw lc))"
  unfolding edit_texts_def Let_def by (simp add: edit_step_put split: option.split)

lemma edit_item_ok:
  assumes "edit_step l l" "\<And>i g. it = Some i \<Longrightarrow> it_default_gst i = Some g \<Longrightarrow> 0 \<le> g"
  shows "edit_step l (fst (edit_item raw it l))"
  using assms by (auto simp: edit_item_def edit_step_def split: option.splits)

lemma apply_edit_ok:
  assumes "apply_edit ms d raw l = Inr (l', changed)" "line_ok l" "rates_ok ms"
  shows "line_ok l'" "ln_id l' = ln_id l" "ln_request l' = ln_request l"
proof -
  from assms(1) obtain lc1 lc2 lc3 lc4 l1 where
    item: "(case le_item raw of None \<Rightarrow> Inr (l, [])
       | Some i \<Rightarrow> and_then (line_item ms d i) (\<lambda>it. Inr (edit_item raw it l))) = Inr lc1"
    and qty: "edit_quantity raw (edit_texts raw lc1) = Inr lc2" and price: "edit_price raw lc2 = Inr lc3"
    and gst: "edit_gst raw lc3 = Inr lc4" and dec: "edit_decision raw lc4 = Inr (l1, changed)"
    and l': "l' = l1\<lparr>ln_line_total := line_total (ln_quantity l1) (ln_unit_price l1) (ln_gst_rate l1)\<rparr>"
    unfolding apply_edit_def by (auto simp: result_simps)
  have refl: "edit_step l l" using assms(2) by (auto simp: edit_step_def line_ok_def)
  have "edit_step l (fst lc1)"
    using item refl line_item_rate [OF _ assms(3)]
    by (auto simp: result_simps intro!: edit_item_ok split: option.splits)
  from edit_texts_ok [OF this] have "edit_step l (fst lc2)"
    using qty parse_qty_positive
    by (auto simp: edit_quantity_def result_simps intro!: edit_step_put edit_step_set split: if_splits)
  then have "edit_step l (fst lc3)"
    using price parse_money_range
    by (fastforce simp: edit_price_def result_simps intro!: edit_step_put edit_step_set split: if_splits option.splits)
  then have lc4: "edit_step l (fst lc4)"
    using gst parse_rate_nonneg
    by (auto simp: edit_gst_def result_simps intro!: edit_step_put edit_step_set split: if_splits)
  from dec obtain lc5 where first: "(case le_fulfilment raw of None \<Rightarrow> Inr lc4
       | Some f \<Rightarrow> and_then (read_fulfilment (Some f)) (\<lambda>f.
           Inr (set_field f ln_fulfilment (\<lambda>l. l\<lparr>ln_fulfilment := f\<rparr>) C_Fulfilment lc4))) = Inr lc5"
    and last: "(case le_store_note raw of None \<Rightarrow> lc5 | Some n \<Rightarrow> set_field (take 2000 n) ln_store_note
        (\<lambda>l. l\<lparr>ln_store_note := take 2000 n\<rparr>) C_Store_Note lc5) = (l1, changed)"
    unfolding edit_decision_def by (auto simp only: and_then_eq_Inr sum.inject)
  from lc4 first have "edit_step l (fst lc5)"
    by (auto simp: result_simps intro!: edit_step_put split: option.splits)
  then have "edit_step l (fst (l1, changed))"
    unfolding last [symmetric] by (simp add: edit_step_put split: option.split)
  with assms(2) show "line_ok l'" "ln_id l' = ln_id l" "ln_request l' = ln_request l"
    by (auto simp: l' line_ok_def edit_step_def)
qed

text \<open>What the edits of a request may do to the tables.\<close>

definition lines_edited :: "purchase_request \<Rightarrow> 'z proc_db_scheme \<Rightarrow> 'z proc_db_scheme \<Rightarrow> bool" where
  "lines_edited r db db' = (p_requests db' = p_requests db \<and> p_actions db' = p_actions db \<and> same_stock db db' \<and>
     (\<forall>j. j \<noteq> pr_id r \<longrightarrow> lines_of db' j = lines_of db j) \<and> (lines_wf db \<longrightarrow> lines_wf db'))"

lemma lines_edited_refl [simp]: "lines_edited r db db"
  by (simp add: lines_edited_def same_stock_def)

lemma lines_edited_trans: "lines_edited r db db1 \<Longrightarrow> lines_edited r db1 db2 \<Longrightarrow> lines_edited r db db2"
  by (auto simp: lines_edited_def same_stock_def)

lemma lines_edited_table:
  assumes "db' = db\<lparr>p_lines := ls\<rparr>"
    "\<And>j. j \<noteq> pr_id r \<Longrightarrow> filter (\<lambda>l. ln_request l = j) ls = filter (\<lambda>l. ln_request l = j) (p_lines db)"
    "lines_wf db \<Longrightarrow> unique_keys ln_id ls \<and> (\<forall>l\<in>set ls. line_ok l)"
  shows "lines_edited r db db'"
  using assms by (simp add: lines_edited_def same_stock_def lines_of_def lines_wf_def)

lemma filter_update_row:
  assumes "unique_keys ln_id ls" "l \<in> set ls" "ln_request l = ln_request l'" "ln_request l \<noteq> j"
  shows "filter (\<lambda>l. ln_request l = j) (update_row ln_id (ln_id l) (\<lambda>_. l') ls) = filter (\<lambda>l. ln_request l = j) ls"
  by (rule update_row_const [OF assms(1,2), of l']) (use assms(3,4) in simp)

lemma added_line_ok:
  assumes "added_line ms d raw = Inr l" "rates_ok ms"
  shows "line_ok (l\<lparr>ln_id := k, ln_request := i\<rparr>)"
proof -
  from assms(1) obtain it q p gst where it: "line_item ms d (given (le_item raw)) = Inr it"
    and q: "parse_qty (le_quantity raw) = Inr q"
    and p: "(if le_unit_price raw = Missing then Inr (Some 0) else parse_money True True (le_unit_price raw)) = Inr p"
    and gst: "line_gst it (le_gst raw) = Inr gst"
    and l: "ln_quantity l = q" "ln_unit_price l = (case p of None \<Rightarrow> 0 | Some x \<Rightarrow> x)" "ln_gst_rate l = gst"
      "ln_line_total l = line_total q (case p of None \<Rightarrow> 0 | Some x \<Rightarrow> x) gst" "ln_issued_quantity l = 0"
    unfolding added_line_def Let_def by (auto simp: result_simps)
  have "0 \<le> gst"
    using gst it line_item_rate [OF _ assms(2)] parse_rate_nonneg
    by (auto simp: line_gst_def split: option.splits if_splits)
  moreover have "0 \<le> (case p of None \<Rightarrow> 0 | Some x \<Rightarrow> x)"
    using p parse_money_range by (fastforce split: option.splits if_splits)
  ultimately show ?thesis using l parse_qty_positive [OF q] by (simp add: line_ok_def)
qed

lemma edit_line_edited:
  assumes "edit_line ms r raw db = Inr (db', b)" "rates_ok ms" "lines_wf db"
  shows "lines_edited r db db'"
proof -
  from assms(1) obtain e i where e: "raw = Some e" "parse_id False (le_id e) = Inr i"
    by (auto simp: edit_line_def result_simps split: option.splits)
  note keys = assms(3) [unfolded lines_wf_def]
  show ?thesis
  proof (cases i)
    case None
    with assms(1) e obtain l where l: "added_line ms (pr_department r) e = Inr l"
      "db' = db\<lparr>p_lines := p_lines db @ [l\<lparr>ln_id := fresh_pk ln_id (p_lines db), ln_request := pr_id r\<rparr>]\<rparr>"
      by (auto simp: edit_line_def result_simps)
    from keys show ?thesis
      using fresh_pk_notin [of ln_id "p_lines db"]
      by (intro lines_edited_table [OF l(2)])
        (auto simp: added_line_ok [OF l(1) assms(2)] intro!: unique_keys_append)
  next
    case (Some k)
    with assms(1) e obtain l where find: "find (\<lambda>l. ln_id l = k) (lines_of db (pr_id r)) = Some l"
      by (auto simp: edit_line_def split: option.splits)
    from find_Some_set [OF find] have l: "l \<in> set (p_lines db)" "ln_request l = pr_id r" "ln_id l = k"
      by (auto simp: lines_of_def)
    show ?thesis
    proof (cases "le_remove e")
      case True
      with assms(1) e Some find have db': "db' = db\<lparr>p_lines := filter (\<lambda>l'. ln_id l' \<noteq> k) (p_lines db)\<rparr>"
        by (auto simp: edit_line_def split: if_splits)
      have "m = l" if "m \<in> set (p_lines db)" "ln_id m = k" for m
        using that l keys by (auto simp: unique_keys_def distinct_map inj_on_def)
      then have only: "ln_request m = pr_id r" if "m \<in> set (p_lines db)" "ln_id m = k" for m
        using that l by blast
      show ?thesis
      proof (rule lines_edited_table [OF db'])
        show "filter (\<lambda>l. ln_request l = j) (filter (\<lambda>l'. ln_id l' \<noteq> k) (p_lines db)) =
            filter (\<lambda>l. ln_request l = j) (p_lines db)" if "j \<noteq> pr_id r" for j
          unfolding filter_filter by (rule filter_cong [OF refl]) (use only that in auto)
        show "unique_keys ln_id (filter (\<lambda>l'. ln_id l' \<noteq> k) (p_lines db)) \<and>
            (\<forall>l\<in>set (filter (\<lambda>l'. ln_id l' \<noteq> k) (p_lines db)). line_ok l)"
          using keys by (simp add: unique_keys_def distinct_map_filter)
      qed
    next
      case False
      with assms(1) e Some find obtain l' changed where
        edit: "apply_edit ms (pr_department r) e l = Inr (l', changed)"
        and db': "db' = (if changed = [] then db
          else db\<lparr>p_lines := update_row ln_id k (\<lambda>_. remember l changed l') (p_lines db)\<rparr>)"
        by (auto simp: edit_line_def result_simps split: if_splits)
      let ?l = "remember l changed l'"
      have "line_ok l" using keys l by blast
      from apply_edit_ok [OF edit this assms(2)] l
      have new: "line_ok ?l" "ln_id ?l = ln_id l" "ln_request ?l = ln_request l" "ln_id l = k"
        by (auto simp: remember_def line_ok_def)
      have "lines_edited r db (db\<lparr>p_lines := update_row ln_id k (\<lambda>_. ?l) (p_lines db)\<rparr>)"
      proof (rule lines_edited_table [OF refl])
        show "filter (\<lambda>l. ln_request l = j) (update_row ln_id k (\<lambda>_. ?l) (p_lines db)) =
            filter (\<lambda>l. ln_request l = j) (p_lines db)" if "j \<noteq> pr_id r" for j
          using filter_update_row [of "p_lines db" l ?l j] keys l new that by simp
        have "map ln_id (update_row ln_id k (\<lambda>_. ?l) (p_lines db)) = map ln_id (p_lines db)"
          using map_update_row_const [of ln_id "p_lines db" l ln_id ?l] keys l new by simp
        then have "unique_keys ln_id (update_row ln_id k (\<lambda>_. ?l) (p_lines db))"
          using keys unfolding unique_keys_def by (simp only:)
        moreover have "\<forall>m\<in>set (update_row ln_id k (\<lambda>_. ?l) (p_lines db)). line_ok m"
          using keys new(1) by (auto simp: update_row_def)
        ultimately show "unique_keys ln_id (update_row ln_id k (\<lambda>_. ?l) (p_lines db)) \<and>
            (\<forall>m\<in>set (update_row ln_id k (\<lambda>_. ?l) (p_lines db)). line_ok m)" by blast
      qed
      then show ?thesis by (simp add: db')
    qed
  qed
qed

lemma edit_each_edited:
  assumes "edit_each ms r raws db = Inr (db', b)" "rates_ok ms" "lines_wf db"
  shows "lines_edited r db db'"
  using assms
proof (induction raws arbitrary: db b)
  case (Cons raw raws)
  then obtain db1 b1 b2 where "edit_line ms r raw db = Inr (db1, b1)" "edit_each ms r raws db1 = Inr (db', b2)"
    by (auto simp: result_simps)
  with edit_line_edited [of ms r raw db db1 b1] Cons show ?case
    by (meson lines_edited_def lines_edited_trans)
qed simp

lemma edit_each_nothing: "edit_each ms r raws db = Inr (db', False) \<Longrightarrow> db' = db"
proof (induction raws arbitrary: db)
  case (Cons raw raws)
  then obtain db1 where first: "edit_line ms r raw db = Inr (db1, False)" and "edit_each ms r raws db1 = Inr (db', False)"
    by (auto simp: result_simps)
  with Cons.IH have "db' = db1" by blast
  moreover have "db1 = db"
    using first by (auto simp: edit_line_def result_simps split: option.splits if_splits)
  ultimately show ?case by simp
qed simp

text \<open>The route the stores leave is legal again.\<close>

lemma legal_routes:
  assumes "legal_route route"
  shows "route \<in> set (subseqs approval_stages)"
proof -
  have "filter P xs \<in> set (subseqs xs)" for P and xs :: "stage list"
    by (induction xs) (auto simp: Let_def)
  then show ?thesis using assms unfolding legal_route_def by metis
qed

lemma head_to_stores:
  assumes "legal_route route" "i < length route" "route ! i = S_STORES"
  shows "take (Suc i) route \<in> {[S_STORES], [S_OIC, S_STORES]}"
proof -
  have "list_all (\<lambda>route. list_all (\<lambda>i. i < length route \<longrightarrow> route ! i = S_STORES \<longrightarrow>
      take (Suc i) route \<in> {[S_STORES], [S_OIC, S_STORES]}) [0, 1, 2, 3]) (subseqs approval_stages)"
    by code_simp
  moreover have "\<forall>route\<in>set (subseqs approval_stages). length route \<le> 4" by code_simp
  with legal_routes [OF assms(1)] assms(2) have "i < 4" by fastforce
  then have "i \<in> set [0, 1, 2, 3]" by auto
  ultimately show ?thesis using assms(2,3) legal_routes [OF assms(1)] unfolding list_all_iff by blast
qed

lemma tail_after_stores:
  assumes "legal_route route" "after_stores route = Some t"
  shows "t \<in> {[], [S_ACCOUNTS], [S_HOD], [S_ACCOUNTS, S_HOD]}"
proof -
  have "list_all (\<lambda>route. case after_stores route of None \<Rightarrow> True
      | Some t \<Rightarrow> t \<in> {[], [S_ACCOUNTS], [S_HOD], [S_ACCOUNTS, S_HOD]}) (subseqs approval_stages)"
    by code_simp
  with legal_routes [OF assms(1)] assms(2) show ?thesis unfolding list_all_iff by (auto simp only: option.case)
qed

lemma new_route_legal:
  assumes "legal_route (pr_approval_route r)" "current_stage r = Some S_STORES" "legal_route full"
    "pr_route_index r2 = pr_route_index r" "pr_approval_route r2 = pr_approval_route r"
  shows "legal_route (take (Suc (pr_route_index r)) (pr_approval_route r) @ new_tail full r2)"
proof (cases "after_stores full")
  case None
  then have "new_tail full r2 = drop (Suc (pr_route_index r)) (pr_approval_route r)"
    by (simp add: new_tail_def assms(4,5))
  with assms(1) show ?thesis by (simp only: append_take_drop_id)
next
  case (Some t)
  have "take (Suc (pr_route_index r)) (pr_approval_route r) \<in> {[S_STORES], [S_OIC, S_STORES]}"
    using assms(2) unfolding current_stage_Some by (intro head_to_stores [OF assms(1)]) simp_all
  moreover have "\<forall>h\<in>{[S_STORES], [S_OIC, S_STORES]}.
      \<forall>t\<in>{[], [S_ACCOUNTS], [S_HOD], [S_ACCOUNTS, S_HOD]}. legal_route (h @ t)"
    by code_simp
  ultimately show ?thesis using tail_after_stores [OF assms(3) Some] Some by (simp only: new_tail_def option.case)
qed

lemma edit_lines_decides:
  assumes "edit_lines now today org ms sc i raws comments db = Inr (db', r')" "proc_wf db" "rates_ok ms"
  shows "db' = db \<or> by_decision sc i r' db db' \<and> same_stock db db'"
proof -
  from assms(1) obtain r cfg rs db1 summary u where locked: "locked_request db i = Inr r"
    and stage: "current_stage r = Some S_STORES" "pr_status r = RS_PENDING_STORES"
    and req: "require_stage sc cfg r (Some S_STORES) = Inr u"
    and edits: "edit_each ms r rs db = Inr (db1, summary)"
    and res: "(if \<not> summary then Inr (db1, r)
     else let r1 = with_total (lines_total (lines_of db1 i)) r;
              r2 = r1\<lparr>pr_hod_required := hod_required ms cfg r1\<rparr>;
              old_tail = drop (pr_route_index r + 1) (pr_approval_route r);
              tail = new_tail (compute_route ms cfg r2) r2;
              r3 = r2\<lparr>pr_approval_route := take (pr_route_index r + 1) (pr_approval_route r) @ tail\<rparr>
       in and_then (if tail = old_tail then Inr () else ensure_approvers now today org cfg r2 tail) (\<lambda>_.
         Inr (act now sc S_STORES A_STORES_EDIT (pr_status r3) comments None None r3 db1))) = Inr (db', r')"
    unfolding edit_lines_def case_prod_beta and_then_eq_Inr ensure_eq_Inr split_paired_Ex fst_conv snd_conv
    by (elim exE conjE) (rule that, assumption+)
  note actor = require_stageD [OF req]
  from locked_requestD [OF locked] have i: "pr_id r = i" by simp
  note edited = edit_each_edited [OF edits assms(3) proc_wf_lines [OF assms(2)]]
  show ?thesis
  proof (cases summary)
    case False
    with res edit_each_nothing [of ms r rs db db1] edits show ?thesis by simp
  next
    case True
    define r1 where "r1 = with_total (lines_total (lines_of db1 i)) r"
    define r2 where "r2 = r1\<lparr>pr_hod_required := hod_required ms cfg r1\<rparr>"
    define r3 where "r3 = r2\<lparr>pr_approval_route := take (pr_route_index r + 1) (pr_approval_route r) @
      new_tail (compute_route ms cfg r2) r2\<rparr>"
    have r2: "pr_route_index r2 = pr_route_index r" "pr_approval_route r2 = pr_approval_route r"
      "pr_status r2 = pr_status r" "pr_estimated_total r2 = lines_total (lines_of db1 i)" "kept r r2"
      "pr_approved_amount r2 = (if pr_estimated_total r2 = pr_estimated_total r then pr_approved_amount r else None)"
      by (auto simp: r2_def r1_def with_total_def Let_def kept_def)
    have status: "pr_status r1 = pr_status r" by (simp add: r1_def with_total_def Let_def)
    have run: "act now sc S_STORES A_STORES_EDIT (pr_status r) comments None None r3 db1 = (db', r')"
      using res True r2(3) status
      by (auto simp: Let_def result_simps r1_def [symmetric] r2_def [symmetric] r3_def)
    have same: "same_lines i r db db1 r3"
      using edited r2(4) by (simp add: same_lines_def lines_edited_def i r3_def)
    have "legal_route (pr_approval_route r) \<Longrightarrow> legal_route (pr_approval_route r3)"
      using new_route_legal [OF _ stage(1) compute_route_legal r2(1,2)] by (simp add: r3_def)
    moreover have "take (Suc (pr_route_index r)) (pr_approval_route r3) = take (Suc (pr_route_index r)) (pr_approval_route r)"
      using stage by (simp add: r3_def current_stage_Some min_def)
    ultimately have life: "lifecycle r a r'" if "r' = r3\<lparr>pr_stage_entered_at := e\<rparr>" "aa_stage a = S_STORES"
        "aa_action a = A_STORES_EDIT" "aa_actor a = u_id (sc_user sc)" for a e
      by (intro Rewrites) (use that stage actor r2 in \<open>simp_all add: r3_def\<close>)
    have "kept r r3" using r2(5) by (simp add: kept_def r3_def)
    with same have "by_decision sc i r' db db' \<and> same_stock db1 db'"
      by (intro act_by_decision [OF run locked]) (assumption, assumption, erule life)
    then show ?thesis using edited by (auto simp: lines_edited_def same_stock_def)
  qed
qed

subsection \<open>Drafts\<close>

lemma build_line_ok:
  assumes "build_line ms d raw = Inr l" "rates_ok ms"
  shows "line_ok (l\<lparr>ln_id := k, ln_request := i\<rparr>)"
proof -
  from assms(1) obtain e where e: "raw = Some e" by (cases raw) (auto simp: build_line_def)
  from assms(1) obtain it q p gst where it: "line_item ms d (ld_item e) = Inr it"
    and q: "parse_qty (ld_quantity e) = Inr q" and p: "parse_money True True (ld_unit_price e) = Inr p"
    and gst: "line_gst it (ld_gst e) = Inr gst"
    and l: "ln_quantity l = q" "ln_unit_price l = (case p of None \<Rightarrow> 0 | Some x \<Rightarrow> x)" "ln_gst_rate l = gst"
      "ln_line_total l = line_total q (case p of None \<Rightarrow> 0 | Some x \<Rightarrow> x) gst" "ln_issued_quantity l = 0"
    unfolding build_line_def Let_def e option.case by (auto simp: result_simps)
  have "0 \<le> gst"
    using gst it line_item_rate [OF _ assms(2)] parse_rate_nonneg
    by (auto simp: line_gst_def split: option.splits if_splits)
  moreover have "0 \<le> (case p of None \<Rightarrow> 0 | Some x \<Rightarrow> x)"
    using p parse_money_range by (fastforce split: option.splits)
  ultimately show ?thesis using l parse_qty_positive [OF q] by (simp add: line_ok_def)
qed

lemma build_all_ok:
  assumes "build_all ms d raws = Inr ls" "rates_ok ms" "m \<in> set (number_lines pk i ls)"
  shows "line_ok m"
  using assms
proof (induction raws arbitrary: ls pk)
  case (Cons raw raws)
  then obtain l ls1 where "build_line ms d raw = Inr l" "build_all ms d raws = Inr ls1" "ls = l # ls1"
    by (auto simp: result_simps)
  with Cons build_line_ok [of ms d raw l] show ?case by auto
qed simp

lemma build_lines_ok:
  assumes "build_lines ms d raw = Inr ls" "rates_ok ms" "m \<in> set (number_lines pk i ls)"
  shows "line_ok m"
  using assms build_all_ok by (fastforce simp: build_lines_def split: raw_lines.splits if_splits)

lemma fresh_pk_greater: "r \<in> set rows \<Longrightarrow> pk r < fresh_pk pk rows"
  unfolding fresh_pk_def by (simp add: fold_max_upper less_Suc_eq_le)

lemma replace_lines_wf:
  assumes "replace_lines r ls db = (db', r')" "lines_wf db"
    "\<And>m. m \<in> set (number_lines (fresh_pk ln_id (p_lines db)) (pr_id r) ls) \<Longrightarrow> line_ok m"
  shows "lines_wf db'"
proof -
  let ?new = "number_lines (fresh_pk ln_id (p_lines db)) (pr_id r) ls"
  have rows: "p_lines db' = filter (\<lambda>l. ln_request l \<noteq> pr_id r) (p_lines db) @ ?new"
    using assms(1) by (auto simp: replace_lines_def)
  have "distinct (map ln_id ?new)" by (simp add: number_lines_keys)
  moreover have "ln_id ` set ?new \<subseteq> {fresh_pk ln_id (p_lines db)..}"
    unfolding set_map [symmetric] number_lines_keys by auto
  moreover have "ln_id l < fresh_pk ln_id (p_lines db)" if "l \<in> set (p_lines db)" for l
    using that by (rule fresh_pk_greater)
  then have "ln_id ` set (filter P (p_lines db)) \<subseteq> {..<fresh_pk ln_id (p_lines db)}" for P by auto
  ultimately have "distinct (map ln_id (p_lines db'))"
    using assms(2) unfolding rows lines_wf_def unique_keys_def
    by (simp add: distinct_map_filter) (meson atLeast_iff disjoint_iff lessThan_iff not_le subset_iff)
  with assms(2,3) show ?thesis by (auto simp: lines_wf_def unique_keys_def rows)
qed

lemma apply_header_keeps:
  assumes "apply_header creating rt data r = Inr r'"
  shows "kept r r'" "pr_status r' = pr_status r" "pr_approval_route r' = pr_approval_route r"
    "pr_route_index r' = pr_route_index r" "pr_estimated_total r' = pr_estimated_total r"
    "pr_approved_amount r' = pr_approved_amount r" "pr_held_from_status r' = pr_held_from_status r"
  using assms by (auto simp: apply_header_def result_simps kept_def)

text \<open>Creating and editing a request; only the sequence of numbers moves besides.\<close>

definition only_numbers :: "'z stock_db_scheme \<Rightarrow> 'z stock_db_scheme \<Rightarrow> bool" where
  "only_numbers db db' = (sk_balances db' = sk_balances db \<and> sk_txs db' = sk_txs db \<and>
     sk_alerts db' = sk_alerts db \<and> (\<exists>p fy n. take_number p fy (sk_sequences db) = (sk_sequences db', n)))"

lemma only_numbers_wf:
  assumes "only_numbers db db'" "stock_wf db"
  shows "stock_wf db'"
proof -
  from assms(1) have same: "sk_balances db' = sk_balances db" "sk_txs db' = sk_txs db" by (auto simp: only_numbers_def)
  then have stock: "stock_of db' = stock_of db" by (intro stock_of_cong)
  from assms(1) obtain p fy n where "take_number p fy (sk_sequences db) = (sk_sequences db', n)"
    by (auto simp: only_numbers_def)
  then have "number_given (sk_sequences db) q gy m \<Longrightarrow> number_given (sk_sequences db') q gy m" for q gy m
    by (rule take_number_result) blast
  with assms(2) same stock show ?thesis
    unfolding stock_wf_def numbers_ok_def stock_postings_def by (simp only:) blast
qed

definition drafted :: "'z proc_db_scheme \<Rightarrow> purchase_request \<Rightarrow> 'z proc_db_scheme \<Rightarrow> bool" where
  "drafted db r db' = (pr_status r = RS_DRAFT \<and> pr_id r \<notin> pr_id ` set (p_requests db) \<and>
     p_requests db' = p_requests db @ [r] \<and> p_actions db' = p_actions db \<and>
     pr_approval_route r = [] \<and> pr_route_index r = 0 \<and>
     pr_estimated_total r = lines_total (lines_of db' (pr_id r)) \<and>
     (\<forall>i. i \<noteq> pr_id r \<longrightarrow> lines_of db' i = lines_of db i) \<and> (lines_wf db \<longrightarrow> lines_wf db'))"

lemma create_drafts:
  assumes "create_request org ms sc fy data db = Inr (db', r)" "rates_ok ms"
  shows "drafted db r db' \<and> only_numbers db db' \<and> pr_requested_by r = u_id (sc_user sc)"
proof -
  from assms(1) obtain equipment :: "equipment_row option" and lab :: "laboratory option"
    and d role and rt :: request_type and category :: "item_category option" and r1 ls where
    hdr: "apply_header True rt data (blank_request\<lparr>pr_department := d,
         pr_laboratory := map_option lab_id lab, pr_equipment := map_option eq_id equipment,
         pr_request_type := rt_id rt, pr_category := map_option ic_id category,
         pr_nature := nature_for category rt, pr_financial_year := fy,
         pr_requested_by := u_id (sc_user sc), pr_raised_as_role := role\<rparr>) = Inr r1"
    and lines: "build_lines ms d (case rd_lines data of None \<Rightarrow> Lines_Missing | Some l \<Rightarrow> l) = Inr ls"
    and res: "Inr (store_request sc fy r1 ls db) = (Inr (db', r) :: exn + _)"
    unfolding create_request_def and_then_eq_Inr by (elim exE conjE) (rule that, assumption+)
  note keep = apply_header_keeps [OF hdr]
  obtain seqs number where num: "take_number ''REQ'' fy (sk_sequences db) = (seqs, number)" by force
  define r2 where "r2 = r1\<lparr>pr_id := fresh_pk pr_id (p_requests db), pr_number := number\<rparr>"
  define db1 where "db1 = db\<lparr>sk_sequences := seqs, p_requests := p_requests db @ [r2]\<rparr>"
  obtain db2 r3 where rep: "replace_lines r2 ls db1 = (db2, r3)" by force
  note repl = replace_lines_of [OF rep]
  have r3: "r3 = r" "db' = proc_record_audit sc ''request.created'' r [] (save_request r db2)"
    using res rep by (auto simp: Let_def r2_def db1_def store_request_def num)
  have new: "pr_id r = fresh_pk pr_id (p_requests db)" using repl(3) r3(1) by (simp add: r2_def)
  have "p_requests db' = update_row pr_id (pr_id r) (\<lambda>_. r) (p_requests db @ [r2])"
    by (simp add: r3(2) proc_record_audit_def save_request_def repl(4) db1_def)
  also have "\<dots> = update_row pr_id (pr_id r) (\<lambda>_. r) (p_requests db) @ [r]"
    by (simp add: update_row_def new r2_def)
  also have "update_row pr_id (pr_id r) (\<lambda>_. r) (p_requests db) = p_requests db"
    by (rule update_row_absent) (simp add: new fresh_pk_notin)
  finally have reqs: "p_requests db' = p_requests db @ [r]" .
  have "lines_of db' j = lines_of db2 j" "p_lines db' = p_lines db2" for j
    by (simp_all add: r3 proc_record_audit_def save_request_def lines_of_def)
  moreover have "lines_of db1 j = lines_of db j" "lines_wf db1 = lines_wf db" "p_actions db1 = p_actions db" for j
    by (simp_all add: db1_def lines_of_def lines_wf_def)
  moreover have "lines_wf db1 \<Longrightarrow> lines_wf db2"
    by (rule replace_lines_wf [OF rep]) (auto intro: build_lines_ok [OF lines assms(2)])
  moreover have "p_actions db' = p_actions db2" by (simp add: r3 proc_record_audit_def save_request_def)
  moreover have "sk_balances db' = sk_balances db" "sk_txs db' = sk_txs db" "sk_alerts db' = sk_alerts db"
    "sk_sequences db' = seqs"
    using rep by (auto simp: r3 proc_record_audit_def save_request_def db1_def replace_lines_def)
  moreover have "pr_id r2 = pr_id r" by (simp add: new r2_def)
  ultimately show ?thesis
    using reqs new fresh_pk_notin [of pr_id "p_requests db"] repl num keep r3(1)
    by (auto simp: drafted_def only_numbers_def lines_wf_def kept_def r2_def blank_request_def)
qed

text \<open>An edit of a draft, or of a request that was sent back, leaves where the request stands.\<close>

definition redrafted :: "'z proc_db_scheme \<Rightarrow> purchase_request \<Rightarrow> purchase_request \<Rightarrow> 'z proc_db_scheme \<Rightarrow> bool" where
  "redrafted db r r' db' = (row_of pr_id (pr_id r) (p_requests db) = Some r \<and> pr_status r \<in> editable_statuses \<and>
     kept r r' \<and> pr_status r' = pr_status r \<and> pr_approval_route r' = pr_approval_route r \<and>
     pr_route_index r' = pr_route_index r \<and>
     p_requests db' = update_row pr_id (pr_id r) (\<lambda>_. r') (p_requests db) \<and> p_actions db' = p_actions db \<and>
     (\<forall>i. i \<noteq> pr_id r \<longrightarrow> lines_of db' i = lines_of db i) \<and> (lines_wf db \<longrightarrow> lines_wf db') \<and>
     (lines_total (lines_of db (pr_id r)) = pr_estimated_total r \<longrightarrow>
        lines_total (lines_of db' (pr_id r)) = pr_estimated_total r'))"

lemma update_redrafts:
  assumes "update_request org ms sc i data db = Inr (db', r')" "rates_ok ms"
  shows "\<exists>r. locked_request db i = Inr r \<and> redrafted db r r' db' \<and> pr_requested_by r = u_id (sc_user sc) \<and>
    same_stock db db'"
proof -
  from assms(1) obtain r and rt :: request_type and category :: "item_category option" and lab r1 db1 r2
    where locked: "(case row_of pr_id i (p_requests db) of None \<Rightarrow> Inl DoesNotExist | Some r \<Rightarrow> Inr r) = Inr r"
    and mine: "pr_requested_by r = u_id (sc_user sc)"
    and st: "pr_status r \<in> editable_statuses"
    and hdr: "apply_header False rt data (r\<lparr>pr_request_type := rt_id rt,
         pr_category := map_option ic_id category, pr_nature := nature_for category rt,
         pr_laboratory := lab\<rparr>) = Inr r1"
    and "(case rd_lines data of None \<Rightarrow> Inr (db, r1)
         | Some raw \<Rightarrow> and_then (build_lines ms (pr_department r) raw) (\<lambda>ls. Inr (replace_lines r1 ls db))) = Inr (db1, r2)"
    and "Inr (proc_record_audit sc ''request.updated'' r2 [] (save_request r2 db1), r2) = (Inr (db', r') :: exn + _)"
    unfolding update_request_def and_then_eq_Inr ensure_eq_Inr split_paired_Ex prod.case
    by (elim exE conjE) (rule that, assumption+)
  then have db': "db' = proc_record_audit sc ''request.updated'' r' [] (save_request r' db1)"
    and lines: "(case rd_lines data of None \<Rightarrow> Inr (db, r1)
         | Some raw \<Rightarrow> and_then (build_lines ms (pr_department r) raw) (\<lambda>ls. Inr (replace_lines r1 ls db))) = Inr (db1, r')"
    by auto
  from locked have r: "locked_request db i = Inr r" by (simp add: locked_request_def)
  note id = locked_requestD [OF r] and keep = apply_header_keeps [OF hdr]
  have k1: "kept r r1" "pr_status r1 = pr_status r" "pr_approval_route r1 = pr_approval_route r"
    "pr_route_index r1 = pr_route_index r" "pr_estimated_total r1 = pr_estimated_total r"
    using keep by (auto simp: kept_def)
  have new: "p_requests db1 = p_requests db \<and> p_actions db1 = p_actions db \<and> same_stock db db1 \<and>
      (\<exists>t. r' = r1\<lparr>pr_estimated_total := t\<rparr>) \<and>
      (\<forall>j. j \<noteq> pr_id r \<longrightarrow> lines_of db1 j = lines_of db j) \<and> (lines_wf db \<longrightarrow> lines_wf db1) \<and>
      (lines_total (lines_of db (pr_id r)) = pr_estimated_total r \<longrightarrow>
        lines_total (lines_of db1 (pr_id r)) = pr_estimated_total r')"
  proof (cases "rd_lines data")
    case None
    with lines have db1: "db1 = db" "r' = r1" by simp_all
    have "\<exists>t. r1 = r1\<lparr>pr_estimated_total := t\<rparr>" by (rule exI [of _ "pr_estimated_total r1"]) simp
    then show ?thesis unfolding db1 using k1(5) by (intro conjI) (assumption | simp add: same_stock_def)+
  next
    case (Some raw)
    with lines obtain ls where ls: "build_lines ms (pr_department r) raw = Inr ls" "replace_lines r1 ls db = (db1, r')"
      by (auto simp: result_simps)
    have "lines_wf db \<Longrightarrow> lines_wf db1"
      by (rule replace_lines_wf [OF ls(2)]) (auto intro: build_lines_ok [OF ls(1) assms(2)])
    moreover have "same_stock db db1" using ls(2) by (auto simp: replace_lines_def same_stock_def)
    moreover have "pr_id r1 = pr_id r" using k1(1) by (simp add: kept_def)
    moreover note rep = replace_lines_of [OF ls(2)]
    moreover have "\<exists>t. r' = r1\<lparr>pr_estimated_total := t\<rparr>" using rep(3) by blast
    moreover have "lines_total (lines_of db1 (pr_id r)) = pr_estimated_total r'"
      using rep(6) \<open>pr_id r1 = pr_id r\<close> by (simp only:)
    moreover have "\<forall>j. j \<noteq> pr_id r \<longrightarrow> lines_of db1 j = lines_of db j"
      using rep(2) \<open>pr_id r1 = pr_id r\<close> by (simp only:) blast
    ultimately show ?thesis by blast
  qed
  have same: "p_requests db' = update_row pr_id (pr_id r') (\<lambda>_. r') (p_requests db1)" "p_actions db' = p_actions db1"
    "p_lines db' = p_lines db1" "same_stock db1 db'"
    by (auto simp: db' proc_record_audit_def save_request_def same_stock_def)
  then have "lines_of db' j = lines_of db1 j" "lines_wf db' = lines_wf db1" for j
    by (simp_all add: lines_of_def lines_wf_def)
  moreover from new obtain t where t: "r' = r1\<lparr>pr_estimated_total := t\<rparr>" by blast
  then have kept: "kept r r'" "pr_status r' = pr_status r" "pr_approval_route r' = pr_approval_route r"
    "pr_route_index r' = pr_route_index r"
    using k1 by (simp_all add: kept_def)
  moreover have "pr_id r' = pr_id r" using kept(1) by (simp add: kept_def)
  ultimately have "redrafted db r r' db'"
    using new same conjunct1 [OF id] conjunct2 [OF id] st unfolding redrafted_def by simp
  moreover have "same_stock db db'" using new same(4) unfolding same_stock_def by simp
  ultimately show ?thesis using r mine by blast
qed

text \<open>Drafting keeps the invariant of the tables.\<close>

lemma request_ok_blank:
  assumes "pr_status r = RS_DRAFT" "pr_approval_route r = []" "pr_route_index r = 0"
    "pr_estimated_total r = lines_total ls" "0 \<le> pr_estimated_total r"
  shows "request_ok [] ls r"
  using assms by (simp add: request_ok_def legal_route_def passed_def logged_status_def phase_ok_def)

lemma drafted_wf:
  assumes d: "drafted db r db'" and wf: "proc_wf db"
  shows "proc_wf db'"
proof -
  have r: "pr_status r = RS_DRAFT" "pr_id r \<notin> pr_id ` set (p_requests db)" "p_requests db' = p_requests db @ [r]"
    "p_actions db' = p_actions db" "pr_approval_route r = []" "pr_route_index r = 0"
    "pr_estimated_total r = lines_total (lines_of db' (pr_id r))" "lines_wf db'"
    and lines: "\<And>i. i \<noteq> pr_id r \<Longrightarrow> lines_of db' i = lines_of db i"
    using d wf by (auto simp: drafted_def proc_wf_def)
  have hist: "history db' i = history db i" for i by (simp add: history_def r)
  have "aa_request a \<noteq> pr_id r" if "a \<in> set (p_actions db)" for a
    using wf r(2) that unfolding proc_wf_def by metis
  then have "history db (pr_id r) = []" by (simp add: history_def filter_empty_conv)
  moreover have "request_ok [] (lines_of db' (pr_id r)) r"
    using r lines_total_nonneg [OF r(8), of "pr_id r"] by (intro request_ok_blank) simp_all
  moreover have "request_ok (history db (pr_id q)) (lines_of db' (pr_id q)) q" "\<forall>a\<in>set (history db (pr_id q)). four_eyes q a"
    if "q \<in> set (p_requests db)" for q
  proof -
    have "pr_id q \<noteq> pr_id r" using that r(2) by (metis image_eqI)
    with that wf lines [of "pr_id q"] show "request_ok (history db (pr_id q)) (lines_of db' (pr_id q)) q"
      "\<forall>a\<in>set (history db (pr_id q)). four_eyes q a"
      unfolding proc_wf_def by simp_all
  qed
  moreover have "unique_keys pr_id (p_requests db')"
    using wf r(2,3) by (simp add: proc_wf_def unique_keys_append)
  ultimately show ?thesis
    using wf r(3,4,8) by (auto simp: proc_wf_def hist)
qed

lemma redrafted_wf:
  assumes d: "redrafted db r r' db'" and wf: "proc_wf db"
  shows "proc_wf db'"
proof -
  have r: "row_of pr_id (pr_id r) (p_requests db) = Some r" "pr_status r \<in> editable_statuses" "kept r r'"
    "pr_status r' = pr_status r" "pr_approval_route r' = pr_approval_route r" "pr_route_index r' = pr_route_index r"
    "p_requests db' = update_row pr_id (pr_id r) (\<lambda>_. r') (p_requests db)" "p_actions db' = p_actions db" "lines_wf db'"
    and lines: "\<And>i. i \<noteq> pr_id r \<Longrightarrow> lines_of db' i = lines_of db i"
    and total: "lines_total (lines_of db (pr_id r)) = pr_estimated_total r \<Longrightarrow>
        lines_total (lines_of db' (pr_id r)) = pr_estimated_total r'"
    using d wf by (auto simp: redrafted_def proc_wf_def)
  have mem: "r \<in> set (p_requests db)" using row_of_SomeD [OF r(1)] by simp
  have same: "pr_id r' = pr_id r" "pr_requested_by r' = pr_requested_by r" using r(3) by (simp_all add: kept_def)
  have keys: "unique_keys pr_id (p_requests db)" using wf by (simp add: proc_wf_def)
  from update_row_const [OF keys mem, of r'] obtain xs ys where
    split: "p_requests db = xs @ r # ys" "p_requests db' = xs @ r' # ys"
    unfolding r(7) by blast
  have hist: "history db' i = history db i" for i by (simp add: history_def r)
  have old: "request_ok (history db (pr_id r)) (lines_of db (pr_id r)) r" using wf mem by (simp add: proc_wf_def)
  with total lines_total_nonneg [OF r(9), of "pr_id r"] r(2,4-6)
  have new: "request_ok (history db (pr_id r)) (lines_of db' (pr_id r)) r'"
    by (auto simp: request_ok_def editable_statuses_def phase_ok_def)
  have others: "pr_id q \<noteq> pr_id r" if "q \<in> set xs \<union> set ys" for q
    using keys that unfolding unique_keys_def split(1) by (auto simp: image_iff)
  have "request_ok (history db' (pr_id q)) (lines_of db' (pr_id q)) q \<and> (\<forall>a\<in>set (history db' (pr_id q)). four_eyes q a)"
    if "q \<in> set (p_requests db')" for q
  proof (cases "q = r'")
    case True
    with new wf mem show ?thesis by (auto simp: hist same proc_wf_def four_eyes_def)
  next
    case False
    with that have "q \<in> set xs \<union> set ys" by (auto simp: split(2))
    then show ?thesis using others [of q] wf lines [of "pr_id q"] by (auto simp: hist split(1) proc_wf_def)
  qed
  moreover have "map pr_id (p_requests db') = map pr_id (p_requests db)" by (simp add: split same)
  then have "unique_keys pr_id (p_requests db')" "pr_id ` set (p_requests db') = pr_id ` set (p_requests db)"
    using keys by (simp add: unique_keys_def, metis list.set_map)
  ultimately show ?thesis using wf r(8,9) by (auto simp: proc_wf_def)
qed

subsection \<open>Runs of the module\<close>

text \<open>
  One step is one operation of the module that succeeds, with any person, configuration, master
  data and time; an operation that raises changes nothing.
\<close>

inductive proc_step :: "'z proc_db_scheme \<Rightarrow> 'z proc_db_scheme \<Rightarrow> bool" where
  Create: "create_request org (ms :: proc_masters) sc fy data db = Inr (db', r) \<Longrightarrow> rates_ok ms \<Longrightarrow> proc_step db db'"
| Update: "update_request org (ms :: proc_masters) sc i data db = Inr (db', r) \<Longrightarrow> rates_ok ms \<Longrightarrow> proc_step db db'"
| Submit: "submit now today org (ms :: proc_masters) sc i comments db = Inr (db', r) \<Longrightarrow> proc_step db db'"
| Approve: "approve now org sc i comments amount db = Inr (db', r) \<Longrightarrow> proc_step db db'"
| Reject: "reject now org sc i reason db = Inr (db', r) \<Longrightarrow> proc_step db db'"
| Hold: "hold now org sc i reason db = Inr (db', r) \<Longrightarrow> proc_step db db'"
| Resume: "resume now org sc i comments db = Inr (db', r) \<Longrightarrow> proc_step db db'"
| Cancel: "cancel now org sc i reason db = Inr (db', r) \<Longrightarrow> proc_step db db'"
| Review: "stores_review now today (fy_label year month) org (ms :: proc_masters) sc i decision raws comments db
    = Inr (db', r) \<Longrightarrow> proc_step db db'"
| Edit: "edit_lines now today org (ms :: proc_masters) sc i edits comments db = Inr (db', r) \<Longrightarrow> rates_ok ms \<Longrightarrow>
    proc_step db db'"
| Issue: "issue now today (fy_label year month) org (ms :: masters) sc i comments db = Inr (db', r) \<Longrightarrow> proc_step db db'"
| On_Paper: "offline_hod_decision now today org sc i decision upload name date comments amount db = Inr (db', r) \<Longrightarrow>
    proc_step db db'"

inductive_cases proc_stepE: "proc_step db db'"

text \<open>Every step is a draft, an edit of a draft, or one decision by the person who acts.\<close>

lemma proc_step_cases:
  assumes "proc_step db db'" "proc_wf db"
  shows "db' = db \<or> (\<exists>r. drafted db r db') \<or> (\<exists>r r'. redrafted db r r' db') \<or> (\<exists>r a r'. turned r a r' db db')"
    and "stock_wf db \<Longrightarrow> stock_wf db'"
proof -
  have dec: "\<exists>r a r'. turned r a r' db db'" if "by_decision sc i r' db db'" for sc i r'
    using that by (auto simp: by_decision_def)
  have both: "(db' = db \<or> (\<exists>r. drafted db r db') \<or> (\<exists>r r'. redrafted db r r' db') \<or> (\<exists>r a r'. turned r a r' db db')) \<and>
      (stock_wf db \<longrightarrow> stock_wf db')"
    if "by_decision sc i r' db db' \<and> (same_stock db db' \<or> (stock_wf db \<longrightarrow> stock_wf db'))" for sc i r'
    using that dec same_stock_wf by blast
  have "(db' = db \<or> (\<exists>r. drafted db r db') \<or> (\<exists>r r'. redrafted db r r' db') \<or> (\<exists>r a r'. turned r a r' db db')) \<and>
      (stock_wf db \<longrightarrow> stock_wf db')"
    using assms(1)
  proof (rule proc_stepE)
    fix org and ms :: proc_masters and sc fy data r
    assume "create_request org ms sc fy data db = Inr (db', r)" "rates_ok ms"
    from create_drafts [OF this] show ?thesis using only_numbers_wf by blast
  next
    fix org and ms :: proc_masters and sc i data r
    assume "update_request org ms sc i data db = Inr (db', r)" "rates_ok ms"
    from update_redrafts [OF this] show ?thesis using same_stock_wf by blast
  next
    fix now today org and ms :: proc_masters and sc i edits comments r
    assume "edit_lines now today org ms sc i edits comments db = Inr (db', r)" "rates_ok ms"
    from edit_lines_decides [OF this(1) assms(2) this(2)] show ?thesis using dec same_stock_wf by blast
  next
    fix now today year month org and ms :: masters and sc i comments r
    assume "issue now today (fy_label year month) org ms sc i comments db = Inr (db', r)"
    then show ?thesis
    proof (rule issue_decides [OF _ assms(2)])
      fix db1 q txs
      assume "by_decision sc i r db db'" "same_stock db1 db'"
        "issue_lines today (fy_label year month) ms sc q (open_quantities (lines_of db i)) db = Inr (db1, txs)"
      note run = this
      have "stock_wf db \<Longrightarrow> stock_wf db'"
        by (rule same_stock_wf [OF run(2)], rule issue_lines_result(4) [OF run(3)])
      with dec [OF run(1)] show ?thesis by blast
    qed
  qed (rule both; blast dest: submit_decides approve_decides [OF _ assms(2)] reject_decides hold_decides
      resume_decides cancel_decides stores_review_decides [OF _ assms(2)] offline_decides [OF _ assms(2)])+
  then show "db' = db \<or> (\<exists>r. drafted db r db') \<or> (\<exists>r r'. redrafted db r r' db') \<or> (\<exists>r a r'. turned r a r' db db')"
    "stock_wf db \<Longrightarrow> stock_wf db'" by blast+
qed

definition module_wf :: "'z proc_db_scheme \<Rightarrow> bool" where
  "module_wf db = (proc_wf db \<and> stock_wf db)"

lemma proc_step_wf:
  assumes "proc_step db db'" "module_wf db"
  shows "module_wf db'"
  using proc_step_cases [OF assms(1)] assms(2) drafted_wf redrafted_wf turned_wf unfolding module_wf_def by blast

interpretation proc_machine: machine proc_step module_wf
  by unfold_locales (rule proc_step_wf)

end
