(* ===== verification/Proc_Promises.thy ===== *)
theory Proc_Promises
  imports Proc_Books
begin

text \<open>
  The promises of the header of \<^verbatim>\<open>workflow.py\<close>, as properties of all runs of the module: nobody
  decides on an own request, an approved request has passed its whole route, the log of decisions
  tells where a request stands, finished requests stay as they are. Then what single operations
  promise, and a run that the witnesses evaluate.
\<close>

subsection \<open>Runs\<close>

lemma wf_row:
  assumes "module_wf db" "r \<in> set (p_requests db)"
  shows "request_ok (history db (pr_id r)) (lines_of db (pr_id r)) r"
    "a \<in> set (history db (pr_id r)) \<Longrightarrow> four_eyes r a"
  using assms by (auto simp: module_wf_def proc_wf_def)

text \<open>
  C15: nobody decides alone. Along every run of the module, whoever acts and whatever the roles
  are at each moment, the person who requested a request has never acted at its OIC, stores,
  accounts or HOD stage: neither approved nor rejected, held, resumed, reviewed or issued it.
\<close>

theorem nobody_decides_alone:
  assumes "proc_step\<^sup>*\<^sup>* db db'" "module_wf db"
    and "r \<in> set (p_requests db')" "a \<in> set (p_actions db')" "aa_request a = pr_id r"
    and "aa_stage a \<in> {S_OIC, S_STORES, S_ACCOUNTS, S_HOD}"
  shows "aa_actor a \<noteq> pr_requested_by r"
proof -
  have "a \<in> set (history db' (pr_id r))" using assms(4,5) by (simp add: history_def)
  with wf_row(2) [OF proc_machine.run_inv [OF assms(1,2)] assms(3)] assms(6) show ?thesis
    by (auto simp: four_eyes_def approval_stages_def)
qed


lemma decided_keeps_row:
  assumes "turned q a q' db db'" "unique_keys pr_id (p_requests db)" "row_of pr_id i (p_requests db) = Some r"
  shows "row_of pr_id i (p_requests db') = Some (if i = pr_id q then q' else r)"
    "history db' i = history db i @ (if i = pr_id q then [a] else [])" "i = pr_id q \<Longrightarrow> r = q"
proof -
  have t: "row_of pr_id (pr_id q) (p_requests db) = Some q" "aa_request a = pr_id q" "pr_id q' = pr_id q"
    "p_requests db' = update_row pr_id (pr_id q) (\<lambda>_. q') (p_requests db)" "p_actions db' = p_actions db @ [a]"
    using assms(1) by (auto simp: turned_def decided_def)
  have "row_of pr_id i (update_row pr_id (pr_id q) (\<lambda>_. q') rows) =
      (if i = pr_id q then map_option (\<lambda>_. q') (row_of pr_id i rows) else row_of pr_id i rows)" for rows
    by (induction rows) (auto simp: t(3))
  with t assms(3) show "row_of pr_id i (p_requests db') = Some (if i = pr_id q then q' else r)" by simp
  show "history db' i = history db i @ (if i = pr_id q then [a] else [])" by (simp add: history_def t)
  show "i = pr_id q \<Longrightarrow> r = q" using t(1) assms(3) by simp
qed

text \<open>
  C17: the workflow refines the abstract life cycle. A step of the module leaves a stored request
  and its log alone, or edits the contents of a draft or of a request that was sent back, or is
  exactly one decision of the life cycle on it, which is the one appended to its log.
\<close>

theorem workflow_refines_lifecycle:
  assumes "proc_step db db'" "module_wf db" "locked_request db i = Inr r"
  shows "\<exists>r'. locked_request db' i = Inr r' \<and>
    (r' = r \<and> history db' i = history db i \<or>
     pr_status r \<in> {RS_DRAFT, RS_REJECTED} \<and> pr_status r' = pr_status r \<and> kept r r' \<and>
       history db' i = history db i \<or>
     (\<exists>a. decided r a r' \<and> history db' i = history db i @ [a]))"
proof -
  have wf: "proc_wf db" using assms(2) by (simp add: module_wf_def)
  then have keys: "unique_keys pr_id (p_requests db)" by (simp add: proc_wf_def)
  from assms(3) have r: "row_of pr_id i (p_requests db) = Some r"
    by (auto simp: locked_request_def split: option.splits)
  have lock: "locked_request db' i = Inr q" if "row_of pr_id i (p_requests db') = Some q" for q
    using that by (simp add: locked_request_def)
  from proc_step_cases(1) [OF assms(1) wf] consider "db' = db" | q where "drafted db q db'"
    | q q' where "redrafted db q q' db'" | q a q' where "turned q a q' db db'" by blast
  then show ?thesis
  proof cases
    case 1
    with assms(3) show ?thesis by simp
  next
    case (2 q)
    then have "row_of pr_id i (p_requests db') = Some r" "history db' i = history db i"
      using r by (auto simp: drafted_def row_of_append history_def)
    then show ?thesis using lock by blast
  next
    case (3 q q')
    then have q: "row_of pr_id (pr_id q) (p_requests db) = Some q" "pr_status q \<in> {RS_DRAFT, RS_REJECTED}"
      "kept q q'" "pr_status q' = pr_status q" "p_requests db' = update_row pr_id (pr_id q) (\<lambda>_. q') (p_requests db)"
      "history db' i = history db i"
      by (auto simp: redrafted_def editable_statuses_def history_def)
    have "row_of pr_id i (update_row pr_id (pr_id q) (\<lambda>_. q') rows) =
      (if i = pr_id q then map_option (\<lambda>_. q') (row_of pr_id i rows) else row_of pr_id i rows)" for rows
      using q(3) by (induction rows) (auto simp: kept_def)
    with q r have "row_of pr_id i (p_requests db') = Some (if i = pr_id q then q' else r)" by simp
    then show ?thesis using lock q r by (cases "i = pr_id q") auto
  next
    case (4 q a q')
    note keep = decided_keeps_row [OF 4 keys r]
    have "decided q a q'" using 4 by (simp add: turned_def)
    then show ?thesis using lock [OF keep(1)] keep(2,3) by (cases "i = pr_id q") auto
  qed
qed

lemma decided_not_final: "decided r a r' \<Longrightarrow> pr_status r \<notin> terminal_statuses"
  by (auto simp: decided_def terminal_statuses_def current_stage_Some pending_statuses_def cancellable_def
      elim!: lifecycleE)


subsection \<open>What is issued\<close>

lemma post_all_posts:
  assumes "post_all sc today fy mvs db = Inr (db', txs)"
  shows "map (\<lambda>t. (st_type t, st_key t, st_quantity t)) txs =
    map (\<lambda>mv. (mv_type mv, movement_key mv, mv_quantity mv)) mvs"
  using assms
proof (induction mvs arbitrary: db txs)
  case (Cons mv mvs)
  then obtain db1 tx txs1 where post: "post sc today fy mv db = Inr (db1, tx)"
    and rest: "post_all sc today fy mvs db1 = Inr (db', txs1)" "txs = tx # txs1"
    by (auto simp: result_simps)
  have "st_type tx = mv_type mv \<and> st_key tx = movement_key mv \<and> st_quantity tx = mv_quantity mv"
    by (rule post_result [OF post]) simp
  with Cons.IH [OF rest(1)] rest(2) show ?case by simp
qed simp

lemma open_quantities_line:
  assumes "distinct (map ln_id ls)" "l \<in> set ls"
  shows "open_quantities ls (ln_id l) =
    (if ln_issued_quantity l < ln_quantity l then Some (open_quantity l) else None)"
proof -
  have "find (\<lambda>m. ln_id m = ln_id l \<and> ln_issued_quantity m < ln_quantity m) ls =
      (if ln_issued_quantity l < ln_quantity l then Some l else None)"
    using assms by (induction ls) (auto simp: find_None_iff image_iff)
  then show ?thesis by (simp add: open_quantities_def)
qed

text \<open>
  C19: the final issue empties the request. When the stores issue a request that was found in
  stock, the request ends as issued, every line of it is issued in full, and the ledger grows by
  exactly one issue out of the central store for each line of a stocked item that was still
  open, of the quantity that was still open.
\<close>

theorem issue_empties_request:
  assumes "issue now today (fy_label year month) org (ms :: masters) sc i comments db = Inr (db', r')" "module_wf db"
  shows "pr_status r' = RS_ISSUED \<and> locked_request db' i = Inr r' \<and>
    list_all (\<lambda>l. ln_issued_quantity l = ln_quantity l) (lines_of db' i) \<and>
    (\<exists>txs. sk_txs db' = sk_txs db @ txs \<and> map (\<lambda>t. (st_type t, st_key t, st_quantity t)) txs =
       map (\<lambda>l. (T_ISSUE, (pr_department r', None, it_id (the (item_of ms l))), open_quantity l))
         (filter (\<lambda>l. 0 < open_quantity l \<and> tracks (item_of ms l)) (lines_of db i)))"
proof -
  let ?q = "open_quantities (lines_of db i)"
  have wf: "proc_wf db" using assms(2) by (simp add: module_wf_def)
  note lwf = proc_wf_lines [OF wf]
  note dist = lines_of_distinct [OF lwf, of i]
  obtain db1 r txs where dec: "by_decision sc i r' db db'" and same: "same_stock db1 db'" "p_lines db' = p_lines db1"
    and r: "locked_request db i = Inr r" and run: "issue_lines today (fy_label year month) ms sc r ?q db = Inr (db1, txs)"
    using issue_decides [OF assms(1) wf] by blast
  have id: "pr_id r = i" using locked_requestD [OF r] by simp
  from dec r obtain a where t: "turned r a r' db db'" by (auto simp: by_decision_def)
  have status: "pr_status r' = RS_ISSUED"
    using assms(1) by (auto simp: issue_def result_simps act_def Let_def split: if_splits)
  have locked: "locked_request db' i = Inr r'"
    using decided_keeps_row(1) [OF t, of i r] t wf id by (simp add: turned_def proc_wf_def locked_request_def)
  have dept: "pr_department r' = pr_department r" using t by (simp add: turned_def decided_def)
  have open_iff: "to_issue ?q l \<longleftrightarrow> 0 < open_quantity l" "0 < open_quantity l \<Longrightarrow> the (?q (ln_id l)) = open_quantity l"
    if "l \<in> set (lines_of db i)" for l
    using that open_quantities_line [OF dist that] by (auto simp: to_issue_def open_quantity_def)
  have lines: "lines_of db' i = map (issued_line i ?q) (lines_of db i)"
    using issued_lines_of [of db1 i ?q db i] issue_lines_result(3) [OF run] same(2) id
    by (simp add: lines_of_def)
  have full: "ln_issued_quantity (issued_line i ?q l) = ln_quantity l" if "l \<in> set (lines_of db i)" for l
  proof -
    have "line_ok l" "ln_request l = i" using that lwf by (auto simp: lines_of_def lines_wf_def)
    with open_iff [OF that] show ?thesis
      by (cases "0 < open_quantity l") (auto simp: issued_line_def open_quantity_def line_ok_def)
  qed
  have opened: "filter (to_issue ?q) (lines_of db i) = filter (\<lambda>l. 0 < open_quantity l) (lines_of db i)"
    using open_iff by (intro filter_cong) auto
  let ?mvs = "map (\<lambda>(it, q). (plain_movement (pr_department r) (the it) T_ISSUE q ''PurchaseRequest'' (pr_number r)
         (''Issued against '' @ pr_number r))\<lparr>mv_purchase_request := Some i, mv_issued_to := Some (pr_requested_by r)\<rparr>)
       (filter (\<lambda>(it, q). tracks it) (map (\<lambda>l. (item_of ms l, the (?q (ln_id l)))) (filter (to_issue ?q) (lines_of db i))))"
  obtain dbx where post: "post_all sc today (fy_label year month) ?mvs dbx = Inr (db1, txs)"
    using run unfolding issue_lines_def Let_def issue_for_request_def id by blast
  have "map (\<lambda>mv. (mv_type mv, movement_key mv, mv_quantity mv)) ?mvs =
      map (\<lambda>l. (T_ISSUE, (pr_department r, None, it_id (the (item_of ms l))), open_quantity l))
         (filter (\<lambda>l. 0 < open_quantity l \<and> tracks (item_of ms l)) (lines_of db i))"
  proof -
    have "map (\<lambda>mv. (mv_type mv, movement_key mv, mv_quantity mv)) (map (\<lambda>(it, q). (plain_movement d (the it) T_ISSUE q a b
         c)\<lparr>mv_purchase_request := e, mv_issued_to := f\<rparr>)
       (filter (\<lambda>(it, q). tracks it) (map (\<lambda>l. (item_of ms l, the (?q (ln_id l)))) ls))) =
      map (\<lambda>l. (T_ISSUE, (d, None, it_id (the (item_of ms l))), the (?q (ln_id l))))
         (filter (\<lambda>l. tracks (item_of ms l)) ls)" for d a b c e f ls
      by (induction ls) (simp_all add: plain_movement_def movement_key_def)
    then show ?thesis
      unfolding opened by (simp add: filter_filter conj_commute open_iff)
  qed
  moreover have "sk_txs db' = sk_txs db @ txs"
    using issue_lines_result(5) [OF run] same(1) by (auto simp: same_stock_def)
  ultimately show ?thesis
    using status locked full post_all_posts [OF post] by (auto simp: lines list_all_iff dept)
qed

subsection \<open>What the screen offers\<close>

lemma isl_ensure: "isl (and_then (ensure b e) f) \<longleftrightarrow> \<not> b \<or> isl (f ())"
  by (cases b) simp_all

text \<open>
  C20: the screen offers what works. For a stored request, the buttons for approving, rejecting,
  holding, resuming and cancelling are offered exactly when the operation behind them, started by
  the same person at that moment, succeeds.
\<close>

theorem screen_offers_what_works:
  fixes org ms sc r
  assumes "module_wf db" "locked_request db i = Inr r"
  defines "offered \<equiv> set (available_actions org ms sc r)"
  shows "(U_Approve \<in> offered \<longleftrightarrow> \<not> isl (approve now org sc i comments None db)) \<and>
    (U_Reject \<in> offered \<longleftrightarrow> \<not> isl (reject now org sc i comments db)) \<and>
    (U_Hold \<in> offered \<longleftrightarrow> \<not> isl (hold now org sc i comments db)) \<and>
    (U_Resume \<in> offered \<longleftrightarrow> \<not> isl (resume now org sc i comments db)) \<and>
    (U_Cancel \<in> offered \<longleftrightarrow> \<not> isl (cancel now org sc i comments db))"
proof -
  have "request_ok (history db i) (lines_of db i) r"
    using assms(1,2) by (intro wf_request(1)) (simp_all add: module_wf_def)
  then have held: "pr_held_from_status r \<noteq> None" if "pr_status r = RS_ON_HOLD"
    using that by (auto simp: request_ok_def phase_ok_def Let_def)
  show ?thesis
  proof (cases "require_config org (pr_department r)")
    case (Inl e)
    then have "offered = {}"
      by (auto simp: offered_def available_actions_def require_config_def split: option.splits if_splits)
    with Inl show ?thesis
      by (simp add: approve_def reject_def hold_def resume_def cancel_def at_stage_def assms(2))
  next
    case (Inr cfg)
    then have cfg: "get_config org (pr_department r) = Some cfg" "cfg_module_enabled cfg"
      by (auto simp: require_config_def split: option.splits if_splits)
    define acts where "acts s = (case s of Some st \<Rightarrow> can_act_on_stage sc cfg r st | None \<Rightarrow> False)" for s
    have "u_id (sc_user sc) \<noteq> pr_requested_by r" if "acts s" for s
      using that by (auto simp: acts_def can_act_on_stage_def split: option.splits)
    then have req: "require_stage sc cfg r s = Inr () \<longleftrightarrow> acts s" for s
      by (auto simp: require_stage_def acts_def result_simps)
    have stage: "isl (require_stage sc cfg r s) \<longleftrightarrow> \<not> acts s" for s
      using req [of s] by (cases "require_stage sc cfg r s") auto
    have none: "\<not> acts None" by (simp add: acts_def)
    have at: "isl (at_stage org sc i db) \<longleftrightarrow> \<not> acts (current_stage r)"
      using stage [of "current_stage r"] none
      by (cases "current_stage r"; cases "require_stage sc cfg r (current_stage r)")
        (auto simp: at_stage_def assms(2) Inr ensure_def)
    have "U_Approve \<in> offered \<longleftrightarrow> acts (current_stage r)" "U_Reject \<in> offered \<longleftrightarrow> acts (current_stage r)"
      "U_Hold \<in> offered \<longleftrightarrow> acts (current_stage r)"
      "U_Resume \<in> offered \<longleftrightarrow> pr_status r = RS_ON_HOLD \<and> acts (held_stage r)"
      "U_Cancel \<in> offered \<longleftrightarrow> pr_status r \<in> cancellable \<and>
         (pr_requested_by r = u_id (sc_user sc) \<or> has_role sc (pr_department r) R_MAIN_ADMIN)"
      by (auto simp: offered_def available_actions_def cfg Let_def acts_def)
    moreover have "isl (approve now org sc i comments None db) \<longleftrightarrow> isl (at_stage org sc i db)"
      "isl (reject now org sc i comments db) \<longleftrightarrow> isl (at_stage org sc i db)"
      "isl (hold now org sc i comments db) \<longleftrightarrow> isl (at_stage org sc i db)"
      by (cases "at_stage org sc i db"; auto simp: approve_def reject_def hold_def check_amount_def)+
    moreover have "isl (resume now org sc i comments db) \<longleftrightarrow> \<not> (pr_status r = RS_ON_HOLD \<and> acts (held_stage r))"
      using held stage [of "held_stage r"]
      by (cases "require_stage sc cfg r (held_stage r)") (auto simp: resume_def assms(2) Inr ensure_def)
    moreover have "isl (cancel now org sc i comments db) \<longleftrightarrow> \<not> (pr_status r \<in> cancellable \<and>
         (pr_requested_by r = u_id (sc_user sc) \<or> has_role sc (pr_department r) R_MAIN_ADMIN))"
      by (auto simp: cancel_def assms(2) Inr Let_def ensure_def)
    ultimately show ?thesis by (simp add: at)
  qed
qed

subsection \<open>What the stores do to the approved amount\<close>

text \<open>
  A partial issue sets the amount. When the stores issue a part, the approved amount becomes
  the value of what is still open, whatever amount the officer in charge had approved before.
\<close>

theorem partial_issue_sets_amount:
  assumes "stores_review now today fy org ms sc i D_Partial raws comments db = Inr (db', r')"
  shows "pr_approved_amount r' = Some (remaining_total (lines_of db' i))"
proof -
  obtain r rs where r: "locked_request db i = Inr r"
    and issue: "issue_partially now today fy ms sc r rs comments db = Inr (db', r')"
    using assms by (auto simp: stores_review_def result_simps)
  obtain db1 where act: "advance now sc S_STORES A_STORES_PARTIAL comments None None
      (r\<lparr>pr_approved_amount := Some (remaining_total (lines_of db1 (pr_id r)))\<rparr>) db1 = (db', r')"
    using issue unfolding issue_partially_def Let_def and_then_eq_Inr by auto
  have amount: "pr_approved_amount (advanced now None (r\<lparr>pr_approved_amount := Some x\<rparr>)) = Some x" for x
    by (simp add: advanced_def Let_def)
  have "pr_approved_amount r' = Some (remaining_total (lines_of db1 (pr_id r))) \<and> p_lines db' = p_lines db1"
    by (rule act_result [OF act [unfolded advance_def]]) (simp add: amount)
  then show ?thesis using locked_requestD [OF r] by (simp add: lines_of_def)
qed

subsection \<open>A sample purchase\<close>

text \<open>
  A laboratory with an operator and an officer in charge, its masters, and the books after each
  step of one request: stock opened, drafted, submitted, approved with a smaller amount, found
  in stock.
\<close>

definition lab_operator :: user where
  "lab_operator = stores_officer\<lparr>u_id := 5, u_name := ''Sen'', u_type := Some OPERATOR\<rparr>"

definition equipment_oic :: user where
  "equipment_oic = stores_officer\<lparr>u_id := 6, u_name := ''Das'', u_type := Some MANAGER\<rparr>"

definition stores_role :: role_assignment where
  "stores_role = \<lparr>ra_id = 1, ra_department = 7, ra_user = 4, ra_role = R_OC_STORES,
     ra_permissions = [], ra_equipment_ids = [], ra_active = True\<rparr>"

definition lab_org :: org where
  "lab_org = pilot_org\<lparr>o_users := [stores_officer, lab_operator, equipment_oic], o_roles := [stores_role],
     o_equipment := [\<lparr>eq_id = 21, eq_department = Some 7\<rparr>], o_managers := [(21, 6)], o_operators := [(21, 5)]\<rparr>"

definition plain_scope :: "user \<Rightarrow> scope" where
  "plain_scope u = \<lparr>sc_user = u, sc_enabled = [7], sc_blocked = False, sc_oic_equipment = [],
     sc_operator_equipment = [], sc_assignments = [], sc_incharge_equipment = [], sc_hod_departments = []\<rparr>"

definition operator_scope :: scope where
  "operator_scope = (plain_scope lab_operator)\<lparr>sc_operator_equipment := [(21, Some 7)]\<rparr>"

definition oic_scope :: scope where
  "oic_scope = (plain_scope equipment_oic)\<lparr>sc_oic_equipment := [(21, Some 7)]\<rparr>"

definition officer_scope :: scope where
  "officer_scope = (plain_scope stores_officer)\<lparr>sc_assignments := [stores_role]\<rparr>"

lemma purchase_scopes:
  "scope_for 0 100 lab_org lab_operator = operator_scope" "scope_for 0 100 lab_org equipment_oic = oic_scope"
  "scope_for 0 100 lab_org stores_officer = officer_scope"
  by code_simp+

definition consumables :: request_type where
  "consumables = \<lparr>rt_id = 2, rt_department = 7, rt_code = RT_CONSUMABLE, rt_default_nature = Some N_CONSUMABLE,
     rt_requires_oic = True, rt_requires_stores = True, rt_hod_rule = Hod_Never, rt_stores_issue_flow = True,
     rt_allow_small_purchase = True, rt_requires_specification = False, rt_active = True\<rparr>"

definition lab_masters :: proc_masters where
  "lab_masters = \<lparr>m_items = [gloves], m_laboratories = [], m_request_types = [consumables],
     m_categories = [it_category gloves]\<rparr>"

definition glove_request :: request_data where
  "glove_request = \<lparr>rd_equipment = Raw_Id 21, rd_laboratory = None, rd_department = Raw_Missing,
     rd_request_type_id = Some (Raw_Id 2), rd_request_type = None, rd_category = Some (Raw_Id 1),
     rd_title = Some ''Gloves'', rd_justification = Some ''Used up'', rd_specification = None,
     rd_required_by = None, rd_priority = None, rd_funding_type = None,
     rd_lines = Some (Lines [Some \<lparr>ld_item = Raw_Id 3, ld_description = [], ld_specification = [],
       ld_uom = [], ld_quantity = Finite 3, ld_unit_price = Finite 100, ld_gst = Finite 0\<rparr>])\<rparr>"

definition empty_books :: proc_db where
  "empty_books = \<lparr>sk_balances = [], sk_txs = [], sk_sequences = [], sk_alerts = [], sk_audit = [],
     p_requests = [], p_lines = [], p_actions = []\<rparr>"

definition noted :: "ident \<Rightarrow> string \<Rightarrow> proc_audit" where
  "noted u what = \<lparr>pa_actor = u, pa_action = what, pa_department = 7, pa_object = 1, pa_reason = []\<rparr>"

definition opening_tx :: stock_tx where
  "opening_tx = \<lparr>st_number = ''STK/26-27/00001'', st_key = (7, None, 3), st_type = T_OPENING,
     st_quantity = 8000, st_balance_after = 8000, st_unit_cost = None, st_date = 100,
     st_reference_type = ''Manual'', st_reference_number = [], st_purchase_request = None, st_invoice = None,
     st_issued_to = None, st_remarks = [], st_performed_by = 4, st_batch = [], st_expiry = None,
     st_reason_code = None, st_equipment = None\<rparr>"

definition stocked_books :: proc_db where
  "stocked_books = empty_books\<lparr>
     sk_balances := [\<lparr>sb_key = (7, None, 3), sb_quantity = 8000, sb_min_level = 0, sb_reorder_level = 0\<rparr>],
     sk_txs := [opening_tx], sk_sequences := [\<lparr>ns_prefix = ''STK'', ns_fy = ''26-27'', ns_last = 1\<rparr>],
     sk_audit := [noted 4 ''stock.opening'']\<rparr>"

definition glove_draft :: purchase_request where
  "glove_draft = blank_request\<lparr>pr_id := 1, pr_number := ''REQ/26-27/00001'', pr_department := 7,
     pr_equipment := Some 21, pr_request_type := 2, pr_category := Some 1, pr_nature := Some N_CONSUMABLE,
     pr_financial_year := ''26-27'', pr_title := ''Gloves'', pr_justification := ''Used up'',
     pr_requested_by := 5, pr_raised_as_role := R_LAB_OPERATOR, pr_estimated_total := 30000\<rparr>"

definition glove_line :: request_line where
  "glove_line = \<lparr>ln_id = 1, ln_request = 1, ln_item = Some 3, ln_description = ''Gloves'',
     ln_specification = [], ln_uom = ''Box'', ln_quantity = 3000, ln_unit_price = 10000, ln_gst_rate = 0,
     ln_line_total = 30000, ln_issued_quantity = 0, ln_fulfilment = FF_UNDECIDED, ln_store_note = [],
     ln_store_original = None, ln_added_by_stores = False\<rparr>"

definition drafted_books :: proc_db where
  "drafted_books = stocked_books\<lparr>sk_sequences := [\<lparr>ns_prefix = ''STK'', ns_fy = ''26-27'', ns_last = 1\<rparr>,
       \<lparr>ns_prefix = ''REQ'', ns_fy = ''26-27'', ns_last = 1\<rparr>],
     sk_audit := [noted 4 ''stock.opening'', noted 5 ''request.created''],
     p_requests := [glove_draft], p_lines := [glove_line]\<rparr>"

definition glove_submitted :: purchase_request where
  "glove_submitted = glove_draft\<lparr>pr_status := RS_PENDING_OIC, pr_approval_route := [S_OIC, S_STORES],
     pr_is_small_purchase := True, pr_submitted_at := Some 10, pr_stage_entered_at := Some 10\<rparr>"

definition step_row :: action_row where
  "step_row = \<lparr>aa_request = 1, aa_stage = S_REQUESTER, aa_action = A_SUBMIT, aa_from = RS_DRAFT,
     aa_to = RS_PENDING_OIC, aa_actor = 5, aa_actor_role = Some R_LAB_OPERATOR, aa_comments = [],
     aa_amount = None, aa_offline = None\<rparr>"

definition submitted_books :: proc_db where
  "submitted_books = drafted_books\<lparr>sk_audit := sk_audit drafted_books @ [noted 5 ''request.submit''],
     p_requests := [glove_submitted], p_actions := [step_row]\<rparr>"

definition glove_approved :: purchase_request where
  "glove_approved = glove_submitted\<lparr>pr_status := RS_PENDING_STORES, pr_route_index := 1,
     pr_approved_amount := Some 10000, pr_stage_entered_at := Some 20\<rparr>"

definition approved_books :: proc_db where
  "approved_books = submitted_books\<lparr>sk_audit := sk_audit submitted_books @ [noted 6 ''request.approve''],
     p_requests := [glove_approved],
     p_actions := [step_row, step_row\<lparr>aa_stage := S_OIC, aa_action := A_APPROVE, aa_from := RS_PENDING_OIC,
       aa_to := RS_PENDING_STORES, aa_actor := 6, aa_actor_role := Some R_OIC, aa_amount := Some 10000\<rparr>]\<rparr>"

definition glove_available :: purchase_request where
  "glove_available = glove_approved\<lparr>pr_status := RS_STORES_AVAILABLE, pr_stage_entered_at := Some 30\<rparr>"

definition available_books :: proc_db where
  "available_books = approved_books\<lparr>sk_audit := sk_audit approved_books @ [noted 4 ''request.stores_available''],
     p_requests := [glove_available],
     p_actions := p_actions approved_books @ [step_row\<lparr>aa_stage := S_STORES, aa_action := A_STORES_AVAILABLE,
       aa_from := RS_PENDING_STORES, aa_to := RS_STORES_AVAILABLE, aa_actor := 4,
       aa_actor_role := Some R_OC_STORES\<rparr>]\<rparr>"

lemma purchase_opening:
  "manual_entry lab_org \<lparr>m_items = [gloves], m_laboratories = []\<rparr> officer_scope 100 (fy_label 26 5) 7 opening_entry empty_books =
     Inr (stocked_books, opening_tx)"
  by code_simp

text \<open>The bounds on texts are large numbers, which \<open>code_simp\<close> would count down from.\<close>

lemma purchase_header:
  "apply_header True consumables glove_request r = Inr (r\<lparr>pr_title := ''Gloves'', pr_justification := ''Used up'',
     pr_required_by := pr_required_by r, pr_priority := PR_NORMAL, pr_funding_type := F_OTHER\<rparr>)"
proof -
  have "strip ''Gloves'' = ''Gloves''" "strip ''Used up'' = ''Used up''" by code_simp+
  then show ?thesis
    by (simp add: apply_header_def glove_request_def header_text_def header_choice_def req_str_def choice_def
        default_funding_def consumables_def)
qed

lemma purchase_lines:
  "build_lines lab_masters 7 (the (rd_lines glove_request)) = Inr [glove_line\<lparr>ln_id := 0, ln_request := 0\<rparr>]"
proof -
  have "parse_qty (Finite 3) = Inr 3000" "parse_money True True (Finite 100) = Inr (Some 10000)"
    "parse_rate (Finite 0) = Inr 0" "line_total 3000 10000 0 = 30000" "strip ''Gloves'' = ''Gloves''"
    by code_simp+
  then show ?thesis
    by (simp add: build_lines_def glove_request_def build_line_def line_item_def lab_masters_def gloves_def
        parse_id_def glove_line_def line_gst_def)
qed

definition glove_fields :: purchase_request where
  "glove_fields = blank_request\<lparr>pr_department := 7, pr_laboratory := None, pr_equipment := Some 21,
     pr_request_type := 2, pr_category := Some 1, pr_nature := Some N_CONSUMABLE, pr_financial_year := ''26-27'',
     pr_requested_by := 5, pr_raised_as_role := R_LAB_OPERATOR, pr_title := ''Gloves'',
     pr_justification := ''Used up'', pr_priority := PR_NORMAL, pr_funding_type := F_OTHER\<rparr>"

lemma purchase_create:
  "create_request lab_org lab_masters operator_scope ''26-27'' glove_request db =
     Inr (store_request operator_scope ''26-27'' glove_fields [glove_line\<lparr>ln_id := 0, ln_request := 0\<rparr>] db)"
proof -
  let ?r = "blank_request\<lparr>pr_department := 7, pr_laboratory := None, pr_equipment := Some 21, pr_request_type := 2,
     pr_category := Some 1, pr_nature := Some N_CONSUMABLE, pr_financial_year := ''26-27'', pr_requested_by := 5,
     pr_raised_as_role := R_LAB_OPERATOR\<rparr>"
  have "lookup_equipment lab_org (rd_equipment glove_request) = Inr (Some \<lparr>eq_id = 21, eq_department = Some 7\<rparr>)"
    "lookup_laboratory lab_masters (given (rd_laboratory glove_request)) = Inr None"
    "resolve_department operator_scope (Some \<lparr>eq_id = 21, eq_department = Some 7\<rparr>) None
       (rd_department glove_request) = Inr 7"
    "require_config lab_org 7 = Inr pilot_config" "can_raise_for_equipment operator_scope 7 (Some 21)"
    "raising_role operator_scope 7 (Some 21) = Inr R_LAB_OPERATOR"
    "lookup_request_type lab_masters 7 glove_request = Inr consumables"
    "lookup_category lab_masters 7 (given (rd_category glove_request)) = Inr (Some (it_category gloves))"
    "check_features pilot_config consumables (Some N_CONSUMABLE) F_OTHER = Inr ()"
    by code_simp+
  moreover have "map_option eq_id (Some \<lparr>eq_id = 21, eq_department = Some 7\<rparr>) = Some 21"
    "nature_for (Some (it_category gloves)) consumables = Some N_CONSUMABLE" "rt_id consumables = 2"
    "u_id (sc_user operator_scope) = 5" "ic_id (it_category gloves) = 1"
    "(case rd_lines glove_request of None \<Rightarrow> Lines_Missing | Some l \<Rightarrow> l) = the (rd_lines glove_request)"
    by code_simp+
  moreover note purchase_header [of ?r] purchase_lines
  ultimately show ?thesis by (simp add: create_request_def glove_fields_def)
qed

lemma purchase_steps:
  "store_request operator_scope ''26-27'' glove_fields [glove_line\<lparr>ln_id := 0, ln_request := 0\<rparr>] stocked_books =
     (drafted_books, glove_draft)"
  "submit 10 100 lab_org lab_masters operator_scope 1 [] drafted_books = Inr (submitted_books, glove_submitted)"
  "approve 20 lab_org oic_scope 1 [] (Some 10000) submitted_books = Inr (approved_books, glove_approved)"
  "stores_review 30 100 (fy_label 26 5) lab_org lab_masters officer_scope 1 D_Available None [] approved_books =
     Inr (available_books, glove_available)"
  by code_simp+

lemma stocked_wf: "module_wf stocked_books"
proof -
  have opened: "stock_step empty_books stocked_books" using purchase_opening by (rule Manual)
  have "stock_wf empty_books"
    by (simp add: stock_wf_def empty_books_def ledger_ok_def numbers_ok_def stock_of_def balance_row_def
        stock_postings_def)
  then have "stock_wf stocked_books"
    using stock_machine.run_inv [OF stock_step_postings [OF opened]] by blast
  moreover have "proc_wf stocked_books" by code_simp
  ultimately show ?thesis by (simp add: module_wf_def)
qed

lemma purchase_rates: "rates_ok lab_masters"
  by code_simp

lemma purchase_run:
  "proc_step\<^sup>*\<^sup>* stocked_books approved_books" "proc_step\<^sup>*\<^sup>* approved_books available_books"
  "module_wf submitted_books" "module_wf approved_books" "module_wf available_books"
proof -
  have year: "fy_label 26 5 = ''26-27''" by code_simp
  have steps: "proc_step stocked_books drafted_books" "proc_step drafted_books submitted_books"
    "proc_step submitted_books approved_books" "proc_step approved_books available_books"
    using Create [OF purchase_create [of stocked_books, unfolded purchase_steps(1)] purchase_rates] Submit [OF purchase_steps(2)] Approve [OF purchase_steps(3)]
      Review [OF purchase_steps(4)] by blast+
  show run: "proc_step\<^sup>*\<^sup>* stocked_books approved_books" "proc_step\<^sup>*\<^sup>* approved_books available_books"
    using steps by (auto intro: converse_rtranclp_into_rtranclp)
  show "module_wf submitted_books" "module_wf approved_books" "module_wf available_books"
    using stocked_wf steps proc_machine.run_inv [OF r_into_rtranclp] by blast+
qed

theorem nobody_decides_alone_witness:
  "map aa_actor (p_actions available_books) = [5, 6, 4] \<and>
   aa_actor (p_actions available_books ! 1) \<noteq> pr_requested_by glove_available"
proof -
  have "p_requests available_books = [glove_available]"
    "length (p_actions available_books) = 3" "aa_request (p_actions available_books ! 1) = pr_id glove_available"
    "aa_stage (p_actions available_books ! 1) = S_OIC"
    "map aa_actor (p_actions available_books) = [5, 6, 4]"
    by code_simp+
  with nobody_decides_alone [OF rtranclp_trans [OF purchase_run(1,2)] stocked_wf, of glove_available
      "p_actions available_books ! 1"]
  show ?thesis by simp
qed


theorem workflow_refines_lifecycle_witness:
  "\<exists>a. decided glove_submitted a glove_approved \<and> history approved_books 1 = history submitted_books 1 @ [a]"
proof -
  have *: "locked_request submitted_books 1 = Inr glove_submitted" "locked_request approved_books 1 = Inr glove_approved"
    "pr_status glove_submitted = RS_PENDING_OIC" "glove_approved \<noteq> glove_submitted" by code_simp+
  from workflow_refines_lifecycle [OF Approve [OF purchase_steps(3)] purchase_run(3) *(1)] * show ?thesis by auto
qed

theorem issue_empties_request_witness:
  "\<exists>db' r'. issue 40 100 (fy_label 26 5) lab_org \<lparr>m_items = [gloves], m_laboratories = []\<rparr> officer_scope 1 []
       available_books = Inr (db', r') \<and>
     list_all (\<lambda>l. ln_issued_quantity l = ln_quantity l) (lines_of db' 1) \<and>
     map (\<lambda>t. (st_type t, st_quantity t)) (sk_txs db') = [(T_OPENING, 8000), (T_ISSUE, 3000)]"
proof -
  let ?ms = "\<lparr>m_items = [gloves], m_laboratories = []\<rparr>"
  let ?run = "issue 40 100 (fy_label 26 5) lab_org ?ms officer_scope 1 [] available_books"
  have "\<not> isl ?run" by code_simp
  from succeeded [OF this] obtain db' r' where run: "?run = Inr (db', r')" by blast
  have "map (\<lambda>l. (T_ISSUE, (pr_department r', None, it_id (the (item_of ?ms l))), open_quantity l))
       (filter (\<lambda>l. 0 < open_quantity l \<and> tracks (item_of ?ms l)) (lines_of available_books 1)) =
     [(T_ISSUE, (pr_department r', None, 3), 3000)]"
    by (simp add: available_books_def approved_books_def submitted_books_def drafted_books_def lines_of_def
        glove_line_def item_of_def gloves_def row_of_def tracks_def open_quantity_def)
  moreover have "map (\<lambda>t. (st_type t, st_quantity t)) (sk_txs available_books) = [(T_OPENING, 8000)]" by code_simp
  ultimately show ?thesis
    using issue_empties_request [OF run purchase_run(5)] run by auto
qed

theorem screen_offers_what_works_witness:
  "U_Approve \<in> set (available_actions lab_org lab_masters oic_scope glove_submitted) \<and>
   \<not> isl (approve 20 lab_org oic_scope 1 [] None submitted_books)"
proof -
  have "locked_request submitted_books 1 = Inr glove_submitted"
    "U_Approve \<in> set (available_actions lab_org lab_masters oic_scope glove_submitted)" by code_simp+
  with screen_offers_what_works [OF purchase_run(3) this(1), of lab_org lab_masters oic_scope 20 "[]"] show ?thesis
    by simp
qed

definition cancelled_books :: proc_db where
  "cancelled_books = fst (projr (cancel 20 lab_org operator_scope 1 [] submitted_books))"


theorem partial_issue_sets_amount_witness:
  "pr_approved_amount glove_approved = Some 10000 \<and>
   (\<exists>db' r'. stores_review 30 100 (fy_label 26 5) lab_org lab_masters officer_scope 1 D_Partial
       (Some [(Raw_Id 1, Finite 1)]) [] approved_books = Inr (db', r') \<and> pr_approved_amount r' = Some 20000)"
proof -
  let ?q = "(\<lambda>_. None)(1 := Some 1000) :: quantities"
  let ?run = "stores_review 30 100 (fy_label 26 5) lab_org lab_masters officer_scope 1 D_Partial
       (Some [(Raw_Id 1, Finite 1)]) [] approved_books"
  have "\<not> isl (issue_lines 100 (fy_label 26 5) lab_masters officer_scope glove_approved ?q approved_books)"
    by code_simp
  from succeeded [OF this] obtain db1 txs where
    issued: "issue_lines 100 (fy_label 26 5) lab_masters officer_scope glove_approved ?q approved_books = Inr (db1, txs)"
    by blast
  let ?next = "advance 30 officer_scope S_STORES A_STORES_PARTIAL [] None None
    (glove_approved\<lparr>pr_approved_amount := Some (remaining_total (lines_of db1 1))\<rparr>) db1"
  have "locked_request approved_books 1 = Inr glove_approved" "pr_department glove_approved = 7" "pr_id glove_approved = 1"
    "require_config lab_org 7 = Inr pilot_config" "current_stage glove_approved = Some S_STORES"
    "require_stage officer_scope pilot_config glove_approved (Some S_STORES) = Inr ()"
    "rt_stores_issue_flow (request_type_of lab_masters glove_approved)"
    "lines_of approved_books 1 = [glove_line]" "ln_id glove_line = 1" "open_quantity glove_line = 3000"
    "parse_qty (Finite 1) = Inr 1000" "pr_approved_amount glove_approved = Some 10000"
    by code_simp+
  note facts = this
  from facts have run: "?run = Inr (fst ?next, snd ?next)"
    using issued by (simp add: stores_review_def issue_partially_def parse_id_def wanted_def)
  have "lines_of db1 1 = [issued_line 1 ?q glove_line]"
    using issue_lines_result(3) [OF issued] facts(3,8) issued_lines_of [of db1 1 ?q approved_books 1] by simp
  then have "lines_of (fst ?next) 1 = [glove_line\<lparr>ln_issued_quantity := 1000\<rparr>]"
    by (simp add: advance_def act_def proc_record_audit_def save_request_def lines_of_def Let_def issued_line_def
        to_issue_def glove_line_def)
  then have "remaining_total (lines_of (fst ?next) 1) = 20000"
    by (simp add: remaining_total_def remaining_value_def open_quantity_def glove_line_def round_half_even_def)
  with partial_issue_sets_amount [OF run] have "pr_approved_amount (snd ?next) = Some 20000" by simp
  with run facts(12) show ?thesis by blast
qed

end
