(* ===== verification/Formula_Values.thy ===== *)
theory Formula_Values
  imports Money "HOL-Library.Log_Nat"
begin

text \<open>
  The values of the formula scripts of \<^verbatim>\<open>equipment/formula_eval.py\<close> and Python's arithmetic on
  them: truth values, unbounded integers, floats and ranges. A float is a double: a rational
  that is rounded to 53 bits after every operation, an infinity or not a number; the sign of a
  zero is not kept. A power outside the integers can be complex. Powers by the C library and
  arithmetic on complex numbers are the parameter \<open>host\<close> of the definitions that use them.
\<close>

subsection \<open>Doubles\<close>

datatype double = Fin rat | Pos_Inf | Neg_Inf | Not_A_Num

definition two_to :: "int \<Rightarrow> rat" where
  "two_to e = (if 0 \<le> e then 2 ^ nat e else 1 / 2 ^ nat (- e))"

text \<open>The exponent of the greatest power of two that is at most a positive rational.\<close>

definition exponent_of :: "rat \<Rightarrow> int" where
  "exponent_of x = (let (a, b) = quotient_of x;
       e = bitlen a - bitlen b in if two_to e \<le> x then e else e - 1)"

text \<open>The nearest double, ties to even; too large is infinite.\<close>

definition nearest_double :: "rat \<Rightarrow> double" where
  "nearest_double x = (if x = 0 then Fin 0
     else (let ulp = two_to (max (exponent_of \<bar>x\<bar> - 52) (- 1074));
         y = of_int (round_half_even (\<bar>x\<bar> / ulp)) * ulp
       in if two_to 1024 \<le> y then (if 0 < x then Pos_Inf else Neg_Inf)
          else Fin (if 0 < x then y else - y)))"

fun d_neg :: "double \<Rightarrow> double" where
  "d_neg (Fin x) = Fin (- x)"
| "d_neg Pos_Inf = Neg_Inf"
| "d_neg Neg_Inf = Pos_Inf"
| "d_neg Not_A_Num = Not_A_Num"

fun d_add :: "double \<Rightarrow> double \<Rightarrow> double" where
  "d_add (Fin x) (Fin y) = nearest_double (x + y)"
| "d_add Not_A_Num y = Not_A_Num"
| "d_add x Not_A_Num = Not_A_Num"
| "d_add Pos_Inf y = (if y = Neg_Inf then Not_A_Num else Pos_Inf)"
| "d_add Neg_Inf y = (if y = Pos_Inf then Not_A_Num else Neg_Inf)"
| "d_add (Fin x) y = y"

text \<open>The sign, as minus one, zero or one; an infinity of a sign.\<close>

fun d_sign :: "double \<Rightarrow> rat" where
  "d_sign (Fin x) = sgn x"
| "d_sign Pos_Inf = 1"
| "d_sign Neg_Inf = - 1"
| "d_sign Not_A_Num = 0"

definition d_inf :: "rat \<Rightarrow> double" where
  "d_inf s = (if 0 < s then Pos_Inf else if s < 0 then Neg_Inf else Not_A_Num)"

definition d_mult :: "double \<Rightarrow> double \<Rightarrow> double" where
  "d_mult x y = (case (x, y) of (Fin a, Fin b) \<Rightarrow> nearest_double (a * b)
     | _ \<Rightarrow> d_inf (d_sign x * d_sign y))"

text \<open>Division by a divisor that is not zero, and C's \<^verbatim>\<open>fmod\<close> with such a divisor.\<close>

definition d_div :: "double \<Rightarrow> double \<Rightarrow> double" where
  "d_div x y = (case (x, y) of
       (Fin a, Fin b) \<Rightarrow> nearest_double (a / b)
     | (Not_A_Num, _) \<Rightarrow> Not_A_Num
     | (_, Not_A_Num) \<Rightarrow> Not_A_Num
     | (Fin a, _) \<Rightarrow> Fin 0
     | (_, Fin b) \<Rightarrow> d_inf (d_sign x * (if 0 \<le> b then 1 else - 1))
     | _ \<Rightarrow> Not_A_Num)"

definition truncated :: "rat \<Rightarrow> int" where
  "truncated x = (if 0 \<le> x then \<lfloor>x\<rfloor> else \<lceil>x\<rceil>)"

definition d_fmod :: "double \<Rightarrow> double \<Rightarrow> double" where
  "d_fmod x y = (case (x, y) of
       (Fin a, Fin b) \<Rightarrow> Fin (a - b * of_int (truncated (a / b)))
     | (Fin a, Not_A_Num) \<Rightarrow> Not_A_Num
     | (Fin a, _) \<Rightarrow> Fin a
     | _ \<Rightarrow> Not_A_Num)"

fun d_floor :: "double \<Rightarrow> double" where
  "d_floor (Fin x) = Fin (of_int \<lfloor>x\<rfloor>)"
| "d_floor d = d"

fun d_less :: "double \<Rightarrow> double \<Rightarrow> bool" where
  "d_less (Fin x) (Fin y) = (x < y)"
| "d_less (Fin x) y = (y = Pos_Inf)"
| "d_less Neg_Inf y = (y \<noteq> Neg_Inf \<and> y \<noteq> Not_A_Num)"
| "d_less x y = False"

definition d_eq :: "double \<Rightarrow> double \<Rightarrow> bool" where
  "d_eq x y = (x = y \<and> x \<noteq> Not_A_Num)"

text \<open>Floor division and remainder of floats, as \<^verbatim>\<open>_float_div_mod\<close> of the interpreter has them.\<close>

definition d_div_mod :: "double \<Rightarrow> double \<Rightarrow> double \<times> double" where
  "d_div_mod v w =
     (let m = d_fmod v w; q = d_div (d_add v (d_neg m)) w;
          adjust = (m \<noteq> Fin 0 \<and> d_less w (Fin 0) \<noteq> d_less m (Fin 0));
          m' = (if adjust then d_add m w else m);
          q' = (if adjust then d_add q (Fin (- 1)) else q);
          f = d_floor q'
      in (if q' = Fin 0 then Fin 0
          else if d_less (Fin (1/2)) (d_add q' (d_neg f)) then d_add f (Fin 1) else f, m'))"

subsection \<open>Values and errors\<close>

datatype formula_error =
    Empty_Formula | Invalid_Syntax | Non_Numeric | Too_Many_Iterations | Unsupported_Syntax
  | Unsupported_Constant | Unknown_Variable string | Unsupported_Operator | Division_By_Zero
  | Not_Allowed | Bad_Range | Read_Only string | Invalid_Target string | Not_A_Range | No_Number

text \<open>\<^verbatim>\<open>FormulaError\<close> and the exceptions of the interpreter that scripts can raise besides it.\<close>

datatype py_error =
    Formula_Error formula_error | Zero_Division | Type_Error | Overflow | Value_Error
  | Break_Outside | Continue_Outside

datatype val = V_Bool bool | V_Int int | V_Float double | V_Range int int int | V_Complex double double

fun range_len :: "int \<Rightarrow> int \<Rightarrow> int \<Rightarrow> int" where
  "range_len a b c = (if 0 < c then max 0 ((b - a + c - 1) div c) else max 0 ((a - b - c - 1) div - c))"

definition range_items :: "int \<Rightarrow> int \<Rightarrow> int \<Rightarrow> int list" where
  "range_items a b c = map (\<lambda>i. a + int i * c) [0..<nat (range_len a b c)]"

text \<open>Python's truth of a value.\<close>

fun truth :: "val \<Rightarrow> bool" where
  "truth (V_Bool b) = b"
| "truth (V_Int n) = (n \<noteq> 0)"
| "truth (V_Float d) = (d \<noteq> Fin 0)"
| "truth (V_Range a b c) = (range_len a b c \<noteq> 0)"
| "truth (V_Complex x y) = (x \<noteq> Fin 0 \<or> y \<noteq> Fin 0)"

text \<open>A truth value counts as an integer; the exact value of a real number.\<close>

fun as_int :: "val \<Rightarrow> int option" where
  "as_int (V_Bool b) = Some (if b then 1 else 0)"
| "as_int (V_Int n) = Some n"
| "as_int v = None"

fun exact :: "val \<Rightarrow> double option" where
  "exact (V_Float d) = Some d"
| "exact v = map_option (\<lambda>n. Fin (of_int n)) (as_int v)"

definition double_of_int :: "int \<Rightarrow> py_error + double" where
  "double_of_int n = (case nearest_double (of_int n) of Fin x \<Rightarrow> Inr (Fin x) | _ \<Rightarrow> Inl Overflow)"

fun to_double :: "val \<Rightarrow> py_error + double" where
  "to_double (V_Float d) = Inr d"
| "to_double v = (case as_int v of None \<Rightarrow> Inl Type_Error | Some n \<Rightarrow> double_of_int n)"

subsection \<open>Operators\<close>

datatype bin_op = Add | Sub | Mult | Div | Floor_Div | Mod | Pow

datatype un_op = U_Add | U_Sub | U_Not

datatype cmp_op = Eq | Not_Eq | Lt | Lt_E | Gt | Gt_E

record host =
  h_op :: "bin_op \<Rightarrow> val \<Rightarrow> val \<Rightarrow> py_error + val"
  h_abs :: "double \<Rightarrow> double \<Rightarrow> py_error + val"

definition int_op :: "bin_op \<Rightarrow> int \<Rightarrow> int \<Rightarrow> py_error + val" where
  "int_op op m n = (case op of
       Add \<Rightarrow> Inr (V_Int (m + n))
     | Sub \<Rightarrow> Inr (V_Int (m - n))
     | Mult \<Rightarrow> Inr (V_Int (m * n))
     | Div \<Rightarrow> if n = 0 then Inl Zero_Division
         else (case nearest_double (of_int m / of_int n) of
             Fin x \<Rightarrow> Inr (V_Float (Fin x)) | _ \<Rightarrow> Inl Overflow)
     | Floor_Div \<Rightarrow> if n = 0 then Inl Zero_Division else Inr (V_Int (m div n))
     | Mod \<Rightarrow> if n = 0 then Inl Zero_Division else Inr (V_Int (m mod n))
     | Pow \<Rightarrow> Inr (V_Int (m ^ nat n)))"

definition float_op :: "bin_op \<Rightarrow> double \<Rightarrow> double \<Rightarrow> py_error + val" where
  "float_op op x y = (case op of
       Add \<Rightarrow> Inr (V_Float (d_add x y))
     | Sub \<Rightarrow> Inr (V_Float (d_add x (d_neg y)))
     | Mult \<Rightarrow> Inr (V_Float (d_mult x y))
     | Div \<Rightarrow> if y = Fin 0 then Inl Zero_Division else Inr (V_Float (d_div x y))
     | Floor_Div \<Rightarrow> if y = Fin 0 then Inl Zero_Division else Inr (V_Float (fst (d_div_mod x y)))
     | Mod \<Rightarrow> if y = Fin 0 then Inl Zero_Division else Inr (V_Float (snd (d_div_mod x y)))
     | Pow \<Rightarrow> Inl Type_Error)"

fun is_range :: "val \<Rightarrow> bool" where
  "is_range (V_Range a b c) = True"
| "is_range v = False"

fun is_complex :: "val \<Rightarrow> bool" where
  "is_complex (V_Complex x y) = True"
| "is_complex v = False"

text \<open>
  \<^verbatim>\<open>operator.add\<close> and the others. A power stays among the integers when its exponent is a
  natural number; every other power is the host's.
\<close>

definition binary :: "host \<Rightarrow> bin_op \<Rightarrow> val \<Rightarrow> val \<Rightarrow> py_error + val" where
  "binary h op v w =
     (if is_range v \<or> is_range w then Inl Type_Error
      else if is_complex v \<or> is_complex w then h_op h op v w
      else (case (as_int v, as_int w) of
          (Some m, Some n) \<Rightarrow> if op = Pow \<and> n < 0 then h_op h op v w else int_op op m n
        | _ \<Rightarrow> if op = Pow then h_op h op v w
            else and_then (to_double v) (\<lambda>x. and_then (to_double w) (\<lambda>y. float_op op x y))))"

definition unary :: "un_op \<Rightarrow> val \<Rightarrow> py_error + val" where
  "unary op v = (case op of
       U_Not \<Rightarrow> Inr (V_Bool (\<not> truth v))
     | U_Add \<Rightarrow> (case v of V_Bool b \<Rightarrow> Inr (V_Int (if b then 1 else 0)) | V_Range a b c \<Rightarrow> Inl Type_Error
         | _ \<Rightarrow> Inr v)
     | U_Sub \<Rightarrow> (case v of V_Bool b \<Rightarrow> Inr (V_Int (if b then - 1 else 0)) | V_Int n \<Rightarrow> Inr (V_Int (- n))
         | V_Float d \<Rightarrow> Inr (V_Float (d_neg d)) | V_Range a b c \<Rightarrow> Inl Type_Error
         | V_Complex x y \<Rightarrow> Inr (V_Complex (d_neg x) (d_neg y))))"

text \<open>Equality never raises: ranges compare as sequences, numbers by their exact values.\<close>

definition same_value :: "val \<Rightarrow> val \<Rightarrow> bool" where
  "same_value v w = (case (v, w) of
       (V_Range a b c, V_Range a' b' c') \<Rightarrow> (let n = range_len a b c in
         n = range_len a' b' c' \<and> (n = 0 \<or> a = a' \<and> (n = 1 \<or> c = c')))
     | (V_Complex x y, V_Complex x' y') \<Rightarrow> d_eq x x' \<and> d_eq y y'
     | (V_Complex x y, _) \<Rightarrow> y = Fin 0 \<and> (case exact w of None \<Rightarrow> False | Some e \<Rightarrow> d_eq x e)
     | (_, V_Complex x y) \<Rightarrow> y = Fin 0 \<and> (case exact v of None \<Rightarrow> False | Some e \<Rightarrow> d_eq x e)
     | _ \<Rightarrow> (case (exact v, exact w) of (Some x, Some y) \<Rightarrow> d_eq x y | _ \<Rightarrow> False))"

definition compare :: "cmp_op \<Rightarrow> val \<Rightarrow> val \<Rightarrow> py_error + bool" where
  "compare op v w = (case op of
       Eq \<Rightarrow> Inr (same_value v w)
     | Not_Eq \<Rightarrow> Inr (\<not> same_value v w)
     | _ \<Rightarrow> (case (exact v, exact w) of
         (Some x, Some y) \<Rightarrow> Inr (case op of Lt \<Rightarrow> d_less x y | Lt_E \<Rightarrow> d_less x y \<or> d_eq x y
           | Gt \<Rightarrow> d_less y x | _ \<Rightarrow> d_less y x \<or> d_eq x y)
       | _ \<Rightarrow> Inl Type_Error))"

subsection \<open>The functions a script may call\<close>

datatype callee = F_Min | F_Max | F_Abs | F_Round | F_Ceil | F_Floor | F_Int | F_Float | F_Range

text \<open>\<^verbatim>\<open>int\<close>, \<^verbatim>\<open>math.ceil\<close> and the others of a double, by a rounding of rationals.\<close>

definition integral :: "(rat \<Rightarrow> int) \<Rightarrow> double \<Rightarrow> py_error + val" where
  "integral f d = (case d of Fin x \<Rightarrow> Inr (V_Int (f x)) | Not_A_Num \<Rightarrow> Inl Value_Error | _ \<Rightarrow> Inl Overflow)"

definition to_integral :: "(rat \<Rightarrow> int) \<Rightarrow> val \<Rightarrow> py_error + val" where
  "to_integral f v = (case v of V_Float d \<Rightarrow> integral f d
     | _ \<Rightarrow> (case as_int v of Some n \<Rightarrow> Inr (V_Int n) | None \<Rightarrow> Inl Type_Error))"

definition round_places :: "val \<Rightarrow> int \<Rightarrow> py_error + val" where
  "round_places v n = (case v of
       V_Float (Fin x) \<Rightarrow>
         (if 323 < n then Inr v
          else if n < - 308 then Inr (V_Float (Fin 0))
          else (let p = (if 0 \<le> n then 10 ^ nat n else 1 / 10 ^ nat (- n)) in
            case nearest_double (of_int (round_half_even (x * p)) / p) of
              Fin y \<Rightarrow> Inr (V_Float (Fin y)) | _ \<Rightarrow> Inl Overflow))
     | V_Float d \<Rightarrow> Inr v
     | _ \<Rightarrow> (case as_int v of
         Some m \<Rightarrow> Inr (V_Int (if 0 \<le> n then m
           else round_half_even (of_int m / 10 ^ nat (- n)) * 10 ^ nat (- n)))
       | None \<Rightarrow> Inl Type_Error))"

text \<open>\<^verbatim>\<open>min\<close> and \<^verbatim>\<open>max\<close> keep the first of equal items.\<close>

fun best :: "cmp_op \<Rightarrow> val \<Rightarrow> val list \<Rightarrow> py_error + val" where
  "best op v [] = Inr v"
| "best op v (w # ws) = and_then (compare op w v) (\<lambda>b. best op (if b then w else v) ws)"

definition extremum :: "cmp_op \<Rightarrow> val list \<Rightarrow> py_error + val" where
  "extremum op vs = (case vs of
       [] \<Rightarrow> Inl Type_Error
     | [V_Range a b c] \<Rightarrow> (case map V_Int (range_items a b c) of [] \<Rightarrow> Inl Value_Error | w # ws \<Rightarrow> best op w ws)
     | [v] \<Rightarrow> Inl Type_Error
     | v # ws \<Rightarrow> best op v ws)"

definition apply_call :: "host \<Rightarrow> callee \<Rightarrow> val list \<Rightarrow> py_error + val" where
  "apply_call h f vs = (case f of
       F_Min \<Rightarrow> extremum Lt vs
     | F_Max \<Rightarrow> extremum Gt vs
     | F_Abs \<Rightarrow> (case vs of
         [V_Float d] \<Rightarrow> Inr (V_Float (if d_less d (Fin 0) then d_neg d else d))
       | [V_Complex x y] \<Rightarrow> h_abs h x y
       | [v] \<Rightarrow> (case as_int v of Some n \<Rightarrow> Inr (V_Int \<bar>n\<bar>) | None \<Rightarrow> Inl Type_Error)
       | _ \<Rightarrow> Inl Type_Error)
     | F_Round \<Rightarrow> (case vs of
         [v] \<Rightarrow> to_integral round_half_even v
       | [v, w] \<Rightarrow> (case as_int w of Some n \<Rightarrow> round_places v n | None \<Rightarrow> Inl Type_Error)
       | _ \<Rightarrow> Inl Type_Error)
     | F_Ceil \<Rightarrow> (case vs of [v] \<Rightarrow> to_integral ceiling v | _ \<Rightarrow> Inl Type_Error)
     | F_Floor \<Rightarrow> (case vs of [v] \<Rightarrow> to_integral floor v | _ \<Rightarrow> Inl Type_Error)
     | F_Int \<Rightarrow> (case vs of [] \<Rightarrow> Inr (V_Int 0) | [v] \<Rightarrow> to_integral truncated v | _ \<Rightarrow> Inl Type_Error)
     | F_Float \<Rightarrow> (case vs of [] \<Rightarrow> Inr (V_Float (Fin 0)) | [v] \<Rightarrow> and_then (to_double v) (\<lambda>d. Inr (V_Float d))
         | _ \<Rightarrow> Inl Type_Error)
     | F_Range \<Rightarrow> Inl Type_Error)"

end
