(* ===== verification/Formula.thy ===== *)
theory Formula
  imports Formula_Values
begin

text \<open>
  The interpreter of the formula scripts that price and time a booking, \<^verbatim>\<open>equipment/formula_eval.py\<close>,
  on syntax trees: the parser is Python's, and a construct the interpreter has no method for is
  \<open>E_Unsupported\<close> or \<open>S_Unsupported\<close>. An expression has no effects; a statement changes the
  environment and the count of loop iterations, and ends normally, with \<^verbatim>\<open>break\<close>, with
  \<^verbatim>\<open>continue\<close>, or with an exception.
\<close>

subsection \<open>Syntax\<close>

text \<open>A constant that is no number is \<open>E_Bad_Constant\<close>; an operator the tables lack is \<open>None\<close>.\<close>

datatype expr =
    E_Const val
  | E_Bad_Constant
  | E_Name string
  | E_Unary "un_op option" expr
  | E_Binary "bin_op option" expr expr
  | E_Bool bool "expr list"
  | E_Compare expr "(cmp_op option \<times> expr) list"
  | E_If expr expr expr
  | E_Call "callee option" bool "expr list"
  | E_Unsupported

text \<open>A target that is no simple name is \<open>None\<close>.\<close>

datatype stmt =
    S_Expr expr
  | S_Pass
  | S_Break
  | S_Continue
  | S_Assign "string option list" expr
  | S_Ann_Assign "string option" "expr option"
  | S_Aug_Assign "string option" "bin_op option" expr
  | S_If expr "stmt list" "stmt list"
  | S_While expr "stmt list" "stmt list"
  | S_For "string option" expr "stmt list" "stmt list"
  | S_Unsupported

definition formula_raise :: "formula_error \<Rightarrow> py_error + 'a" where
  "formula_raise e = Inl (Formula_Error e)"

subsection \<open>Numbers from outside\<close>

text \<open>\<^verbatim>\<open>int(s)\<close> and \<^verbatim>\<open>float(s)\<close> of stripped text: digits with single underscores between them.\<close>

definition is_digit_char :: "char \<Rightarrow> bool" where
  "is_digit_char c = (c \<in> set ''0123456789'')"

fun ungroup :: "string \<Rightarrow> string option" where
  "ungroup [] = None"
| "ungroup [c] = (if is_digit_char c then Some [c] else None)"
| "ungroup (c # d # s) = (if \<not> is_digit_char c then None
     else map_option ((#) c) (if d = CHR ''_'' then ungroup s else ungroup (d # s)))"

definition natural :: "string \<Rightarrow> int" where
  "natural ds = foldl (\<lambda>n c. 10 * n + (of_char c - 48)) 0 ds"

definition signed :: "(string \<Rightarrow> 'a option) \<Rightarrow> ('a \<Rightarrow> 'a) \<Rightarrow> string \<Rightarrow> 'a option" where
  "signed f neg s = (case s of
     c # t \<Rightarrow> if c = CHR ''-'' then map_option neg (f t) else if c = CHR ''+'' then f t else f s
   | [] \<Rightarrow> None)"

definition int_of_text :: "string \<Rightarrow> int option" where
  "int_of_text = signed (\<lambda>s. map_option natural (ungroup s)) uminus"

definition mantissa :: "string \<Rightarrow> rat option" where
  "mantissa s = (let whole = takeWhile (\<lambda>c. c \<noteq> CHR ''.'') s; rest = drop (length whole) s;
       part = (\<lambda>t. if t = [] then Some [] else ungroup t) in
     if rest = [] then map_option (\<lambda>ds. of_int (natural ds)) (ungroup whole)
     else if whole = [] \<and> tl rest = [] then None
     else (case (part whole, part (tl rest)) of
         (Some ds, Some fs) \<Rightarrow> Some (of_int (natural (ds @ fs)) / 10 ^ length fs) | _ \<Rightarrow> None))"

definition float_of_text :: "string \<Rightarrow> double option" where
  "float_of_text = signed (\<lambda>s.
     let m = takeWhile (\<lambda>c. c \<noteq> CHR ''e'' \<and> c \<noteq> CHR ''E'') s; rest = drop (length m) s in
     case (mantissa m, if rest = [] then Some 0 else int_of_text (tl rest)) of
       (Some x, Some e) \<Rightarrow> Some (nearest_double (if 0 \<le> e then x * 10 ^ nat e else x / 10 ^ nat (- e)))
     | _ \<Rightarrow> None) d_neg"

definition lower :: "string \<Rightarrow> string" where
  "lower s = map (\<lambda>c. if (65 :: nat) \<le> of_char c \<and> (of_char c :: nat) \<le> 90 then char_of (of_char c + 32 :: nat) else c) s"

text \<open>\<^verbatim>\<open>_to_number\<close>, of a value in the interpreter and of text.\<close>

definition to_number :: "val \<Rightarrow> py_error + val" where
  "to_number v = (if is_complex v then formula_raise Non_Numeric else Inr v)"

definition text_to_number :: "string \<Rightarrow> py_error + val" where
  "text_to_number raw = (let s = strip raw in
     if s = [] then Inr (V_Int 0)
     else if lower s \<in> {''true'', ''yes'', ''on''} then Inr (V_Bool True)
     else if lower s \<in> {''false'', ''no'', ''off''} then Inr (V_Bool False)
     else (case (if CHR ''.'' \<in> set s \<or> CHR ''e'' \<in> set (lower s) then map_option V_Float (float_of_text s)
         else map_option V_Int (int_of_text s)) of
       None \<Rightarrow> formula_raise Non_Numeric | Some v \<Rightarrow> Inr v))"

text \<open>A value of the environment that is handed in: a number, a \<^verbatim>\<open>Decimal\<close>, \<^verbatim>\<open>None\<close> or text.\<close>

datatype raw_value = Raw_Number val | Raw_Decimal rat | Raw_Nothing | Raw_Text string

definition raw_to_number :: "raw_value \<Rightarrow> py_error + val" where
  "raw_to_number raw = (case raw of
     Raw_Number v \<Rightarrow> to_number v
   | Raw_Decimal x \<Rightarrow> Inr (V_Float (nearest_double x))
   | Raw_Nothing \<Rightarrow> Inr (V_Int 0)
   | Raw_Text s \<Rightarrow> text_to_number s)"

subsection \<open>Expressions\<close>

type_synonym env = "string \<Rightarrow> val option"

fun collect :: "('e + 'a) list \<Rightarrow> 'e + 'a list" where
  "collect [] = Inr []"
| "collect (r # rs) = and_then r (\<lambda>v. and_then (collect rs) (\<lambda>vs. Inr (v # vs)))"

definition max_loop_iters :: int where
  "max_loop_iters = 10000"

definition max_total_iters :: int where
  "max_total_iters = 50000"

definition visit_name :: "env \<Rightarrow> string \<Rightarrow> py_error + val" where
  "visit_name env x =
     (if x = ''True'' then Inr (V_Bool True) else if x = ''False'' then Inr (V_Bool False)
      else if x = ''None'' then Inr (V_Int 0)
      else (case env x of None \<Rightarrow> formula_raise (Unknown_Variable x) | Some v \<Rightarrow> Inr v))"

text \<open>\<^verbatim>\<open>try: op(...) except ZeroDivisionError\<close>.\<close>

definition guarded :: "host \<Rightarrow> bin_op \<Rightarrow> val \<Rightarrow> val \<Rightarrow> py_error + val" where
  "guarded h op v w = (case binary h op v w of
     Inl Zero_Division \<Rightarrow> formula_raise Division_By_Zero | r \<Rightarrow> r)"

text \<open>\<^verbatim>\<open>and\<close> and \<^verbatim>\<open>or\<close> stop at the first operand that decides.\<close>

fun visit_bool :: "bool \<Rightarrow> val \<Rightarrow> (py_error + val) list \<Rightarrow> py_error + val" where
  "visit_bool is_and v [] = Inr v"
| "visit_bool is_and v (r # rs) = and_then r (\<lambda>w. if truth w = is_and then visit_bool is_and w rs else Inr w)"

fun visit_compare :: "val \<Rightarrow> (cmp_op option \<times> (py_error + val)) list \<Rightarrow> py_error + val" where
  "visit_compare v [] = Inr (V_Bool True)"
| "visit_compare v ((op, r) # rs) = (case op of
     None \<Rightarrow> formula_raise Unsupported_Operator
   | Some c \<Rightarrow> and_then r (\<lambda>w. and_then (compare c v w) (\<lambda>b.
       if b then visit_compare w rs else Inr (V_Bool False))))"

definition range_argument :: "val \<Rightarrow> py_error + int" where
  "range_argument v = and_then (to_number v) (\<lambda>w. and_then (to_integral truncated w) (\<lambda>i.
     case as_int i of Some n \<Rightarrow> Inr n | None \<Rightarrow> Inl Type_Error))"

definition visit_range :: "val list \<Rightarrow> py_error + val" where
  "visit_range vs = (if vs = [] \<or> 3 < length vs then formula_raise Bad_Range
     else and_then (collect (map range_argument vs)) (\<lambda>ns.
       let a = (if length ns = 1 then 0 else ns ! 0); b = (if length ns = 1 then ns ! 0 else ns ! 1);
           c = (if length ns = 3 then ns ! 2 else 1)
       in if c = 0 then Inl Value_Error
          else if 2 ^ 63 - 1 < range_len a b c then Inl Overflow
          else if max_loop_iters < range_len a b c then formula_raise Bad_Range
          else Inr (V_Range a b c)))"

primrec eval :: "host \<Rightarrow> env \<Rightarrow> expr \<Rightarrow> py_error + val" where
  "eval h env (E_Const v) = Inr v"
| "eval h env E_Bad_Constant = formula_raise Unsupported_Constant"
| "eval h env (E_Name x) = visit_name env x"
| "eval h env (E_Unary op e) = (case op of
     None \<Rightarrow> formula_raise Unsupported_Operator
   | Some u \<Rightarrow> and_then (eval h env e) (unary u))"
| "eval h env (E_Binary op e f) = (case op of
     None \<Rightarrow> formula_raise Unsupported_Operator
   | Some b \<Rightarrow> and_then (eval h env e) (\<lambda>v. and_then (eval h env f) (guarded h b v)))"
| "eval h env (E_Bool is_and es) = visit_bool is_and (V_Bool is_and) (map (eval h env) es)"
| "eval h env (E_Compare e cs) = and_then (eval h env e) (\<lambda>v. visit_compare v (map (map_prod id (eval h env)) cs))"
| "eval h env (E_If t e f) = and_then (eval h env t) (\<lambda>v. if truth v then eval h env e else eval h env f)"
| "eval h env (E_Call f keywords es) = (case f of
     None \<Rightarrow> formula_raise Not_Allowed
   | Some c \<Rightarrow> if keywords then formula_raise Not_Allowed
       else and_then (collect (map (eval h env) es)) (\<lambda>vs.
         if c = F_Range then visit_range vs else apply_call h c vs))"
| "eval h env E_Unsupported = formula_raise Unsupported_Syntax"

subsection \<open>Statements\<close>

record run_state =
  rs_env :: env
  rs_iters :: int

datatype outcome = Normal run_state | Broken run_state | Continued run_state | Failed py_error

definition bump :: "run_state \<Rightarrow> py_error + run_state" where
  "bump s = (let n = rs_iters s + 1 in
     if max_total_iters < n then formula_raise Too_Many_Iterations else Inr (s\<lparr>rs_iters := n\<rparr>))"

definition read_only :: "string \<Rightarrow> bool" where
  "read_only x = (x \<in> {''pc'', ''sc'', ''SLOT_DURATION_MINUTES'', ''TIME''} \<or>
     (case x of [c] \<Rightarrow> (65 :: nat) \<le> of_char c \<and> (of_char c :: nat) \<le> 90 | _ \<Rightarrow> False))"

text \<open>\<^verbatim>\<open>str.isidentifier\<close> of an ASCII name.\<close>

definition name_start :: "char \<Rightarrow> bool" where
  "name_start c = (let n = of_char c :: nat in c = CHR ''_'' \<or> 65 \<le> n \<and> n \<le> 90 \<or> 97 \<le> n \<and> n \<le> 122)"

definition is_identifier :: "string \<Rightarrow> bool" where
  "is_identifier x = (case x of [] \<Rightarrow> False
     | c # s \<Rightarrow> name_start c \<and> list_all (\<lambda>d. name_start d \<or> is_digit_char d) s)"

definition assignable :: "string \<Rightarrow> bool" where
  "assignable x = (\<not> read_only x \<and> is_identifier x \<and> hd x \<noteq> CHR ''_'')"

definition assign_name :: "string \<Rightarrow> val \<Rightarrow> env \<Rightarrow> py_error + env" where
  "assign_name x v env =
     (if read_only x then formula_raise (Read_Only x)
      else if \<not> assignable x then formula_raise (Invalid_Target x)
      else if is_range v then Inr (env(x \<mapsto> v))
      else and_then (to_number v) (\<lambda>w. Inr (env(x \<mapsto> w))))"

definition simple_name :: "string option \<Rightarrow> py_error + string" where
  "simple_name target = (case target of None \<Rightarrow> formula_raise Not_Allowed | Some x \<Rightarrow> Inr x)"

fun assign_all :: "string option list \<Rightarrow> val \<Rightarrow> env \<Rightarrow> py_error + env" where
  "assign_all [] v env = Inr env"
| "assign_all (t # ts) v env = and_then (simple_name t) (\<lambda>x. and_then (assign_name x v env) (assign_all ts v))"

definition aug_assign :: "host \<Rightarrow> string \<Rightarrow> bin_op option \<Rightarrow> expr \<Rightarrow> env \<Rightarrow> py_error + env" where
  "aug_assign h x op e env = (case env x of
     None \<Rightarrow> formula_raise (Unknown_Variable x)
   | Some old \<Rightarrow> (case op of
       None \<Rightarrow> formula_raise Unsupported_Operator
     | Some b \<Rightarrow> and_then (eval h env e) (\<lambda>v. and_then (guarded h b old v) (\<lambda>w. assign_name x w env))))"

text \<open>The statements without parts.\<close>

definition exec_simple :: "host \<Rightarrow> stmt \<Rightarrow> env \<Rightarrow> py_error + env" where
  "exec_simple h s env = (case s of
     S_Expr e \<Rightarrow> and_then (eval h env e) (\<lambda>_. Inr env)
   | S_Pass \<Rightarrow> Inr env
   | S_Assign targets e \<Rightarrow> and_then (eval h env e) (\<lambda>v. assign_all targets v env)
   | S_Ann_Assign target value \<Rightarrow> (case value of
       None \<Rightarrow> formula_raise Not_Allowed
     | Some e \<Rightarrow> and_then (simple_name target) (\<lambda>x. and_then (eval h env e) (\<lambda>v. assign_name x v env)))
   | S_Aug_Assign target op e \<Rightarrow> and_then (simple_name target) (\<lambda>x. aug_assign h x op e env)
   | _ \<Rightarrow> formula_raise Unsupported_Syntax)"

definition simply :: "(env \<Rightarrow> py_error + env) \<Rightarrow> run_state \<Rightarrow> outcome" where
  "simply f s = (case f (rs_env s) of Inl x \<Rightarrow> Failed x | Inr env \<Rightarrow> Normal (s\<lparr>rs_env := env\<rparr>))"

fun seq :: "(run_state \<Rightarrow> outcome) list \<Rightarrow> run_state \<Rightarrow> outcome" where
  "seq [] s = Normal s"
| "seq (c # cs) s = (case c s of Normal t \<Rightarrow> seq cs t | out \<Rightarrow> out)"

text \<open>
  \<^verbatim>\<open>while\<close> with its count, from zero: the test, the total count, the own count, then the body;
  \<open>orelse\<close> runs when the test fails, not after \<^verbatim>\<open>break\<close>.
\<close>

function while_loop ::
  "int \<Rightarrow> (env \<Rightarrow> py_error + val) \<Rightarrow> (run_state \<Rightarrow> outcome) \<Rightarrow> (run_state \<Rightarrow> outcome) \<Rightarrow> run_state \<Rightarrow> outcome" where
  "while_loop count test body orelse s = (case test (rs_env s) of
     Inl x \<Rightarrow> Failed x
   | Inr v \<Rightarrow> if \<not> truth v then orelse s
       else (case bump s of
         Inl x \<Rightarrow> Failed x
       | Inr t \<Rightarrow> if max_loop_iters < count + 1 then Failed (Formula_Error Too_Many_Iterations)
           else (case body t of
             Normal u \<Rightarrow> while_loop (count + 1) test body orelse u
           | Continued u \<Rightarrow> while_loop (count + 1) test body orelse u
           | Broken u \<Rightarrow> Normal u
           | Failed x \<Rightarrow> Failed x)))"
  by pat_completeness auto
termination by (relation "measure (\<lambda>(count, _). nat (max_loop_iters - count))") auto

fun for_loop ::
  "string \<Rightarrow> int list \<Rightarrow> (run_state \<Rightarrow> outcome) \<Rightarrow> (run_state \<Rightarrow> outcome) \<Rightarrow> run_state \<Rightarrow> outcome" where
  "for_loop x [] body orelse s = orelse s"
| "for_loop x (i # items) body orelse s = (case bump s of
     Inl e \<Rightarrow> Failed e
   | Inr t \<Rightarrow> (case assign_name x (V_Int i) (rs_env t) of
       Inl e \<Rightarrow> Failed e
     | Inr env \<Rightarrow> (case body (t\<lparr>rs_env := env\<rparr>) of
         Normal u \<Rightarrow> for_loop x items body orelse u
       | Continued u \<Rightarrow> for_loop x items body orelse u
       | Broken u \<Rightarrow> Normal u
       | Failed e \<Rightarrow> Failed e)))"

definition visit_for ::
  "host \<Rightarrow> string option \<Rightarrow> expr \<Rightarrow> (run_state \<Rightarrow> outcome) \<Rightarrow> (run_state \<Rightarrow> outcome) \<Rightarrow> run_state \<Rightarrow> outcome" where
  "visit_for h target e body orelse s = (case target of
     None \<Rightarrow> Failed (Formula_Error Not_Allowed)
   | Some x \<Rightarrow> (case eval h (rs_env s) e of
       Inl err \<Rightarrow> Failed err
     | Inr v \<Rightarrow> (case v of V_Range a b c \<Rightarrow> for_loop x (range_items a b c) body orelse s
         | _ \<Rightarrow> Failed (Formula_Error Not_A_Range))))"

definition visit_if ::
  "host \<Rightarrow> expr \<Rightarrow> (run_state \<Rightarrow> outcome) \<Rightarrow> (run_state \<Rightarrow> outcome) \<Rightarrow> run_state \<Rightarrow> outcome" where
  "visit_if h e yes no s = (case eval h (rs_env s) e of
     Inl x \<Rightarrow> Failed x | Inr v \<Rightarrow> if truth v then yes s else no s)"

primrec exec :: "host \<Rightarrow> stmt \<Rightarrow> run_state \<Rightarrow> outcome" where
  "exec h (S_Expr e) = simply (exec_simple h (S_Expr e))"
| "exec h S_Pass = simply (exec_simple h S_Pass)"
| "exec h S_Break = Broken"
| "exec h S_Continue = Continued"
| "exec h (S_Assign ts e) = simply (exec_simple h (S_Assign ts e))"
| "exec h (S_Ann_Assign t v) = simply (exec_simple h (S_Ann_Assign t v))"
| "exec h (S_Aug_Assign t op e) = simply (exec_simple h (S_Aug_Assign t op e))"
| "exec h (S_If e yes no) = visit_if h e (seq (map (exec h) yes)) (seq (map (exec h) no))"
| "exec h (S_While e body orelse) =
     while_loop 0 (\<lambda>env. eval h env e) (seq (map (exec h) body)) (seq (map (exec h) orelse))"
| "exec h (S_For t e body orelse) = visit_for h t e (seq (map (exec h) body)) (seq (map (exec h) orelse))"
| "exec h S_Unsupported = simply (exec_simple h S_Unsupported)"

definition exec_module :: "host \<Rightarrow> stmt list \<Rightarrow> env \<Rightarrow> py_error + env" where
  "exec_module h body env = (case seq (map (exec h) body) \<lparr>rs_env = env, rs_iters = 0\<rparr> of
     Normal s \<Rightarrow> Inr (rs_env s) | Broken s \<Rightarrow> Inl Break_Outside | Continued s \<Rightarrow> Inl Continue_Outside
   | Failed x \<Rightarrow> Inl x)"

subsection \<open>Entry points\<close>

text \<open>What Python's parser makes of the stripped source.\<close>

datatype parsed = P_Empty | P_Expr expr | P_Module "stmt list" | P_Syntax_Error

text \<open>\<^verbatim>\<open>_as_float\<close>: \<^verbatim>\<open>TypeError\<close> and \<^verbatim>\<open>ValueError\<close> become a \<^verbatim>\<open>FormulaError\<close>.\<close>

definition as_float :: "val \<Rightarrow> py_error + double" where
  "as_float v = (case to_double v of Inl Type_Error \<Rightarrow> formula_raise No_Number | r \<Rightarrow> r)"

fun build_env :: "(string \<times> raw_value) list \<Rightarrow> py_error + env" where
  "build_env [] = Inr (\<lambda>_. None)"
| "build_env ((x, raw) # rest) = and_then (raw_to_number raw) (\<lambda>v. and_then (build_env rest) (\<lambda>env.
     Inr (if env x = None then env(x \<mapsto> v) else env)))"

definition evaluate_formula :: "host \<Rightarrow> parsed \<Rightarrow> (string \<times> raw_value) list \<Rightarrow> py_error + double" where
  "evaluate_formula h source raws = (case source of
     P_Empty \<Rightarrow> formula_raise Empty_Formula
   | P_Expr e \<Rightarrow> and_then (build_env raws) (\<lambda>env. and_then (eval h env e) as_float)
   | _ \<Rightarrow> formula_raise Invalid_Syntax)"

definition run_formula_script ::
  "host \<Rightarrow> parsed \<Rightarrow> (string \<times> raw_value) list \<Rightarrow> string \<Rightarrow> py_error + double" where
  "run_formula_script h source raws result_var =
     (if source = P_Empty then formula_raise Empty_Formula
      else and_then (build_env raws) (\<lambda>env0.
        let env = (case env0 result_var of None \<Rightarrow> env0(result_var \<mapsto> V_Int 0) | Some _ \<Rightarrow> env0) in
        case source of
          P_Expr e \<Rightarrow> and_then (eval h env e) as_float
        | P_Module body \<Rightarrow> and_then (exec_module h body env) (\<lambda>env'. case env' result_var of
            None \<Rightarrow> formula_raise No_Number | Some v \<Rightarrow> as_float v)
        | _ \<Rightarrow> formula_raise Invalid_Syntax))"

end
