(* ===== verification/Formula_Runs.thy ===== *)
theory Formula_Runs
  imports Formula
begin

text \<open>
  What the interpreter of formula scripts guarantees. Invariants of runs come from the locale
  \<open>script_invariant\<close>, interpreted once per invariant; the limits on iterations are compared
  with a reference semantics of the same statements that has none, a relation given by rules.
\<close>

declare while_loop.simps [simp del]

subsection \<open>Invariants of runs\<close>

definition keeps :: "(run_state \<Rightarrow> bool) \<Rightarrow> (run_state \<Rightarrow> outcome) \<Rightarrow> bool" where
  "keeps good f = (\<forall>s. good s \<longrightarrow> (case f s of
     Normal t \<Rightarrow> good t | Broken t \<Rightarrow> good t | Continued t \<Rightarrow> good t | Failed x \<Rightarrow> True))"

lemma keepsD: "keeps good f \<Longrightarrow> good s \<Longrightarrow>
    (case f s of Normal t \<Rightarrow> good t | Broken t \<Rightarrow> good t | Continued t \<Rightarrow> good t | Failed x \<Rightarrow> True)"
  by (simp add: keeps_def)

lemma keeps_seq: "(\<And>c. c \<in> set cs \<Longrightarrow> keeps good c) \<Longrightarrow> keeps good (seq cs)"
proof (induction cs)
  case (Cons c cs)
  then have "keeps good c" "keeps good (seq cs)" by simp_all
  note keep = keepsD [OF this(1)] keepsD [OF this(2)]
  have "case seq (c # cs) s of
      Normal t \<Rightarrow> good t | Broken t \<Rightarrow> good t | Continued t \<Rightarrow> good t | Failed x \<Rightarrow> True" if "good s" for s
    using keep(1) [OF that] keep(2) by (cases "c s") simp_all
  then show ?case by (simp add: keeps_def)
qed (simp add: keeps_def)

lemma same_state: "rs_env s = env \<Longrightarrow> s\<lparr>rs_env := env\<rparr> = s"
  by (cases s) simp

text \<open>The names a statement can assign.\<close>

primrec targets :: "stmt \<Rightarrow> string set" where
  "targets (S_Expr e) = {}"
| "targets S_Pass = {}"
| "targets S_Break = {}"
| "targets S_Continue = {}"
| "targets (S_Assign ts e) = \<Union> (set_option ` set ts)"
| "targets (S_Ann_Assign t v) = set_option t"
| "targets (S_Aug_Assign t op e) = set_option t"
| "targets (S_If e yes no) = \<Union> (set (map targets yes)) \<union> \<Union> (set (map targets no))"
| "targets (S_While e body orelse) = \<Union> (set (map targets body)) \<union> \<Union> (set (map targets orelse))"
| "targets (S_For t e body orelse) = set_option t \<union> \<Union> (set (map targets body)) \<union> \<Union> (set (map targets orelse))"
| "targets S_Unsupported = {}"

definition block_targets :: "stmt list \<Rightarrow> string set" where
  "block_targets ss = \<Union> (targets ` set ss)"

locale script_invariant =
  fixes ok :: "string \<Rightarrow> bool"
    and good :: "run_state \<Rightarrow> bool"
  assumes bump_inv: "bump s = Inr t \<Longrightarrow> good s \<Longrightarrow> good t"
    and assign_inv: "assign_name x v (rs_env s) = Inr env \<Longrightarrow> ok x \<Longrightarrow> good s \<Longrightarrow> good (s\<lparr>rs_env := env\<rparr>)"
begin

lemma assign_all_inv:
  "assign_all ts v (rs_env s) = Inr env \<Longrightarrow> \<forall>x. Some x \<in> set ts \<longrightarrow> ok x \<Longrightarrow> good s \<Longrightarrow> good (s\<lparr>rs_env := env\<rparr>)"
proof (induction ts arbitrary: s)
  case (Cons t ts)
  then obtain x env1 where "t = Some x" "assign_name x v (rs_env s) = Inr env1" "assign_all ts v env1 = Inr env"
    by (auto simp: result_simps simple_name_def formula_raise_def split: option.splits)
  then show ?case using Cons.IH [of "s\<lparr>rs_env := env1\<rparr>"] assign_inv Cons.prems by auto
qed (simp add: same_state)

lemma simple_keeps:
  assumes "\<forall>x\<in>targets c. ok x"
  shows "keeps good (simply (exec_simple h c))"
proof -
  have "good (s\<lparr>rs_env := env\<rparr>)" if "exec_simple h c (rs_env s) = Inr env" "good s" for s env
    using that assms assign_inv [of _ _ s env] assign_all_inv [of _ _ s env]
    by (cases c) (auto simp: exec_simple_def result_simps simple_name_def aug_assign_def formula_raise_def
        split: option.splits)
  then show ?thesis by (auto simp: keeps_def simply_def split: sum.splits)
qed

lemma while_keeps:
  assumes "keeps good body" "keeps good orelse"
  shows "keeps good (while_loop count test body orelse)"
proof -
  have "case while_loop count test body orelse s of
      Normal t \<Rightarrow> good t | Broken t \<Rightarrow> good t | Continued t \<Rightarrow> good t | Failed x \<Rightarrow> True" if "good s" for s
    using that assms
  proof (induction count test body orelse s rule: while_loop.induct)
    case (1 count test body orelse s)
    note simps = while_loop.simps [of count test body orelse s]
    show ?case
    proof (cases "test (rs_env s)")
      case (Inr v)
      show ?thesis
      proof (cases "truth v")
        case True
        show ?thesis
        proof (cases "bump s")
          case (Inr t)
          then have "good t" using bump_inv "1.prems"(1) by blast
          note body = keepsD [OF "1.prems"(2) this]
          show ?thesis
          proof (cases "max_loop_iters < count + 1")
            case False
            note IH = "1.IH" [OF \<open>test (rs_env s) = Inr v\<close> _ Inr False]
            show ?thesis using True body IH "1.prems"(2,3) Inr False
              by (cases "body t") (simp_all add: simps \<open>test (rs_env s) = Inr v\<close>)
          qed (simp add: simps \<open>test (rs_env s) = Inr v\<close> True Inr)
        qed (simp add: simps Inr True)
      qed (use keepsD [OF "1.prems"(3,1)] in \<open>simp add: simps Inr\<close>)
    qed (simp add: simps)
  qed
  then show ?thesis by (simp add: keeps_def)
qed

lemma for_keeps:
  assumes "keeps good body" "keeps good orelse" "ok x"
  shows "keeps good (for_loop x items body orelse)"
proof (induction items)
  case (Cons i items)
  have "case for_loop x (i # items) body orelse s of
      Normal t \<Rightarrow> good t | Broken t \<Rightarrow> good t | Continued t \<Rightarrow> good t | Failed x \<Rightarrow> True" if "good s" for s
  proof (cases "bump s")
    case (Inr t)
    then have "good t" using bump_inv that by blast
    show ?thesis
    proof (cases "assign_name x (V_Int i) (rs_env t)")
      case (Inr env)
      then have "good (t\<lparr>rs_env := env\<rparr>)" using assign_inv assms(3) \<open>good t\<close> by blast
      from keepsD [OF assms(1) this] keepsD [OF Cons.IH] show ?thesis
        using Inr \<open>bump s = Inr t\<close> by (cases "body (t\<lparr>rs_env := env\<rparr>)") simp_all
    qed (simp add: Inr)
  qed simp
  then show ?case by (simp add: keeps_def)
qed (use assms(2) in \<open>simp add: keeps_def\<close>)

lemma keeps_block:
  assumes "\<And>c. c \<in> set cs \<Longrightarrow> \<forall>x\<in>targets c. ok x \<Longrightarrow> keeps good (exec h c)"
    and "\<forall>x\<in>\<Union> (targets ` set cs). ok x"
  shows "keeps good (seq (map (exec h) cs))"
  using assms by (intro keeps_seq) auto

lemma exec_keeps: "\<forall>x\<in>targets c. ok x \<Longrightarrow> keeps good (exec h c)"
proof (induction c)
  case (S_If e yes no)
  have "keeps good (seq (map (exec h) yes))" "keeps good (seq (map (exec h) no))"
    using S_If.prems by (intro keeps_block S_If.IH; simp)+
  then show ?case by (simp add: keeps_def visit_if_def split: sum.splits)
next
  case (S_While e body orelse)
  have "keeps good (seq (map (exec h) body))" "keeps good (seq (map (exec h) orelse))"
    using S_While.prems by (intro keeps_block S_While.IH; simp)+
  then show ?case by (simp add: while_keeps)
next
  case (S_For t e body orelse)
  have blocks: "keeps good (seq (map (exec h) body))" "keeps good (seq (map (exec h) orelse))"
    using S_For.prems by (intro keeps_block S_For.IH; simp)+
  show ?case
  proof (cases t)
    case (Some x)
    then have "keeps good (for_loop x items (seq (map (exec h) body)) (seq (map (exec h) orelse)))" for items
      using for_keeps [OF blocks] S_For.prems by simp
    with Some show ?thesis by (simp add: keeps_def visit_for_def split: sum.splits val.splits)
  qed (simp add: keeps_def visit_for_def)
qed (simp_all add: simple_keeps, simp_all add: keeps_def)

lemma module_keeps:
  assumes "exec_module h body env = Inr env'" "\<forall>x\<in>block_targets body. ok x" "good \<lparr>rs_env = env, rs_iters = 0\<rparr>"
  shows "\<exists>n. good \<lparr>rs_env = env', rs_iters = n\<rparr>"
proof -
  have "keeps good (seq (map (exec h) body))"
    using assms(2) by (auto simp: block_targets_def intro!: keeps_seq exec_keeps)
  from keepsD [OF this assms(3)] assms(1) obtain s where "rs_env s = env'" "good s"
    by (auto simp: exec_module_def split: outcome.splits)
  then show ?thesis by (metis run_state.surjective unit.exhaust)
qed

end

subsection \<open>The invariants of the model\<close>

text \<open>Only assignable names among the targets of a script change.\<close>

definition unchanged :: "string set \<Rightarrow> env \<Rightarrow> run_state \<Rightarrow> bool" where
  "unchanged names env s = (\<forall>x. x \<notin> names \<or> \<not> assignable x \<longrightarrow> rs_env s x = env x)"

definition numbers_only :: "env \<Rightarrow> bool" where
  "numbers_only env = (\<forall>x v. env x = Some v \<longrightarrow> \<not> is_complex v)"

definition within_limit :: "run_state \<Rightarrow> bool" where
  "within_limit s = (numbers_only (rs_env s) \<and> rs_iters s \<le> max_total_iters)"

lemma bump_Inr: "bump s = Inr t \<longleftrightarrow> rs_iters s < max_total_iters \<and> t = s\<lparr>rs_iters := rs_iters s + 1\<rparr>"
  by (auto simp: bump_def Let_def formula_raise_def max_total_iters_def)

lemma to_number_Inr: "to_number v = Inr w \<longleftrightarrow> w = v \<and> \<not> is_complex v"
  by (auto simp: to_number_def formula_raise_def)

lemma assign_name_Inr:
  "assign_name x v env = Inr env' \<longleftrightarrow> assignable x \<and> \<not> is_complex v \<and> env' = env(x \<mapsto> v)"
proof -
  have "\<not> is_complex v" if "is_range v" using that by (cases v) auto
  then show ?thesis
    by (auto simp: assign_name_def assignable_def formula_raise_def result_simps to_number_Inr)
qed

interpretation untouched: script_invariant "\<lambda>x. x \<in> names" "unchanged names env" for names env
  by unfold_locales (auto simp: unchanged_def bump_Inr assign_name_Inr)

interpretation limited: script_invariant "\<lambda>_. True" within_limit
  by unfold_locales (auto simp: within_limit_def numbers_only_def bump_Inr assign_name_Inr)

lemma build_env_numbers: "build_env raws = Inr env \<Longrightarrow> numbers_only env"
proof (induction raws arbitrary: env rule: build_env.induct)
  case (2 x raw rest)
  then obtain v env1 where "raw_to_number raw = Inr v" "build_env rest = Inr env1"
    "env = (if env1 x = None then env1(x \<mapsto> v) else env1)" by (auto simp: result_simps)
  moreover from this(1) have "\<not> is_complex v"
    by (auto simp: raw_to_number_def text_to_number_def to_number_Inr formula_raise_def Let_def
        split: raw_value.splits if_splits option.splits)
  ultimately show ?case using 2 by (auto simp: numbers_only_def)
qed (simp add: numbers_only_def)

subsection \<open>Loops and jumps\<close>

text \<open>Every \<^verbatim>\<open>break\<close> and \<^verbatim>\<open>continue\<close> stands in a loop.\<close>

primrec well_nested :: "stmt \<Rightarrow> bool \<Rightarrow> bool" where
  "well_nested (S_Expr e) l = True"
| "well_nested S_Pass l = True"
| "well_nested S_Break l = l"
| "well_nested S_Continue l = l"
| "well_nested (S_Assign ts e) l = True"
| "well_nested (S_Ann_Assign t v) l = True"
| "well_nested (S_Aug_Assign t op e) l = True"
| "well_nested (S_If e yes no) l = (list_all (\<lambda>w. w l) (map well_nested yes) \<and> list_all (\<lambda>w. w l) (map well_nested no))"
| "well_nested (S_While e body orelse) l =
     (list_all (\<lambda>w. w True) (map well_nested body) \<and> list_all (\<lambda>w. w l) (map well_nested orelse))"
| "well_nested (S_For t e body orelse) l =
     (list_all (\<lambda>w. w True) (map well_nested body) \<and> list_all (\<lambda>w. w l) (map well_nested orelse))"
| "well_nested S_Unsupported l = True"

definition jumps :: "outcome \<Rightarrow> bool" where
  "jumps out = (case out of Broken s \<Rightarrow> True | Continued s \<Rightarrow> True | _ \<Rightarrow> False)"

lemma jumps_simps [simp]:
  "\<not> jumps (Normal s)" "jumps (Broken s)" "jumps (Continued s)" "\<not> jumps (Failed x)"
  by (simp_all add: jumps_def)

lemma seq_jumps: "\<forall>c\<in>set cs. \<forall>s. \<not> jumps (c s) \<Longrightarrow> \<not> jumps (seq cs s)"
  by (induction cs s rule: seq.induct) (auto split: outcome.splits, (metis jumps_simps(2,3))+)

lemma while_jumps: "\<forall>s. \<not> jumps (orelse s) \<Longrightarrow> \<not> jumps (while_loop n test body orelse s)"
proof (induction n test body orelse s rule: while_loop.induct)
  case (1 count test body orelse s)
  then show ?case
    by (subst while_loop.simps) (auto split: sum.splits outcome.splits)
qed

lemma for_jumps: "\<forall>s. \<not> jumps (orelse s) \<Longrightarrow> \<not> jumps (for_loop x items body orelse s)"
  by (induction items arbitrary: s) (auto split: sum.splits outcome.splits)

lemma exec_jumps: "well_nested c False \<Longrightarrow> \<not> jumps (exec h c s)"
proof (induction c arbitrary: s)
  case (S_If e yes no)
  then have "\<not> jumps (seq (map (exec h) yes) s)" "\<not> jumps (seq (map (exec h) no) s)" for s
    by (intro seq_jumps; simp add: list_all_iff)+
  then show ?case by (simp add: visit_if_def split: sum.splits)
next
  case (S_While e body orelse)
  then have "\<not> jumps (seq (map (exec h) orelse) s)" for s
    by (intro seq_jumps) (simp add: list_all_iff)
  then show ?case by (simp add: while_jumps)
next
  case (S_For t e body orelse)
  then have "\<not> jumps (seq (map (exec h) orelse) s)" for s
    by (intro seq_jumps) (simp add: list_all_iff)
  then show ?case by (simp add: visit_for_def for_jumps split: option.splits sum.splits val.splits)
qed (simp_all add: simply_def split: sum.splits)

subsection \<open>Properties of scripts\<close>


text \<open>
  C22: types. Starting from an environment built from numbers, decimals and text, a script leaves
  truth values, integers, floats and ranges in its variables, never a complex number; and a
  script whose breaks and continues stand in loops ends normally or with an exception, in any
  state.
\<close>

theorem scripts_are_typed:
  assumes "build_env raws = Inr env"
  shows "(\<forall>env' x v. exec_module h body env = Inr env' \<and> env' x = Some v \<longrightarrow> \<not> is_complex v) \<and>
    (list_all (\<lambda>c. well_nested c False) body \<longrightarrow> \<not> jumps (seq (map (exec h) body) s))"
proof -
  have "within_limit \<lparr>rs_env = env, rs_iters = 0\<rparr>"
    using build_env_numbers [OF assms] by (simp add: within_limit_def max_total_iters_def)
  then have "numbers_only env'" if "exec_module h body env = Inr env'" for env'
    using limited.module_keeps [OF that] by (auto simp: within_limit_def)
  moreover have "\<not> jumps (seq (map (exec h) body) s)" if "list_all (\<lambda>c. well_nested c False) body"
    using that exec_jumps by (intro seq_jumps) (auto simp: list_all_iff)
  ultimately show ?thesis by (auto simp: numbers_only_def)
qed

text \<open>
  A result that is never assigned is zero: when a script assigns the result variable nowhere
  and the environment does not hold it, a run that ends gives zero; the error that asks for an
  assignment is never raised.
\<close>

theorem unassigned_result_is_zero:
  assumes "run_formula_script h (P_Module body) raws result_var = Inr d" "build_env raws = Inr env"
    and "env result_var = None" "result_var \<notin> block_targets body"
  shows "d = Fin 0"
proof -
  let ?env = "env(result_var \<mapsto> V_Int 0)"
  obtain env' v where run: "exec_module h body ?env = Inr env'" "env' result_var = Some v" "as_float v = Inr d"
    using assms(1-3) by (auto simp: run_formula_script_def result_simps formula_raise_def Let_def split: option.splits)
  have "env' result_var = ?env result_var"
    using untouched.module_keeps [OF run(1), of "block_targets body" ?env] assms(4) by (auto simp: unchanged_def)
  with run(2) have "v = V_Int 0" by simp
  with run(3) show ?thesis
    by (simp add: as_float_def double_of_int_def nearest_double_def)
qed

subsection \<open>Statements without limits\<close>

text \<open>
  The same statements as Python runs them, without limits on iterations: what a statement, a
  block, a \<^verbatim>\<open>while\<close> and the rest of a \<^verbatim>\<open>for\<close> make of an environment. The two counts of a run
  are its loop iterations and the turns of its longest single \<^verbatim>\<open>while\<close>; a \<^verbatim>\<open>while\<close> has its own
  turns as a count before them.
\<close>

datatype result = Ends env | Breaks env | Continues env | Raises py_error

definition simple_stmt :: "stmt \<Rightarrow> bool" where
  "simple_stmt c = (case c of S_Break \<Rightarrow> False | S_Continue \<Rightarrow> False | S_If e yes no \<Rightarrow> False
     | S_While e body orelse \<Rightarrow> False | S_For t e body orelse \<Rightarrow> False | _ \<Rightarrow> True)"

definition ends :: "result \<Rightarrow> bool" where
  "ends r = (\<exists>env. r = Ends env)"

inductive runs :: "host \<Rightarrow> stmt \<Rightarrow> env \<Rightarrow> result \<Rightarrow> nat \<Rightarrow> nat \<Rightarrow> bool"
  and runs_block :: "host \<Rightarrow> stmt list \<Rightarrow> env \<Rightarrow> result \<Rightarrow> nat \<Rightarrow> nat \<Rightarrow> bool"
  and runs_while :: "host \<Rightarrow> expr \<Rightarrow> stmt list \<Rightarrow> stmt list \<Rightarrow> env \<Rightarrow> result \<Rightarrow> nat \<Rightarrow> nat \<Rightarrow> nat \<Rightarrow> bool"
  and runs_for :: "host \<Rightarrow> string \<Rightarrow> int list \<Rightarrow> stmt list \<Rightarrow> stmt list \<Rightarrow> env \<Rightarrow> result \<Rightarrow> nat \<Rightarrow> nat \<Rightarrow> bool"
  for h :: host
where
  Simple: "simple_stmt c \<Longrightarrow> exec_simple h c env = Inr env' \<Longrightarrow> runs h c env (Ends env') 0 0"
| Simple_Error: "simple_stmt c \<Longrightarrow> exec_simple h c env = Inl x \<Longrightarrow> runs h c env (Raises x) 0 0"
| Break: "runs h S_Break env (Breaks env) 0 0"
| Continue: "runs h S_Continue env (Continues env) 0 0"
| If_Error: "eval h env e = Inl x \<Longrightarrow> runs h (S_If e yes no) env (Raises x) 0 0"
| If: "eval h env e = Inr v \<Longrightarrow> runs_block h (if truth v then yes else no) env r n k \<Longrightarrow>
    runs h (S_If e yes no) env r n k"
| While: "runs_while h e body orelse env r w n k \<Longrightarrow> runs h (S_While e body orelse) env r n (max w k)"
| For_Target: "runs h (S_For None e body orelse) env (Raises (Formula_Error Not_Allowed)) 0 0"
| For_Error: "eval h env e = Inl x \<Longrightarrow> runs h (S_For (Some t) e body orelse) env (Raises x) 0 0"
| For_No_Range: "eval h env e = Inr v \<Longrightarrow> \<not> is_range v \<Longrightarrow>
    runs h (S_For (Some t) e body orelse) env (Raises (Formula_Error Not_A_Range)) 0 0"
| For: "eval h env e = Inr (V_Range a b c) \<Longrightarrow> runs_for h t (range_items a b c) body orelse env r n k \<Longrightarrow>
    runs h (S_For (Some t) e body orelse) env r n k"
| B_Nil: "runs_block h [] env (Ends env) 0 0"
| B_Cons: "runs h c env (Ends env') n k \<Longrightarrow> runs_block h cs env' r m l \<Longrightarrow>
    runs_block h (c # cs) env r (n + m) (max k l)"
| B_Stop: "runs h c env r n k \<Longrightarrow> \<not> ends r \<Longrightarrow> runs_block h (c # cs) env r n k"
| W_Error: "eval h env e = Inl x \<Longrightarrow> runs_while h e body orelse env (Raises x) 0 0 0"
| W_Done: "eval h env e = Inr v \<Longrightarrow> \<not> truth v \<Longrightarrow> runs_block h orelse env r n k \<Longrightarrow>
    runs_while h e body orelse env r 0 n k"
| W_Step: "eval h env e = Inr v \<Longrightarrow> truth v \<Longrightarrow> runs_block h body env q n k \<Longrightarrow> q \<in> {Ends env', Continues env'} \<Longrightarrow>
    runs_while h e body orelse env' r w m l \<Longrightarrow>
    runs_while h e body orelse env r (Suc w) (Suc (n + m)) (max k l)"
| W_Break: "eval h env e = Inr v \<Longrightarrow> truth v \<Longrightarrow> runs_block h body env (Breaks env') n k \<Longrightarrow>
    runs_while h e body orelse env (Ends env') 1 (Suc n) k"
| W_Raise: "eval h env e = Inr v \<Longrightarrow> truth v \<Longrightarrow> runs_block h body env (Raises x) n k \<Longrightarrow>
    runs_while h e body orelse env (Raises x) 1 (Suc n) k"
| F_Done: "runs_block h orelse env r n k \<Longrightarrow> runs_for h t [] body orelse env r n k"
| F_Error: "assign_name t (V_Int i) env = Inl x \<Longrightarrow> runs_for h t (i # items) body orelse env (Raises x) 1 0"
| F_Step: "assign_name t (V_Int i) env = Inr env1 \<Longrightarrow> runs_block h body env1 q n k \<Longrightarrow>
    q \<in> {Ends env', Continues env'} \<Longrightarrow> runs_for h t items body orelse env' r m l \<Longrightarrow>
    runs_for h t (i # items) body orelse env r (Suc (n + m)) (max k l)"
| F_Break: "assign_name t (V_Int i) env = Inr env1 \<Longrightarrow> runs_block h body env1 (Breaks env') n k \<Longrightarrow>
    runs_for h t (i # items) body orelse env (Ends env') (Suc n) k"
| F_Raise: "assign_name t (V_Int i) env = Inr env1 \<Longrightarrow> runs_block h body env1 (Raises x) n k \<Longrightarrow>
    runs_for h t (i # items) body orelse env (Raises x) (Suc n) k"

text \<open>The outcome of the interpreter without its count, and the error of its limits.\<close>

fun unlimited :: "outcome \<Rightarrow> result" where
  "unlimited (Normal s) = Ends (rs_env s)"
| "unlimited (Broken s) = Breaks (rs_env s)"
| "unlimited (Continued s) = Continues (rs_env s)"
| "unlimited (Failed x) = Raises x"

abbreviation stopped :: outcome where
  "stopped \<equiv> Failed (Formula_Error Too_Many_Iterations)"

lemma bump_stops: "bump s = Inl x \<Longrightarrow> x = Formula_Error Too_Many_Iterations \<and> max_total_iters < rs_iters s + 1"
  by (auto simp: bump_def Let_def formula_raise_def split: if_splits)

lemma bump_env: "bump s = Inr t \<Longrightarrow> rs_env t = rs_env s"
  by (simp add: bump_Inr)

subsection \<open>The interpreter runs scripts as Python does\<close>

text \<open>A piece of the interpreter that is not stopped does what some run does.\<close>

definition sound :: "(run_state \<Rightarrow> outcome) \<Rightarrow> (env \<Rightarrow> result \<Rightarrow> bool) \<Rightarrow> bool" where
  "sound f rel = (\<forall>s. f s \<noteq> stopped \<longrightarrow> rel (rs_env s) (unlimited (f s)))"

abbreviation runs_some :: "host \<Rightarrow> stmt \<Rightarrow> env \<Rightarrow> result \<Rightarrow> bool" where
  "runs_some h c env r \<equiv> \<exists>n k. runs h c env r n k"

abbreviation runs_some_block :: "host \<Rightarrow> stmt list \<Rightarrow> env \<Rightarrow> result \<Rightarrow> bool" where
  "runs_some_block h cs env r \<equiv> \<exists>n k. runs_block h cs env r n k"

abbreviation runs_some_while :: "host \<Rightarrow> expr \<Rightarrow> stmt list \<Rightarrow> stmt list \<Rightarrow> env \<Rightarrow> result \<Rightarrow> bool" where
  "runs_some_while h e body orelse env r \<equiv> \<exists>w n k. runs_while h e body orelse env r w n k"

abbreviation runs_some_for :: "host \<Rightarrow> string \<Rightarrow> int list \<Rightarrow> stmt list \<Rightarrow> stmt list \<Rightarrow> env \<Rightarrow> result \<Rightarrow> bool" where
  "runs_some_for h t items body orelse env r \<equiv> \<exists>n k. runs_for h t items body orelse env r n k"

abbreviation while_of :: "host \<Rightarrow> int \<Rightarrow> expr \<Rightarrow> stmt list \<Rightarrow> stmt list \<Rightarrow> run_state \<Rightarrow> outcome" where
  "while_of h n e body orelse \<equiv>
     while_loop n (\<lambda>env. eval h env e) (seq (map (exec h) body)) (seq (map (exec h) orelse))"

abbreviation for_of :: "host \<Rightarrow> string \<Rightarrow> int list \<Rightarrow> stmt list \<Rightarrow> stmt list \<Rightarrow> run_state \<Rightarrow> outcome" where
  "for_of h t items body orelse \<equiv> for_loop t items (seq (map (exec h) body)) (seq (map (exec h) orelse))"

text \<open>One turn of each loop, after the counting.\<close>

definition while_turn :: "host \<Rightarrow> expr \<Rightarrow> stmt list \<Rightarrow> stmt list \<Rightarrow> int \<Rightarrow> run_state \<Rightarrow> outcome" where
  "while_turn h e body orelse n t = (case seq (map (exec h) body) t of
     Normal u \<Rightarrow> while_of h (n + 1) e body orelse u
   | Continued u \<Rightarrow> while_of h (n + 1) e body orelse u
   | Broken u \<Rightarrow> Normal u | Failed x \<Rightarrow> Failed x)"

definition for_turn :: "host \<Rightarrow> string \<Rightarrow> int list \<Rightarrow> stmt list \<Rightarrow> stmt list \<Rightarrow> run_state \<Rightarrow> outcome" where
  "for_turn h t items body orelse u = (case seq (map (exec h) body) u of
     Normal w \<Rightarrow> for_of h t items body orelse w
   | Continued w \<Rightarrow> for_of h t items body orelse w
   | Broken w \<Rightarrow> Normal w | Failed x \<Rightarrow> Failed x)"

lemma while_turns:
  assumes "rs_env s = env" "eval h env e = Inr v" "truth v"
  shows "while_of h n e body orelse s =
    (if max_total_iters < rs_iters s + 1 \<or> max_loop_iters < n + 1 then stopped
     else while_turn h e body orelse n (s\<lparr>rs_iters := rs_iters s + 1\<rparr>))"
  using assms by (subst while_loop.simps) (simp add: bump_def Let_def formula_raise_def while_turn_def)

lemma for_turns:
  assumes "rs_env s = env" "assign_name t (V_Int i) env = Inr env1"
  shows "for_of h t (i # items) body orelse s =
    (if max_total_iters < rs_iters s + 1 then stopped
     else for_turn h t items body orelse \<lparr>rs_env = env1, rs_iters = rs_iters s + 1\<rparr>)"
  using assms by (cases s) (simp add: bump_def Let_def formula_raise_def for_turn_def)

lemma turn_cases:
  obtains (again) u where "unlimited out \<in> {Ends (rs_env u), Continues (rs_env u)}" "out = Normal u \<or> out = Continued u"
  | (breaks) u where "out = Broken u" | (raises) x where "out = Failed x"
  by (cases out) auto

lemma soundD: "sound f rel \<Longrightarrow> f s \<noteq> stopped \<Longrightarrow> rel (rs_env s) (unlimited (f s))"
  by (simp add: sound_def)

lemma sound_seq:
  "(\<And>c. c \<in> set cs \<Longrightarrow> sound (exec h c) (runs_some h c)) \<Longrightarrow> sound (seq (map (exec h) cs)) (runs_some_block h cs)"
proof (induction cs)
  case (Cons c cs)
  then have IH: "sound (exec h c) (runs_some h c)" "sound (seq (map (exec h) cs)) (runs_some_block h cs)" by simp_all
  have "runs_some_block h (c # cs) (rs_env s) (unlimited (seq (map (exec h) (c # cs)) s))"
    if "seq (map (exec h) (c # cs)) s \<noteq> stopped" for s
  proof -
    from that have "exec h c s \<noteq> stopped" by auto
    from soundD [OF IH(1) this] obtain n k where run: "runs h c (rs_env s) (unlimited (exec h c s)) n k" by blast
    show ?thesis
    proof (cases "exec h c s")
      case (Normal t)
      then have "runs_some_block h cs (rs_env t) (unlimited (seq (map (exec h) cs) t))"
        using that soundD [OF IH(2)] by simp
      then show ?thesis using run Normal by (auto intro: B_Cons)
    qed (use B_Stop [OF run] in \<open>auto simp: ends_def\<close>)
  qed
  then show ?case by (simp add: sound_def)
qed (auto simp: sound_def intro: B_Nil)

lemma sound_while:
  assumes "sound (seq (map (exec h) body)) (runs_some_block h body)"
    and "sound (seq (map (exec h) orelse)) (runs_some_block h orelse)"
  shows "sound (while_of h n e body orelse) (runs_some_while h e body orelse)"
proof -
  have "runs_some_while h e body orelse (rs_env s) (unlimited (while_of h n e body orelse s))"
    if "while_of h n e body orelse s \<noteq> stopped" for s n
    using that
  proof (induction "nat (max_loop_iters - n)" arbitrary: n s rule: less_induct)
    case less
    show ?case
    proof (cases "eval h (rs_env s) e")
      case (Inl x)
      then show ?thesis by (subst while_loop.simps) (auto intro: W_Error)
    next
      case v: (Inr v)
      show ?thesis
      proof (cases "truth v")
        case False
        then have "while_of h n e body orelse s = seq (map (exec h) orelse) s"
          using v by (subst while_loop.simps) simp
        moreover obtain m k where "runs_block h orelse (rs_env s) (unlimited (seq (map (exec h) orelse) s)) m k"
          using less.prems soundD [OF assms(2), of s] calculation by auto
        ultimately show ?thesis using W_Done [OF v False] by metis
      next
        case True
        let ?t = "s\<lparr>rs_iters := rs_iters s + 1\<rparr>"
        have turn: "while_of h n e body orelse s = while_turn h e body orelse n ?t" "n < max_loop_iters"
          using less.prems while_turns [OF refl v True, of n body orelse] by (auto split: if_splits)
        then have "seq (map (exec h) body) ?t \<noteq> stopped" using less.prems by (auto simp: while_turn_def)
        from soundD [OF assms(1) this] obtain m k
          where run: "runs_block h body (rs_env s) (unlimited (seq (map (exec h) body) ?t)) m k" by auto
        have again': "runs_some_while h e body orelse (rs_env u) (unlimited (while_of h (n + 1) e body orelse u))"
          if "while_of h (n + 1) e body orelse u \<noteq> stopped" for u
          using less.hyps [of "n + 1" u] that turn(2) by simp
        show ?thesis
        proof (cases rule: turn_cases [of "seq (map (exec h) body) ?t"])
          case (again u)
          then have eq: "while_of h n e body orelse s = while_of h (n + 1) e body orelse u"
            using turn(1) by (auto simp: while_turn_def)
          with again' [of u] less.prems obtain w p l
            where "runs_while h e body orelse (rs_env u) (unlimited (while_of h (n + 1) e body orelse u)) w p l" by auto
          from W_Step [OF v True run again(1) this] eq show ?thesis by metis
        next
          case (breaks u)
          then have "while_of h n e body orelse s = Normal u" using turn(1) by (simp only: while_turn_def outcome.case)
          then show ?thesis using breaks run W_Break [OF v True] by (metis unlimited.simps(1,2))
        next
          case (raises x)
          then have "while_of h n e body orelse s = Failed x" using turn(1) by (simp only: while_turn_def outcome.case)
          then show ?thesis using raises run W_Raise [OF v True] by (metis unlimited.simps(4))
        qed
      qed
    qed
  qed
  then show ?thesis by (simp add: sound_def)
qed

lemma sound_for:
  assumes "sound (seq (map (exec h) body)) (runs_some_block h body)"
    and "sound (seq (map (exec h) orelse)) (runs_some_block h orelse)"
  shows "sound (for_of h t items body orelse) (runs_some_for h t items body orelse)"
proof (induction items)
  case Nil
  have "runs_some_for h t [] body orelse (rs_env s) (unlimited (seq (map (exec h) orelse) s))"
    if "seq (map (exec h) orelse) s \<noteq> stopped" for s
    using soundD [OF assms(2) that] F_Done by blast
  then show ?case by (simp add: sound_def)
next
  case (Cons i items)
  have "runs_some_for h t (i # items) body orelse (rs_env s) (unlimited (for_of h t (i # items) body orelse s))"
    if free: "for_of h t (i # items) body orelse s \<noteq> stopped" for s
  proof (cases "assign_name t (V_Int i) (rs_env s)")
    case (Inl x)
    then have "for_of h t (i # items) body orelse s = Failed x"
      using free by (auto simp: bump_def Let_def formula_raise_def)
    then have "unlimited (for_of h t (i # items) body orelse s) = Raises x" by (simp only: unlimited.simps)
    then show ?thesis using F_Error [OF Inl] by metis
  next
    case (Inr env1)
    let ?u = "\<lparr>rs_env = env1, rs_iters = rs_iters s + 1\<rparr>"
    have turn: "for_of h t (i # items) body orelse s = for_turn h t items body orelse ?u"
      using free for_turns [OF refl Inr, where h = h and items = items and body = body and orelse = orelse] by (auto split: if_splits)
    then have "seq (map (exec h) body) ?u \<noteq> stopped" using free by (auto simp: for_turn_def)
    from soundD [OF assms(1) this] obtain m k
      where run: "runs_block h body env1 (unlimited (seq (map (exec h) body) ?u)) m k" by auto
    show ?thesis
    proof (cases rule: turn_cases [of "seq (map (exec h) body) ?u"])
      case (again u)
      then have eq: "for_of h t (i # items) body orelse s = for_of h t items body orelse u"
        using turn by (auto simp: for_turn_def)
      with soundD [OF Cons.IH, of u] free obtain p l
        where "runs_for h t items body orelse (rs_env u) (unlimited (for_of h t items body orelse u)) p l" by auto
      from F_Step [OF Inr run again(1) this] eq show ?thesis by metis
    next
      case (breaks u)
      then have "for_of h t (i # items) body orelse s = Normal u" using turn by (simp only: for_turn_def outcome.case)
      then show ?thesis using breaks run F_Break [OF Inr]
        by (metis unlimited.simps(1,2))
    next
      case (raises x)
      then have "for_of h t (i # items) body orelse s = Failed x" using turn by (simp only: for_turn_def outcome.case)
      then show ?thesis using raises run F_Raise [OF Inr]
        by (metis unlimited.simps(4))
    qed
  qed
  then show ?case by (simp add: sound_def)
qed

lemma sound_simple: "simple_stmt c \<Longrightarrow> sound (simply (exec_simple h c)) (runs_some h c)"
  by (fastforce simp: sound_def simply_def intro: Simple Simple_Error split: sum.splits)

lemma exec_sound: "sound (exec h c) (runs_some h c)"
proof (induction c)
  case (S_If e yes no)
  have blocks: "sound (seq (map (exec h) yes)) (runs_some_block h yes)"
    "sound (seq (map (exec h) no)) (runs_some_block h no)"
    using S_If.IH by (intro sound_seq; simp)+
  have "runs_some h (S_If e yes no) (rs_env s) (unlimited (exec h (S_If e yes no) s))"
    if "exec h (S_If e yes no) s \<noteq> stopped" for s
  proof (cases "eval h (rs_env s) e")
    case (Inl x)
    then show ?thesis using If_Error [OF Inl] by (auto simp: visit_if_def)
  next
    case (Inr v)
    have run: "exec h (S_If e yes no) s = seq (map (exec h) (if truth v then yes else no)) s"
      using Inr by (simp add: visit_if_def)
    moreover have "runs_some_block h (if truth v then yes else no) (rs_env s)
        (unlimited (seq (map (exec h) (if truth v then yes else no)) s))"
      using that run soundD [OF blocks(1), of s] soundD [OF blocks(2), of s] by (cases "truth v") auto
    ultimately show ?thesis using If [OF Inr] by metis
  qed
  then show ?case by (simp add: sound_def)
next
  case (S_While e body orelse)
  have "sound (seq (map (exec h) body)) (runs_some_block h body)"
    "sound (seq (map (exec h) orelse)) (runs_some_block h orelse)"
    using S_While.IH by (intro sound_seq; simp)+
  from sound_while [OF this, of 0 e] show ?case
    unfolding sound_def exec.simps by (metis While)
next
  case (S_For t e body orelse)
  have blocks: "sound (seq (map (exec h) body)) (runs_some_block h body)"
    "sound (seq (map (exec h) orelse)) (runs_some_block h orelse)"
    using S_For.IH by (intro sound_seq; simp)+
  have "runs_some h (S_For t e body orelse) (rs_env s) (unlimited (exec h (S_For t e body orelse) s))"
    if "exec h (S_For t e body orelse) s \<noteq> stopped" for s
  proof (cases t)
    case None
    then have "exec h (S_For t e body orelse) s = Failed (Formula_Error Not_Allowed)" by (simp add: visit_for_def)
    then show ?thesis using For_Target None by (metis unlimited.simps(4))
  next
    case (Some x)
    show ?thesis
    proof (cases "eval h (rs_env s) e")
      case (Inl err)
      then have "exec h (S_For t e body orelse) s = Failed err" by (simp add: visit_for_def Some)
      then show ?thesis using For_Error [OF Inl] Some by (metis unlimited.simps(4))
    next
      case (Inr v)
      show ?thesis
      proof (cases "is_range v")
        case True
        then obtain a b c where v: "v = V_Range a b c" by (cases v) auto
        then have run: "exec h (S_For t e body orelse) s = for_of h x (range_items a b c) body orelse s"
          using Inr by (simp add: visit_for_def Some)
        with that soundD [OF sound_for [OF blocks]]
        have "runs_some_for h x (range_items a b c) body orelse (rs_env s)
            (unlimited (for_of h x (range_items a b c) body orelse s))" by simp
        then show ?thesis using For [OF Inr [unfolded v]] run Some by metis
      next
        case False
        then have "exec h (S_For t e body orelse) s = Failed (Formula_Error Not_A_Range)"
          using Inr by (cases v) (simp_all add: visit_for_def Some)
        then show ?thesis using For_No_Range [OF Inr False] Some by (metis unlimited.simps(4))
      qed
    qed
  qed
  then show ?case by (simp add: sound_def)
next
  case S_Break
  have "runs_some h S_Break (rs_env s) (unlimited (exec h S_Break s))" for s using Break by auto
  then show ?case by (simp add: sound_def)
next
  case S_Continue
  have "runs_some h S_Continue (rs_env s) (unlimited (exec h S_Continue s))" for s using Continue by auto
  then show ?case by (simp add: sound_def)
qed (simp_all only: exec.simps, auto intro!: sound_simple simp: simple_stmt_def)

text \<open>
  Conversely, a run within the limits is what the interpreter does, and it counts its iterations;
  beyond the limits it may stop.
\<close>

definition spent :: "outcome \<Rightarrow> int \<Rightarrow> bool" where
  "spent out m = (case out of Normal t \<Rightarrow> rs_iters t = m | Broken t \<Rightarrow> rs_iters t = m
     | Continued t \<Rightarrow> rs_iters t = m | Failed x \<Rightarrow> True)"

definition follows :: "(run_state \<Rightarrow> outcome) \<Rightarrow> env \<Rightarrow> result \<Rightarrow> nat \<Rightarrow> int \<Rightarrow> bool" where
  "follows f env r n k = (\<forall>s. rs_env s = env \<longrightarrow>
     unlimited (f s) = r \<and> spent (f s) (rs_iters s + int n) \<or>
     f s = stopped \<and> (max_total_iters < rs_iters s + int n \<or> max_loop_iters < k))"

lemma spent_simps [simp]:
  "spent (Normal t) m = (rs_iters t = m)" "spent (Broken t) m = (rs_iters t = m)"
  "spent (Continued t) m = (rs_iters t = m)" "spent (Failed x) m"
  by (simp_all add: spent_def)

lemma followsD: "follows f env r n k \<Longrightarrow> rs_env s = env \<Longrightarrow>
    unlimited (f s) = r \<and> spent (f s) (rs_iters s + int n) \<or>
    f s = stopped \<and> (max_total_iters < rs_iters s + int n \<or> max_loop_iters < k)"
  by (simp add: follows_def)

lemma exec_simple_stmt: "simple_stmt c \<Longrightarrow> exec h c = simply (exec_simple h c)"
  by (cases c) (simp_all add: simple_stmt_def)

lemma follows_step [consumes 3, case_names goes stops]:
  assumes "follows f env q n k" "q \<in> {Ends env', Continues env'}" "rs_env s = env"
  obtains (goes) u where "f s = Normal u \<or> f s = Continued u" "rs_env u = env'" "rs_iters u = rs_iters s + int n"
  | (stops) "f s = stopped" "max_total_iters < rs_iters s + int n \<or> max_loop_iters < k"
  using followsD [OF assms(1,3)] assms(2) by (cases "f s") auto

lemma exec_follows:
  "runs h c env r n k \<Longrightarrow> follows (exec h c) env r n (int k)"
  "runs_block h cs env r n k \<Longrightarrow> follows (seq (map (exec h) cs)) env r n (int k)"
  "runs_while h e body orelse env r w n k \<Longrightarrow>
     \<forall>i \<ge> 0. follows (while_of h i e body orelse) env r n (max (i + int w) (int k))"
  "runs_for h t items body orelse env r n k \<Longrightarrow> follows (for_of h t items body orelse) env r n (int k)"
proof (induction rule: runs_runs_block_runs_while_runs_for.inducts)
  case (Simple c env env')
  then show ?case by (simp add: exec_simple_stmt follows_def simply_def)
next
  case (Simple_Error c env x)
  then show ?case by (simp add: exec_simple_stmt follows_def simply_def)
next
  case (If e env v yes no r n k)
  then show ?case by (cases "truth v") (simp_all add: follows_def visit_if_def)
next
  case (While e body orelse env r w n k)
  then have "follows (while_of h 0 e body orelse) env r n (max (0 + int w) (int k))" by blast
  then show ?case by (simp add: of_nat_max)
next
  case (For e env a b c t body orelse r n k)
  then show ?case by (simp add: follows_def visit_for_def)
next
  case (For_No_Range e env v t body orelse)
  then show ?case by (cases v) (simp_all add: follows_def visit_for_def)
next
  case (B_Cons c env env' n k cs r m l)
  have parts: "follows (exec h c) env (Ends env') n (int k)" "follows (seq (map (exec h) cs)) env' r m (int l)"
    using B_Cons.IH by blast+
  have "unlimited (seq (map (exec h) (c # cs)) s) = r \<and> spent (seq (map (exec h) (c # cs)) s) (rs_iters s + int (n + m)) \<or>
      seq (map (exec h) (c # cs)) s = stopped \<and>
      (max_total_iters < rs_iters s + int (n + m) \<or> max_loop_iters < int (max k l))" if s: "rs_env s = env" for s
  proof -
    from followsD [OF parts(1) s] consider
      u where "exec h c s = Normal u" "rs_env u = env'" "rs_iters u = rs_iters s + int n"
      | "exec h c s = stopped" "max_total_iters < rs_iters s + int n \<or> max_loop_iters < int k"
      by (cases "exec h c s") auto
    then show ?thesis
    proof cases
      case (1 u)
      with followsD [OF parts(2) 1(2)] show ?thesis by (auto simp: algebra_simps)
    qed auto
  qed
  then show ?case by (simp add: follows_def)
next
  case (B_Stop c env r n k cs)
  then show ?case
    by (fastforce simp: follows_def ends_def split: outcome.splits)
next
  case (W_Error env e x body orelse)
  then show ?case by (simp add: follows_def while_loop.simps)
next
  case (W_Done env e v orelse r n k body)
  then show ?case by (auto simp: follows_def while_loop.simps)
next
  case (W_Step env e v body q n k env' orelse r w m l)
  have body: "follows (seq (map (exec h) body)) env q n (int k)" and v: "eval h env e = Inr v"
    and rest: "\<And>i. 0 \<le> i \<Longrightarrow> follows (while_of h i e body orelse) env' r m (max (i + int w) (int l))"
    using W_Step.IH by blast+
  have "unlimited (while_of h i e body orelse s) = r \<and>
        spent (while_of h i e body orelse s) (rs_iters s + int (Suc (n + m))) \<or>
      while_of h i e body orelse s = stopped \<and> (max_total_iters < rs_iters s + int (Suc (n + m)) \<or>
        max_loop_iters < max (i + int (Suc w)) (int (max k l)))"
    if i: "0 \<le> i" and s: "rs_env s = env" for i s
  proof -
    let ?t = "s\<lparr>rs_iters := rs_iters s + 1\<rparr>"
    note turn = while_turns [OF s v W_Step.hyps(1), of i body orelse]
    have t: "rs_env ?t = env" using s by simp
    from body W_Step.hyps(2) t show ?thesis
    proof (cases rule: follows_step)
      case (goes u)
      with followsD [OF rest [of "i + 1"] goes(2)] turn i show ?thesis
        by (auto simp: while_turn_def algebra_simps)
    next
      case stops
      with turn show ?thesis by (auto simp: while_turn_def)
    qed
  qed
  then show ?case by (simp add: follows_def)
next
  case (W_Break env e v body env' n k orelse)
  have body: "follows (seq (map (exec h) body)) env (Breaks env') n (int k)" and v: "eval h env e = Inr v"
    using W_Break.IH by blast+
  have "unlimited (while_of h i e body orelse s) = Ends env' \<and> spent (while_of h i e body orelse s) (rs_iters s + int (Suc n)) \<or>
      while_of h i e body orelse s = stopped \<and> (max_total_iters < rs_iters s + int (Suc n) \<or>
        max_loop_iters < max (i + int 1) (int k))"
    if i: "0 \<le> i" and s: "rs_env s = env" for i s
    using while_turns [OF s v W_Break.hyps(1), of i body orelse]
      followsD [OF body, of "s\<lparr>rs_iters := rs_iters s + 1\<rparr>"] s
    by (cases "seq (map (exec h) body) (s\<lparr>rs_iters := rs_iters s + 1\<rparr>)") (auto simp: while_turn_def algebra_simps)
  then show ?case by (simp add: follows_def)
next
  case (W_Raise env e v body x n k orelse)
  have body: "follows (seq (map (exec h) body)) env (Raises x) n (int k)" and v: "eval h env e = Inr v"
    using W_Raise.IH by blast+
  have "unlimited (while_of h i e body orelse s) = Raises x \<and> spent (while_of h i e body orelse s) (rs_iters s + int (Suc n)) \<or>
      while_of h i e body orelse s = stopped \<and> (max_total_iters < rs_iters s + int (Suc n) \<or>
        max_loop_iters < max (i + int 1) (int k))"
    if i: "0 \<le> i" and s: "rs_env s = env" for i s
    using while_turns [OF s v W_Raise.hyps(1), of i body orelse]
      followsD [OF body, of "s\<lparr>rs_iters := rs_iters s + 1\<rparr>"] s
    by (cases "seq (map (exec h) body) (s\<lparr>rs_iters := rs_iters s + 1\<rparr>)") (auto simp: while_turn_def algebra_simps)
  then show ?case by (simp add: follows_def)
next
  case (F_Step t i env env1 body q n k env' items orelse r m l)
  have body: "follows (seq (map (exec h) body)) env1 q n (int k)"
    and rest: "follows (for_of h t items body orelse) env' r m (int l)"
    and assign: "assign_name t (V_Int i) env = Inr env1" using F_Step by blast+
  have "unlimited (for_of h t (i # items) body orelse s) = r \<and>
        spent (for_of h t (i # items) body orelse s) (rs_iters s + int (Suc (n + m))) \<or>
      for_of h t (i # items) body orelse s = stopped \<and>
        (max_total_iters < rs_iters s + int (Suc (n + m)) \<or> max_loop_iters < int (max k l))" if s: "rs_env s = env" for s
  proof -
    let ?u = "\<lparr>rs_env = env1, rs_iters = rs_iters s + 1\<rparr>"
    note turn = for_turns [OF s assign, where h = h and items = items and body = body and orelse = orelse]
    have u: "rs_env ?u = env1" by simp
    from body F_Step.hyps(2) u show ?thesis
    proof (cases rule: follows_step)
      case (goes w)
      with followsD [OF rest goes(2)] turn show ?thesis
        by (auto simp: for_turn_def algebra_simps simp del: for_loop.simps)
    next
      case stops
      with turn show ?thesis by (auto simp: for_turn_def simp del: for_loop.simps)
    qed
  qed
  then show ?case by (simp add: follows_def)
next
  case (F_Break t i env env1 body env' n k items orelse)
  have body: "follows (seq (map (exec h) body)) env1 (Breaks env') n (int k)"
    and assign: "assign_name t (V_Int i) env = Inr env1" using F_Break by blast+
  have "unlimited (for_of h t (i # items) body orelse s) = Ends env' \<and>
        spent (for_of h t (i # items) body orelse s) (rs_iters s + int (Suc n)) \<or>
      for_of h t (i # items) body orelse s = stopped \<and>
        (max_total_iters < rs_iters s + int (Suc n) \<or> max_loop_iters < int k)" if s: "rs_env s = env" for s
    using for_turns [OF s assign, where h = h and items = items and body = body and orelse = orelse]
      followsD [OF body, of "\<lparr>rs_env = env1, rs_iters = rs_iters s + 1\<rparr>"]
    by (cases "seq (map (exec h) body) \<lparr>rs_env = env1, rs_iters = rs_iters s + 1\<rparr>")
      (auto simp: for_turn_def algebra_simps simp del: for_loop.simps)
  then show ?case by (simp add: follows_def)
next
  case (F_Raise t i env env1 body x n k items orelse)
  have body: "follows (seq (map (exec h) body)) env1 (Raises x) n (int k)"
    and assign: "assign_name t (V_Int i) env = Inr env1" using F_Raise by blast+
  have "unlimited (for_of h t (i # items) body orelse s) = Raises x \<and>
        spent (for_of h t (i # items) body orelse s) (rs_iters s + int (Suc n)) \<or>
      for_of h t (i # items) body orelse s = stopped \<and>
        (max_total_iters < rs_iters s + int (Suc n) \<or> max_loop_iters < int k)" if s: "rs_env s = env" for s
    using for_turns [OF s assign, where h = h and items = items and body = body and orelse = orelse]
      followsD [OF body, of "\<lparr>rs_env = env1, rs_iters = rs_iters s + 1\<rparr>"]
    by (cases "seq (map (exec h) body) \<lparr>rs_env = env1, rs_iters = rs_iters s + 1\<rparr>")
      (auto simp: for_turn_def algebra_simps simp del: for_loop.simps)
  then show ?case by (simp add: follows_def)
next
  case (F_Error t i env x items body orelse)
  then show ?case by (auto simp: follows_def bump_def Let_def formula_raise_def)
qed (simp_all add: follows_def visit_if_def visit_for_def)

text \<open>
  C23: the limits only stop. Unless it is stopped by its limits, a script does what some run of
  Python's statements does, and every such run is what it does; a run of at most 50000
  iterations with at most 10000 in one \<^verbatim>\<open>while\<close> is never stopped.
\<close>

theorem limits_only_stop:
  fixes h body env
  defines "out \<equiv> seq (map (exec h) body) \<lparr>rs_env = env, rs_iters = 0\<rparr>"
  shows "(out \<noteq> Failed (Formula_Error Too_Many_Iterations) \<longrightarrow> (\<exists>n k. runs_block h body env (unlimited out) n k)) \<and>
    (runs_block h body env r n k \<longrightarrow> unlimited out = r \<or>
       out = Failed (Formula_Error Too_Many_Iterations) \<and> (50000 < n \<or> 10000 < k))"
proof -
  let ?s = "\<lparr>rs_env = env, rs_iters = 0\<rparr>"
  have "runs_some_block h body env (unlimited out)" if "out \<noteq> stopped"
    using soundD [OF sound_seq [OF exec_sound, where cs = body and h = h], of ?s] that by (simp add: out_def)
  moreover have "unlimited out = r \<or> out = stopped \<and> (50000 < n \<or> 10000 < k)" if "runs_block h body env r n k"
    using followsD [OF exec_follows(2) [OF that], of ?s]
    by (auto simp: out_def max_total_iters_def max_loop_iters_def)
  ultimately show ?thesis by blast
qed

text \<open>
  C24: no script runs for ever. When a script has no run at all, because a loop in it never ends,
  the interpreter still returns: it raises the error of its limits.
\<close>

theorem endless_scripts_are_stopped:
  assumes "\<not> (\<exists>r n k. runs_block h body env r n k)" "build_env raws = Inr env0"
    and "env = (if env0 result_var = None then env0(result_var \<mapsto> V_Int 0) else env0)"
  shows "run_formula_script h (P_Module body) raws result_var = Inl (Formula_Error Too_Many_Iterations)"
proof -
  have "seq (map (exec h) body) \<lparr>rs_env = env, rs_iters = 0\<rparr> = stopped"
    using soundD [OF sound_seq [OF exec_sound, where cs = body and h = h], of "\<lparr>rs_env = env, rs_iters = 0\<rparr>"] assms(1) by auto
  then have "exec_module h body env = Inl (Formula_Error Too_Many_Iterations)" by (simp add: exec_module_def)
  moreover have "env = (case env0 result_var of None \<Rightarrow> env0(result_var \<mapsto> V_Int 0) | Some _ \<Rightarrow> env0)"
    using assms(3) by (simp split: option.splits)
  ultimately show ?thesis by (simp add: run_formula_script_def assms(2) Let_def)
qed

subsection \<open>Sample scripts\<close>

text \<open>A host without powers and complex numbers, and a price per sample with a base charge.\<close>

definition plain_host :: host where
  "plain_host = \<lparr>h_op = (\<lambda>op v w. Inl Type_Error), h_abs = (\<lambda>x y. Inl Type_Error)\<rparr>"

definition price_script :: "stmt list" where
  "price_script =
     [S_Assign [Some ''charge''] (E_Const (V_Int 100)),
      S_For (Some ''i'') (E_Call (Some F_Range) False [E_Name ''A''])
        [S_Aug_Assign (Some ''charge'') (Some Add) (E_Name ''sc'')] []]"

definition price_inputs :: "(string \<times> raw_value) list" where
  "price_inputs = [(''A'', Raw_Number (V_Int 3)), (''sc'', Raw_Text '' 25 '')]"

definition price_env :: env where
  "price_env = [''A'' \<mapsto> V_Int 3, ''sc'' \<mapsto> V_Int 25]"

lemma price_inputs_env: "build_env price_inputs = Inr price_env"
proof -
  have "text_to_number '' 25 '' = Inr (V_Int 25)" by code_simp
  then show ?thesis
    by (simp add: price_inputs_def price_env_def raw_to_number_def to_number_def fun_eq_iff)
qed

lemma price_run:
  "\<exists>env. exec_module plain_host price_script price_env = Inr env \<and> env ''charge'' = Some (V_Int 175) \<and>
     env ''A'' = Some (V_Int 3)"
proof -
  let ?run = "exec_module plain_host price_script price_env"
  have "map_sum id (\<lambda>env. (env ''charge'', env ''A'')) ?run = Inr (Some (V_Int 175), Some (V_Int 3))"
    by code_simp
  then show ?thesis by (cases ?run) auto
qed


theorem scripts_are_typed_witness:
  "\<not> jumps (seq (map (exec plain_host) price_script) \<lparr>rs_env = price_env, rs_iters = 0\<rparr>)"
proof -
  have "list_all (\<lambda>c. well_nested c False) price_script" by code_simp
  with scripts_are_typed [OF price_inputs_env, of plain_host price_script] show ?thesis by blast
qed

theorem unassigned_result_is_zero_witness:
  "run_formula_script plain_host (P_Module price_script) price_inputs ''time'' = Inr (Fin 0)"
proof -
  let ?run = "run_formula_script plain_host (P_Module price_script) price_inputs ''time''"
  have "\<not> isl ?run" by code_simp
  then obtain d where run: "?run = Inr d" by (cases ?run) auto
  have "''time'' \<notin> block_targets price_script" by code_simp
  with unassigned_result_is_zero [OF run price_inputs_env] run show ?thesis by (simp add: price_env_def)
qed

theorem limits_only_stop_witness:
  "\<exists>n k. runs_block plain_host price_script price_env
     (unlimited (seq (map (exec plain_host) price_script) \<lparr>rs_env = price_env, rs_iters = 0\<rparr>)) n k"
proof -
  let ?out = "seq (map (exec plain_host) price_script) \<lparr>rs_env = price_env, rs_iters = 0\<rparr>"
  obtain env where "exec_module plain_host price_script price_env = Inr env" using price_run by blast
  then have "?out \<noteq> Failed (Formula_Error Too_Many_Iterations)" by (auto simp: exec_module_def)
  with limits_only_stop [of plain_host price_script price_env] show ?thesis by blast
qed

definition endless_script :: "stmt list" where
  "endless_script = [S_While (E_Const (V_Bool True)) [S_Pass] []]"

lemma endless_while:
  "runs h c env r n k \<Longrightarrow> c \<noteq> hd endless_script \<and> (c = S_Pass \<longrightarrow> r = Ends env)"
  "runs_block h cs env r n k \<Longrightarrow> cs \<noteq> endless_script \<and> (cs \<in> {[], [S_Pass]} \<longrightarrow> r = Ends env)"
  "runs_while h e body orelse env r w n k \<Longrightarrow> \<not> (e = E_Const (V_Bool True) \<and> body = [S_Pass])"
  "runs_for h t items body orelse env r n k \<Longrightarrow> True"
  by (induction rule: runs_runs_block_runs_while_runs_for.inducts)
    (auto simp: endless_script_def simple_stmt_def exec_simple_def ends_def)

theorem endless_scripts_are_stopped_witness:
  "run_formula_script plain_host (P_Module endless_script) price_inputs ''time'' =
     Inl (Formula_Error Too_Many_Iterations)"
proof -
  have "\<not> (\<exists>r n k. runs_block plain_host endless_script (price_env(''time'' \<mapsto> V_Int 0)) r n k)"
    using endless_while(2) by blast
  from endless_scripts_are_stopped [OF this price_inputs_env] show ?thesis by (simp add: price_env_def)
qed

end
