(* ===== verification/Slots.thy ===== *)
theory Slots
  imports Numbering "HOL-Library.List_Lexorder" "HOL-Library.Char_ord"
begin

text \<open>
  Slot masters, daily slots and their generation: \<^verbatim>\<open>equipment/slot_utils.py\<close>, the slot part of
  \<^verbatim>\<open>equipment/models.py\<close> (from \<^verbatim>\<open>SlotStatus\<close> to \<^verbatim>\<open>DailySlot\<close>, and \<^verbatim>\<open>Holiday\<close>) and the generation hook
  of \<^verbatim>\<open>equipment/slot_block_rules.py\<close>. A day is the number of days since 1 January 1970, a time of
  day its number of seconds, a timestamp the seconds since the epoch; the portal's zone is
  \<^verbatim>\<open>Asia/Kolkata\<close>, five and a half hours ahead without changes. The disruption log, which the
  slots are reported to, is not modelled: it writes its own tables only.
\<close>

subsection \<open>Days and times\<close>

type_synonym time_of_day = int

definition weekday :: "day \<Rightarrow> int" where
  "weekday d = (d + 3) mod 7"

definition zone_offset :: int where
  "zone_offset = 19800"

definition local_instant :: "day \<Rightarrow> time_of_day \<Rightarrow> timestamp" where
  "local_instant d t = 86400 * d + t - zone_offset"

definition hhmm :: "time_of_day \<Rightarrow> string" where
  "hhmm t = width 2 (nat (t div 3600)) @ '':'' @ width 2 (nat (t div 60 mod 60))"

definition local_start_hhmm :: "timestamp \<Rightarrow> string" where
  "local_start_hhmm t = hhmm ((t + zone_offset) mod 86400)"

subsection \<open>Rows\<close>

datatype slot_status =
    SL_AVAILABLE | SL_NOT_AVAILABLE | SL_BOOKED | SL_BLOCKED | SL_UNDER_MAINTENANCE | SL_OPERATOR_ABSENT
  | SL_BOOKING_NOT_UTILIZED | SL_SCHEDULED_MAINTENANCE | SL_RESERVED_EXTERNAL

datatype equipment_status = EQ_ACTIVE | EQ_MAINTENANCE | EQ_REPAIR | EQ_INACTIVE | EQ_DISPOSED | EQ_OTHER

record equipment =
  eq_id :: ident
  eq_status :: equipment_status
  eq_external_percent :: int

record slot_master =
  sm_id :: ident
  sm_equipment :: "ident option"
  sm_number :: int
  sm_name :: string
  sm_open :: time_of_day
  sm_close :: time_of_day
  sm_active :: bool

text \<open>A row that is not saved yet has the key 0.\<close>

record daily_slot =
  ds_id :: ident
  ds_master :: ident
  ds_date :: day
  ds_start :: timestamp
  ds_end :: timestamp
  ds_status :: slot_status
  ds_label :: "string option"
  ds_reference :: "string option"
  ds_booking :: "ident option"
  ds_released :: "timestamp option"

record holiday =
  hd_date :: day
  hd_active :: bool

datatype link_source = L_Created | L_Generated | L_Shared

record rule_summary =
  rs_to_block :: nat
  rs_booked :: nat
  rs_other :: nat
  rs_shared :: nat
  rs_future :: nat
  rs_blocked :: nat

record removal_summary =
  rm_unblocked :: nat
  rm_kept :: nat
  rm_unchanged :: nat
  rm_restored :: slot_status

record block_rule =
  bk_id :: ident
  bk_equipment :: ident
  bk_weekdays :: "int list"
  bk_times :: "string list"
  bk_start :: day
  bk_end :: day
  bk_label :: string
  bk_active :: bool
  bk_summary :: "rule_summary option"
  bk_created_by :: "ident option"
  bk_created_at :: timestamp
  bk_removed_by :: "ident option"
  bk_removed_at :: "timestamp option"
  bk_removal_summary :: "removal_summary option"

text \<open>
  A link row is its rule, its slot and its source, the rule and slot together being unique. The
  remembered range of a booking is its first start and last end.
\<close>

record slot_db =
  sl_masters :: "slot_master list"
  sl_slots :: "daily_slot list"
  sl_holidays :: "holiday list"
  sl_rules :: "block_rule list"
  sl_links :: "((ident \<times> ident) \<times> link_source) list"
  sl_ranges :: "ident \<Rightarrow> (timestamp \<times> timestamp) option"

definition slot_equipment :: "'z slot_db_scheme \<Rightarrow> daily_slot \<Rightarrow> ident option" where
  "slot_equipment db s = Option.bind (row_of sm_id (ds_master s) (sl_masters db)) sm_equipment"

definition slot_key :: "daily_slot \<Rightarrow> ident \<times> day" where
  "slot_key s = (ds_master s, ds_date s)"

subsection \<open>Slot masters\<close>

definition is_full_day_slot :: "time_of_day \<Rightarrow> time_of_day \<Rightarrow> bool" where
  "is_full_day_slot open_time close_time = (open_time = close_time)"

definition slot_master_duration_minutes :: "time_of_day \<Rightarrow> time_of_day \<Rightarrow> int" where
  "slot_master_duration_minutes open_time close_time =
     (let start = open_time div 60; finish = close_time div 60
      in (if finish \<le> start then finish + 1440 else finish) - start)"

definition slot_span_seconds :: "time_of_day \<times> time_of_day \<Rightarrow> int \<times> int" where
  "slot_span_seconds p = (case p of (start, finish) \<Rightarrow>
     (start, if finish \<le> start then finish + 86400 else finish))"

definition spans_clash :: "int \<times> int \<Rightarrow> int \<times> int \<Rightarrow> bool" where
  "spans_clash p q = (case (p, q) of ((s1, e1), (s2, e2)) \<Rightarrow>
     list_ex (\<lambda>k. s1 < e2 + k \<and> s2 + k < e1) [-86400, 0, 86400])"

datatype masters_conflict =
    Full_Day_Not_Alone
  | Slots_Overlap "time_of_day \<times> time_of_day" "time_of_day \<times> time_of_day"

fun first_overlap :: "(time_of_day \<times> time_of_day) list \<Rightarrow> masters_conflict option" where
  "first_overlap [] = None"
| "first_overlap (p # ps) =
     (case find (\<lambda>q. spans_clash (slot_span_seconds p) (slot_span_seconds q)) ps of
        Some q \<Rightarrow> Some (Slots_Overlap p q)
      | None \<Rightarrow> first_overlap ps)"

fun both_times :: "(time_of_day option \<times> time_of_day option) list \<Rightarrow> (time_of_day \<times> time_of_day) list" where
  "both_times [] = []"
| "both_times ((Some a, Some b) # ps) = (a, b) # both_times ps"
| "both_times (_ # ps) = both_times ps"

definition slot_masters_conflict ::
  "(time_of_day option \<times> time_of_day option) list \<Rightarrow> masters_conflict option" where
  "slot_masters_conflict active_times =
     (let times = both_times active_times
      in if 1 < length times \<and> list_ex (\<lambda>(a, b). is_full_day_slot a b) times then Some Full_Day_Not_Alone
         else first_overlap times)"

text \<open>
  \<^verbatim>\<open>SlotMaster.clean\<close>: an active master is checked with the other active ones of its equipment.
\<close>

definition slot_master_clean :: "slot_master \<Rightarrow> 'z slot_db_scheme \<Rightarrow> masters_conflict + unit" where
  "slot_master_clean m db =
     (if \<not> sm_active m \<or> sm_equipment m = None then Inr ()
      else case slot_masters_conflict ((Some (sm_open m), Some (sm_close m)) #
          [(Some (sm_open x), Some (sm_close x)).
             x \<leftarrow> sl_masters db, sm_equipment x = sm_equipment m \<and> sm_active x \<and> sm_id x \<noteq> sm_id m]) of
        None \<Rightarrow> Inr ()
      | Some c \<Rightarrow> Inl c)"

definition active_masters :: "ident \<Rightarrow> 'z slot_db_scheme \<Rightarrow> slot_master list" where
  "active_masters e db = sort_key sm_number
     (filter (\<lambda>m. sm_equipment m = Some e \<and> sm_active m) (sl_masters db))"

definition ensure_slot_masters_exist ::
  "ident \<Rightarrow> 'z slot_db_scheme \<Rightarrow> 'z slot_db_scheme \<times> slot_master list" where
  "ensure_slot_masters_exist e db =
     (if active_masters e db \<noteq> [] then (db, active_masters e db)
      else if list_ex (\<lambda>m. sm_equipment m = Some e) (sl_masters db)
      then let db1 = db\<lparr>sl_masters := map (\<lambda>m. if sm_equipment m = Some e then m\<lparr>sm_active := True\<rparr> else m)
                           (sl_masters db)\<rparr>
           in (db1, active_masters e db1)
      else let m = \<lparr>sm_id = fresh_pk sm_id (sl_masters db), sm_equipment = Some e, sm_number = 1,
                 sm_name = ''Slot 1'', sm_open = 0, sm_close = 0, sm_active = True\<rparr>
           in (db\<lparr>sl_masters := sl_masters db @ [m]\<rparr>, [m]))"

subsection \<open>Holidays\<close>

definition is_holiday :: "'z slot_db_scheme \<Rightarrow> day \<Rightarrow> bool" where
  "is_holiday db d = (weekday d = 5 \<or> weekday d = 6 \<or>
     list_ex (\<lambda>h. hd_date h = d \<and> hd_active h) (sl_holidays db))"

definition get_holidays_in_range :: "'z slot_db_scheme \<Rightarrow> day \<Rightarrow> day \<Rightarrow> day set" where
  "get_holidays_in_range db start finish =
     set (map hd_date (filter (\<lambda>h. start \<le> hd_date h \<and> hd_date h \<le> finish \<and> hd_active h) (sl_holidays db)))
     \<union> set (filter (\<lambda>d. weekday d = 5 \<or> weekday d = 6) [start..finish])"

subsection \<open>The repeat rules on new rows\<close>

definition label_value :: "string \<Rightarrow> string option" where
  "label_value label = (if strip label = [] then None else Some (strip label))"

text \<open>\<^verbatim>\<open>label or None\<close>: an empty string counts as no label.\<close>

definition or_none :: "string option \<Rightarrow> string option" where
  "or_none l = (if l = Some [] then None else l)"

definition rule_hits :: "block_rule list \<Rightarrow> daily_slot \<Rightarrow> block_rule list" where
  "rule_hits rules s = filter (\<lambda>r. bk_start r \<le> ds_date s \<and> ds_date s \<le> bk_end r \<and>
     weekday (ds_date s) \<in> set (bk_weekdays r) \<and> local_start_hhmm (ds_start s) \<in> set (bk_times r)) rules"

definition rules_for_rows :: "ident \<Rightarrow> daily_slot list \<Rightarrow> 'z slot_db_scheme \<Rightarrow> block_rule list" where
  "rules_for_rows e rows db = (let dates = map ds_date rows in
     sort_key bk_created_at (filter (\<lambda>r. bk_equipment r = e \<and> bk_active r \<and>
       bk_start r \<le> Max (set dates) \<and> Min (set dates) \<le> bk_end r) (sl_rules db)))"

definition hits_of_row :: "timestamp \<Rightarrow> block_rule list \<Rightarrow> daily_slot \<Rightarrow> block_rule list" where
  "hits_of_row now rules s =
     (if ds_status s \<noteq> SL_AVAILABLE \<or> ds_start s \<le> now then [] else rule_hits rules s)"

definition apply_rules_to_row :: "timestamp \<Rightarrow> block_rule list \<Rightarrow> daily_slot \<Rightarrow> daily_slot" where
  "apply_rules_to_row now rules s = (case hits_of_row now rules s of
     [] \<Rightarrow> s
   | r # _ \<Rightarrow> s\<lparr>ds_status := SL_BLOCKED, ds_label := label_value (bk_label r)\<rparr>)"

type_synonym rule_matches = "((ident \<times> day) \<times> ident list) list"

definition apply_rules_to_new_rows ::
  "timestamp \<Rightarrow> ident \<Rightarrow> daily_slot list \<Rightarrow> 'z slot_db_scheme \<Rightarrow> daily_slot list \<times> rule_matches" where
  "apply_rules_to_new_rows now e rows db = (let rules = rules_for_rows e rows db in
     (map (apply_rules_to_row now rules) rows,
      [(slot_key s, map bk_id (hits_of_row now rules s)). s \<leftarrow> rows, hits_of_row now rules s \<noteq> []]))"

text \<open>\<^verbatim>\<open>bulk_create(..., ignore_conflicts=True)\<close>: a row whose unique key is taken is passed over.\<close>

definition insert_slot :: "daily_slot \<Rightarrow> daily_slot list \<Rightarrow> daily_slot list" where
  "insert_slot s rows = (if slot_key s \<in> slot_key ` set rows then rows
     else rows @ [s\<lparr>ds_id := fresh_pk ds_id rows\<rparr>])"

definition insert_link ::
  "(ident \<times> ident) \<times> link_source \<Rightarrow> ((ident \<times> ident) \<times> link_source) list \<Rightarrow>
   ((ident \<times> ident) \<times> link_source) list" where
  "insert_link l links = (if fst l \<in> fst ` set links then links else links @ [l])"

definition link_generated_rows ::
  "rule_matches \<Rightarrow> ((ident \<times> day) \<times> string option) list \<Rightarrow> 'z slot_db_scheme \<Rightarrow> 'z slot_db_scheme" where
  "link_generated_rows matches labels db =
     db\<lparr>sl_links := fold insert_link
       [((i, ds_id s), L_Generated).
          s \<leftarrow> sl_slots db,
          ds_status s = SL_BLOCKED \<and> ds_booking s = None \<and> map_of matches (slot_key s) \<noteq> None \<and>
            map_of labels (slot_key s) = Some (or_none (ds_label s)),
          i \<leftarrow> the (map_of matches (slot_key s))] (sl_links db)\<rparr>"

definition bulk_create_daily_slots ::
  "timestamp \<Rightarrow> ident \<Rightarrow> daily_slot list \<Rightarrow> 'z slot_db_scheme \<Rightarrow> 'z slot_db_scheme" where
  "bulk_create_daily_slots now e rows db =
     (if rows = [] then db
      else let (rows', matches) = apply_rules_to_new_rows now e rows db;
               db1 = db\<lparr>sl_slots := fold insert_slot rows' (sl_slots db)\<rparr>
           in if matches = [] then db1
              else link_generated_rows matches
                [(slot_key s, ds_label s). s \<leftarrow> rows', map_of matches (slot_key s) \<noteq> None] db1)"

subsection \<open>Generation\<close>

definition aware_slot_datetimes :: "day \<Rightarrow> time_of_day \<Rightarrow> time_of_day \<Rightarrow> timestamp \<times> timestamp" where
  "aware_slot_datetimes d open_time close_time =
     (let end_date = (if close_time \<le> open_time then d + 1 else d)
      in (local_instant d open_time, local_instant end_date close_time))"

definition closed_on_holidays :: "slot_status set" where
  "closed_on_holidays = {SL_AVAILABLE, SL_UNDER_MAINTENANCE}"

definition initial_slot_status :: "equipment \<Rightarrow> slot_status" where
  "initial_slot_status e =
     (if eq_status e \<in> {EQ_REPAIR, EQ_INACTIVE} then SL_UNDER_MAINTENANCE else SL_AVAILABLE)"

definition new_slot :: "slot_master \<Rightarrow> day \<Rightarrow> slot_status \<Rightarrow> daily_slot" where
  "new_slot m d status = (let (start, finish) = aware_slot_datetimes d (sm_open m) (sm_close m) in
     \<lparr>ds_id = 0, ds_master = sm_id m, ds_date = d, ds_start = start, ds_end = finish,
      ds_status = status, ds_label = None, ds_reference = None, ds_booking = None, ds_released = None\<rparr>)"

definition generate_daily_slots ::
  "timestamp \<Rightarrow> equipment \<Rightarrow> day \<Rightarrow> slot_master list option \<Rightarrow> bool \<Rightarrow> 'z slot_db_scheme \<Rightarrow> 'z slot_db_scheme" where
  "generate_daily_slots now e d given allow_holiday db =
     (if \<not> allow_holiday \<and> is_holiday db d then db
      else let masters = (case given of Some ms \<Rightarrow> ms | None \<Rightarrow> active_masters (eq_id e) db);
               status0 = initial_slot_status e;
               status = (if allow_holiday \<and> status0 \<in> closed_on_holidays \<and> is_holiday db d
                         then SL_NOT_AVAILABLE else status0)
           in if masters = [] then db
              else let existing = slot_key ` set (filter (\<lambda>s. slot_equipment db s = Some (eq_id e) \<and> ds_date s = d)
                         (sl_slots db))
                   in bulk_create_daily_slots now (eq_id e)
                        [new_slot m d status. m \<leftarrow> masters, (sm_id m, d) \<notin> existing] db)"

definition generate_slots_for_week ::
  "timestamp \<Rightarrow> equipment \<Rightarrow> day \<Rightarrow> day \<Rightarrow> bool \<Rightarrow> 'z slot_db_scheme \<Rightarrow> 'z slot_db_scheme" where
  "generate_slots_for_week now e week_start week_end allow_holiday db =
     (let holidays = get_holidays_in_range db week_start week_end;
          masters = active_masters (eq_id e) db;
          status0 = initial_slot_status e
      in if masters = [] then db
         else let existing = slot_key ` set (filter (\<lambda>s. slot_equipment db s = Some (eq_id e) \<and>
                    week_start \<le> ds_date s \<and> ds_date s \<le> week_end) (sl_slots db))
              in bulk_create_daily_slots now (eq_id e)
                   [new_slot m d (if allow_holiday \<and> status0 \<in> closed_on_holidays \<and> d \<in> holidays
                      then SL_NOT_AVAILABLE else status0).
                     d \<leftarrow> [week_start..week_end], \<not> (\<not> allow_holiday \<and> d \<in> holidays),
                     m \<leftarrow> masters, (sm_id m, d) \<notin> existing] db)"

text \<open>Week by week up to the last day; the loop of \<^verbatim>\<open>generate_weekly_slots\<close> and of the monthly one.\<close>

function generate_by_weeks ::
  "timestamp \<Rightarrow> equipment \<Rightarrow> day \<Rightarrow> day \<Rightarrow> 'z slot_db_scheme \<Rightarrow> 'z slot_db_scheme" where
  "generate_by_weeks now e current end_date db =
     (if end_date < current then db
      else let week_end = min (current + 6) end_date
           in generate_by_weeks now e (week_end + 1) end_date
                (generate_slots_for_week now e current week_end False db))"
  by pat_completeness auto
termination by (relation "measure (\<lambda>(now, e, current, end_date, db). nat (end_date + 1 - current))") auto

declare generate_by_weeks.simps [simp del]

definition generate_weekly_slots ::
  "timestamp \<Rightarrow> equipment \<Rightarrow> day \<Rightarrow> day option \<Rightarrow> 'z slot_db_scheme \<Rightarrow> 'z slot_db_scheme" where
  "generate_weekly_slots now e start_date end_date =
     generate_by_weeks now e start_date (case end_date of None \<Rightarrow> start_date + 6 | Some d \<Rightarrow> d)"

text \<open>\<^verbatim>\<open>monthrange(year, month)[1]\<close> of the Gregorian calendar.\<close>

definition leap_year :: "int \<Rightarrow> bool" where
  "leap_year y = (4 dvd y \<and> (\<not> 100 dvd y \<or> 400 dvd y))"

definition month_length :: "int \<Rightarrow> int \<Rightarrow> int" where
  "month_length y m = (if m = 2 then if leap_year y then 29 else 28
     else if m \<in> {4, 6, 9, 11} then 30 else 31)"

definition next_month :: "int \<times> int \<Rightarrow> int \<times> int" where
  "next_month ym = (case ym of (y, m) \<Rightarrow> if m = 12 then (y + 1, 1) else (y, m + 1))"

fun days_of_months :: "int \<times> int \<Rightarrow> nat \<Rightarrow> int" where
  "days_of_months ym 0 = 0"
| "days_of_months ym (Suc n) = month_length (fst ym) (snd ym) + days_of_months (next_month ym) n"

text \<open>The start day comes with its year and month.\<close>

definition end_date_after_months :: "day \<Rightarrow> int \<times> int \<Rightarrow> nat \<Rightarrow> exn + day" where
  "end_date_after_months start_date ym months =
     (if months < 1 then Inl (ValueError ''months must be >= 1'')
      else Inr (start_date + days_of_months ym months))"

definition generate_monthly_slots ::
  "timestamp \<Rightarrow> equipment \<Rightarrow> day \<Rightarrow> int \<times> int \<Rightarrow> nat \<Rightarrow> 'z slot_db_scheme \<Rightarrow> exn + 'z slot_db_scheme" where
  "generate_monthly_slots now e start_date ym months db =
     and_then (end_date_after_months start_date ym months) (\<lambda>end_date.
       Inr (generate_by_weeks now e start_date end_date db))"

subsection \<open>Updating and saving slots\<close>

text \<open>
  The keyword arguments of \<^verbatim>\<open>DailySlotQuerySet.update\<close>; a column that is not given is \<open>None\<close>. The
  override stamps the slots a booking gives back, returns slots booked out of the external
  reserve to it, and keeps their reference while they are booked. The expressions read the row
  before the update.
\<close>

record slot_update =
  up_status :: "slot_status option"
  up_label :: "string option option"
  up_reference :: "string option option"
  up_booking :: "ident option option"
  up_released :: "timestamp option option"

definition booked_external_reference :: "daily_slot \<Rightarrow> string option" where
  "booked_external_reference s =
     (if ds_status s = SL_RESERVED_EXTERNAL then Some (case ds_reference s of None \<Rightarrow> [] | Some r \<Rightarrow> r)
      else if ds_status s = SL_BOOKED then ds_reference s else None)"

definition released_status :: "daily_slot \<Rightarrow> slot_status" where
  "released_status s =
     (if ds_booking s \<noteq> None \<and> ds_reference s \<noteq> None then SL_RESERVED_EXTERNAL else SL_AVAILABLE)"

definition released_by_booking_at :: "timestamp \<Rightarrow> daily_slot \<Rightarrow> timestamp option" where
  "released_by_booking_at now s = (if ds_booking s \<noteq> None then Some now else None)"

definition update_slot :: "timestamp \<Rightarrow> slot_update \<Rightarrow> daily_slot \<Rightarrow> daily_slot" where
  "update_slot now u s =
     (let releases = (up_booking u = Some None)
      in s\<lparr>ds_status := (case up_status u of
               None \<Rightarrow> ds_status s
             | Some st \<Rightarrow> if releases \<and> st = SL_AVAILABLE \<and> up_reference u = None then released_status s else st),
           ds_label := (case up_label u of None \<Rightarrow> ds_label s | Some l \<Rightarrow> l),
           ds_reference := (case up_reference u of
               Some r \<Rightarrow> r
             | None \<Rightarrow> if up_booking u \<noteq> None \<and> \<not> releases \<and> up_status u = Some SL_BOOKED
                       then booked_external_reference s else ds_reference s),
           ds_booking := (case up_booking u of None \<Rightarrow> ds_booking s | Some b \<Rightarrow> b),
           ds_released := (case up_released u of
               Some t \<Rightarrow> t
             | None \<Rightarrow> if releases then released_by_booking_at now s
                       else if up_status u \<noteq> None then None else ds_released s)\<rparr>)"

text \<open>
  \<^verbatim>\<open>remember_booking_slot_ranges\<close>: the first start and last end over all the slots of each booking
  that one of the given slots is linked to. Its failure is caught and forgotten.
\<close>

definition remember_booking_slot_ranges ::
  "(daily_slot \<Rightarrow> bool) \<Rightarrow> 'z slot_db_scheme \<Rightarrow> 'z slot_db_scheme" where
  "remember_booking_slot_ranges P db =
     db\<lparr>sl_ranges := (\<lambda>b.
       if list_ex (\<lambda>s. P s \<and> ds_booking s = Some b) (sl_slots db)
       then let own = filter (\<lambda>s. ds_booking s = Some b) (sl_slots db)
            in Some (Min (set (map ds_start own)), Max (set (map ds_end own)))
       else sl_ranges db b)\<rparr>"

definition update_slots ::
  "timestamp \<Rightarrow> (daily_slot \<Rightarrow> bool) \<Rightarrow> slot_update \<Rightarrow> 'z slot_db_scheme \<Rightarrow> 'z slot_db_scheme" where
  "update_slots now P u db =
     (let db1 = (if up_booking u = Some None then remember_booking_slot_ranges P db else db)
      in db1\<lparr>sl_slots := map (\<lambda>s. if P s then update_slot now u s else s) (sl_slots db1)\<rparr>)"

text \<open>\<^verbatim>\<open>DailySlot.save\<close>: a status changed by hand clears the stamp of the release.\<close>

definition save_slot :: "daily_slot \<Rightarrow> daily_slot \<Rightarrow> 'z slot_db_scheme \<Rightarrow> 'z slot_db_scheme" where
  "save_slot loaded s db =
     (let s' = (if ds_status s \<noteq> ds_status loaded \<and> ds_released s = ds_released loaded
                then s\<lparr>ds_released := None\<rparr> else s)
      in db\<lparr>sl_slots := update_row ds_id (ds_id s)
              (\<lambda>r. r\<lparr>ds_status := ds_status s', ds_released := ds_released s'\<rparr>) (sl_slots db)\<rparr>)"

definition block_slot :: "daily_slot \<Rightarrow> 'z slot_db_scheme \<Rightarrow> 'z slot_db_scheme" where
  "block_slot s = save_slot s (s\<lparr>ds_status := SL_BLOCKED\<rparr>)"

definition unblock_slot :: "daily_slot \<Rightarrow> 'z slot_db_scheme \<Rightarrow> 'z slot_db_scheme" where
  "unblock_slot s db = (if ds_status s = SL_BLOCKED then save_slot s (s\<lparr>ds_status := SL_AVAILABLE\<rparr>) db else db)"

subsection \<open>Availability\<close>

definition slot_has_started :: "timestamp \<Rightarrow> daily_slot \<Rightarrow> bool" where
  "slot_has_started now s = (ds_start s \<le> now)"

definition is_slot_available :: "timestamp \<Rightarrow> daily_slot \<Rightarrow> bool" where
  "is_slot_available now s = (\<not> slot_has_started now s \<and> ds_status s = SL_AVAILABLE)"

definition get_available_slots :: "ident \<Rightarrow> day \<Rightarrow> day option \<Rightarrow> 'z slot_db_scheme \<Rightarrow> daily_slot list" where
  "get_available_slots e start_date end_date db =
     (let finish = (case end_date of None \<Rightarrow> start_date | Some d \<Rightarrow> d)
      in sort_key ds_date (sort_key ds_start (filter (\<lambda>s. slot_equipment db s = Some e \<and>
           start_date \<le> ds_date s \<and> ds_date s \<le> finish \<and> ds_status s = SL_AVAILABLE) (sl_slots db))))"

end
