(* ===== verification/Slot_Weeks.thy ===== *)
theory Slot_Weeks
  imports Slots
begin

text \<open>
  What the generation of daily slots does: creating many rows at once is placing them one by one,
  a week is its days in turn, and each active master has one slot on each working day.
\<close>

subsection \<open>Tables of slots\<close>

definition slot_wf :: "'z slot_db_scheme \<Rightarrow> bool" where
  "slot_wf db \<longleftrightarrow> unique_keys sm_id (sl_masters db) \<and> unique_keys ds_id (sl_slots db) \<and>
     distinct (map slot_key (sl_slots db)) \<and> ds_master ` set (sl_slots db) \<subseteq> sm_id ` set (sl_masters db)"

lemma map_of_selected:
  assumes "distinct (map k xs)" "x \<in> set xs"
  shows "map_of (concat (map (\<lambda>s. if P s then [(k s, v s)] else []) xs)) (k x) =
    (if P x then Some (v x) else None)"
  using assms
proof (induction xs)
  case (Cons y ys)
  have absent: "map_of (concat (map (\<lambda>s. if P s then [(k s, v s)] else []) ys)) (k y) = None"
    using Cons.prems(1) by (auto simp: map_of_eq_None_iff split: if_splits)
  show ?case
  proof (cases "x = y")
    case True
    then show ?thesis using absent by (simp add: map_add_def)
  next
    case False
    then have "x \<in> set ys" using Cons.prems by simp
    moreover from this have "k x \<noteq> k y" using Cons.prems(1) by (auto simp: image_iff)
    ultimately show ?thesis using Cons.IH Cons.prems(1) by (simp add: map_add_def)
  qed
qed simp

lemma map_of_selected_None:
  "y \<notin> k ` set xs \<Longrightarrow> map_of (concat (map (\<lambda>s. if P s then [(k s, v s)] else []) xs)) y = None"
  by (auto simp: map_of_eq_None_iff split: if_splits)

subsection \<open>Placing one row\<close>

definition live_rules :: "ident \<Rightarrow> 'z slot_db_scheme \<Rightarrow> block_rule list" where
  "live_rules e db = sort_key bk_created_at (filter (\<lambda>r. bk_equipment r = e \<and> bk_active r) (sl_rules db))"

definition place_row ::
  "timestamp \<Rightarrow> block_rule list \<Rightarrow> daily_slot \<Rightarrow> 'z slot_db_scheme \<Rightarrow> 'z slot_db_scheme" where
  "place_row now rules s db =
     (let t = (apply_rules_to_row now rules s)\<lparr>ds_id := fresh_pk ds_id (sl_slots db)\<rparr>
      in db\<lparr>sl_slots := sl_slots db @ [t],
           sl_links := fold insert_link (map (\<lambda>r. ((bk_id r, ds_id t), L_Generated)) (hits_of_row now rules s))
             (sl_links db)\<rparr>)"

lemma hits_of_row_rules_for_rows:
  assumes "s \<in> set rows"
  shows "hits_of_row now (rules_for_rows e rows db) s = hits_of_row now (live_rules e db) s"
proof -
  have "Min (set (map ds_date rows)) \<le> ds_date s" "ds_date s \<le> Max (set (map ds_date rows))"
    using assms by auto
  then show ?thesis
    by (auto simp: hits_of_row_def rule_hits_def rules_for_rows_def live_rules_def Let_def filter_sort
        intro!: arg_cong [where f = "sort_key bk_created_at"] filter_cong)
qed

lemma apply_rules_to_row_cong:
  "hits_of_row now rules s = hits_of_row now rules' s \<Longrightarrow>
   apply_rules_to_row now rules s = apply_rules_to_row now rules' s"
  by (simp add: apply_rules_to_row_def)

lemma apply_rules_to_row_same [simp]:
  "slot_key (apply_rules_to_row now rules s) = slot_key s"
  "ds_master (apply_rules_to_row now rules s) = ds_master s"
  "ds_date (apply_rules_to_row now rules s) = ds_date s"
  "ds_start (apply_rules_to_row now rules s) = ds_start s"
  "ds_end (apply_rules_to_row now rules s) = ds_end s"
  "ds_booking (apply_rules_to_row now rules s) = ds_booking s"
  by (auto simp: apply_rules_to_row_def slot_key_def split: list.splits)

lemma slot_key_id [simp]: "slot_key (s\<lparr>ds_id := i\<rparr>) = slot_key s"
  by (simp add: slot_key_def)

lemma or_none_label_value [simp]: "or_none (label_value l) = label_value l"
  by (simp add: or_none_def label_value_def)

fun numbered :: "daily_slot list \<Rightarrow> daily_slot list \<Rightarrow> daily_slot list" where
  "numbered base [] = []"
| "numbered base (s # ss) =
     (let t = s\<lparr>ds_id := fresh_pk ds_id base\<rparr> in t # numbered (base @ [t]) ss)"

lemma length_numbered [simp]: "length (numbered base ss) = length ss"
  by (induction base ss rule: numbered.induct) (auto simp: Let_def)

lemma slot_key_numbered [simp]: "map slot_key (numbered base ss) = map slot_key ss"
  by (induction base ss rule: numbered.induct) (auto simp: Let_def)

lemma zip_numbered: "(s, t) \<in> set (zip ss (numbered base ss)) \<Longrightarrow> t = s\<lparr>ds_id := ds_id t\<rparr>"
  by (induction base ss rule: numbered.induct) (auto simp: Let_def)

lemma fold_insert_slot:
  "distinct (map slot_key ss) \<Longrightarrow> slot_key ` set ss \<inter> slot_key ` set base = {} \<Longrightarrow>
   fold insert_slot ss base = base @ numbered base ss"
proof (induction base ss rule: numbered.induct)
  case (2 base s ss)
  then show ?case by (auto simp: insert_slot_def Let_def)
qed simp

lemma fold_place_row:
  "fold (place_row now rules) ss db =
   db\<lparr>sl_slots := sl_slots db @ numbered (sl_slots db) (map (apply_rules_to_row now rules) ss),
     sl_links := fold insert_link (concat (map (\<lambda>(s, t).
         map (\<lambda>r. ((bk_id r, ds_id t), L_Generated)) (hits_of_row now rules s))
       (zip ss (numbered (sl_slots db) (map (apply_rules_to_row now rules) ss))))) (sl_links db)\<rparr>"
proof (induction ss arbitrary: db)
  case (Cons s ss)
  show ?case by (simp add: Cons.IH) (simp add: place_row_def Let_def)
qed simp

lemma zip_numbered_applied:
  assumes "(s, t) \<in> set (zip ss (numbered base (map (apply_rules_to_row now rules) ss)))"
  shows "s \<in> set ss \<and> t = (apply_rules_to_row now rules s)\<lparr>ds_id := ds_id t\<rparr>"
proof -
  let ?n = "numbered base (map (apply_rules_to_row now rules) ss)"
  from assms obtain i where i: "i < length ss" "s = ss ! i" "t = ?n ! i"
    by (auto simp: in_set_zip)
  then have "(apply_rules_to_row now rules s, t) \<in> set (zip (map (apply_rules_to_row now rules) ss) ?n)"
    unfolding in_set_zip by (intro exI [of _ i]) simp
  from zip_numbered [OF this] i show ?thesis by simp
qed

lemma map_snd_zip_cong:
  assumes "length xs = length ys" "\<And>x y. (x, y) \<in> set (zip xs ys) \<Longrightarrow> g y = h (x, y)"
  shows "map g ys = map h (zip xs ys)"
proof -
  have "map g (map snd (zip xs ys)) = map h (zip xs ys)"
    unfolding map_map by (rule map_cong) (auto simp: assms(2))
  then show ?thesis using assms(1) by simp
qed

text \<open>The link step finds the new blocked rows again by their keys and labels.\<close>

lemma link_step_rows:
  fixes rules :: "block_rule list" and now :: timestamp and rows base :: "daily_slot list"
  defines "ap \<equiv> apply_rules_to_row now rules"
  assumes keys: "distinct (map slot_key rows)" "slot_key ` set rows \<inter> slot_key ` set base = {}"
    and free: "\<And>s. s \<in> set rows \<Longrightarrow> ds_booking s = None"
  defines "ms \<equiv> [(slot_key s, map bk_id (hits_of_row now rules s)). s \<leftarrow> rows, hits_of_row now rules s \<noteq> []]"
  defines "ls \<equiv> [(slot_key s, ds_label s). s \<leftarrow> map ap rows, map_of ms (slot_key s) \<noteq> None]"
  shows "[((i, ds_id s), L_Generated). s \<leftarrow> base @ numbered base (map ap rows),
      ds_status s = SL_BLOCKED \<and> ds_booking s = None \<and> map_of ms (slot_key s) \<noteq> None \<and>
        map_of ls (slot_key s) = Some (or_none (ds_label s)),
      i \<leftarrow> the (map_of ms (slot_key s))] =
    concat (map (\<lambda>(s, t). map (\<lambda>r. ((bk_id r, ds_id t), L_Generated)) (hits_of_row now rules s))
      (zip rows (numbered base (map ap rows))))"
proof -
  define g where "g s = (if ds_status s = SL_BLOCKED \<and> ds_booking s = None \<and> map_of ms (slot_key s) \<noteq> None \<and>
      map_of ls (slot_key s) = Some (or_none (ds_label s))
    then map (\<lambda>i. ((i, ds_id s), L_Generated)) (the (map_of ms (slot_key s))) else [])" for s
  have ms: "map_of ms (slot_key s) =
      (if hits_of_row now rules s \<noteq> [] then Some (map bk_id (hits_of_row now rules s)) else None)"
    if "s \<in> set rows" for s
    unfolding ms_def by (rule map_of_selected [OF keys(1) that])
  have ls: "map_of ls (slot_key (ap s)) =
      (if map_of ms (slot_key (ap s)) \<noteq> None then Some (ds_label (ap s)) else None)" if "s \<in> set rows" for s
    unfolding ls_def by (rule map_of_selected) (use keys(1) that in \<open>auto simp: ap_def comp_def\<close>)
  have old: "g s = []" if "s \<in> set base" for s
  proof -
    have "slot_key s \<notin> slot_key ` set rows" using keys(2) that by blast
    then have "map_of ms (slot_key s) = None" unfolding ms_def by (rule map_of_selected_None)
    then show ?thesis by (simp add: g_def)
  qed
  have new: "g t = (case (s, t) of (s, t) \<Rightarrow>
      map (\<lambda>r. ((bk_id r, ds_id t), L_Generated)) (hits_of_row now rules s))"
    if pair: "(s, t) \<in> set (zip rows (numbered base (map ap rows)))" for s t
  proof -
    from zip_numbered_applied [of s t rows base now rules] pair
    have s: "s \<in> set rows" and t: "t = (ap s)\<lparr>ds_id := ds_id t\<rparr>" by (auto simp: ap_def)
    have key: "slot_key t = slot_key s" "slot_key (ap s) = slot_key s"
      by (subst t, simp add: ap_def) (simp add: ap_def)
    show ?thesis
    proof (cases "hits_of_row now rules s")
      case Nil
      then show ?thesis using ms [OF s] by (simp add: g_def key)
    next
      case (Cons r rs)
      have "ds_status t = SL_BLOCKED" "ds_booking t = None" "or_none (ds_label t) = ds_label (ap s)"
        by (subst t, simp add: ap_def apply_rules_to_row_def Cons free [OF s])+
      then show ?thesis using ms [OF s] ls [OF s] Cons by (simp add: g_def key comp_def)
    qed
  qed
  have "concat (map g (base @ numbered base (map ap rows))) =
      concat (map g (numbered base (map ap rows)))"
    using old by simp
  also have "map g (numbered base (map ap rows)) = map (\<lambda>(s, t).
      map (\<lambda>r. ((bk_id r, ds_id t), L_Generated)) (hits_of_row now rules s)) (zip rows (numbered base (map ap rows)))"
    using new by (intro map_snd_zip_cong) simp_all
  finally show ?thesis by (simp add: g_def [abs_def])
qed

theorem bulk_create_places:
  assumes keys: "distinct (map slot_key rows)" "slot_key ` set rows \<inter> slot_key ` set (sl_slots db) = {}"
    and free: "\<And>s. s \<in> set rows \<Longrightarrow> ds_booking s = None"
  shows "bulk_create_daily_slots now e rows db = fold (place_row now (live_rules e db)) rows db"
proof (cases "rows = []")
  case False
  let ?R = "rules_for_rows e rows db" and ?L = "live_rules e db"
  let ?ap = "apply_rules_to_row now ?L"
  have hits: "s \<in> set rows \<Longrightarrow> hits_of_row now ?R s = hits_of_row now ?L s" for s
    by (rule hits_of_row_rules_for_rows)
  then have aps: "map (apply_rules_to_row now ?R) rows = map ?ap rows"
    by (auto intro: apply_rules_to_row_cong)
  have ms: "[(slot_key s, map bk_id (hits_of_row now ?R s)). s \<leftarrow> rows, hits_of_row now ?R s \<noteq> []] =
      [(slot_key s, map bk_id (hits_of_row now ?L s)). s \<leftarrow> rows, hits_of_row now ?L s \<noteq> []]"
    using hits by (intro arg_cong [where f = concat] map_cong) auto
  have slots: "fold insert_slot (map ?ap rows) (sl_slots db) = sl_slots db @ numbered (sl_slots db) (map ?ap rows)"
    using keys by (intro fold_insert_slot) (simp_all add: comp_def image_image)
  have linked: "link_generated_rows
        [(slot_key s, map bk_id (hits_of_row now ?L s)). s \<leftarrow> rows, hits_of_row now ?L s \<noteq> []]
        [(slot_key s, ds_label s). s \<leftarrow> map ?ap rows, map_of
          [(slot_key s, map bk_id (hits_of_row now ?L s)). s \<leftarrow> rows, hits_of_row now ?L s \<noteq> []] (slot_key s) \<noteq> None]
        (db\<lparr>sl_slots := sl_slots db @ numbered (sl_slots db) (map ?ap rows)\<rparr>) =
      fold (place_row now ?L) rows db"
    using link_step_rows [OF keys free] by (simp add: link_generated_rows_def fold_place_row)
  have unlinked: "db\<lparr>sl_slots := sl_slots db @ numbered (sl_slots db) (map ?ap rows)\<rparr> = fold (place_row now ?L) rows db"
    if "[(slot_key s, map bk_id (hits_of_row now ?L s)). s \<leftarrow> rows, hits_of_row now ?L s \<noteq> []] = []"
  proof -
    have "hits_of_row now ?L s = []" if "s \<in> set rows" for s
      using \<open>_ = []\<close> that by auto
    then have "concat (map (\<lambda>(s, t). map (\<lambda>r. ((bk_id r, ds_id t), L_Generated)) (hits_of_row now ?L s))
        (zip rows (numbered (sl_slots db) (map ?ap rows)))) = []"
      by (auto dest: set_zip_leftD)
    then show ?thesis unfolding fold_place_row by (simp only:) simp
  qed
  show ?thesis
    using False linked unlinked slots
    by (simp add: bulk_create_daily_slots_def apply_rules_to_new_rows_def Let_def aps ms)
qed (simp add: bulk_create_daily_slots_def)

subsection \<open>The rows of a day\<close>

definition day_status :: "equipment \<Rightarrow> bool \<Rightarrow> 'z slot_db_scheme \<Rightarrow> day \<Rightarrow> slot_status" where
  "day_status e allow_holiday db d =
     (if allow_holiday \<and> initial_slot_status e \<in> closed_on_holidays \<and> is_holiday db d
      then SL_NOT_AVAILABLE else initial_slot_status e)"

definition day_open :: "bool \<Rightarrow> 'z slot_db_scheme \<Rightarrow> day \<Rightarrow> bool" where
  "day_open allow_holiday db d \<longleftrightarrow> allow_holiday \<or> \<not> is_holiday db d"

definition day_rows :: "equipment \<Rightarrow> bool \<Rightarrow> 'z slot_db_scheme \<Rightarrow> day \<Rightarrow> daily_slot list" where
  "day_rows e allow_holiday db d =
     (if day_open allow_holiday db d
      then [new_slot m d (day_status e allow_holiday db d).
             m \<leftarrow> active_masters (eq_id e) db, (sm_id m, d) \<notin> slot_key ` set (sl_slots db)]
      else [])"

lemma new_slot_simps [simp]:
  "slot_key (new_slot m d st) = (sm_id m, d)"
  "ds_master (new_slot m d st) = sm_id m" "ds_date (new_slot m d st) = d"
  "ds_start (new_slot m d st) = fst (aware_slot_datetimes d (sm_open m) (sm_close m))"
  "ds_end (new_slot m d st) = snd (aware_slot_datetimes d (sm_open m) (sm_close m))"
  "ds_booking (new_slot m d st) = None" "ds_status (new_slot m d st) = st"
  by (simp_all add: new_slot_def slot_key_def split: prod.split)

lemma weekend_or_listed:
  assumes "start \<le> d" "d \<le> finish"
  shows "d \<in> get_holidays_in_range db start finish \<longleftrightarrow> is_holiday db d"
  using assms by (auto simp: get_holidays_in_range_def is_holiday_def list_ex_iff image_iff)

lemma active_mastersD: "m \<in> set (active_masters e db) \<longleftrightarrow> m \<in> set (sl_masters db) \<and> sm_equipment m = Some e \<and> sm_active m"
  by (auto simp: active_masters_def)

lemma slot_of_master:
  assumes "slot_wf db" "m \<in> set (sl_masters db)" "ds_master s = sm_id m"
  shows "slot_equipment db s = sm_equipment m"
  using assms row_of_unique [of sm_id "sl_masters db" m] by (simp add: slot_wf_def slot_equipment_def)

lemma existing_keys:
  assumes "slot_wf db" "m \<in> set (active_masters e db)" "P d"
  shows "(sm_id m, d) \<in> slot_key ` set (filter (\<lambda>s. slot_equipment db s = Some e \<and> P (ds_date s)) (sl_slots db)) \<longleftrightarrow>
    (sm_id m, d) \<in> slot_key ` set (sl_slots db)"
proof -
  have "slot_equipment db s = Some e" if "slot_key s = (sm_id m, d)" for s
    using slot_of_master [OF assms(1), of m s] assms(2) that by (simp add: active_mastersD slot_key_def)
  then show ?thesis using assms(3) by (force simp: image_iff slot_key_def)
qed

lemma distinct_active_masters:
  assumes "slot_wf db"
  shows "distinct (map sm_id (active_masters e db))"
proof -
  have "distinct (sl_masters db)" "inj_on sm_id (set (sl_masters db))"
    using assms by (auto simp: slot_wf_def unique_keys_def distinct_map)
  then show ?thesis
    by (auto simp: distinct_map active_masters_def intro: inj_on_subset)
qed

lemma selected_map: "concat (map (\<lambda>x. if P x then [f x] else []) xs) = map f (filter P xs)"
  by (induction xs) auto

lemma selected_keys:
  "map slot_key (concat (map (\<lambda>m. if Q m then [new_slot m d st] else []) ms)) =
   map (\<lambda>m. (sm_id m, d)) (filter Q ms)"
  by (simp add: selected_map comp_def)

definition fresh_rows :: "daily_slot list \<Rightarrow> 'z slot_db_scheme \<Rightarrow> bool" where
  "fresh_rows rows db \<longleftrightarrow> distinct (map slot_key rows) \<and>
     slot_key ` set rows \<inter> slot_key ` set (sl_slots db) = {} \<and>
     (\<forall>s\<in>set rows. ds_booking s = None \<and> ds_master s \<in> sm_id ` set (sl_masters db))"

lemma set_day_rows:
  "s \<in> set (day_rows e ah db d) \<longleftrightarrow> day_open ah db d \<and>
     (\<exists>m. m \<in> set (active_masters (eq_id e) db) \<and> (sm_id m, d) \<notin> slot_key ` set (sl_slots db) \<and>
          s = new_slot m d (day_status e ah db d))"
  by (auto simp: day_rows_def split: if_splits)

lemma fresh_day_rows:
  assumes "slot_wf db" "distinct ds"
  shows "fresh_rows (concat (map (day_rows e ah db) ds)) db"
proof -
  have day: "distinct (map slot_key (day_rows e ah db d))" for d
  proof -
    have "distinct (map (\<lambda>m. (sm_id m, d)) (active_masters (eq_id e) db))"
      using distinct_active_masters [OF assms(1), of "eq_id e"] by (auto simp: distinct_map inj_on_def)
    then show ?thesis by (simp add: day_rows_def selected_keys distinct_map_filter)
  qed
  have date: "s \<in> set (day_rows e ah db d) \<Longrightarrow> snd (slot_key s) = d" for s d
    by (auto simp: set_day_rows)
  have "distinct (concat (map (\<lambda>d. map slot_key (day_rows e ah db d)) ds))"
    using assms(2)
  proof (induction ds)
    case (Cons d ds)
    have "slot_key ` set (day_rows e ah db d) \<inter> (\<Union>x\<in>set ds. slot_key ` set (day_rows e ah db x)) = {}"
    proof (rule ccontr)
      assume "\<not> ?thesis"
      then obtain k where "k \<in> slot_key ` set (day_rows e ah db d)"
        "k \<in> (\<Union>x\<in>set ds. slot_key ` set (day_rows e ah db x))" by blast
      then obtain s t x where "s \<in> set (day_rows e ah db d)" "k = slot_key s" "x \<in> set ds"
        "t \<in> set (day_rows e ah db x)" "k = slot_key t" by blast
      with date [of s d] date [of t x] Cons.prems show False by auto
    qed
    then show ?case using Cons day by simp
  qed simp
  then have keys: "distinct (map slot_key (concat (map (day_rows e ah db) ds)))"
    by (simp add: map_concat comp_def)
  show ?thesis
    unfolding fresh_rows_def
  proof (intro conjI)
    show "slot_key ` set (concat (map (day_rows e ah db) ds)) \<inter> slot_key ` set (sl_slots db) = {}"
      by (force simp: set_day_rows)
    show "\<forall>s\<in>set (concat (map (day_rows e ah db) ds)). ds_booking s = None \<and> ds_master s \<in> sm_id ` set (sl_masters db)"
      by (auto simp: set_day_rows active_mastersD)
  qed (rule keys)
qed

lemma bulk_create_fresh:
  "fresh_rows rows db \<Longrightarrow> bulk_create_daily_slots now e rows db = fold (place_row now (live_rules e db)) rows db"
  by (rule bulk_create_places) (auto simp: fresh_rows_def)

lemma day_rows_nothing:
  "active_masters (eq_id e) db = [] \<Longrightarrow> day_rows e ah db d = []"
  by (simp add: day_rows_def)

lemma daily_places:
  assumes "slot_wf db"
  shows "generate_daily_slots now e d None ah db =
    fold (place_row now (live_rules (eq_id e) db)) (day_rows e ah db d) db"
proof (cases "day_open ah db d \<and> active_masters (eq_id e) db \<noteq> []")
  case True
  let ?st = "day_status e ah db d"
  have "[new_slot m d ?st. m \<leftarrow> active_masters (eq_id e) db, (sm_id m, d) \<notin> slot_key ` set (filter (\<lambda>s.
        slot_equipment db s = Some (eq_id e) \<and> ds_date s = d) (sl_slots db))] = day_rows e ah db d"
    unfolding day_rows_def using True existing_keys [OF assms, of _ "eq_id e" "\<lambda>x. x = d"]
    by (simp cong: map_cong)
  then have "generate_daily_slots now e d None ah db = bulk_create_daily_slots now (eq_id e) (day_rows e ah db d) db"
    using True unfolding generate_daily_slots_def Let_def option.simps day_status_def [symmetric]
    by (auto simp: day_open_def)
  also have "\<dots> = fold (place_row now (live_rules (eq_id e) db)) (day_rows e ah db d) db"
    using fresh_day_rows [OF assms, of "[d]" e ah] by (intro bulk_create_fresh) simp
  finally show ?thesis .
next
  case False
  then have "day_rows e ah db d = []" by (auto simp: day_rows_def)
  then show ?thesis using False
    by (auto simp: generate_daily_slots_def day_open_def Let_def)
qed

lemma week_places:
  assumes "slot_wf db"
  shows "generate_slots_for_week now e ws we ah db =
    fold (place_row now (live_rules (eq_id e) db)) (concat (map (day_rows e ah db) [ws..we])) db"
proof (cases "active_masters (eq_id e) db = []")
  case False
  let ?hol = "get_holidays_in_range db ws we"
  let ?old = "slot_key ` set (filter (\<lambda>s. slot_equipment db s = Some (eq_id e) \<and> ws \<le> ds_date s \<and> ds_date s \<le> we) (sl_slots db))"
  have day: "(if \<not> (\<not> ah \<and> d \<in> ?hol) then
      [new_slot m d (if ah \<and> initial_slot_status e \<in> closed_on_holidays \<and> d \<in> ?hol
         then SL_NOT_AVAILABLE else initial_slot_status e).
        m \<leftarrow> active_masters (eq_id e) db, (sm_id m, d) \<notin> ?old] else []) = day_rows e ah db d"
    if "d \<in> set [ws..we]" for d
  proof -
    from that have hol: "d \<in> ?hol \<longleftrightarrow> is_holiday db d" by (intro weekend_or_listed) auto
    have "(if ah \<and> initial_slot_status e \<in> closed_on_holidays \<and> d \<in> ?hol
        then SL_NOT_AVAILABLE else initial_slot_status e) = day_status e ah db d"
      by (simp add: day_status_def hol)
    then show ?thesis
      using that existing_keys [OF assms, of _ "eq_id e" "\<lambda>d. ws \<le> d \<and> d \<le> we" d]
      by (simp only: hol) (simp add: day_rows_def day_open_def cong: map_cong)
  qed
  have "generate_slots_for_week now e ws we ah db =
      bulk_create_daily_slots now (eq_id e) (concat (map (day_rows e ah db) [ws..we])) db"
    unfolding generate_slots_for_week_def Let_def using False by (simp only: if_False day cong: map_cong)
  also have "\<dots> = fold (place_row now (live_rules (eq_id e) db)) (concat (map (day_rows e ah db) [ws..we])) db"
    by (rule bulk_create_fresh [OF fresh_day_rows [OF assms]]) simp
  finally show ?thesis .
next
  case True
  then have none: "concat (map (day_rows e ah db) [ws..we]) = []" by (simp add: day_rows_nothing)
  show ?thesis unfolding generate_slots_for_week_def Let_def none using True by simp
qed

subsection \<open>A week is its days\<close>

lemma place_row_simps [simp]:
  "sl_masters (place_row now rules s db) = sl_masters db"
  "sl_holidays (place_row now rules s db) = sl_holidays db"
  "sl_rules (place_row now rules s db) = sl_rules db"
  "sl_ranges (place_row now rules s db) = sl_ranges db"
  "slot_key ` set (sl_slots (place_row now rules s db)) = insert (slot_key s) (slot_key ` set (sl_slots db))"
  by (simp_all add: place_row_def Let_def)

lemma places_simps [simp]:
  "sl_masters (fold (place_row now rules) rows db) = sl_masters db"
  "sl_holidays (fold (place_row now rules) rows db) = sl_holidays db"
  "sl_rules (fold (place_row now rules) rows db) = sl_rules db"
  "sl_ranges (fold (place_row now rules) rows db) = sl_ranges db"
  "slot_key ` set (sl_slots (fold (place_row now rules) rows db)) = slot_key ` set rows \<union> slot_key ` set (sl_slots db)"
  by (induction rows arbitrary: db) auto

lemma live_rules_cong: "sl_rules db' = sl_rules db \<Longrightarrow> live_rules e db' = live_rules e db"
  by (simp add: live_rules_def)

lemma place_row_wf:
  assumes "slot_wf db" "slot_key s \<notin> slot_key ` set (sl_slots db)" "ds_master s \<in> sm_id ` set (sl_masters db)"
  shows "slot_wf (place_row now rules s db)"
  using assms fresh_pk_notin [of ds_id "sl_slots db"]
  by (auto simp: slot_wf_def place_row_def Let_def unique_keys_def)

lemma places_wf:
  "slot_wf db \<Longrightarrow> fresh_rows rows db \<Longrightarrow> slot_wf (fold (place_row now rules) rows db)"
proof (induction rows arbitrary: db)
  case (Cons s rows)
  have "slot_wf (place_row now rules s db)"
    using Cons.prems by (intro place_row_wf) (auto simp: fresh_rows_def)
  moreover have "fresh_rows rows (place_row now rules s db)"
    using Cons.prems(2) by (auto simp: fresh_rows_def)
  ultimately show ?case using Cons.IH by simp
qed simp

lemma day_rows_cong:
  assumes "sl_masters db' = sl_masters db" "sl_holidays db' = sl_holidays db"
    and "\<And>m. (m, d) \<in> slot_key ` set (sl_slots db') \<longleftrightarrow> (m, d) \<in> slot_key ` set (sl_slots db)"
  shows "day_rows e ah db' d = day_rows e ah db d"
proof -
  have "is_holiday db' = is_holiday db" "active_masters (eq_id e) db' = active_masters (eq_id e) db"
    using assms(1,2) by (auto simp: is_holiday_def active_masters_def)
  then show ?thesis
    by (simp add: day_rows_def day_open_def day_status_def assms(3) cong: if_cong)
qed

lemma days_place:
  assumes "slot_wf db" "distinct ds"
  shows "fold (\<lambda>d. generate_daily_slots now e d None ah) ds db =
    fold (place_row now (live_rules (eq_id e) db)) (concat (map (day_rows e ah db) ds)) db"
  using assms
proof (induction ds arbitrary: db)
  case (Cons d ds)
  let ?db1 = "fold (place_row now (live_rules (eq_id e) db)) (day_rows e ah db d) db"
  have wf: "slot_wf ?db1"
    using fresh_day_rows [OF Cons.prems(1), of "[d]" e ah] by (intro places_wf) (use Cons.prems in auto)
  have rows: "day_rows e ah ?db1 x = day_rows e ah db x" if "x \<in> set ds" for x
  proof (rule day_rows_cong)
    have "x \<noteq> d" using that Cons.prems(2) by auto
    then have "(m, x) \<notin> slot_key ` set (day_rows e ah db d)" for m
      by (auto simp: set_day_rows image_iff)
    then show "(m, x) \<in> slot_key ` set (sl_slots ?db1) \<longleftrightarrow> (m, x) \<in> slot_key ` set (sl_slots db)" for m
      by auto
  qed simp_all
  have "fold (\<lambda>d. generate_daily_slots now e d None ah) (d # ds) db =
      fold (\<lambda>d. generate_daily_slots now e d None ah) ds ?db1"
    by (simp add: daily_places [OF Cons.prems(1)])
  also have "\<dots> = fold (place_row now (live_rules (eq_id e) ?db1)) (concat (map (day_rows e ah ?db1) ds)) ?db1"
    using Cons.prems(2) by (intro Cons.IH wf) simp
  also have "live_rules (eq_id e) ?db1 = live_rules (eq_id e) db" by (rule live_rules_cong) simp
  also have "map (day_rows e ah ?db1) ds = map (day_rows e ah db) ds" using rows by simp
  finally show ?case by simp
qed simp

lemma week_of_days:
  "slot_wf db \<Longrightarrow> generate_slots_for_week now e ws we ah db =
    fold (\<lambda>d. generate_daily_slots now e d None ah) [ws..we] db"
  by (simp add: week_places days_place)

lemma daily_wf:
  assumes "slot_wf db"
  shows "slot_wf (generate_daily_slots now e d None ah db)"
  unfolding daily_places [OF assms]
  using fresh_day_rows [OF assms, of "[d]" e ah] by (intro places_wf assms) simp

lemma days_wf: "slot_wf db \<Longrightarrow> slot_wf (fold (\<lambda>d. generate_daily_slots now e d None ah) ds db)"
  by (induction ds arbitrary: db) (auto intro: daily_wf)

lemma upto_split:
  assumes "a \<le> b + 1" "b \<le> c"
  shows "[a..c] = [a..b] @ [b + 1..c]"
proof (cases "a \<le> b")
  case False
  with assms(1) have "a = b + 1" by simp
  then show ?thesis by simp
qed (use assms in \<open>auto intro: upto_split2\<close>)

lemma weeks_of_days:
  "slot_wf db \<Longrightarrow> generate_by_weeks now e a b db =
    fold (\<lambda>d. generate_daily_slots now e d None False) [a..b] db"
proof (induction now e a b db rule: generate_by_weeks.induct)
  case (1 now e a b db)
  show ?case
  proof (cases "b < a")
    case False
    let ?w = "min (a + 6) b"
    have "[a..b] = [a..?w] @ [?w + 1..b]" using False by (intro upto_split) auto
    then show ?thesis
      using 1 False days_wf [OF 1(2), of now e False "[a..?w]"]
      by (subst generate_by_weeks.simps) (simp add: Let_def week_of_days)
  qed (simp add: generate_by_weeks.simps)
qed

subsection \<open>Slots never overlap\<close>

definition time_ok :: "time_of_day \<Rightarrow> bool" where
  "time_ok t \<longleftrightarrow> 0 \<le> t \<and> t < 86400"

text \<open>The active masters of an equipment pass the check of their form.\<close>

definition timetable_ok :: "ident \<Rightarrow> 'z slot_db_scheme \<Rightarrow> bool" where
  "timetable_ok e db \<longleftrightarrow> (\<forall>m\<in>set (active_masters e db).
     time_ok (sm_open m) \<and> time_ok (sm_close m) \<and> slot_master_clean m db = Inr ())"

definition on_timetable :: "ident \<Rightarrow> 'z slot_db_scheme \<Rightarrow> bool" where
  "on_timetable e db \<longleftrightarrow> (\<forall>s\<in>set (sl_slots db). slot_equipment db s = Some e \<longrightarrow>
     (\<exists>m\<in>set (active_masters e db). sm_id m = ds_master s \<and>
        (ds_start s, ds_end s) = aware_slot_datetimes (ds_date s) (sm_open m) (sm_close m)))"

lemma aware_span:
  "aware_slot_datetimes d a b = (86400 * d + fst (slot_span_seconds (a, b)) - zone_offset,
     86400 * d + snd (slot_span_seconds (a, b)) - zone_offset)"
  by (simp add: aware_slot_datetimes_def slot_span_seconds_def local_instant_def algebra_simps)

lemma both_times_some: "both_times (map (\<lambda>x. (Some (f x), Some (g x))) xs) = map (\<lambda>x. (f x, g x)) xs"
  by (induction xs) auto

lemma clean_masters_disjoint:
  assumes ok: "timetable_ok e db" and m: "m \<in> set (active_masters e db)" "m' \<in> set (active_masters e db)"
    and "sm_id m \<noteq> sm_id m'"
  shows "\<not> spans_clash (slot_span_seconds (sm_open m, sm_close m)) (slot_span_seconds (sm_open m', sm_close m'))"
proof -
  let ?others = "filter (\<lambda>x. sm_equipment x = sm_equipment m \<and> sm_active x \<and> sm_id x \<noteq> sm_id m) (sl_masters db)"
  let ?times = "map (\<lambda>x. (sm_open x, sm_close x)) ?others"
  have sel: "[(Some (sm_open x), Some (sm_close x)). x \<leftarrow> sl_masters db,
      sm_equipment x = sm_equipment m \<and> sm_active x \<and> sm_id x \<noteq> sm_id m] =
      map (\<lambda>x. (Some (sm_open x), Some (sm_close x))) ?others"
    by (rule selected_map)
  have "slot_master_clean m db = Inr ()" "sm_active m" "sm_equipment m = Some e"
    using ok m(1) by (auto simp: timetable_ok_def active_mastersD)
  then have "first_overlap ((sm_open m, sm_close m) # ?times) = None"
    unfolding slot_master_clean_def sel
    by (auto simp: slot_masters_conflict_def Let_def both_times_some split: option.splits if_splits)
  then have "\<forall>q\<in>set ?times. \<not> spans_clash (slot_span_seconds (sm_open m, sm_close m)) (slot_span_seconds q)"
    by (auto simp: find_None_iff split: option.splits)
  moreover have "(sm_open m', sm_close m') \<in> set ?times"
    using m assms(4) by (auto simp: active_mastersD)
  ultimately show ?thesis by blast
qed

lemma spans_disjoint:
  assumes "time_ok a" "time_ok b" "time_ok a'" "time_ok b'"
    and "d \<noteq> d' \<and> (a, b) = (a', b') \<or> \<not> spans_clash (slot_span_seconds (a, b)) (slot_span_seconds (a', b'))"
  shows "snd (aware_slot_datetimes d a b) \<le> fst (aware_slot_datetimes d' a' b') \<or>
    snd (aware_slot_datetimes d' a' b') \<le> fst (aware_slot_datetimes d a b)"
proof -
  obtain s1 e1 s2 e2 where span: "slot_span_seconds (a, b) = (s1, e1)" "slot_span_seconds (a', b') = (s2, e2)"
    by fastforce
  have len: "0 \<le> s1" "s1 < 86400" "s1 < e1" "e1 \<le> s1 + 86400"
    "0 \<le> s2" "s2 < 86400" "s2 < e2" "e2 \<le> s2 + 86400"
    using assms(1-4) span by (auto simp: slot_span_seconds_def time_ok_def split: if_splits)
  consider "d = d'" | "d' = d + 1" | "d = d' + 1" | "d + 2 \<le> d'" | "d' + 2 \<le> d" by linarith
  then have "86400 * d + e1 \<le> 86400 * d' + s2 \<or> 86400 * d' + e2 \<le> 86400 * d + s1"
  proof cases
    case 1
    then show ?thesis using assms(5) len span by (auto simp: spans_clash_def)
  next
    case 2
    then show ?thesis using assms(5) len span by (auto simp: spans_clash_def)
  next
    case 3
    then show ?thesis using assms(5) len span by (auto simp: spans_clash_def)
  qed (use len in linarith)+
  then show ?thesis by (simp add: aware_span span)
qed

lemma timetable_disjoint:
  assumes "slot_wf db" "timetable_ok e db" "on_timetable e db"
    and "s \<in> set (sl_slots db)" "t \<in> set (sl_slots db)" "s \<noteq> t"
    and "slot_equipment db s = Some e" "slot_equipment db t = Some e"
  shows "ds_end s \<le> ds_start t \<or> ds_end t \<le> ds_start s"
proof -
  obtain m m' where m: "m \<in> set (active_masters e db)" "sm_id m = ds_master s"
      "(ds_start s, ds_end s) = aware_slot_datetimes (ds_date s) (sm_open m) (sm_close m)"
    and m': "m' \<in> set (active_masters e db)" "sm_id m' = ds_master t"
      "(ds_start t, ds_end t) = aware_slot_datetimes (ds_date t) (sm_open m') (sm_close m')"
    using assms(3-5,7,8) unfolding on_timetable_def by metis
  have ok: "time_ok (sm_open m)" "time_ok (sm_close m)" "time_ok (sm_open m')" "time_ok (sm_close m')"
    using assms(2) m(1) m'(1) by (auto simp: timetable_ok_def)
  have "slot_key s \<noteq> slot_key t"
    using assms(1,4-6) by (auto simp: slot_wf_def distinct_map inj_on_def)
  then have "sm_id m \<noteq> sm_id m' \<or> ds_date s \<noteq> ds_date t \<and> m = m'"
    using distinct_active_masters [OF assms(1), of e] m m' by (auto simp: slot_key_def distinct_map inj_on_def)
  then have "ds_date s \<noteq> ds_date t \<and> (sm_open m, sm_close m) = (sm_open m', sm_close m') \<or>
      \<not> spans_clash (slot_span_seconds (sm_open m, sm_close m)) (slot_span_seconds (sm_open m', sm_close m'))"
    using clean_masters_disjoint [OF assms(2) m(1) m'(1)] by auto
  from spans_disjoint [OF ok this] show ?thesis
    using m(3) m'(3) by (auto simp: prod_eq_iff)
qed

end
