(* ===== verification/Slot_Blocks.thy ===== *)
theory Slot_Blocks
  imports Slots
begin

text \<open>
  Recurring slot block rules, \<^verbatim>\<open>equipment/slot_block_rules.py\<close>: checking the input, finding and
  sorting out the slots a rule covers, creating a rule and removing it. The lists of skipped
  slots that the page shows are given by their numbers, and the staff log is not modelled.
\<close>

subsection \<open>Input\<close>

text \<open>An error carries the code and the field.\<close>

datatype rule_input_error = Rule_Input_Error string string

record slot_time_row =
  tr_time :: string
  tr_end_time :: string
  tr_duration :: int
  tr_name :: string

definition format_slot_close_time :: "time_of_day \<Rightarrow> string" where
  "format_slot_close_time t = (if t = 0 then ''24:00''
     else if t mod 60 \<noteq> 0 then hhmm t @ '':'' @ width 2 (nat (t mod 60)) else hhmm t)"

definition integer_text :: "int \<Rightarrow> string" where
  "integer_text n = (if n < 0 then ''-'' @ decimal (nat (- n)) else decimal (nat n))"

fun time_rows :: "slot_master list \<Rightarrow> slot_time_row list \<Rightarrow> slot_time_row list" where
  "time_rows [] rows = rows"
| "time_rows (m # ms) rows =
     (let key = hhmm (sm_open m)
      in time_rows ms (if key \<in> tr_time ` set rows then rows else rows @
           [\<lparr>tr_time = key, tr_end_time = format_slot_close_time (sm_close m),
             tr_duration = slot_master_duration_minutes (sm_open m) (sm_close m),
             tr_name = (if sm_name m = [] then ''Slot '' @ integer_text (sm_number m) else sm_name m)\<rparr>]))"

definition equipment_slot_times :: "ident \<Rightarrow> 'z slot_db_scheme \<Rightarrow> slot_time_row list" where
  "equipment_slot_times e db = sort_key tr_time (time_rows
     (sort_key sm_open (sort_key sm_number
        (filter (\<lambda>m. sm_equipment m = Some e \<and> sm_active m) (sl_masters db)))) [])"

record rule_input =
  ri_weekdays :: "int list"
  ri_times :: "string list"
  ri_start :: day
  ri_end :: day
  ri_label :: string

definition max_range_days :: int where
  "max_range_days = 400"

text \<open>
  The raw weekdays are a list (or nothing) of what \<^verbatim>\<open>int\<close> makes of each entry, the raw times the
  entries as text. Reading a date succeeds with a day, or with none when it is empty, or raises.
\<close>

fun clean_weekdays :: "int option list \<Rightarrow> int list \<Rightarrow> rule_input_error + int list" where
  "clean_weekdays [] days = Inr days"
| "clean_weekdays (raw # raws) days =
     (let day = (case raw of None \<Rightarrow> -1 | Some n \<Rightarrow> n)
      in if \<not> (0 \<le> day \<and> day \<le> 6) then Inl (Rule_Input_Error ''invalid_weekday'' ''weekdays'')
         else clean_weekdays raws (List.insert day days))"

fun clean_times :: "string list \<Rightarrow> string set \<Rightarrow> string list \<Rightarrow> rule_input_error + string list" where
  "clean_times [] allowed chosen = Inr chosen"
| "clean_times (raw # raws) allowed chosen =
     (let value = take 5 (strip raw)
      in if value \<notin> allowed then Inl (Rule_Input_Error ''unknown_slot_time'' ''slot_times'')
         else clean_times raws allowed (List.insert value chosen))"

definition clean_rule_input ::
  "day \<Rightarrow> ident \<Rightarrow> int option list option \<Rightarrow> string list option \<Rightarrow>
   rule_input_error + day option \<Rightarrow> rule_input_error + day option \<Rightarrow> string \<Rightarrow> 'z slot_db_scheme \<Rightarrow>
   rule_input_error + rule_input" where
  "clean_rule_input today e raw_days raw_times start_date end_date label db =
     and_then (case raw_days of
         None \<Rightarrow> Inl (Rule_Input_Error ''weekdays_required'' ''weekdays'')
       | Some [] \<Rightarrow> Inl (Rule_Input_Error ''weekdays_required'' ''weekdays'')
       | Some raws \<Rightarrow> clean_weekdays raws []) (\<lambda>weekdays.
     and_then (case raw_times of
         None \<Rightarrow> Inl (Rule_Input_Error ''slot_times_required'' ''slot_times'')
       | Some [] \<Rightarrow> Inl (Rule_Input_Error ''slot_times_required'' ''slot_times'')
       | Some raws \<Rightarrow> clean_times raws (tr_time ` set (equipment_slot_times e db)) []) (\<lambda>chosen.
     and_then start_date (\<lambda>given_start.
     let start = (case given_start of None \<Rightarrow> today | Some d \<Rightarrow> d) in
     and_then end_date (\<lambda>given_end.
     and_then (case given_end of None \<Rightarrow> Inl (Rule_Input_Error ''end_date_required'' ''end_date'')
       | Some d \<Rightarrow> Inr d) (\<lambda>finish.
     and_then (ensure (today \<le> start) (Rule_Input_Error ''start_in_past'' ''start_date'')) (\<lambda>_.
     and_then (ensure (start \<le> finish) (Rule_Input_Error ''end_before_start'' ''end_date'')) (\<lambda>_.
     and_then (ensure (finish - start \<le> max_range_days) (Rule_Input_Error ''range_too_long'' ''end_date'')) (\<lambda>_.
     and_then (ensure (length (strip label) \<le> 255) (Rule_Input_Error ''label_too_long'' ''label'')) (\<lambda>_.
       Inr \<lparr>ri_weekdays = sort weekdays, ri_times = sort chosen, ri_start = start, ri_end = finish,
         ri_label = strip label\<rparr>)))))))))"

subsection \<open>The slots of a rule\<close>

definition candidate_slots :: "timestamp \<Rightarrow> ident \<Rightarrow> rule_input \<Rightarrow> 'z slot_db_scheme \<Rightarrow> daily_slot list" where
  "candidate_slots now e ri db =
     filter (\<lambda>s. local_start_hhmm (ds_start s) \<in> set (ri_times ri))
       (sort_key ds_date (sort_key ds_start (filter (\<lambda>s. slot_equipment db s = Some e \<and>
          ri_start ri \<le> ds_date s \<and> ds_date s \<le> ri_end ri \<and>
          weekday (ds_date s) + 1 \<in> (\<lambda>d. d + 1) ` set (ri_weekdays ri) \<and> now < ds_start s) (sl_slots db))))"

record block_plan =
  bp_to_block :: "daily_slot list"
  bp_booked :: "daily_slot list"
  bp_shared :: "daily_slot list"
  bp_other :: "daily_slot list"

definition active_rule :: "ident \<Rightarrow> 'z slot_db_scheme \<Rightarrow> bool" where
  "active_rule i db = (case row_of bk_id i (sl_rules db) of None \<Rightarrow> False | Some r \<Rightarrow> bk_active r)"

definition shared_slots :: "ident option \<Rightarrow> daily_slot list \<Rightarrow> 'z slot_db_scheme \<Rightarrow> ident set" where
  "shared_slots exclude slots db =
     (let blocked = ds_id ` set (filter (\<lambda>s. ds_status s = SL_BLOCKED \<and> ds_booking s = None) slots)
      in (snd \<circ> fst) ` set (filter (\<lambda>l. snd (fst l) \<in> blocked \<and> active_rule (fst (fst l)) db \<and>
           exclude \<noteq> Some (fst (fst l))) (sl_links db)))"

definition classify :: "ident option \<Rightarrow> daily_slot list \<Rightarrow> 'z slot_db_scheme \<Rightarrow> block_plan" where
  "classify exclude slots db =
     (let shared = shared_slots exclude slots db
      in foldl (\<lambda>plan s.
           if ds_booking s \<noteq> None then plan\<lparr>bp_booked := bp_booked plan @ [s]\<rparr>
           else if ds_status s = SL_AVAILABLE then plan\<lparr>bp_to_block := bp_to_block plan @ [s]\<rparr>
           else if ds_id s \<in> shared
           then plan\<lparr>bp_shared := bp_shared plan @ [s], bp_other := bp_other plan @ [s]\<rparr>
           else plan\<lparr>bp_other := bp_other plan @ [s]\<rparr>)
         \<lparr>bp_to_block = [], bp_booked = [], bp_shared = [], bp_other = []\<rparr> slots)"

definition future_slot_count :: "timestamp \<Rightarrow> equipment \<Rightarrow> rule_input \<Rightarrow> 'z slot_db_scheme \<Rightarrow> nat" where
  "future_slot_count now e ri db =
     (if initial_slot_status e \<noteq> SL_AVAILABLE then 0
      else let masters = filter (\<lambda>m. sm_equipment m = Some (eq_id e) \<and> sm_active m \<and>
                 hhmm (sm_open m) \<in> set (ri_times ri)) (sl_masters db);
               existing = slot_key ` set (filter (\<lambda>s. ds_master s \<in> sm_id ` set masters \<and>
                 ri_start ri \<le> ds_date s \<and> ds_date s \<le> ri_end ri) (sl_slots db));
               holidays = get_holidays_in_range db (ri_start ri) (ri_end ri)
           in length [m. d \<leftarrow> [ri_start ri..ri_end ri], weekday d \<in> set (ri_weekdays ri) \<and> d \<notin> holidays,
                m \<leftarrow> masters, (sm_id m, d) \<notin> existing \<and>
                  now < fst (aware_slot_datetimes d (sm_open m) (sm_close m))])"

definition plan_summary ::
  "timestamp \<Rightarrow> equipment \<Rightarrow> rule_input \<Rightarrow> block_plan \<Rightarrow> nat \<Rightarrow> 'z slot_db_scheme \<Rightarrow> rule_summary" where
  "plan_summary now e ri plan blocked db =
     \<lparr>rs_to_block = length (bp_to_block plan), rs_booked = length (bp_booked plan),
      rs_other = length (bp_other plan), rs_shared = length (bp_shared plan),
      rs_future = future_slot_count now e ri db, rs_blocked = blocked\<rparr>"

definition preview_rule :: "timestamp \<Rightarrow> equipment \<Rightarrow> rule_input \<Rightarrow> 'z slot_db_scheme \<Rightarrow> rule_summary" where
  "preview_rule now e ri db =
     plan_summary now e ri (classify None (candidate_slots now (eq_id e) ri db) db) 0 db"

subsection \<open>Creating a rule\<close>

abbreviation status_update :: "slot_status \<Rightarrow> string option \<Rightarrow> slot_update" where
  "status_update st label \<equiv> \<lparr>up_status = Some st, up_label = Some label, up_reference = None,
     up_booking = None, up_released = None\<rparr>"

abbreviation label_update :: "string option \<Rightarrow> slot_update" where
  "label_update label \<equiv> \<lparr>up_status = None, up_label = Some label, up_reference = None,
     up_booking = None, up_released = None\<rparr>"

definition create_rule ::
  "timestamp \<Rightarrow> equipment \<Rightarrow> rule_input \<Rightarrow> ident option \<Rightarrow> 'z slot_db_scheme \<Rightarrow>
   'z slot_db_scheme \<times> block_rule" where
  "create_rule now e ri actor db =
     (let plan = classify None (candidate_slots now (eq_id e) ri db) db;
          rule = \<lparr>bk_id = fresh_pk bk_id (sl_rules db), bk_equipment = eq_id e, bk_weekdays = ri_weekdays ri,
            bk_times = ri_times ri, bk_start = ri_start ri, bk_end = ri_end ri, bk_label = ri_label ri,
            bk_active = True, bk_summary = None, bk_created_by = actor, bk_created_at = now,
            bk_removed_by = None, bk_removed_at = None, bk_removal_summary = None\<rparr>;
          db1 = db\<lparr>sl_rules := sl_rules db @ [rule]\<rparr>;
          block_ids = ds_id ` set (bp_to_block plan);
          P = (\<lambda>s. ds_id s \<in> block_ids \<and> ds_status s = SL_AVAILABLE \<and> ds_booking s = None);
          blocked = length (filter P (sl_slots db1));
          db2 = update_slots now P (status_update SL_BLOCKED (label_value (ri_label ri))) db1;
          db3 = db2\<lparr>sl_links := fold insert_link
            (map (\<lambda>s. ((bk_id rule, ds_id s), L_Created)) (bp_to_block plan) @
             map (\<lambda>s. ((bk_id rule, ds_id s), L_Shared)) (bp_shared plan)) (sl_links db2)\<rparr>;
          rule' = rule\<lparr>bk_summary := Some (plan_summary now e ri plan blocked db3)\<rparr>
      in (db3\<lparr>sl_rules := update_row bk_id (bk_id rule) (\<lambda>_. rule') (sl_rules db3)\<rparr>, rule'))"

subsection \<open>Removing a rule\<close>

record removal_plan =
  rp_unblock :: "daily_slot list"
  rp_kept :: "(daily_slot \<times> block_rule) list"
  rp_unchanged :: "daily_slot list"

text \<open>
  The rule that keeps a slot blocked: of the other active rules with a link to it, the first made.
\<close>

definition other_rule :: "ident \<Rightarrow> 'z slot_db_scheme \<Rightarrow> ident \<Rightarrow> block_rule option" where
  "other_rule i db slot = find (\<lambda>r. bk_active r \<and> bk_id r \<noteq> i \<and> (bk_id r, slot) \<in> fst ` set (sl_links db))
     (sort_key bk_created_at (sl_rules db))"

definition or_blank :: "string option \<Rightarrow> string" where
  "or_blank l = (case l of None \<Rightarrow> [] | Some s \<Rightarrow> s)"

definition plan_removal :: "timestamp \<Rightarrow> block_rule \<Rightarrow> 'z slot_db_scheme \<Rightarrow> removal_plan" where
  "plan_removal now rule db =
     foldl (\<lambda>plan s.
         if ds_status s \<noteq> SL_BLOCKED \<or> ds_booking s \<noteq> None
         then plan\<lparr>rp_unchanged := rp_unchanged plan @ [s]\<rparr>
         else (case other_rule (bk_id rule) db (ds_id s) of
             Some r \<Rightarrow> plan\<lparr>rp_kept := rp_kept plan @ [(s, r)]\<rparr>
           | None \<Rightarrow> if or_blank (ds_label s) = bk_label rule
                     then plan\<lparr>rp_unblock := rp_unblock plan @ [s]\<rparr>
                     else plan\<lparr>rp_unchanged := rp_unchanged plan @ [s]\<rparr>))
       \<lparr>rp_unblock = [], rp_kept = [], rp_unchanged = []\<rparr>
       (sort_key ds_date (sort_key ds_start (filter (\<lambda>s. (bk_id rule, ds_id s) \<in> fst ` set (sl_links db) \<and>
          now < ds_start s) (sl_slots db))))"

definition removal_preview :: "timestamp \<Rightarrow> block_rule \<Rightarrow> 'z slot_db_scheme \<Rightarrow> nat \<times> nat \<times> nat" where
  "removal_preview now rule db = (let plan = plan_removal now rule db in
     (length (rp_unblock plan), length (rp_kept plan), length (rp_unchanged plan)))"

text \<open>
  The kept slots that carry the label of the rule get that of the rule that keeps them, rule by
  rule.
\<close>

definition hand_over :: "timestamp \<Rightarrow> (daily_slot \<times> block_rule) list \<Rightarrow> 'z slot_db_scheme \<Rightarrow> 'z slot_db_scheme" where
  "hand_over now handed db =
     foldl (\<lambda>db1 r. update_slots now
         (\<lambda>s. ds_id s \<in> ds_id ` set (map fst (filter (\<lambda>p. bk_id (snd p) = bk_id r) handed)) \<and>
              ds_status s = SL_BLOCKED)
         (label_update (label_value (bk_label r))) db1)
       db (rev (remdups (rev (map snd handed))))"

definition remove_rule ::
  "timestamp \<Rightarrow> equipment \<Rightarrow> ident \<Rightarrow> ident option \<Rightarrow> 'z slot_db_scheme \<Rightarrow>
   rule_input_error + 'z slot_db_scheme \<times> removal_summary" where
  "remove_rule now e i actor db = (case row_of bk_id i (sl_rules db) of
     None \<Rightarrow> Inl (Rule_Input_Error ''not_found'' [])
   | Some rule \<Rightarrow>
       if \<not> bk_active rule then Inl (Rule_Input_Error ''already_removed'' [])
       else
         (let plan = plan_removal now rule db;
              restore = initial_slot_status e;
              P = (\<lambda>s. ds_id s \<in> ds_id ` set (rp_unblock plan) \<and> ds_status s = SL_BLOCKED \<and> ds_booking s = None);
              unblocked = (if rp_unblock plan = [] then 0 else length (filter P (sl_slots db)));
              db1 = (if rp_unblock plan = [] then db else update_slots now P (status_update restore None) db);
              db2 = hand_over now (filter (\<lambda>p. or_blank (ds_label (fst p)) = bk_label rule) (rp_kept plan)) db1;
              summary = \<lparr>rm_unblocked = unblocked, rm_kept = length (rp_kept plan),
                rm_unchanged = length (rp_unchanged plan), rm_restored = restore\<rparr>
          in Inr (db2\<lparr>sl_rules := update_row bk_id i (\<lambda>r. r\<lparr>bk_active := False, bk_removed_by := actor,
                 bk_removed_at := Some now, bk_removal_summary := Some summary\<rparr>) (sl_rules db2)\<rparr>, summary)))"

end
