(* ===== verification/Slot_Runs.thy ===== *)
theory Slot_Runs
  imports Slot_Weeks Slot_Blocks
begin

text \<open>
  Runs of the slot operations. Every operation but the generation keeps the frame of a slot (its
  master, day and times), so that the slots of an equipment stay on its timetable; and along a
  run of generation, repeat rules and bookings an active rule keeps what it covers blocked.
\<close>

subsection \<open>Frames\<close>

definition frame :: "daily_slot \<Rightarrow> ident \<times> ident \<times> day \<times> timestamp \<times> timestamp" where
  "frame s = (ds_id s, ds_master s, ds_date s, ds_start s, ds_end s)"

definition same_frames :: "'z slot_db_scheme \<Rightarrow> 'z slot_db_scheme \<Rightarrow> bool" where
  "same_frames db db' \<longleftrightarrow> sl_masters db' = sl_masters db \<and> map frame (sl_slots db') = map frame (sl_slots db)"

lemma same_frames_refl [simp]: "same_frames db db"
  by (simp add: same_frames_def)

lemma same_frames_trans: "same_frames db db1 \<Longrightarrow> same_frames db1 db2 \<Longrightarrow> same_frames db db2"
  by (simp add: same_frames_def)

lemma frame_update_slot [simp]: "frame (update_slot now u s) = frame s"
  by (simp add: update_slot_def frame_def Let_def)

lemma same_frames_update_slots [simp]: "same_frames db (update_slots now P u db)"
  by (auto simp: same_frames_def update_slots_def remember_booking_slot_ranges_def Let_def)

lemma same_frames_save_slot: "same_frames db (save_slot loaded s db)"
  by (auto simp: same_frames_def save_slot_def update_row_def frame_def Let_def)

lemma same_frames_hand_over [simp]: "same_frames db (hand_over now handed db)"
proof -
  have "same_frames db (foldl (\<lambda>db1 r. update_slots now (Q r) (U r) db1) db rs)" for Q U and rs :: "block_rule list"
  proof (induction rs arbitrary: db)
    case (Cons r rs)
    show ?case using same_frames_trans [OF same_frames_update_slots Cons.IH] by simp
  qed simp
  then show ?thesis by (simp add: hand_over_def)
qed

lemma same_frames_create_rule: "same_frames db (fst (create_rule now e ri actor db))"
  using same_frames_update_slots by (simp add: create_rule_def same_frames_def Let_def update_slots_def
      remember_booking_slot_ranges_def)

lemma same_frames_rules [simp]: "same_frames db (db'\<lparr>sl_rules := rules\<rparr>) = same_frames db db'"
  by (simp add: same_frames_def)

lemma same_frames_remove_rule:
  assumes "remove_rule now e i actor db = Inr (db', sm)"
  shows "same_frames db db'"
  using assms
  by (auto simp: remove_rule_def Let_def split: option.splits if_splits
      intro: same_frames_trans [OF same_frames_update_slots same_frames_hand_over])

lemma same_frames_keys:
  assumes "same_frames db db'"
  shows "map slot_key (sl_slots db') = map slot_key (sl_slots db)" (is ?keys)
    and "map ds_id (sl_slots db') = map ds_id (sl_slots db)" (is ?ids)
    and "map ds_master (sl_slots db') = map ds_master (sl_slots db)" (is ?masters)
proof -
  have "map g (map frame (sl_slots db')) = map g (map frame (sl_slots db))" for g :: "_ \<Rightarrow> 'x"
    using assms by (simp add: same_frames_def)
  note eq = this
  from eq [of "\<lambda>(i, m, d, s, t). (m, d)"] show ?keys by (simp add: frame_def slot_key_def [abs_def] comp_def)
  from eq [of fst] show ?ids by (simp add: frame_def comp_def)
  from eq [of "\<lambda>(i, m, d, s, t). m"] show ?masters by (simp add: frame_def comp_def)
qed

lemma same_frames_wf: "same_frames db db' \<Longrightarrow> slot_wf db \<Longrightarrow> slot_wf db'"
proof -
  assume same: "same_frames db db'" and wf: "slot_wf db"
  have "set (map ds_master (sl_slots db')) = set (map ds_master (sl_slots db))"
    using same_frames_keys(3) [OF same] by simp
  then show ?thesis
    using wf same same_frames_keys(1,2) [OF same] by (auto simp: slot_wf_def unique_keys_def same_frames_def)
qed

lemma active_masters_cong: "sl_masters db' = sl_masters db \<Longrightarrow> active_masters e db' = active_masters e db"
  by (simp add: active_masters_def)

lemma timetable_ok_cong: "sl_masters db' = sl_masters db \<Longrightarrow> timetable_ok e db' = timetable_ok e db"
  by (simp add: timetable_ok_def active_masters_def slot_master_clean_def)

lemma slot_equipment_cong:
  "sl_masters db' = sl_masters db \<Longrightarrow> slot_equipment db' s = slot_equipment db s"
  by (simp add: slot_equipment_def)

lemma same_frames_timetable:
  assumes "same_frames db db'" "on_timetable e db"
  shows "on_timetable e db'"
  unfolding on_timetable_def
proof (intro ballI impI)
  fix s assume s: "s \<in> set (sl_slots db')" and eq: "slot_equipment db' s = Some e"
  have masters: "sl_masters db' = sl_masters db" using assms(1) by (simp add: same_frames_def)
  from s have "frame s \<in> set (map frame (sl_slots db'))" by simp
  also have "\<dots> = set (map frame (sl_slots db))" using assms(1) by (simp add: same_frames_def)
  finally obtain t where t: "t \<in> set (sl_slots db)" "frame t = frame s" by auto
  have "slot_equipment db t = Some e"
    using eq t(2) by (simp add: slot_equipment_def masters frame_def)
  from assms(2) [unfolded on_timetable_def, rule_format, OF t(1) this] show "\<exists>m\<in>set (active_masters e db'). sm_id m = ds_master s \<and>
      (ds_start s, ds_end s) = aware_slot_datetimes (ds_date s) (sm_open m) (sm_close m)"
    using t(2) unfolding active_masters_cong [OF masters] by (simp add: frame_def)
qed

subsection \<open>The timetable of an equipment\<close>

definition timetable_inv :: "ident \<Rightarrow> 'z slot_db_scheme \<Rightarrow> bool" where
  "timetable_inv e db \<longleftrightarrow> slot_wf db \<and> timetable_ok e db \<and> on_timetable e db \<and> active_masters e db \<noteq> []"

lemma same_frames_inv: "same_frames db db' \<Longrightarrow> timetable_inv e db \<Longrightarrow> timetable_inv e db'"
  using same_frames_wf same_frames_timetable timetable_ok_cong active_masters_cong
  unfolding timetable_inv_def same_frames_def by metis

lemma place_row_timetable:
  assumes "on_timetable e db" "\<And>m. slot_equipment db s = Some e \<Longrightarrow>
    \<exists>m\<in>set (active_masters e db). sm_id m = ds_master s \<and>
      (ds_start s, ds_end s) = aware_slot_datetimes (ds_date s) (sm_open m) (sm_close m)"
  shows "on_timetable e (place_row now rules s db)"
  using assms unfolding on_timetable_def
  by (auto simp: place_row_def Let_def slot_equipment_def active_masters_def)

lemma day_row_timetable:
  assumes "slot_wf db" "s \<in> set (day_rows eq ah db d)" "slot_equipment db s = Some e"
  shows "\<exists>m\<in>set (active_masters e db). sm_id m = ds_master s \<and>
      (ds_start s, ds_end s) = aware_slot_datetimes (ds_date s) (sm_open m) (sm_close m)"
proof -
  from assms(2) obtain m where m: "m \<in> set (active_masters (eq_id eq) db)" "s = new_slot m d (day_status eq ah db d)"
    by (auto simp: set_day_rows)
  moreover have "eq_id eq = e"
    using slot_of_master [OF assms(1), of m s] m assms(3) by (auto simp: active_mastersD)
  ultimately show ?thesis by auto
qed

lemma places_timetable:
  assumes "slot_wf db" "on_timetable e db"
    and "\<And>s. s \<in> set rows \<Longrightarrow> slot_equipment db s = Some e \<Longrightarrow>
    \<exists>m\<in>set (active_masters e db). sm_id m = ds_master s \<and>
      (ds_start s, ds_end s) = aware_slot_datetimes (ds_date s) (sm_open m) (sm_close m)"
  shows "on_timetable e (fold (place_row now rules) rows db)"
  using assms(2,3)
proof (induction rows arbitrary: db)
  case (Cons s rows)
  have "on_timetable e (place_row now rules s db)"
    using Cons.prems by (intro place_row_timetable) auto
  then show ?case
    using Cons.prems(2) by (simp, intro Cons.IH) (auto simp: slot_equipment_def active_masters_def)
qed simp

lemma daily_inv:
  assumes "timetable_inv e db"
  shows "timetable_inv e (generate_daily_slots now eq d None ah db)"
proof -
  from assms have wf: "slot_wf db" and ok: "timetable_ok e db" "on_timetable e db" "active_masters e db \<noteq> []"
    by (auto simp: timetable_inv_def)
  have "on_timetable e (generate_daily_slots now eq d None ah db)"
    unfolding daily_places [OF wf]
    by (rule places_timetable [OF wf ok(2) day_row_timetable [OF wf]])
  moreover have masters: "sl_masters (generate_daily_slots now eq d None ah db) = sl_masters db"
    by (simp add: daily_places [OF wf])
  ultimately show ?thesis
    using daily_wf [OF wf] ok timetable_ok_cong [OF masters] active_masters_cong [OF masters]
    by (simp add: timetable_inv_def)
qed

lemma days_inv: "timetable_inv e db \<Longrightarrow> timetable_inv e (fold (\<lambda>d. generate_daily_slots now eq d None ah) ds db)"
  by (induction ds arbitrary: db) (auto intro: daily_inv)

lemma week_inv:
  assumes "timetable_inv e db"
  shows "timetable_inv e (generate_slots_for_week now eq ws we ah db)"
proof -
  have "slot_wf db" using assms by (simp add: timetable_inv_def)
  then show ?thesis by (simp add: week_of_days days_inv assms)
qed

lemma weeks_inv:
  assumes "timetable_inv e db"
  shows "timetable_inv e (generate_by_weeks now eq a b db)"
proof -
  have "slot_wf db" using assms by (simp add: timetable_inv_def)
  then show ?thesis by (simp add: weeks_of_days days_inv assms)
qed

text \<open>Making masters for another equipment leaves the masters of this one as they are.\<close>

lemma other_masters_inv:
  assumes inv: "timetable_inv e db"
    and own: "\<And>P. filter (\<lambda>m. sm_equipment m = Some e \<and> P m) ms = filter (\<lambda>m. sm_equipment m = Some e \<and> P m) (sl_masters db)"
    and ids: "unique_keys sm_id ms" "sm_id ` set (sl_masters db) \<subseteq> sm_id ` set ms"
    and eqs: "\<And>i. i \<in> sm_id ` set (sl_masters db) \<Longrightarrow>
      Option.bind (row_of sm_id i ms) sm_equipment = Option.bind (row_of sm_id i (sl_masters db)) sm_equipment"
  shows "timetable_inv e (db\<lparr>sl_masters := ms\<rparr>)"
proof -
  let ?db = "db\<lparr>sl_masters := ms\<rparr>"
  have active: "active_masters e ?db = active_masters e db"
    using own [of sm_active] by (simp add: active_masters_def)
  have "slot_master_clean m ?db = slot_master_clean m db" if "sm_equipment m = Some e" for m
    using own [of "\<lambda>x. sm_active x \<and> sm_id x \<noteq> sm_id m"] that
    by (simp add: slot_master_clean_def selected_map)
  then have "timetable_ok e ?db"
    using inv by (auto simp: timetable_ok_def timetable_inv_def active active_mastersD)
  moreover have "slot_equipment ?db s = slot_equipment db s" if "s \<in> set (sl_slots db)" for s
    using eqs [of "ds_master s"] inv that by (auto simp: slot_equipment_def timetable_inv_def slot_wf_def)
  then have "on_timetable e ?db"
    using inv by (simp add: on_timetable_def timetable_inv_def active)
  moreover have "slot_wf ?db"
    using inv ids(1) order_trans [OF _ ids(2)] by (simp add: timetable_inv_def slot_wf_def)
  ultimately show ?thesis
    using inv by (simp add: timetable_inv_def active)
qed

lemma ensure_inv:
  assumes "timetable_inv e db"
  shows "timetable_inv e (fst (ensure_slot_masters_exist e' db))"
proof (cases "active_masters e' db = []")
  case False
  then show ?thesis using assms by (simp add: ensure_slot_masters_exist_def)
next
  case True
  then have other: "e' \<noteq> e" using assms by (auto simp: timetable_inv_def)
  have wf: "slot_wf db" using assms by (simp add: timetable_inv_def)
  let ?f = "\<lambda>m. if sm_equipment m = Some e' then m\<lparr>sm_active := True\<rparr> else m"
  show ?thesis
  proof (cases "list_ex (\<lambda>m. sm_equipment m = Some e') (sl_masters db)")
    case listed: True
    have "timetable_inv e (db\<lparr>sl_masters := map ?f (sl_masters db)\<rparr>)"
    proof (rule other_masters_inv [OF assms])
      have "filter (\<lambda>m. sm_equipment m = Some e \<and> P m) (map ?f ms) =
          filter (\<lambda>m. sm_equipment m = Some e \<and> P m) ms" for P ms
        using other by (induction ms) auto
      then show "filter (\<lambda>m. sm_equipment m = Some e \<and> P m) (map ?f (sl_masters db)) =
          filter (\<lambda>m. sm_equipment m = Some e \<and> P m) (sl_masters db)" for P .
      have ids: "map sm_id (map ?f ms) = map sm_id ms" for ms by (induction ms) auto
      show "unique_keys sm_id (map ?f (sl_masters db))"
        unfolding unique_keys_def ids using wf by (simp add: slot_wf_def unique_keys_def)
      show "sm_id ` set (sl_masters db) \<subseteq> sm_id ` set (map ?f (sl_masters db))"
        using arg_cong [OF ids, of set "sl_masters db"] by (simp del: map_map)
      have "Option.bind (row_of sm_id i (map ?f ms)) sm_equipment = Option.bind (row_of sm_id i ms) sm_equipment" for i ms
        by (induction ms) auto
      then show "Option.bind (row_of sm_id i (map ?f (sl_masters db))) sm_equipment =
          Option.bind (row_of sm_id i (sl_masters db)) sm_equipment" for i .
    qed
    then show ?thesis using True listed by (simp add: ensure_slot_masters_exist_def Let_def)
  next
    case False
    let ?m = "\<lparr>sm_id = fresh_pk sm_id (sl_masters db), sm_equipment = Some e', sm_number = 1,
      sm_name = ''Slot 1'', sm_open = 0, sm_close = 0, sm_active = True\<rparr>"
    have "timetable_inv e (db\<lparr>sl_masters := sl_masters db @ [?m]\<rparr>)"
    proof (rule other_masters_inv [OF assms])
      show "unique_keys sm_id (sl_masters db @ [?m])"
        using wf by (intro unique_keys_append) (simp_all add: slot_wf_def fresh_pk_notin)
      show "Option.bind (row_of sm_id i (sl_masters db @ [?m])) sm_equipment =
          Option.bind (row_of sm_id i (sl_masters db)) sm_equipment" if "i \<in> sm_id ` set (sl_masters db)" for i
        using that by (auto simp: row_of_append row_of_None split: option.splits)
    qed (use other in auto)
    then show ?thesis using True False by (simp add: ensure_slot_masters_exist_def Let_def)
  qed
qed

subsection \<open>Any run\<close>

inductive slot_step :: "slot_db \<Rightarrow> slot_db \<Rightarrow> bool" where
  Gen_Day: "slot_step db (generate_daily_slots now eq d None allow_holiday db)"
| Gen_Week: "slot_step db (generate_slots_for_week now eq week_start week_end allow_holiday db)"
| Gen_Weekly: "slot_step db (generate_weekly_slots now eq start_date end_date db)"
| Gen_Monthly: "generate_monthly_slots now eq start_date ym months db = Inr db' \<Longrightarrow> slot_step db db'"
| Ensure: "slot_step db (fst (ensure_slot_masters_exist i db))"
| Create: "slot_step db (fst (create_rule now eq ri actor db))"
| Remove: "remove_rule now eq i actor db = Inr (db', sm) \<Longrightarrow> slot_step db db'"
| Update: "slot_step db (update_slots now P u db)"
| Block: "slot_step db (block_slot s db)"
| Unblock: "slot_step db (unblock_slot s db)"

lemma save_status_frames: "same_frames db (save_slot s (s\<lparr>ds_status := st\<rparr>) db)"
proof -
  have "same_frames db (db\<lparr>sl_slots := update_row ds_id i (\<lambda>r. r\<lparr>ds_status := st, ds_released := t\<rparr>) (sl_slots db)\<rparr>)"
    for i st t by (auto simp: same_frames_def update_row_def frame_def)
  then show ?thesis by (simp add: save_slot_def Let_def)
qed

interpretation timetable: machine slot_step "timetable_inv e" for e
proof
  fix db db' assume inv: "timetable_inv e db" and "slot_step db db'"
  from this(2) show "timetable_inv e db'"
  proof cases
    case (Gen_Monthly now eq start_date ym months)
    then show ?thesis using weeks_inv [OF inv]
      by (auto simp: generate_monthly_slots_def end_date_after_months_def split: if_splits)
  next
    case (Remove now eq i actor sm)
    then show ?thesis using same_frames_inv [OF same_frames_remove_rule inv] by blast
  next
    case (Unblock s)
    then show ?thesis using inv same_frames_inv [OF save_status_frames inv] by (simp add: unblock_slot_def)
  qed (use inv daily_inv week_inv weeks_inv ensure_inv same_frames_inv [OF same_frames_create_rule]
      same_frames_inv [OF same_frames_update_slots] same_frames_inv [OF save_status_frames]
      in \<open>auto simp: generate_weekly_slots_def block_slot_def\<close>)
qed

text \<open>
  C25: The slots of an equipment never overlap in time. Start from tables whose active slot masters
  pass the check of their form and whose slots lie on them; then after any run of generation (by
  day, week, weeks or months, of any equipment, with or without holidays), of making default
  masters, of repeat rules created and removed, of bookings, releases and other updates of slots,
  two different slots of the equipment are disjoint, also across midnight.
\<close>

theorem slots_never_overlap:
  assumes "slot_wf db" "timetable_ok e db" "on_timetable e db" "active_masters e db \<noteq> []"
    and "slot_step\<^sup>*\<^sup>* db db'"
    and "s \<in> set (sl_slots db')" "t \<in> set (sl_slots db')" "s \<noteq> t"
    and "slot_equipment db' s = Some e" "slot_equipment db' t = Some e"
  shows "ds_end s \<le> ds_start t \<or> ds_end t \<le> ds_start s"
proof -
  have "timetable_inv e db'"
    using timetable.run_inv [OF assms(5)] assms(1-4) by (simp add: timetable_inv_def)
  then show ?thesis
    using assms(6-10) timetable_disjoint unfolding timetable_inv_def by blast
qed

lemma week_complete:
  assumes "slot_wf db" "m \<in> set (active_masters (eq_id eq) db)" "a \<le> d" "d \<le> b" "day_open ah db d"
  shows "\<exists>!s. s \<in> set (sl_slots (generate_slots_for_week now eq a b ah db)) \<and> ds_master s = sm_id m \<and> ds_date s = d"
proof -
  let ?db = "generate_slots_for_week now eq a b ah db"
  have "slot_wf ?db" using days_wf [OF assms(1)] by (simp add: week_of_days [OF assms(1)])
  then have one: "inj_on slot_key (set (sl_slots ?db))" by (simp add: slot_wf_def distinct_map)
  have keys: "slot_key ` set (sl_slots ?db) =
      slot_key ` set (concat (map (day_rows eq ah db) [a..b])) \<union> slot_key ` set (sl_slots db)"
    by (simp only: week_places [OF assms(1)] places_simps)
  have "(sm_id m, d) \<in> slot_key ` set (sl_slots ?db)"
  proof (cases "(sm_id m, d) \<in> slot_key ` set (sl_slots db)")
    case False
    let ?s = "new_slot m d (day_status eq ah db d)"
    have "?s \<in> set (day_rows eq ah db d)"
      using assms False by (auto simp: set_day_rows)
    then have "?s \<in> set (concat (map (day_rows eq ah db) [a..b]))"
      using assms by auto
    then have "slot_key ?s \<in> slot_key ` set (sl_slots ?db)" unfolding keys by blast
    then show ?thesis by simp
  qed (simp add: keys)
  then obtain s where "s \<in> set (sl_slots ?db)" "slot_key s = (sm_id m, d)" by auto
  with one show ?thesis
    by (intro ex1I [of _ s]) (auto simp: slot_key_def inj_on_def)
qed

text \<open>
  C26: Generating a week of slots gives exactly the tables that generating its days one after the
  other gives, for any range, and the weekly and monthly generation, which go from week to week,
  are the days of their whole range in turn; months of a start day are counted by their lengths.
  After it each active master has exactly one slot on each day of the range that is not closed.
\<close>

theorem week_is_day_by_day:
  fixes db :: slot_db
  assumes "slot_wf db"
  shows "generate_slots_for_week now eq a b ah db = fold (\<lambda>d. generate_daily_slots now eq d None ah) [a..b] db \<and>
    generate_weekly_slots now eq a end_date db =
      fold (\<lambda>d. generate_daily_slots now eq d None False) [a..(case end_date of None \<Rightarrow> a + 6 | Some d \<Rightarrow> d)] db \<and>
    generate_monthly_slots now eq a ym months db =
      (if months = 0 then Inl (ValueError ''months must be >= 1'')
       else Inr (fold (\<lambda>d. generate_daily_slots now eq d None False) [a..a + days_of_months ym months] db)) \<and>
    (m \<in> set (active_masters (eq_id eq) db) \<and> a \<le> d \<and> d \<le> b \<and> (ah \<or> \<not> is_holiday db d) \<longrightarrow>
      (\<exists>!s. s \<in> set (sl_slots (generate_slots_for_week now eq a b ah db)) \<and> ds_master s = sm_id m \<and> ds_date s = d))"
  using week_complete [OF assms, of m eq a d b ah now]
  by (simp add: week_of_days [OF assms] weeks_of_days [OF assms] generate_weekly_slots_def
      generate_monthly_slots_def end_date_after_months_def day_open_def)

subsection \<open>A sample equipment\<close>

definition slot_demo :: slot_db where
  "slot_demo = \<lparr>sl_masters =
      [\<lparr>sm_id = 1, sm_equipment = Some 7, sm_number = 1, sm_name = ''Day'', sm_open = 32400, sm_close = 43200, sm_active = True\<rparr>,
       \<lparr>sm_id = 2, sm_equipment = Some 7, sm_number = 2, sm_name = ''Night'', sm_open = 64800, sm_close = 7200, sm_active = True\<rparr>],
     sl_slots = [], sl_holidays = [], sl_rules = [], sl_links = [], sl_ranges = (\<lambda>_. None)\<rparr>"

definition demo_equipment :: equipment where
  "demo_equipment = \<lparr>eq_id = 7, eq_status = EQ_ACTIVE, eq_external_percent = 20\<rparr>"

abbreviation demo_week :: slot_db where
  "demo_week \<equiv> generate_slots_for_week 0 demo_equipment 4 5 False slot_demo"

lemma slot_demo_ok:
  "slot_wf slot_demo" "timetable_ok 7 slot_demo" "on_timetable 7 slot_demo" "active_masters 7 slot_demo \<noteq> []"
  by code_simp+

theorem slots_never_overlap_witness:
  "length (sl_slots demo_week) = 4 \<and>
   (ds_end (sl_slots demo_week ! 1) \<le> ds_start (sl_slots demo_week ! 2) \<or>
    ds_end (sl_slots demo_week ! 2) \<le> ds_start (sl_slots demo_week ! 1))"
proof -
  have four: "length (sl_slots demo_week) = 4" by code_simp
  then have "sl_slots demo_week ! 1 \<in> set (sl_slots demo_week)" "sl_slots demo_week ! 2 \<in> set (sl_slots demo_week)"
    by simp_all
  moreover have "sl_slots demo_week ! 1 \<noteq> sl_slots demo_week ! 2" by code_simp
  moreover have "slot_equipment demo_week (sl_slots demo_week ! 1) = Some 7"
    "slot_equipment demo_week (sl_slots demo_week ! 2) = Some 7" by code_simp+
  ultimately show ?thesis
    using slots_never_overlap [OF slot_demo_ok r_into_rtranclp [of slot_step, OF Gen_Week]] four by blast
qed

theorem week_is_day_by_day_witness:
  "generate_weekly_slots 0 demo_equipment 4 (Some 18) slot_demo =
     fold (\<lambda>d. generate_daily_slots 0 demo_equipment d None False) [4..18] slot_demo \<and>
   length (sl_slots (generate_weekly_slots 0 demo_equipment 4 (Some 18) slot_demo)) = 22"
proof -
  have "length (sl_slots (generate_weekly_slots 0 demo_equipment 4 (Some 18) slot_demo)) = 22" by code_simp
  then show ?thesis
    using week_is_day_by_day [OF slot_demo_ok(1), of 0 demo_equipment 4 4 False "Some 18"] by simp
qed

end
