(* ===== verification/Slot_Rules.thy ===== *)
theory Slot_Rules
  imports Slot_Runs
begin

text \<open>
  What repeat rules promise, along runs of generation, rules, bookings and closings: a slot that an
  active rule covers is not free to book, and removing the last rule of a slot gives it back.
\<close>

subsection \<open>The plans as filters\<close>

definition free_slot :: "daily_slot \<Rightarrow> bool" where
  "free_slot s \<longleftrightarrow> ds_status s = SL_AVAILABLE \<and> ds_booking s = None"

definition held_slot :: "daily_slot \<Rightarrow> bool" where
  "held_slot s \<longleftrightarrow> ds_status s = SL_BLOCKED \<and> ds_booking s = None"

lemma classify_fields:
  "bp_to_block (classify x slots db) = filter free_slot slots"
  "bp_booked (classify x slots db) = filter (\<lambda>s. ds_booking s \<noteq> None) slots"
  "bp_shared (classify x slots db) =
     filter (\<lambda>s. ds_booking s = None \<and> ds_status s \<noteq> SL_AVAILABLE \<and> ds_id s \<in> shared_slots x slots db) slots"
  "bp_other (classify x slots db) = filter (\<lambda>s. ds_booking s = None \<and> ds_status s \<noteq> SL_AVAILABLE) slots"
proof -
  let ?f = "\<lambda>plan s. if ds_booking s \<noteq> None then plan\<lparr>bp_booked := bp_booked plan @ [s]\<rparr>
           else if ds_status s = SL_AVAILABLE then plan\<lparr>bp_to_block := bp_to_block plan @ [s]\<rparr>
           else if ds_id s \<in> shared_slots x slots db
           then plan\<lparr>bp_shared := bp_shared plan @ [s], bp_other := bp_other plan @ [s]\<rparr>
           else plan\<lparr>bp_other := bp_other plan @ [s]\<rparr>"
  have "bp_to_block (foldl ?f p ss) = bp_to_block p @ filter free_slot ss \<and>
      bp_booked (foldl ?f p ss) = bp_booked p @ filter (\<lambda>s. ds_booking s \<noteq> None) ss \<and>
      bp_shared (foldl ?f p ss) = bp_shared p @
        filter (\<lambda>s. ds_booking s = None \<and> ds_status s \<noteq> SL_AVAILABLE \<and> ds_id s \<in> shared_slots x slots db) ss \<and>
      bp_other (foldl ?f p ss) = bp_other p @
        filter (\<lambda>s. ds_booking s = None \<and> ds_status s \<noteq> SL_AVAILABLE) ss" for p ss
    by (induction ss arbitrary: p) (auto simp: free_slot_def)
  from this [of "\<lparr>bp_to_block = [], bp_booked = [], bp_shared = [], bp_other = []\<rparr>" slots] show
    "bp_to_block (classify x slots db) = filter free_slot slots"
    "bp_booked (classify x slots db) = filter (\<lambda>s. ds_booking s \<noteq> None) slots"
    "bp_shared (classify x slots db) =
       filter (\<lambda>s. ds_booking s = None \<and> ds_status s \<noteq> SL_AVAILABLE \<and> ds_id s \<in> shared_slots x slots db) slots"
    "bp_other (classify x slots db) = filter (\<lambda>s. ds_booking s = None \<and> ds_status s \<noteq> SL_AVAILABLE) slots"
    unfolding classify_def Let_def by simp_all
qed

lemma plan_removal_fields:
  fixes now :: timestamp and rule :: block_rule and db :: "'z slot_db_scheme"
  defines "mine \<equiv> sort_key ds_date (sort_key ds_start (filter (\<lambda>s. (bk_id rule, ds_id s) \<in> fst ` set (sl_links db) \<and>
      now < ds_start s) (sl_slots db)))"
  shows "set (rp_unblock (plan_removal now rule db)) = {s \<in> set mine. held_slot s \<and>
      other_rule (bk_id rule) db (ds_id s) = None \<and> or_blank (ds_label s) = bk_label rule}"
    and "set (rp_kept (plan_removal now rule db)) =
      {(s, r). s \<in> set mine \<and> held_slot s \<and> other_rule (bk_id rule) db (ds_id s) = Some r}"
proof -
  let ?f = "\<lambda>plan s. if ds_status s \<noteq> SL_BLOCKED \<or> ds_booking s \<noteq> None
         then plan\<lparr>rp_unchanged := rp_unchanged plan @ [s]\<rparr>
         else (case other_rule (bk_id rule) db (ds_id s) of
             Some r \<Rightarrow> plan\<lparr>rp_kept := rp_kept plan @ [(s, r)]\<rparr>
           | None \<Rightarrow> if or_blank (ds_label s) = bk_label rule
                     then plan\<lparr>rp_unblock := rp_unblock plan @ [s]\<rparr>
                     else plan\<lparr>rp_unchanged := rp_unchanged plan @ [s]\<rparr>)"
  have "set (rp_unblock (foldl ?f p ss)) = set (rp_unblock p) \<union> {s \<in> set ss. held_slot s \<and>
        other_rule (bk_id rule) db (ds_id s) = None \<and> or_blank (ds_label s) = bk_label rule} \<and>
      set (rp_kept (foldl ?f p ss)) = set (rp_kept p) \<union>
        {(s, r). s \<in> set ss \<and> held_slot s \<and> other_rule (bk_id rule) db (ds_id s) = Some r}" for p ss
    by (induction ss arbitrary: p) (auto simp: held_slot_def split: option.splits)
  from this [of "\<lparr>rp_unblock = [], rp_kept = [], rp_unchanged = []\<rparr>" mine] show "set (rp_unblock (plan_removal now rule db)) = {s \<in> set mine. held_slot s \<and>
      other_rule (bk_id rule) db (ds_id s) = None \<and> or_blank (ds_label s) = bk_label rule}"
    "set (rp_kept (plan_removal now rule db)) =
      {(s, r). s \<in> set mine \<and> held_slot s \<and> other_rule (bk_id rule) db (ds_id s) = Some r}"
    unfolding plan_removal_def mine_def by simp_all
qed

subsection \<open>Links\<close>

definition linked :: "'z slot_db_scheme \<Rightarrow> ident \<Rightarrow> ident \<Rightarrow> bool" where
  "linked db i slot \<longleftrightarrow> (i, slot) \<in> fst ` set (sl_links db)"

lemma insert_link_keys: "fst ` set (insert_link l links) = insert (fst l) (fst ` set links)"
  by (cases "fst l \<in> fst ` set links") (simp_all add: insert_link_def insert_absorb)

lemma insert_links: "fst ` set (fold insert_link ls links) = fst ` set ls \<union> fst ` set links"
  by (induction ls arbitrary: links) (simp_all add: insert_link_keys)

lemma find_sorted_None: "find P (sort_key f xs) = None \<longleftrightarrow> (\<forall>x\<in>set xs. \<not> P x)"
  by (auto simp: find_None_iff)

lemma other_rule_None:
  "other_rule i db slot = None \<longleftrightarrow> (\<forall>r\<in>set (sl_rules db). bk_active r \<and> linked db (bk_id r) slot \<longrightarrow> bk_id r = i)"
  by (auto simp: other_rule_def find_sorted_None linked_def)

lemma other_rule_Some:
  "other_rule i db slot = Some r \<Longrightarrow> r \<in> set (sl_rules db) \<and> bk_active r \<and> bk_id r \<noteq> i \<and> linked db (bk_id r) slot"
  unfolding other_rule_def linked_def by (auto dest!: find_Some_set)

subsection \<open>The invariant\<close>

definition covering :: "'z slot_db_scheme \<Rightarrow> daily_slot \<Rightarrow> block_rule \<Rightarrow> bool" where
  "covering db s r \<longleftrightarrow> r \<in> set (sl_rules db) \<and> bk_active r \<and> slot_equipment db s = Some (bk_equipment r) \<and>
     rule_hits [r] s \<noteq> []"

definition kept_by :: "'z slot_db_scheme \<Rightarrow> daily_slot \<Rightarrow> block_rule \<Rightarrow> bool" where
  "kept_by db s r \<longleftrightarrow> r \<in> set (sl_rules db) \<and> bk_active r \<and> linked db (bk_id r) (ds_id s)"

definition slot_promise :: "timestamp \<Rightarrow> 'z slot_db_scheme \<Rightarrow> daily_slot \<Rightarrow> bool" where
  "slot_promise t db s \<longleftrightarrow> (t < ds_start s \<longrightarrow>
     (free_slot s \<longrightarrow> (\<forall>r. \<not> covering db s r)) \<and>
     (held_slot s \<and> (\<exists>r. kept_by db s r) \<longrightarrow>
        (\<forall>r. covering db s r \<longrightarrow> kept_by db s r) \<and>
        (\<exists>r. kept_by db s r \<and> label_value (bk_label r) = ds_label s)))"

definition rules_wf :: "'z slot_db_scheme \<Rightarrow> bool" where
  "rules_wf db \<longleftrightarrow> slot_wf db \<and> unique_keys bk_id (sl_rules db) \<and>
     (\<forall>r\<in>set (sl_rules db). strip (bk_label r) = bk_label r) \<and>
     (\<forall>i j. linked db i j \<longrightarrow> i \<in> bk_id ` set (sl_rules db))"

definition rules_inv :: "timestamp \<Rightarrow> 'z slot_db_scheme \<Rightarrow> bool" where
  "rules_inv t db \<longleftrightarrow> rules_wf db \<and> (\<forall>s\<in>set (sl_slots db). slot_promise t db s)"

lemma rules_inv_later: "rules_inv t db \<Longrightarrow> t \<le> t' \<Longrightarrow> rules_inv t' db"
  by (auto simp: rules_inv_def slot_promise_def)

lemma rule_hits_member:
  "r \<in> set (rule_hits rules s) \<longleftrightarrow> r \<in> set rules \<and> rule_hits [r] s \<noteq> []"
  by (auto simp: rule_hits_def)

lemma hits_covering:
  assumes "slot_equipment db s = Some e"
  shows "r \<in> set (rule_hits (live_rules e db) s) \<longleftrightarrow> covering db s r"
  using assms by (subst rule_hits_member) (auto simp: covering_def live_rules_def)

subsection \<open>Generation\<close>

lemma place_row_links:
  "linked (place_row now rules s db) i j \<longleftrightarrow> linked db i j \<or>
     i \<in> bk_id ` set (hits_of_row now rules s) \<and> j = fresh_pk ds_id (sl_slots db)"
  by (auto simp: linked_def place_row_def Let_def insert_links image_iff)

lemma place_row_promise:
  assumes inv: "rules_inv now db" and eq: "slot_equipment db s = Some e"
    and new: "slot_key s \<notin> slot_key ` set (sl_slots db)" "ds_master s \<in> sm_id ` set (sl_masters db)"
    and open_row: "ds_status s \<noteq> SL_BLOCKED"
  shows "rules_inv now (place_row now (live_rules e db) s db)"
proof -
  let ?L = "live_rules e db" and ?db = "place_row now (live_rules e db) s db"
  define t where "t = (apply_rules_to_row now ?L s)\<lparr>ds_id := fresh_pk ds_id (sl_slots db)\<rparr>"
  have slots: "sl_slots ?db = sl_slots db @ [t]"
    by (simp add: place_row_def t_def Let_def)
  have equip: "slot_equipment ?db x = slot_equipment db x" for x by (simp add: slot_equipment_def)
  have cov: "covering ?db x r = covering db x r" for x r by (simp add: covering_def equip)
  have hits: "r \<in> set (hits_of_row now ?L s) \<Longrightarrow> r \<in> set (sl_rules db) \<and> bk_active r" for r
    by (auto simp: hits_of_row_def rule_hits_def live_rules_def split: if_splits)
  have old: "slot_promise now ?db x" if "x \<in> set (sl_slots db)" for x
  proof -
    have "ds_id x \<noteq> fresh_pk ds_id (sl_slots db)" using that fresh_pk_notin [of ds_id "sl_slots db"] by (metis imageI)
    then have "kept_by ?db x r = kept_by db x r" for r by (simp add: kept_by_def place_row_links)
    moreover have "slot_promise now db x" using inv that by (simp add: rules_inv_def)
    ultimately show ?thesis by (simp add: slot_promise_def cov)
  qed
  have new_promise: "slot_promise now ?db t"
    unfolding slot_promise_def
  proof (intro impI conjI allI)
    fix r assume "now < ds_start t" "free_slot t"
    then have "hits_of_row now ?L s = rule_hits ?L s" "hits_of_row now ?L s = []"
      by (auto simp: t_def apply_rules_to_row_def hits_of_row_def free_slot_def split: list.splits if_splits)
    then have "\<not> covering db s r" using hits_covering [OF eq] by simp
    then show "\<not> covering ?db t r"
      unfolding cov by (simp add: covering_def t_def slot_equipment_def rule_hits_def)
  next
    assume "now < ds_start t" and held: "held_slot t \<and> (\<exists>r. kept_by ?db t r)"
    then obtain r rs where hit: "hits_of_row now ?L s = r # rs"
      using open_row by (auto simp: t_def held_slot_def apply_rules_to_row_def split: list.splits)
    then have all: "hits_of_row now ?L s = rule_hits ?L s" by (auto simp: hits_of_row_def split: if_splits)
    show "kept_by ?db t q" if "covering ?db t q" for q
    proof -
      from that have "covering db s q"
        unfolding cov by (simp add: covering_def t_def slot_equipment_def rule_hits_def)
      then have "q \<in> set (hits_of_row now ?L s)" using hits_covering [OF eq] by (simp add: all)
      with hits show ?thesis by (auto simp: kept_by_def place_row_links t_def)
    qed
    have "label_value (bk_label r) = ds_label t" by (simp add: t_def apply_rules_to_row_def hit)
    moreover have "kept_by ?db t r" using hits hit by (auto simp: kept_by_def place_row_links t_def)
    ultimately show "\<exists>r. kept_by ?db t r \<and> label_value (bk_label r) = ds_label t" by blast
  qed
  have "rules_wf ?db"
    using inv hits place_row_wf [OF _ new] by (auto simp: rules_inv_def rules_wf_def place_row_links)
  then show ?thesis using old new_promise by (simp add: rules_inv_def slots)
qed

lemma places_promise:
  assumes "rules_inv now db" "fresh_rows rows db" "live_rules e db = L"
    and "\<And>s. s \<in> set rows \<Longrightarrow> slot_equipment db s = Some e \<and> ds_status s \<noteq> SL_BLOCKED"
  shows "rules_inv now (fold (place_row now L) rows db)"
  using assms
proof (induction rows arbitrary: db)
  case (Cons s rows)
  have "rules_inv now (place_row now L s db)"
    using Cons.prems place_row_promise [of now db s e] by (auto simp: fresh_rows_def)
  moreover have "fresh_rows rows (place_row now L s db)" using Cons.prems(2) by (auto simp: fresh_rows_def)
  moreover have "live_rules e (place_row now L s db) = L"
    using Cons.prems(3) live_rules_cong [of "place_row now L s db" db] by simp
  ultimately show ?case using Cons by (simp add: slot_equipment_def)
qed simp

lemma daily_promise:
  assumes "rules_inv now db"
  shows "rules_inv now (generate_daily_slots now eq d None ah db)"
proof -
  have wf: "slot_wf db" using assms by (simp add: rules_inv_def rules_wf_def)
  show ?thesis
    unfolding daily_places [OF wf]
  proof (rule places_promise [OF assms _ refl])
    show "fresh_rows (day_rows eq ah db d) db" using fresh_day_rows [OF wf, of "[d]"] by simp
    have "day_status eq ah db d \<noteq> SL_BLOCKED" by (simp add: day_status_def initial_slot_status_def)
    moreover fix s assume "s \<in> set (day_rows eq ah db d)"
    ultimately show "slot_equipment db s = Some (eq_id eq) \<and> ds_status s \<noteq> SL_BLOCKED"
      using slot_of_master [OF wf] by (auto simp: set_day_rows active_mastersD)
  qed
qed

lemma days_promise:
  "rules_inv now db \<Longrightarrow> rules_inv now (fold (\<lambda>d. generate_daily_slots now eq d None ah) ds db)"
  by (induction ds arbitrary: db) (auto intro: daily_promise)

subsection \<open>Creating a rule\<close>

text \<open>The slots a cleaned input picks, and the tables after the rule is made.\<close>

definition picked :: "timestamp \<Rightarrow> ident \<Rightarrow> rule_input \<Rightarrow> 'z slot_db_scheme \<Rightarrow> daily_slot \<Rightarrow> bool" where
  "picked now e ri db s \<longleftrightarrow> slot_equipment db s = Some e \<and> ri_start ri \<le> ds_date s \<and> ds_date s \<le> ri_end ri \<and>
     weekday (ds_date s) \<in> set (ri_weekdays ri) \<and> local_start_hhmm (ds_start s) \<in> set (ri_times ri) \<and>
     now < ds_start s"

lemma set_candidate_slots:
  "set (candidate_slots now e ri db) = {s \<in> set (sl_slots db). picked now e ri db s}"
  by (auto simp: candidate_slots_def picked_def)

lemma linked_iff: "linked db j i \<longleftrightarrow> (\<exists>src. ((j, i), src) \<in> set (sl_links db))"
  by (force simp: linked_def)

lemma set_shared_slots:
  "i \<in> shared_slots None slots db \<longleftrightarrow> (\<exists>s\<in>set slots. held_slot s \<and> ds_id s = i) \<and>
     (\<exists>j. linked db j i \<and> active_rule j db)"
proof -
  have "i \<in> shared_slots None slots db \<longleftrightarrow>
      i \<in> ds_id ` {s \<in> set slots. held_slot s} \<and> (\<exists>j src. ((j, i), src) \<in> set (sl_links db) \<and> active_rule j db)"
    by (auto simp: shared_slots_def Let_def held_slot_def image_def)
  then show ?thesis by (auto simp: linked_iff)
qed

lemma active_rule_iff:
  assumes "unique_keys bk_id (sl_rules db)"
  shows "active_rule j db \<longleftrightarrow> (\<exists>r\<in>set (sl_rules db). bk_active r \<and> bk_id r = j)"
proof (cases "row_of bk_id j (sl_rules db)")
  case None
  then have "\<not> active_rule j db" by (simp add: active_rule_def)
  moreover from None have "j \<notin> bk_id ` set (sl_rules db)" by (simp add: row_of_None)
  ultimately show ?thesis by auto
next
  case (Some r)
  have "q = r" if "q \<in> set (sl_rules db)" "bk_id q = j" for q
    using row_of_unique [OF assms that(1)] that(2) Some by simp
  then show ?thesis using Some row_of_SomeD [OF Some] by (auto simp: active_rule_def)
qed

lemma active_rule_kept:
  assumes "unique_keys bk_id (sl_rules db)"
  shows "(\<exists>j. linked db j (ds_id s) \<and> active_rule j db) \<longleftrightarrow> (\<exists>r. kept_by db s r)"
  by (auto simp: active_rule_iff [OF assms] kept_by_def)

definition blocked_by :: "rule_input \<Rightarrow> daily_slot \<Rightarrow> daily_slot" where
  "blocked_by ri s = s\<lparr>ds_status := SL_BLOCKED, ds_label := label_value (ri_label ri), ds_released := None\<rparr>"

lemma update_status:
  "update_slot now (status_update st l) s = s\<lparr>ds_status := st, ds_label := l, ds_released := None\<rparr>"
  by (simp add: update_slot_def)

lemma create_rule_tables:
  assumes inv: "rules_wf db" and run: "create_rule now eq ri actor db = (db', rule)"
  shows "sl_slots db' = map (\<lambda>s. if picked now (eq_id eq) ri db s \<and> free_slot s then blocked_by ri s else s) (sl_slots db)"
    and "sl_masters db' = sl_masters db"
    and "sl_rules db' = sl_rules db @ [rule]"
    and "bk_id rule = fresh_pk bk_id (sl_rules db)" "bk_equipment rule = eq_id eq" "bk_active rule"
      "bk_label rule = ri_label ri" "bk_start rule = ri_start ri" "bk_end rule = ri_end ri"
      "bk_weekdays rule = ri_weekdays ri" "bk_times rule = ri_times ri"
    and "linked db' i j \<longleftrightarrow> linked db i j \<or> i = bk_id rule \<and> (\<exists>s\<in>set (sl_slots db). ds_id s = j \<and>
      picked now (eq_id eq) ri db s \<and> (free_slot s \<or> held_slot s \<and> (\<exists>r. kept_by db s r)))"
proof -
  let ?c = "candidate_slots now (eq_id eq) ri db"
  let ?plan = "classify None ?c db"
  let ?P = "\<lambda>s. ds_id s \<in> ds_id ` set (bp_to_block ?plan) \<and> ds_status s = SL_AVAILABLE \<and> ds_booking s = None"
  have ids: "inj_on ds_id (set (sl_slots db))" and rules: "unique_keys bk_id (sl_rules db)"
    using inv by (auto simp: rules_wf_def slot_wf_def unique_keys_def distinct_map)
  have block: "set (bp_to_block ?plan) = {s \<in> set (sl_slots db). picked now (eq_id eq) ri db s \<and> free_slot s}"
    by (auto simp: classify_fields set_candidate_slots)
  have P: "?P s \<longleftrightarrow> picked now (eq_id eq) ri db s \<and> free_slot s" if "s \<in> set (sl_slots db)" for s
    using that ids by (auto simp: block free_slot_def dest: inj_onD)
  have shared: "s \<in> set (bp_shared ?plan) \<longleftrightarrow>
      s \<in> set (sl_slots db) \<and> picked now (eq_id eq) ri db s \<and> held_slot s \<and> (\<exists>r. kept_by db s r)" for s
    using ids unfolding active_rule_kept [OF rules, symmetric]
    by (auto simp: classify_fields set_candidate_slots set_shared_slots held_slot_def dest: inj_onD)
  have fresh: "update_row bk_id (fresh_pk bk_id (sl_rules db)) f (sl_rules db @ [x]) =
      sl_rules db @ (if bk_id x = fresh_pk bk_id (sl_rules db) then [f x] else [x])" for f x
    using update_row_absent [OF fresh_pk_notin, of bk_id "sl_rules db" f] by (simp add: update_row_def)
  from run have fst: "db' = fst (create_rule now eq ri actor db)" and snd: "rule = snd (create_rule now eq ri actor db)"
    by simp_all
  have "sl_slots db' = map (\<lambda>s. if ?P s then blocked_by ri s else s) (sl_slots db)"
    unfolding fst create_rule_def Let_def by (simp add: update_slots_def update_status blocked_by_def)
  also have "\<dots> = map (\<lambda>s. if picked now (eq_id eq) ri db s \<and> free_slot s then blocked_by ri s else s) (sl_slots db)"
    by (rule map_cong [OF refl]) (simp only: P)
  finally show "sl_slots db' = map (\<lambda>s. if picked now (eq_id eq) ri db s \<and> free_slot s then blocked_by ri s else s) (sl_slots db)" .
  show "sl_masters db' = sl_masters db"
    unfolding fst create_rule_def Let_def by (simp add: update_slots_def)
  show "sl_rules db' = sl_rules db @ [rule]"
    unfolding fst snd create_rule_def Let_def by (simp add: update_slots_def fresh)
  show "bk_id rule = fresh_pk bk_id (sl_rules db)" "bk_equipment rule = eq_id eq" "bk_active rule"
      "bk_label rule = ri_label ri" "bk_start rule = ri_start ri" "bk_end rule = ri_end ri"
      "bk_weekdays rule = ri_weekdays ri" "bk_times rule = ri_times ri"
    unfolding snd create_rule_def Let_def by simp_all
  have "linked db' i j \<longleftrightarrow> linked db i j \<or> i = bk_id rule \<and>
      (\<exists>s. (s \<in> set (bp_to_block ?plan) \<or> s \<in> set (bp_shared ?plan)) \<and> ds_id s = j)"
    unfolding fst snd create_rule_def Let_def by (auto simp: update_slots_def linked_def insert_links image_image)
  then show "linked db' i j \<longleftrightarrow> linked db i j \<or> i = bk_id rule \<and> (\<exists>s\<in>set (sl_slots db). ds_id s = j \<and>
      picked now (eq_id eq) ri db s \<and> (free_slot s \<or> held_slot s \<and> (\<exists>r. kept_by db s r)))"
    unfolding shared block by blast
qed

lemma frame_promise_parts:
  "ds_start (blocked_by ri s) = ds_start s" "ds_id (blocked_by ri s) = ds_id s"
  "slot_equipment db (blocked_by ri s) = slot_equipment db s" "rule_hits rules (blocked_by ri s) = rule_hits rules s"
  "\<not> free_slot (blocked_by ri s)" "ds_label (blocked_by ri s) = label_value (ri_label ri)"
  by (simp_all add: blocked_by_def slot_equipment_def rule_hits_def free_slot_def)

lemma create_rule_promise:
  assumes inv: "rules_inv now db" and run: "create_rule now eq ri actor db = (db', rule)"
    and label: "strip (ri_label ri) = ri_label ri"
  shows "rules_inv now db'"
proof -
  have wf: "rules_wf db" using inv by (simp add: rules_inv_def)
  note tables = create_rule_tables [OF wf run]
  let ?pick = "\<lambda>s. picked now (eq_id eq) ri db s"
  have equip: "slot_equipment db' x = slot_equipment db x" for x by (rule slot_equipment_cong [OF tables(2)])
  have fresh: "bk_id rule \<notin> bk_id ` set (sl_rules db)"
    unfolding tables(4) by (rule fresh_pk_notin)
  have old: "linked db' (bk_id r) j = linked db (bk_id r) j" if "r \<in> set (sl_rules db)" for r j
  proof -
    have "bk_id r \<noteq> bk_id rule" using fresh that by (metis imageI)
    then show ?thesis by (simp add: tables(12))
  qed
  have unlinked: "\<not> linked db (bk_id rule) j" for j
    using wf fresh by (auto simp: rules_wf_def)
  have cov: "covering db' s r \<longleftrightarrow> covering db s r \<or> r = rule \<and> ?pick s" if "now < ds_start s" for s r
    using that by (auto simp: covering_def equip tables picked_def rule_hits_def)
  have ids: "inj_on ds_id (set (sl_slots db))"
    using wf by (simp add: rules_wf_def slot_wf_def unique_keys_def distinct_map)
  have link: "linked db' (bk_id rule) (ds_id s) \<longleftrightarrow> ?pick s \<and> (free_slot s \<or> held_slot s \<and> (\<exists>r. kept_by db s r))"
    if "s \<in> set (sl_slots db)" for s
    using that ids by (auto simp: tables(12) unlinked dest: inj_onD)
  have kept: "kept_by db' s r \<longleftrightarrow> kept_by db s r \<or>
      r = rule \<and> ?pick s \<and> (free_slot s \<or> held_slot s \<and> (\<exists>r. kept_by db s r))"
    if "s \<in> set (sl_slots db)" for s r
    using link [OF that] old tables(3,6) unlinked by (auto simp: kept_by_def)
  have "slot_promise now db' (if ?pick s \<and> free_slot s then blocked_by ri s else s)"
    if s: "s \<in> set (sl_slots db)" for s
  proof -
    have before: "slot_promise now db s" using inv s by (simp add: rules_inv_def)
    show ?thesis
    proof (cases "?pick s \<and> free_slot s")
      case True
      then have future: "now < ds_start s" by (simp add: picked_def)
      then have none: "\<not> covering db s r" for r using before True by (simp add: slot_promise_def)
      have same: "kept_by db' (blocked_by ri s) r = kept_by db' s r" for r
        by (simp add: kept_by_def frame_promise_parts)
      have "covering db' (blocked_by ri s) r = covering db' s r" for r
        by (simp add: covering_def frame_promise_parts)
      then have "covering db' (blocked_by ri s) r \<longrightarrow> kept_by db' (blocked_by ri s) r" for r
        using cov [OF future, of r] none True kept [OF s, of r] by (auto simp: same)
      moreover have "kept_by db' (blocked_by ri s) rule \<and> label_value (bk_label rule) = ds_label (blocked_by ri s)"
        using True kept [OF s, of rule] by (simp add: same frame_promise_parts tables(7))
      ultimately show ?thesis using True by (auto simp: slot_promise_def frame_promise_parts)
    next
      case False
      then have "slot_promise now db' s"
        using before cov [of s] kept [OF s] by (auto simp: slot_promise_def free_slot_def held_slot_def)
      then show ?thesis using False by auto
    qed
  qed
  moreover have "rules_wf db'"
  proof -
    have "same_frames db db'" using same_frames_create_rule [of db now eq ri actor] run by simp
    then have "slot_wf db'" using wf by (auto simp: rules_wf_def intro: same_frames_wf)
    moreover have "i \<in> bk_id ` set (sl_rules db')" if "linked db' i j" for i j
      using that wf by (auto simp: tables(3,12) rules_wf_def)
    ultimately show ?thesis
      using wf label unique_keys_append [OF _ fresh] by (auto simp: rules_wf_def tables(3,7))
  qed
  ultimately show ?thesis unfolding rules_inv_def tables(1) set_map by blast
qed

subsection \<open>Removing a rule\<close>

lemma foldl_slot_maps:
  assumes "\<And>db r. step db r = db\<lparr>sl_slots := map (f r) (sl_slots db)\<rparr>"
  shows "foldl step db rs = db\<lparr>sl_slots := map (\<lambda>s. foldl (\<lambda>s r. f r s) s rs) (sl_slots db)\<rparr>"
proof (induction rs arbitrary: db)
  case (Cons r rs)
  show ?case by (subst foldl_Cons, subst Cons.IH) (simp add: assms comp_def)
qed simp

text \<open>A row that some updates of its label hit has the label of one of them.\<close>

lemma foldl_labels:
  assumes "\<And>r s l. hit (s\<lparr>ds_label := l\<rparr>) r = hit s r"
  shows "\<exists>l. foldl (\<lambda>s r. if hit s r then s\<lparr>ds_label := g r\<rparr> else s) s rs = s\<lparr>ds_label := l\<rparr> \<and>
    (if \<exists>r\<in>set rs. hit s r then \<exists>r\<in>set rs. hit s r \<and> l = g r else l = ds_label s)"
proof (induction rs rule: rev_induct)
  case Nil
  have "s = s\<lparr>ds_label := ds_label s\<rparr>" by simp
  then show ?case by auto
next
  case (snoc r rs)
  then obtain l where l: "foldl (\<lambda>s r. if hit s r then s\<lparr>ds_label := g r\<rparr> else s) s rs = s\<lparr>ds_label := l\<rparr>"
    "if \<exists>r\<in>set rs. hit s r then \<exists>r\<in>set rs. hit s r \<and> l = g r else l = ds_label s"
    by blast
  show ?case
  proof (cases "hit s r")
    case True
    then show ?thesis using l(1) by (intro exI [of _ "g r"]) (auto simp: assms)
  next
    case False
    then show ?thesis using l by (intro exI [of _ l]) (auto simp: assms)
  qed
qed

lemma hand_over_slots:
  assumes "\<And>p q. p \<in> set handed \<Longrightarrow> q \<in> set handed \<Longrightarrow> bk_id (snd p) = bk_id (snd q) \<Longrightarrow> snd p = snd q"
  shows "\<exists>f. hand_over now handed db = db\<lparr>sl_slots := map f (sl_slots db)\<rparr> \<and>
     (\<forall>s. \<exists>l. f s = s\<lparr>ds_label := l\<rparr> \<and>
       (if ds_status s = SL_BLOCKED \<and> (\<exists>p\<in>set handed. ds_id (fst p) = ds_id s)
        then \<exists>p\<in>set handed. ds_id (fst p) = ds_id s \<and> l = label_value (bk_label (snd p)) else l = ds_label s))"
proof -
  define hit where "hit s r \<longleftrightarrow> ds_id s \<in> ds_id ` set (map fst (filter (\<lambda>p. bk_id (snd p) = bk_id r) handed)) \<and>
      ds_status s = SL_BLOCKED" for s :: daily_slot and r :: block_rule
  define f where "f s = foldl (\<lambda>s r. if hit s r then s\<lparr>ds_label := label_value (bk_label r)\<rparr> else s) s
      (rev (remdups (rev (map snd handed))))" for s :: daily_slot
  have "hand_over now handed db = db\<lparr>sl_slots := map f (sl_slots db)\<rparr>"
    unfolding hand_over_def f_def by (rule foldl_slot_maps) (simp add: update_slots_def update_slot_def hit_def)
  moreover have "\<exists>l. f s = s\<lparr>ds_label := l\<rparr> \<and>
      (if ds_status s = SL_BLOCKED \<and> (\<exists>p\<in>set handed. ds_id (fst p) = ds_id s)
       then \<exists>p\<in>set handed. ds_id (fst p) = ds_id s \<and> l = label_value (bk_label (snd p)) else l = ds_label s)" for s
  proof -
    have same: "hit (s\<lparr>ds_label := l\<rparr>) r = hit s r" for s l r by (simp add: hit_def)
    obtain l where l: "f s = s\<lparr>ds_label := l\<rparr>"
      "if \<exists>r\<in>snd ` set handed. hit s r then \<exists>r\<in>snd ` set handed. hit s r \<and> l = label_value (bk_label r) else l = ds_label s"
      using foldl_labels [of hit "\<lambda>r. label_value (bk_label r)" s "rev (remdups (rev (map snd handed)))"] same
      unfolding f_def [symmetric] set_rev set_remdups set_map by blast
    have hits: "(\<exists>r\<in>snd ` set handed. hit s r \<and> P r) \<longleftrightarrow>
        ds_status s = SL_BLOCKED \<and> (\<exists>p\<in>set handed. ds_id (fst p) = ds_id s \<and> P (snd p))" for P
    proof
      assume "\<exists>r\<in>snd ` set handed. hit s r \<and> P r"
      then obtain p q where "p \<in> set handed" "q \<in> set handed" "ds_id s = ds_id (fst q)" "P (snd p)"
        "ds_status s = SL_BLOCKED" "bk_id (snd q) = bk_id (snd p)" by (auto simp: hit_def)
      then show "ds_status s = SL_BLOCKED \<and> (\<exists>p\<in>set handed. ds_id (fst p) = ds_id s \<and> P (snd p))"
        using assms by metis
    next
      assume "ds_status s = SL_BLOCKED \<and> (\<exists>p\<in>set handed. ds_id (fst p) = ds_id s \<and> P (snd p))"
      then obtain p where p: "p \<in> set handed" "ds_id (fst p) = ds_id s" "P (snd p)" "ds_status s = SL_BLOCKED"
        by blast
      then have "ds_id s \<in> ds_id ` set (map fst (filter (\<lambda>q. bk_id (snd q) = bk_id (snd p)) handed))"
        unfolding set_map image_image by (intro image_eqI [of _ _ p]) auto
      with p have "hit s (snd p)" by (simp add: hit_def)
      with p show "\<exists>r\<in>snd ` set handed. hit s r \<and> P r" by blast
    qed
    show ?thesis
      using l hits [of "\<lambda>_. True"] hits [of "\<lambda>r. l = label_value (bk_label r)"] by (intro exI [of _ l]) (auto split: if_splits)
  qed
  ultimately show ?thesis by blast
qed

lemma or_blank_label:
  "strip l = l \<Longrightarrow> or_blank (label_value l) = l"
  by (simp add: or_blank_def label_value_def)

text \<open>
  What happens to a slot when a rule goes: it is given back when the rule alone held it with its
  label, and takes the label of the rule that keeps it when another one does.
\<close>

definition given_back :: "timestamp \<Rightarrow> block_rule \<Rightarrow> 'z slot_db_scheme \<Rightarrow> daily_slot \<Rightarrow> bool" where
  "given_back now rule db s \<longleftrightarrow> now < ds_start s \<and> held_slot s \<and> linked db (bk_id rule) (ds_id s) \<and>
     other_rule (bk_id rule) db (ds_id s) = None \<and> or_blank (ds_label s) = bk_label rule"

definition handed_to :: "timestamp \<Rightarrow> block_rule \<Rightarrow> 'z slot_db_scheme \<Rightarrow> daily_slot \<Rightarrow> block_rule \<Rightarrow> bool" where
  "handed_to now rule db s r \<longleftrightarrow> now < ds_start s \<and> held_slot s \<and> linked db (bk_id rule) (ds_id s) \<and>
     other_rule (bk_id rule) db (ds_id s) = Some r \<and> or_blank (ds_label s) = bk_label rule"

definition restored :: "equipment \<Rightarrow> daily_slot \<Rightarrow> daily_slot" where
  "restored eq s = s\<lparr>ds_status := initial_slot_status eq, ds_label := None, ds_released := None\<rparr>"

lemma not_blocked_initially [simp]: "initial_slot_status eq \<noteq> SL_BLOCKED"
  by (simp add: initial_slot_status_def)

lemma remove_rule_tables:
  assumes wf: "rules_wf db" and run: "remove_rule now eq i actor db = Inr (db', sm)"
    and rule: "row_of bk_id i (sl_rules db) = Some rule"
  shows "bk_active rule"
    and "sl_rules db' = update_row bk_id i (\<lambda>r. r\<lparr>bk_active := False, bk_removed_by := actor,
      bk_removed_at := Some now, bk_removal_summary := Some sm\<rparr>) (sl_rules db)"
    and "sl_masters db' = sl_masters db" "sl_links db' = sl_links db"
    and "\<exists>f. sl_slots db' = map f (sl_slots db) \<and> (\<forall>s\<in>set (sl_slots db).
      if given_back now rule db s then f s = restored eq s
      else if \<exists>r. handed_to now rule db s r
      then \<exists>r. handed_to now rule db s r \<and> f s = s\<lparr>ds_label := label_value (bk_label r)\<rparr>
      else f s = s)"
proof -
  let ?plan = "plan_removal now rule db"
  let ?P = "\<lambda>s. ds_id s \<in> ds_id ` set (rp_unblock ?plan) \<and> ds_status s = SL_BLOCKED \<and> ds_booking s = None"
  let ?db1 = "if rp_unblock ?plan = [] then db else update_slots now ?P (status_update (initial_slot_status eq) None) db"
  let ?handed = "filter (\<lambda>p. or_blank (ds_label (fst p)) = bk_label rule) (rp_kept ?plan)"
  have i: "bk_id rule = i" using row_of_SomeD [OF rule] by simp
  have ids: "inj_on ds_id (set (sl_slots db))" and rules: "unique_keys bk_id (sl_rules db)"
    using wf by (auto simp: rules_wf_def slot_wf_def unique_keys_def distinct_map)
  show active: "bk_active rule" using run rule by (simp add: remove_rule_def split: if_splits)
  have db1: "?db1 = db\<lparr>sl_slots := map (\<lambda>s. if given_back now rule db s then restored eq s else s) (sl_slots db)\<rparr>"
  proof -
    have P: "?P s \<longleftrightarrow> given_back now rule db s" if "s \<in> set (sl_slots db)" for s
      using that ids by (auto simp: plan_removal_fields given_back_def held_slot_def linked_def dest: inj_onD)
    show ?thesis
    proof (cases "rp_unblock ?plan = []")
      case True
      then have "map (\<lambda>s. if given_back now rule db s then restored eq s else s) (sl_slots db) = sl_slots db"
        using P by (intro map_idI) auto
      then show ?thesis using True by simp
    next
      case False
      have "map (\<lambda>s. if ?P s then update_slot now (status_update (initial_slot_status eq) None) s else s) (sl_slots db) =
          map (\<lambda>s. if given_back now rule db s then restored eq s else s) (sl_slots db)"
        by (rule map_cong [OF refl]) (simp only: P update_status restored_def)
      then show ?thesis using False by (simp add: update_slots_def)
    qed
  qed
  have handed: "p \<in> set ?handed \<longleftrightarrow> fst p \<in> set (sl_slots db) \<and> handed_to now rule db (fst p) (snd p)" for p
    by (cases p) (auto simp: plan_removal_fields handed_to_def linked_def)
  have "snd p = snd q" if "p \<in> set ?handed" "q \<in> set ?handed" "bk_id (snd p) = bk_id (snd q)" for p q
  proof -
    have "snd p \<in> set (sl_rules db)" "snd q \<in> set (sl_rules db)"
      using that(1,2) unfolding handed by (auto simp: handed_to_def dest: other_rule_Some)
    then show ?thesis using row_of_unique [OF rules] that(3) by (metis option.inject)
  qed
  from hand_over_slots [of ?handed now ?db1, OF this] obtain g where
    g: "hand_over now ?handed ?db1 = ?db1\<lparr>sl_slots := map g (sl_slots ?db1)\<rparr>"
    and g_label: "\<And>s. \<exists>l. g s = s\<lparr>ds_label := l\<rparr> \<and>
       (if ds_status s = SL_BLOCKED \<and> (\<exists>p\<in>set ?handed. ds_id (fst p) = ds_id s)
        then \<exists>p\<in>set ?handed. ds_id (fst p) = ds_id s \<and> l = label_value (bk_label (snd p)) else l = ds_label s)"
    by blast
  have result: "db' = (hand_over now ?handed ?db1)\<lparr>sl_rules := update_row bk_id i (\<lambda>r. r\<lparr>bk_active := False,
      bk_removed_by := actor, bk_removed_at := Some now, bk_removal_summary := Some sm\<rparr>)
      (sl_rules (hand_over now ?handed ?db1))\<rparr>"
    using run rule active by (auto simp: remove_rule_def Let_def)
  show "sl_masters db' = sl_masters db" "sl_links db' = sl_links db"
    "sl_rules db' = update_row bk_id i (\<lambda>r. r\<lparr>bk_active := False, bk_removed_by := actor,
      bk_removed_at := Some now, bk_removal_summary := Some sm\<rparr>) (sl_rules db)"
    unfolding result g by (simp_all add: db1)
  let ?f = "\<lambda>s. g (if given_back now rule db s then restored eq s else s)"
  have "sl_slots db' = map ?f (sl_slots db)"
    unfolding result g by (simp add: db1 comp_def)
  moreover have "if given_back now rule db s then ?f s = restored eq s
      else if \<exists>r. handed_to now rule db s r
      then \<exists>r. handed_to now rule db s r \<and> ?f s = s\<lparr>ds_label := label_value (bk_label r)\<rparr>
      else ?f s = s" if s: "s \<in> set (sl_slots db)" for s
  proof (cases "given_back now rule db s")
    case True
    have "ds_status (restored eq s) \<noteq> SL_BLOCKED" by (simp add: restored_def)
    with g_label [of "restored eq s"] show ?thesis using True by auto
  next
    case False
    have hit: "(\<exists>p\<in>set ?handed. ds_id (fst p) = ds_id s \<and> Q (snd p)) \<longleftrightarrow> (\<exists>r. handed_to now rule db s r \<and> Q r)" for Q
    proof
      assume "\<exists>p\<in>set ?handed. ds_id (fst p) = ds_id s \<and> Q (snd p)"
      then obtain p where p: "p \<in> set ?handed" "ds_id (fst p) = ds_id s" "Q (snd p)" by blast
      then have "fst p = s" using s ids unfolding handed by (auto dest: inj_onD)
      with p show "\<exists>r. handed_to now rule db s r \<and> Q r" unfolding handed by blast
    next
      assume "\<exists>r. handed_to now rule db s r \<and> Q r"
      then obtain r where "(s, r) \<in> set ?handed" "Q r" using s unfolding handed by auto
      then show "\<exists>p\<in>set ?handed. ds_id (fst p) = ds_id s \<and> Q (snd p)" by (intro bexI [of _ "(s, r)"]) auto
    qed
    have "handed_to now rule db s r \<Longrightarrow> ds_status s = SL_BLOCKED" for r
      by (simp add: handed_to_def held_slot_def)
    moreover from g_label [of s] obtain l where l: "g s = s\<lparr>ds_label := l\<rparr>"
      "if ds_status s = SL_BLOCKED \<and> (\<exists>p\<in>set ?handed. ds_id (fst p) = ds_id s)
       then \<exists>p\<in>set ?handed. ds_id (fst p) = ds_id s \<and> l = label_value (bk_label (snd p)) else l = ds_label s"
      by blast
    moreover have "(\<exists>p\<in>set ?handed. ds_id (fst p) = ds_id s) \<longleftrightarrow> (\<exists>r. handed_to now rule db s r)"
      using hit [of "\<lambda>_. True"] by (simp only: simp_thms)
    moreover note hit [of "\<lambda>r. l = label_value (bk_label r)"]
    ultimately show ?thesis using False by (auto split: if_splits)
  qed
  ultimately show "\<exists>f. sl_slots db' = map f (sl_slots db) \<and> (\<forall>s\<in>set (sl_slots db).
      if given_back now rule db s then f s = restored eq s
      else if \<exists>r. handed_to now rule db s r
      then \<exists>r. handed_to now rule db s r \<and> f s = s\<lparr>ds_label := label_value (bk_label r)\<rparr>
      else f s = s)" by blast
qed

lemma remove_rule_promise:
  assumes inv: "rules_inv now db" and run: "remove_rule now eq i actor db = Inr (db', sm)"
  shows "rules_inv now db'"
proof -
  have wf: "rules_wf db" using inv by (simp add: rules_inv_def)
  obtain rule where row: "row_of bk_id i (sl_rules db) = Some rule"
    using run by (auto simp: remove_rule_def split: option.splits)
  note tables = remove_rule_tables [OF wf run row]
  have i: "rule \<in> set (sl_rules db)" "bk_id rule = i" using row_of_SomeD [OF row] by auto
  have only: "r = rule" if "r \<in> set (sl_rules db)" "bk_id r = i" for r
    using row_of_unique [of bk_id "sl_rules db" r] wf row that by (simp add: rules_wf_def)
  let ?off = "\<lambda>r. r\<lparr>bk_active := False, bk_removed_by := actor, bk_removed_at := Some now, bk_removal_summary := Some sm\<rparr>"
  have live: "r \<in> set (sl_rules db') \<and> bk_active r \<longleftrightarrow> r \<in> set (sl_rules db) \<and> bk_active r \<and> bk_id r \<noteq> i" for r
    unfolding tables(2) update_row_def by auto
  have link: "linked db' j k = linked db j k" for j k by (simp add: linked_def tables(4))
  have equip: "slot_equipment db' s = slot_equipment db s" for s by (rule slot_equipment_cong [OF tables(3)])
  have cov: "covering db' s r \<longleftrightarrow> covering db s r \<and> bk_id r \<noteq> i" for s r
    using live [of r] by (auto simp: covering_def equip)
  have kept: "kept_by db' s r \<longleftrightarrow> kept_by db s r \<and> bk_id r \<noteq> i" for s r
    using live [of r] by (auto simp: kept_by_def link)
  from tables(5) obtain f where f: "sl_slots db' = map f (sl_slots db)"
    "\<And>s. s \<in> set (sl_slots db) \<Longrightarrow> if given_back now rule db s then f s = restored eq s
      else if \<exists>r. handed_to now rule db s r
      then \<exists>r. handed_to now rule db s r \<and> f s = s\<lparr>ds_label := label_value (bk_label r)\<rparr> else f s = s"
    by blast
  have "slot_promise now db' (f s)" if s: "s \<in> set (sl_slots db)" for s
  proof -
    have before: "slot_promise now db s" using inv s by (simp add: rules_inv_def)
    have self: "kept_by db s rule" if "linked db (bk_id rule) (ds_id s)"
      using that i tables(1) by (simp add: kept_by_def)
    consider (alone) "given_back now rule db s" "f s = restored eq s"
      | (handed) r where "handed_to now rule db s r" "f s = s\<lparr>ds_label := label_value (bk_label r)\<rparr>"
      | (same) "\<not> given_back now rule db s" "\<nexists>r. handed_to now rule db s r" "f s = s"
      using f(2) [OF s] by (auto split: if_splits)
    then show ?thesis
    proof cases
      case alone
      then have mine: "now < ds_start s" "held_slot s" "linked db (bk_id rule) (ds_id s)"
        and none: "r \<in> set (sl_rules db) \<Longrightarrow> bk_active r \<Longrightarrow> linked db (bk_id r) (ds_id s) \<Longrightarrow> bk_id r = i" for r
        using i(2) by (auto simp: given_back_def other_rule_None)
      have "covering db s r \<longrightarrow> kept_by db s r" for r
        using before self [OF mine(3)] mine(1,2) unfolding slot_promise_def by blast
      then have "\<not> covering db' s r" for r
        using none [of r] unfolding cov kept_by_def by blast
      then have "\<not> covering db' (restored eq s) r" for r
        by (simp add: covering_def restored_def slot_equipment_def rule_hits_def)
      then show ?thesis using alone by (simp add: slot_promise_def held_slot_def restored_def)
    next
      case handed
      then have r: "kept_by db s r" "bk_id r \<noteq> i" "now < ds_start s" "held_slot s" "linked db (bk_id rule) (ds_id s)"
        using other_rule_Some [of "bk_id rule" db "ds_id s" r] i by (auto simp: handed_to_def kept_by_def)
      then have "covering db s q \<longrightarrow> kept_by db s q" for q
        using before by (auto simp: slot_promise_def)
      moreover have "covering db' (f s) q = covering db' s q" "kept_by db' (f s) q = kept_by db' s q" for q
        by (simp_all add: handed(2) covering_def kept_by_def slot_equipment_def rule_hits_def)
      ultimately show ?thesis
        using r handed(2) by (auto simp: slot_promise_def cov kept free_slot_def held_slot_def)
    next
      case same
      have "kept_by db s r \<and> label_value (bk_label r) = ds_label s \<Longrightarrow> held_slot s \<Longrightarrow> now < ds_start s \<Longrightarrow>
          kept_by db s q \<Longrightarrow> bk_id q \<noteq> i \<Longrightarrow> bk_id r \<noteq> i" for r q
      proof
        assume r: "kept_by db s r \<and> label_value (bk_label r) = ds_label s" "held_slot s" "now < ds_start s"
          "kept_by db s q" "bk_id q \<noteq> i" "bk_id r = i"
        then have "r = rule" using only by (simp add: kept_by_def)
        moreover have "strip (bk_label rule) = bk_label rule" using wf i(1) by (simp add: rules_wf_def)
        ultimately have "or_blank (ds_label s) = bk_label rule" using r(1) or_blank_label by metis
        moreover have "other_rule (bk_id rule) db (ds_id s) \<noteq> None"
          using r i unfolding other_rule_None by (auto simp: kept_by_def)
        ultimately have "\<exists>p. handed_to now rule db s p"
          using r \<open>r = rule\<close> by (auto simp: handed_to_def kept_by_def)
        then show False using same(2) by blast
      qed
      then show ?thesis using before unfolding same(3) slot_promise_def cov kept by blast
    qed
  qed
  moreover have "rules_wf db'"
  proof -
    have "slot_wf db'"
      using same_frames_wf [OF same_frames_remove_rule [OF run]] wf by (simp add: rules_wf_def)
    moreover have "bk_id ` set (sl_rules db') = bk_id ` set (sl_rules db)"
      unfolding tables(2) using update_row_keys [of bk_id ?off i "sl_rules db"] by (simp flip: set_map)
    moreover have "unique_keys bk_id (sl_rules db')"
      unfolding tables(2) using wf by (subst unique_keys_update_row) (simp_all add: rules_wf_def)
    moreover have "\<forall>r\<in>set (sl_rules db'). strip (bk_label r) = bk_label r"
      unfolding tables(2) update_row_def using wf by (auto simp: rules_wf_def)
    ultimately show ?thesis using wf by (simp add: rules_wf_def link)
  qed
  ultimately show ?thesis unfolding rules_inv_def f(1) set_map by blast
qed

subsection \<open>Runs\<close>

text \<open>Booking sets the status and the booking of slots; closing sets another status by hand.\<close>

abbreviation book_update :: "ident \<Rightarrow> slot_update" where
  "book_update b \<equiv> \<lparr>up_status = Some SL_BOOKED, up_label = None, up_reference = None,
     up_booking = Some (Some b), up_released = None\<rparr>"

inductive rule_step :: "timestamp \<Rightarrow> slot_db \<Rightarrow> slot_db \<Rightarrow> bool" where
  Rule_Day: "rule_step now db (generate_daily_slots now eq d None allow_holiday db)"
| Rule_Week: "rule_step now db (generate_slots_for_week now eq week_start week_end allow_holiday db)"
| Rule_Weekly: "rule_step now db (generate_weekly_slots now eq start_date end_date db)"
| Rule_Monthly: "generate_monthly_slots now eq start_date ym months db = Inr db' \<Longrightarrow> rule_step now db db'"
| Rule_Create: "clean_rule_input today (eq_id eq) raw_days raw_times raw_start raw_end label db = Inr ri \<Longrightarrow>
    create_rule now eq ri actor db = (db', rule) \<Longrightarrow> rule_step now db db'"
| Rule_Remove: "remove_rule now eq i actor db = Inr (db', sm) \<Longrightarrow> rule_step now db db'"
| Rule_Book: "rule_step now db (update_slots now P (book_update b) db)"
| Rule_Close: "st \<notin> {SL_AVAILABLE, SL_BLOCKED} \<Longrightarrow> rule_step now db (update_slots now P (status_update st label) db)"

text \<open>The state with its clock, which does not run backwards.\<close>

inductive clock_step :: "timestamp \<times> slot_db \<Rightarrow> timestamp \<times> slot_db \<Rightarrow> bool" where
  "t \<le> now \<Longrightarrow> rule_step now db db' \<Longrightarrow> clock_step (t, db) (now, db')"

lemma cleaned_label: "clean_rule_input today e ds ts sd ed label db = Inr ri \<Longrightarrow> strip (ri_label ri) = ri_label ri"
  by (auto simp: clean_rule_input_def Let_def and_then_eq_Inr)

lemma update_promise:
  assumes inv: "rules_inv now db"
    and out: "\<And>s. \<not> free_slot (update_slot now u s) \<and> \<not> held_slot (update_slot now u s)"
  shows "rules_inv now (update_slots now P u db)"
proof -
  let ?db = "update_slots now P u db"
  have same: "sl_masters ?db = sl_masters db" "sl_rules ?db = sl_rules db" "sl_links ?db = sl_links db"
    "sl_slots ?db = map (\<lambda>s. if P s then update_slot now u s else s) (sl_slots db)"
    by (simp_all add: update_slots_def remember_booking_slot_ranges_def Let_def)
  have link: "linked ?db i j = linked db i j" for i j by (simp add: linked_def same)
  have equip: "slot_equipment ?db s = slot_equipment db s" for s by (rule slot_equipment_cong [OF same(1)])
  have "slot_promise now ?db s = slot_promise now db s" for s
    by (simp add: slot_promise_def covering_def kept_by_def link equip same(2))
  moreover have "slot_promise now ?db (update_slot now u s)" for s
    using out by (simp add: slot_promise_def)
  moreover have "rules_wf ?db"
    using inv same_frames_wf [OF same_frames_update_slots]
    by (auto simp: rules_inv_def rules_wf_def link same(2))
  ultimately show ?thesis using inv by (auto simp: rules_inv_def same(4))
qed

lemma rule_step_promise:
  assumes "rule_step now db db'" "rules_inv now db"
  shows "rules_inv now db'"
  using assms(1)
proof cases
  case (Rule_Day eq d ah)
  then show ?thesis using daily_promise [OF assms(2)] by simp
next
  case (Rule_Week eq a b ah)
  then show ?thesis using days_promise [OF assms(2)] assms(2)
    by (simp add: week_of_days rules_inv_def [of now db] rules_wf_def)
next
  case (Rule_Weekly eq a b)
  then show ?thesis using days_promise [OF assms(2)] assms(2)
    by (simp add: generate_weekly_slots_def weeks_of_days rules_inv_def [of now db] rules_wf_def)
next
  case (Rule_Monthly eq a ym n)
  then have "db' = generate_by_weeks now eq a (a + days_of_months ym n) db"
    by (auto simp: generate_monthly_slots_def end_date_after_months_def split: if_splits)
  then show ?thesis using days_promise [OF assms(2)] assms(2)
    by (simp add: weeks_of_days rules_inv_def [of now db] rules_wf_def)
next
  case Rule_Create
  then show ?thesis using create_rule_promise [OF assms(2)] cleaned_label by blast
next
  case Rule_Remove
  then show ?thesis using remove_rule_promise [OF assms(2)] by blast
next
  case (Rule_Book P b)
  then show ?thesis
    using update_promise [OF assms(2), of "book_update b" P] by (simp add: update_slot_def free_slot_def held_slot_def)
next
  case (Rule_Close st P label)
  then show ?thesis
    using update_promise [OF assms(2), of "status_update st label" P]
    by (simp add: update_slot_def free_slot_def held_slot_def)
qed

interpretation repeat: machine clock_step "\<lambda>(t, db). rules_inv t db"
  by unfold_locales (auto elim!: clock_step.cases intro: rule_step_promise rules_inv_later)

lemma removal_gives_back:
  assumes inv: "rules_inv now db" and run: "remove_rule now eq i actor db = Inr (db', sm)"
    and s: "s \<in> set (sl_slots db)" "now < ds_start s" "held_slot s" "linked db i (ds_id s)"
    and last: "\<forall>r\<in>set (sl_rules db). bk_active r \<and> linked db (bk_id r) (ds_id s) \<longrightarrow> bk_id r = i"
  shows "restored eq s \<in> set (sl_slots db')"
proof -
  have wf: "rules_wf db" using inv by (simp add: rules_inv_def)
  obtain rule where row: "row_of bk_id i (sl_rules db) = Some rule"
    using run by (auto simp: remove_rule_def split: option.splits)
  note tables = remove_rule_tables [OF wf run row]
  have i: "rule \<in> set (sl_rules db)" "bk_id rule = i" using row_of_SomeD [OF row] by auto
  have "kept_by db s rule" using i s(4) tables(1) by (simp add: kept_by_def)
  then obtain r where r: "kept_by db s r" "label_value (bk_label r) = ds_label s"
    using inv s by (auto simp: rules_inv_def slot_promise_def)
  then have "r = rule"
    using last row_of_unique [of bk_id "sl_rules db" r] wf row by (auto simp: kept_by_def rules_wf_def)
  then have "or_blank (ds_label s) = bk_label rule"
    using r(2) wf i(1) or_blank_label by (metis rules_wf_def)
  then have "given_back now rule db s"
    using s last i by (simp add: given_back_def other_rule_None)
  with tables(5) s(1) obtain f where "sl_slots db' = map f (sl_slots db)" "f s = restored eq s"
    by fastforce
  then show ?thesis using s(1) by (metis imageI set_map)
qed

lemma rules_leave_bookings:
  assumes wf: "rules_wf db" and s: "s \<in> set (sl_slots db)" "ds_booking s \<noteq> None"
  shows "s \<in> set (sl_slots (fst (create_rule now eq ri actor db)))"
    and "remove_rule now eq i actor db = Inr (db', sm) \<Longrightarrow> s \<in> set (sl_slots db')"
proof -
  obtain db1 rule where run: "create_rule now eq ri actor db = (db1, rule)" by (cases "create_rule now eq ri actor db")
  have "\<not> free_slot s" "\<not> held_slot s" using s(2) by (simp_all add: free_slot_def held_slot_def)
  note not = this
  show "s \<in> set (sl_slots (fst (create_rule now eq ri actor db)))"
    using create_rule_tables(1) [OF wf run] s(1) not run by (auto intro!: image_eqI [of _ _ s])
  assume rm: "remove_rule now eq i actor db = Inr (db', sm)"
  then obtain r where row: "row_of bk_id i (sl_rules db) = Some r"
    by (auto simp: remove_rule_def split: option.splits)
  from remove_rule_tables(5) [OF wf rm row] s(1) not show "s \<in> set (sl_slots db')"
    by (auto simp: given_back_def handed_to_def intro!: image_eqI [of _ _ s])
qed


subsection \<open>A sample rule\<close>

definition demo_input :: rule_input where
  "demo_input = \<lparr>ri_weekdays = [0], ri_times = [''09:00''], ri_start = 4, ri_end = 40, ri_label = ''Class''\<rparr>"

abbreviation demo_ruled :: slot_db where
  "demo_ruled \<equiv> fst (create_rule 0 demo_equipment demo_input None slot_demo)"

abbreviation demo_blocked :: slot_db where
  "demo_blocked \<equiv> generate_slots_for_week 0 demo_equipment 4 5 False demo_ruled"

lemma demo_cleaned:
  "clean_rule_input 0 7 (Some [Some 0]) (Some [''09:00 '']) (Inr (Some 4)) (Inr (Some 40)) '' Class'' slot_demo = Inr demo_input"
  by code_simp


end
