(* ===== verification/Slot_Bookings.thy ===== *)
theory Slot_Bookings
  imports Slot_Rules
begin

text \<open>
  Slots taken by a booking, handed on to other bookings and released: the overrides of
  \<^verbatim>\<open>DailySlotQuerySet.update\<close> bring them back to where they were.
\<close>

abbreviation release_update :: slot_update where
  "release_update \<equiv> \<lparr>up_status = Some SL_AVAILABLE, up_label = None, up_reference = None,
     up_booking = Some None, up_released = None\<rparr>"

abbreviation held_by :: "ident \<Rightarrow> daily_slot \<Rightarrow> bool" where
  "held_by b s \<equiv> ds_booking s = Some b"

text \<open>The slots of a booking go to another one, and from that to the next.\<close>

fun hand_on :: "timestamp \<Rightarrow> ident \<Rightarrow> ident list \<Rightarrow> 'z slot_db_scheme \<Rightarrow> 'z slot_db_scheme" where
  "hand_on now b [] db = db"
| "hand_on now b (c # cs) db = hand_on now c cs (update_slots now (held_by b) (book_update c) db)"

definition slot_taken :: "ident \<Rightarrow> daily_slot \<Rightarrow> daily_slot" where
  "slot_taken b s = s\<lparr>ds_status := SL_BOOKED, ds_booking := Some b, ds_released := None,
     ds_reference := (if ds_status s = SL_RESERVED_EXTERNAL then Some (or_blank (ds_reference s)) else None)\<rparr>"

lemma book_free:
  "ds_status s \<noteq> SL_BOOKED \<Longrightarrow> update_slot now (book_update b) s = slot_taken b s"
  by (simp add: update_slot_def slot_taken_def booked_external_reference_def or_blank_def)

lemma book_taken: "update_slot now (book_update c) (slot_taken b s) = slot_taken c s"
  by (simp add: update_slot_def slot_taken_def booked_external_reference_def)

lemma update_booking_slots:
  "sl_slots (update_slots now P (book_update b) db) =
     map (\<lambda>s. if P s then update_slot now (book_update b) s else s) (sl_slots db)"
  by (simp add: update_slots_def)

lemma hand_on_slots:
  assumes "sl_slots db = map (\<lambda>s. if P s then slot_taken b s else s) rows"
    and "\<And>s c. s \<in> set rows \<Longrightarrow> c \<in> set (b # cs) \<Longrightarrow> \<not> P s \<Longrightarrow> \<not> held_by c s"
  shows "sl_slots (hand_on now b cs db) = map (\<lambda>s. if P s then slot_taken (last (b # cs)) s else s) rows"
  using assms
proof (induction cs arbitrary: b db)
  case (Cons c cs)
  let ?db = "update_slots now (held_by b) (book_update c) db"
  have "sl_slots ?db = map (\<lambda>s. if P s then slot_taken c s else s) rows"
    unfolding update_booking_slots Cons.prems(1) map_map
  proof (rule map_cong [OF refl])
    fix s assume "s \<in> set rows"
    with Cons.prems(2) [of s b] show "((\<lambda>s. if held_by b s then update_slot now (book_update c) s else s) \<circ>
        (\<lambda>s. if P s then slot_taken b s else s)) s = (if P s then slot_taken c s else s)"
      by (simp add: book_taken) (simp add: slot_taken_def)
  qed
  then show ?case using Cons.IH [of ?db c] Cons.prems(2) by simp
qed simp

text \<open>
  C28: Slots come back as they were. Let a booking take free or reserved slots, hand them on to
  any number of other bookings, and let the last one release them. Then every slot has its old
  status, a slot of the external reserve is in the reserve again with its reference, no other slot
  has changed, the slots given back carry the time of the release, and the first start and last end
  of the slots are remembered for the booking that held them.
\<close>

theorem slots_come_back:
  fixes db :: slot_db
  assumes free: "\<forall>s\<in>set (sl_slots db). P s \<longrightarrow> ds_status s \<in> {SL_AVAILABLE, SL_RESERVED_EXTERNAL} \<and> ds_booking s = None"
    and new: "\<forall>s\<in>set (sl_slots db). \<forall>c\<in>set (b # cs). \<not> held_by c s"
    and taken: "taken = hand_on t1 b cs (update_slots t0 P (book_update b) db)"
    and final: "final = update_slots t2 (held_by (last (b # cs))) release_update taken"
  shows "sl_slots final = map (\<lambda>s. if P s then s\<lparr>ds_released := Some t2, ds_reference :=
      (if ds_status s = SL_RESERVED_EXTERNAL then Some (or_blank (ds_reference s)) else None)\<rparr> else s) (sl_slots db) \<and>
    ((\<exists>s\<in>set (sl_slots db). P s) \<longrightarrow> sl_ranges final (last (b # cs)) =
      Some (Min (ds_start ` {s\<in>set (sl_slots db). P s}), Max (ds_end ` {s\<in>set (sl_slots db). P s})))"
proof -
  let ?b = "last (b # cs)"
  have "sl_slots (update_slots t0 P (book_update b) db) = map (\<lambda>s. if P s then slot_taken b s else s) (sl_slots db)"
    unfolding update_booking_slots by (rule map_cong [OF refl]) (use free book_free in auto)
  then have slots: "sl_slots taken = map (\<lambda>s. if P s then slot_taken ?b s else s) (sl_slots db)"
    unfolding taken by (rule hand_on_slots) (use new in auto)
  have "?b \<in> set (b # cs)" by (rule last_in_set) simp
  then have last: "held_by ?b (if P s then slot_taken ?b s else s) \<longleftrightarrow> P s" if "s \<in> set (sl_slots db)" for s
    using new that by (auto simp: slot_taken_def)
  have "sl_slots final = map (\<lambda>s. if held_by ?b s then update_slot t2 release_update s else s) (sl_slots taken)"
    unfolding final by (simp add: update_slots_def remember_booking_slot_ranges_def Let_def)
  also have "\<dots> = map (\<lambda>s. if P s then s\<lparr>ds_released := Some t2, ds_reference :=
      (if ds_status s = SL_RESERVED_EXTERNAL then Some (or_blank (ds_reference s)) else None)\<rparr> else s) (sl_slots db)"
    unfolding slots map_map
  proof (rule map_cong [OF refl])
    fix s assume s: "s \<in> set (sl_slots db)"
    then have "P s \<Longrightarrow> update_slot t2 release_update (slot_taken ?b s) = s\<lparr>ds_released := Some t2, ds_reference :=
        (if ds_status s = SL_RESERVED_EXTERNAL then Some (or_blank (ds_reference s)) else None)\<rparr>"
      using free by (auto simp: update_slot_def slot_taken_def released_status_def released_by_booking_at_def)
    then show "((\<lambda>s. if held_by ?b s then update_slot t2 release_update s else s) \<circ>
        (\<lambda>s. if P s then slot_taken ?b s else s)) s =
      (if P s then s\<lparr>ds_released := Some t2, ds_reference :=
        (if ds_status s = SL_RESERVED_EXTERNAL then Some (or_blank (ds_reference s)) else None)\<rparr> else s)"
      using last [OF s] by auto
  qed
  finally have rows: "sl_slots final = map (\<lambda>s. if P s then s\<lparr>ds_released := Some t2, ds_reference :=
      (if ds_status s = SL_RESERVED_EXTERNAL then Some (or_blank (ds_reference s)) else None)\<rparr> else s) (sl_slots db)" .
  have own: "f ` {s \<in> set (sl_slots taken). held_by ?b s} = f ` {s \<in> set (sl_slots db). P s}"
    if "\<And>s. f (slot_taken ?b s) = f s" for f :: "daily_slot \<Rightarrow> timestamp"
  proof -
    have "{s \<in> set (sl_slots taken). held_by ?b s} =
        (\<lambda>s. if P s then slot_taken ?b s else s) ` {s \<in> set (sl_slots db). P s}" (is "?l = ?r")
    proof (rule set_eqI)
      fix x
      show "x \<in> ?l \<longleftrightarrow> x \<in> ?r" unfolding slots set_map using last by blast
    qed
    then show ?thesis using that by (simp add: image_image)
  qed
  have "sl_ranges final ?b = Some (Min (ds_start ` {s\<in>set (sl_slots db). P s}), Max (ds_end ` {s\<in>set (sl_slots db). P s}))"
    if some: "\<exists>s\<in>set (sl_slots db). P s"
  proof -
    have "list_ex (held_by ?b) (sl_slots taken)"
      using some last unfolding slots list_ex_iff by force
    moreover have "ds_start ` {s \<in> set (sl_slots taken). held_by ?b s} = ds_start ` {s \<in> set (sl_slots db). P s}"
      "ds_end ` {s \<in> set (sl_slots taken). held_by ?b s} = ds_end ` {s \<in> set (sl_slots db). P s}"
      by (rule own, simp add: slot_taken_def)+
    ultimately show ?thesis
      unfolding final by (simp add: update_slots_def remember_booking_slot_ranges_def Let_def)
  qed
  with rows show ?thesis by blast
qed

text \<open>The first slot is free, the second reserved; they are booked, handed on once and released.\<close>

definition two_slots :: slot_db where
  "two_slots = slot_demo\<lparr>sl_slots :=
     [\<lparr>ds_id = 1, ds_master = 1, ds_date = 4, ds_start = 358200, ds_end = 369000, ds_status = SL_AVAILABLE,
        ds_label = None, ds_reference = None, ds_booking = None, ds_released = None\<rparr>,
      \<lparr>ds_id = 2, ds_master = 2, ds_date = 4, ds_start = 390600, ds_end = 419400, ds_status = SL_RESERVED_EXTERNAL,
        ds_label = None, ds_reference = Some ''FBR/7'', ds_booking = None, ds_released = None\<rparr>]\<rparr>"

abbreviation two_released :: slot_db where
  "two_released \<equiv> update_slots 30 (held_by 9) release_update
     (hand_on 20 8 [9] (update_slots 10 (\<lambda>_. True) (book_update 8) two_slots))"

theorem slots_come_back_witness:
  "map ds_status (sl_slots two_released) = [SL_AVAILABLE, SL_RESERVED_EXTERNAL] \<and>
   map ds_reference (sl_slots two_released) = [None, Some ''FBR/7''] \<and>
   sl_ranges two_released 9 = Some (358200, 419400)"
proof -
  have slots: "\<forall>s\<in>set (sl_slots two_slots). True \<longrightarrow> ds_status s \<in> {SL_AVAILABLE, SL_RESERVED_EXTERNAL} \<and> ds_booking s = None"
    "\<forall>s\<in>set (sl_slots two_slots). \<forall>c\<in>set [8, 9]. \<not> held_by c s"
    by (simp_all add: two_slots_def)
  note promise = slots_come_back [of two_slots "\<lambda>_. True" 8 "[9]", OF slots refl refl, of 30 20 10]
  have "sl_slots two_slots \<noteq> []" by (simp add: two_slots_def)
  then have some: "\<exists>s\<in>set (sl_slots two_slots). True" by (cases "sl_slots two_slots") auto
  have ends: "ds_start ` {s \<in> set (sl_slots two_slots). True} = {358200, 390600}"
    "ds_end ` {s \<in> set (sl_slots two_slots). True} = {369000, 419400}"
    unfolding simp_thms Collect_mem_eq by (simp_all add: two_slots_def)
  have "sl_ranges two_released 9 = Some (358200, 419400)"
    using promise [THEN conjunct2, THEN mp, OF some] unfolding ends by simp
  moreover have "map ds_status (sl_slots two_released) = [SL_AVAILABLE, SL_RESERVED_EXTERNAL] \<and>
      map ds_reference (sl_slots two_released) = [None, Some ''FBR/7'']"
    using promise [THEN conjunct1] by (simp add: two_slots_def or_blank_def)
  ultimately show ?thesis by simp
qed

end
