(* ===== verification/Bookings.thy ===== *)
theory Bookings
  imports Slots Users Money
begin

text \<open>
  The rows around a booked slot: bookings and sample traces with the columns the model reads, the
  bookable equipment, and the look-ups by which \<^verbatim>\<open>equipment/slot_exchange.py\<close>,
  \<^verbatim>\<open>equipment/external_slot_quota.py\<close> and \<^verbatim>\<open>equipment/booking_cancellation.py\<close> read them.
\<close>

subsection \<open>Rows\<close>

datatype booking_status =
    BO_PENDING | BO_PENDING_PAYMENT | BO_WAITLISTED | BO_BOOKED | BO_DISRUPTION_PENDING
  | BO_UNDER_MAINTENANCE | BO_OTHER_DISRUPTION | BO_HOLD | BO_PROCESSING | BO_COMPLETED | BO_CANCELLED
  | BO_ABSENT | BO_REFUNDED | BO_NOT_UTILIZED

datatype sample_trace_status =
    TR_SAMPLE_SENT | TR_HELD_AT_OFFICE | TR_FORWARDED_TO_LAB | TR_SAMPLE_ACCEPTED | TR_SAMPLE_REJECTED
  | TR_PROCESSING | TR_COMPLETED | TR_RETURNED | TR_ARCHIVED | TR_DISPOSED | TR_NOT_UTILIZED
  | TR_OP_UNAVAILABLE

type_synonym booking_inputs = "(string \<times> string) list"

datatype disruption_kind = DK_MAINTENANCE | DK_OPERATOR_ABSENT | DK_OTHER_DISRUPTION

datatype profile_type =
    Sample_Based | Hour_Based | Sample_Element | Generic_Profile | Multi_Param | Print_3D | Laser_Cut_2D

text \<open>
  What is kept of a booking before an unpaid edit of its inputs
  (\<^verbatim>\<open>charge_recalculation_revert_snapshot\<close>).
\<close>

record charge_state =
  cs_inputs :: booking_inputs
  cs_charge :: paise
  cs_minutes :: int
  cs_pending :: "paise option"

text \<open>
  \<open>bo_user_type\<close> is the snapshot of the booker's type, \<open>None\<close> when it is blank; \<open>bo_inputs\<close> the JSON
  object of the input fields; \<open>bo_source\<close> the booking a repeat sample repeats; \<open>bo_applied\<close> and \<open>bo_due\<close>
  what was paid from the wallet at the booking and what was left to pay; \<open>bo_pending\<close> the difference
  of charge that is not settled yet, with the deadline and the snapshot of an unpaid edit; then come
  the columns of a disruption by the laboratory, and when the laboratory rejected the files of a
  booking (\<^verbatim>\<open>fabrication_rejected_at\<close>) or moved it to other slots (\<^verbatim>\<open>auto_rescheduled_at\<close>).
\<close>

record booking =
  bo_id :: ident
  bo_user :: ident
  bo_equipment :: ident
  bo_profile :: ident
  bo_user_type :: "user_type option"
  bo_charge :: paise
  bo_inputs :: booking_inputs
  bo_status :: booking_status
  bo_source :: "ident option"
  bo_minutes :: int
  bo_applied :: paise
  bo_due :: paise
  bo_pending :: "paise option"
  bo_deadline :: "timestamp option"
  bo_snapshot :: "charge_state option"
  bo_disrupted :: bool
  bo_disruption :: "disruption_kind option"
  bo_release :: "slot_status option"
  bo_rejected :: "timestamp option"
  bo_rescheduled :: "timestamp option"

record bookable = equipment +
  be_exchange :: bool
  be_group :: "ident option"
  be_weekday :: "int option"
  be_time :: "time_of_day option"
  be_department :: "ident option"
  be_profile :: "profile_type option"
  be_duration :: int
  be_tolerance :: int
  be_threshold :: int

record booking_db = slot_db +
  bd_users :: "user list"
  bd_bookings :: "booking list"
  bd_equipment :: "bookable list"
  bd_traces :: "(ident \<times> sample_trace_status) list"

subsection \<open>Look-ups\<close>

definition daily_slots :: "'z booking_db_scheme \<Rightarrow> ident \<Rightarrow> daily_slot list" where
  "daily_slots db b = filter (\<lambda>s. ds_booking s = Some b) (sl_slots db)"

definition booker :: "'z booking_db_scheme \<Rightarrow> booking \<Rightarrow> user option" where
  "booker db b = row_of u_id (bo_user b) (bd_users db)"

definition booked_equipment :: "'z booking_db_scheme \<Rightarrow> booking \<Rightarrow> bookable option" where
  "booked_equipment db b = row_of eq_id (bo_equipment b) (bd_equipment db)"

definition internal_account :: "user option \<Rightarrow> bool" where
  "internal_account u = (case u of
     None \<Rightarrow> False
   | Some u \<Rightarrow> (case u_type u of None \<Rightarrow> False | Some t \<Rightarrow> t \<in> get_internal_user_codes))"

definition booking_is_internal :: "'z booking_db_scheme \<Rightarrow> booking \<Rightarrow> bool" where
  "booking_is_internal db b = (case bo_user_type b of
     Some t \<Rightarrow> t \<in> get_internal_user_codes
   | None \<Rightarrow> internal_account (booker db b))"

definition accepted_or_later :: "sample_trace_status \<Rightarrow> bool" where
  "accepted_or_later st = (st \<in> {TR_SAMPLE_ACCEPTED, TR_PROCESSING, TR_COMPLETED, TR_RETURNED,
     TR_ARCHIVED, TR_DISPOSED})"

definition sample_accepted_by_lab :: "'z booking_db_scheme \<Rightarrow> booking \<Rightarrow> bool" where
  "sample_accepted_by_lab db b = list_ex (\<lambda>(i, st). i = bo_id b \<and> accepted_or_later st) (bd_traces db)"

text \<open>
  The charge of one slot, to the paisa; the division is exact to 28 digits, far beyond the ten digits
  of a charge, so that rounding the exact quotient gives the same.
\<close>

definition per_slot_charge :: "booking \<Rightarrow> nat \<Rightarrow> paise" where
  "per_slot_charge b count =
     (if count = 0 then bo_charge b else round_half_up (of_int (bo_charge b) / of_nat count))"

definition slot_minutes :: "daily_slot \<Rightarrow> int" where
  "slot_minutes s = (ds_end s - ds_start s) div 60"

end
