(* ===== verification/Slot_Exchange.thy ===== *)
theory Slot_Exchange
  imports Bookings
begin

text \<open>
  Slot exchange, \<^verbatim>\<open>equipment/slot_exchange.py\<close>: two internal users swap booked slots. The checks of an
  exchange, the life cycle of a request (made, accepted, declined, withdrawn, expired, failed) and the
  swap itself. What the group of an equipment says of a booking moving to another equipment
  (\<^verbatim>\<open>reschedule_target_info\<close>, which prices the booking there) is the argument \<open>info\<close>. Booking
  events and notifications are not modelled.
\<close>

subsection \<open>Rows and errors\<close>

datatype exchange_status = EX_PENDING | EX_ACCEPTED | EX_DECLINED | EX_CANCELLED | EX_EXPIRED | EX_FAILED

datatype whose = Your | The_Other

text \<open>
  One constructor for each message of \<^verbatim>\<open>ExchangeError\<close>, with what the message names. The last one is
  the \<^verbatim>\<open>DoesNotExist\<close> of a row that is gone, which is no \<^verbatim>\<open>ExchangeError\<close>.
\<close>

datatype exchange_error =
    Message_Too_Long | No_Slots | Same_Slot | Requester_Not_Internal | Slot_Missing
  | Offer_Not_One_Booking | Request_Not_One_Booking | Slots_Changed | Not_Your_Booking | Same_User
  | Booker_Not_Internal | Booking_Not_Booked whose | Booking_Not_Internal | Exchange_Disabled ident
  | Already_Started whose | Sample_Accepted whose | Count_Mismatch nat nat | Length_Mismatch
  | Charge_Mismatch paise paise | Different_Group | Partial_Cross_Equipment | Target string
  | Group_Charge_Mismatch | Slot_Count_Mismatch ident nat int | Inputs_Incompatible ident | Too_Late
  | Duplicate | Not_Found | Not_Pending exchange_status | Answered_Meanwhile | Row_Missing

datatype failure_reason = Not_Possible exchange_error | Exchanged_Elsewhere

type_synonym summary = "ident \<times> timestamp \<times> timestamp"

record exchange =
  er_id :: ident
  er_requester :: ident
  er_responder :: ident
  er_requester_booking :: ident
  er_responder_booking :: ident
  er_offered :: "ident list"
  er_requested :: "ident list"
  er_offered_summary :: "summary list"
  er_requested_summary :: "summary list"
  er_status :: exchange_status
  er_message :: string
  er_note :: string
  er_failure :: "failure_reason option"
  er_expires :: timestamp
  er_responded :: "timestamp option"

record exchange_db = booking_db +
  ex_requests :: "exchange list"

text \<open>What \<^verbatim>\<open>reschedule_target_info\<close> answers, as far as an exchange reads it.\<close>

record target_info =
  ti_ok :: bool
  ti_code :: string
  ti_charge_differs :: bool
  ti_required_slots :: int
  ti_drops_fields :: bool
  ti_profile :: "ident option"
  ti_inputs :: booking_inputs

type_synonym target_lookup = "user \<Rightarrow> booking \<Rightarrow> bookable \<Rightarrow> target_info"

record exchange_plan =
  pl_mine :: booking
  pl_theirs :: booking
  pl_offered :: "daily_slot list"
  pl_requested :: "daily_slot list"
  pl_moves :: "((bookable \<times> target_info) \<times> (bookable \<times> target_info)) option"

subsection \<open>The rules\<close>

definition cutoff :: int where
  "cutoff = 300"

definition max_message_length :: nat where
  "max_message_length = 500"

definition slot_summary :: "daily_slot \<Rightarrow> summary" where
  "slot_summary s = (ds_id s, ds_start s, ds_end s)"

definition deadline_for :: "daily_slot list \<Rightarrow> timestamp option" where
  "deadline_for ss = (if ss = [] then None else Some (Min (set (map ds_start ss)) - cutoff))"

definition expires_at :: "exchange_plan \<Rightarrow> timestamp option" where
  "expires_at plan = deadline_for (pl_offered plan @ pl_requested plan)"

definition slots_by_id :: "ident list \<Rightarrow> 'z slot_db_scheme \<Rightarrow> daily_slot list" where
  "slots_by_id ids db = sort_key ds_start (filter (\<lambda>s. ds_id s \<in> set ids) (sl_slots db))"

definition one_booking :: "daily_slot list \<Rightarrow> ident option" where
  "one_booking ss = (case remdups (map ds_booking ss) of [Some b] \<Rightarrow> Some b | _ \<Rightarrow> None)"

definition booking_problem :: "timestamp \<Rightarrow> whose \<Rightarrow> 'z booking_db_scheme \<Rightarrow> booking \<Rightarrow> exchange_error + unit" where
  "booking_problem now w db b =
     and_then (ensure (bo_status b = BO_BOOKED) (Booking_Not_Booked w)) (\<lambda>_.
     and_then (ensure (booking_is_internal db b) Booking_Not_Internal) (\<lambda>_.
     and_then (ensure (case booked_equipment db b of None \<Rightarrow> False | Some e \<Rightarrow> be_exchange e)
       (Exchange_Disabled (bo_equipment b))) (\<lambda>_.
     and_then (ensure (\<not> list_ex (\<lambda>s. ds_start s \<le> now) (daily_slots db (bo_id b))) (Already_Started w)) (\<lambda>_.
     ensure (\<not> sample_accepted_by_lab db b) (Sample_Accepted w)))))"

text \<open>The check of one booking moving to the other's equipment.\<close>

definition check_move :: "target_info \<Rightarrow> bookable \<Rightarrow> nat \<Rightarrow> exchange_error + unit" where
  "check_move t target needed =
     and_then (ensure (ti_ok t) (Target (ti_code t))) (\<lambda>_.
     and_then (ensure (\<not> ti_charge_differs t) Group_Charge_Mismatch) (\<lambda>_.
     and_then (ensure (ti_required_slots t = int needed) (Slot_Count_Mismatch (eq_id target) needed (ti_required_slots t))) (\<lambda>_.
     ensure (\<not> ti_drops_fields t) (Inputs_Incompatible (eq_id target)))))"

definition plan_cross_equipment ::
  "target_lookup \<Rightarrow> user \<Rightarrow> booking \<Rightarrow> booking \<Rightarrow> nat \<times> nat \<Rightarrow> nat \<times> nat \<Rightarrow> 'z booking_db_scheme \<Rightarrow>
   exchange_error + ((bookable \<times> target_info) \<times> (bookable \<times> target_info))" where
  "plan_cross_equipment info actor mine theirs chosen counts db =
     (case (booked_equipment db mine, booked_equipment db theirs) of
        (Some my_equipment, Some their_equipment) \<Rightarrow>
          and_then (ensure (be_group my_equipment \<noteq> None \<and> be_group my_equipment = be_group their_equipment) Different_Group) (\<lambda>_.
          and_then (ensure (chosen = counts) Partial_Cross_Equipment) (\<lambda>_.
          and_then (check_move (info actor mine their_equipment) their_equipment (snd counts)) (\<lambda>_.
          and_then (check_move (info actor theirs my_equipment) my_equipment (fst counts)) (\<lambda>_.
          Inr ((their_equipment, info actor mine their_equipment), (my_equipment, info actor theirs my_equipment))))))
      | _ \<Rightarrow> Inl Row_Missing)"

text \<open>
  \<^verbatim>\<open>plan_exchange\<close>. Under locks the slots are read again before the check that they have not changed
  hands; an operation being one step here, both readings are the same. The two halves of the checks
  are those before and after the bookings are known.
\<close>

definition chosen_slots ::
  "user \<Rightarrow> ident list \<Rightarrow> ident list \<Rightarrow> 'z booking_db_scheme \<Rightarrow>
   exchange_error + ((daily_slot list \<times> daily_slot list) \<times> (booking \<times> booking))" where
  "chosen_slots requester offered_ids requested_ids db =
     and_then (ensure (offered_ids \<noteq> [] \<and> requested_ids \<noteq> []) No_Slots) (\<lambda>_.
     and_then (ensure (\<not> list_ex (\<lambda>i. i \<in> set requested_ids) offered_ids) Same_Slot) (\<lambda>_.
     and_then (ensure (internal_account (Some requester)) Requester_Not_Internal) (\<lambda>_.
     let offered = slots_by_id offered_ids db; requested = slots_by_id requested_ids db in
     and_then (ensure (length offered = length (remdups offered_ids) \<and>
         length requested = length (remdups requested_ids)) Slot_Missing) (\<lambda>_.
     case one_booking offered of None \<Rightarrow> Inl Offer_Not_One_Booking | Some b \<Rightarrow>
    (case one_booking requested of None \<Rightarrow> Inl Request_Not_One_Booking | Some c \<Rightarrow>
    (case (row_of bo_id b (bd_bookings db), row_of bo_id c (bd_bookings db)) of
       (Some mine, Some theirs) \<Rightarrow>
         and_then (ensure (list_all (\<lambda>s. ds_booking s = Some (bo_id mine)) offered \<and>
             list_all (\<lambda>s. ds_booking s = Some (bo_id theirs)) requested) Slots_Changed) (\<lambda>_.
         Inr ((offered, requested), (mine, theirs)))
     | _ \<Rightarrow> Inl Row_Missing))))))"

definition plan_exchange ::
  "target_lookup \<Rightarrow> user \<Rightarrow> ident list \<Rightarrow> ident list \<Rightarrow> timestamp \<Rightarrow> 'z booking_db_scheme \<Rightarrow>
   exchange_error + exchange_plan" where
  "plan_exchange info requester offered_ids requested_ids now db =
     and_then (chosen_slots requester offered_ids requested_ids db) (\<lambda>((offered, requested), (mine, theirs)).
     and_then (ensure (bo_user mine = u_id requester) Not_Your_Booking) (\<lambda>_.
     and_then (ensure (bo_user theirs \<noteq> u_id requester) Same_User) (\<lambda>_.
     and_then (ensure (internal_account (booker db theirs)) Booker_Not_Internal) (\<lambda>_.
     and_then (booking_problem now Your db mine) (\<lambda>_.
     and_then (booking_problem now The_Other db theirs) (\<lambda>_.
     and_then (ensure (length offered = length requested) (Count_Mismatch (length offered) (length requested))) (\<lambda>_.
     and_then (ensure (sort (map slot_minutes offered) = sort (map slot_minutes requested)) Length_Mismatch) (\<lambda>_.
     let my_count = length (daily_slots db (bo_id mine)); their_count = length (daily_slots db (bo_id theirs));
         my_charge = per_slot_charge mine my_count; their_charge = per_slot_charge theirs their_count in
     and_then (ensure (my_charge = their_charge) (Charge_Mismatch my_charge their_charge)) (\<lambda>_.
     and_then (if bo_equipment mine = bo_equipment theirs then Inr None
         else and_then (plan_cross_equipment info requester mine theirs (length offered, length requested)
           (my_count, their_count) db) (\<lambda>moves. Inr (Some moves))) (\<lambda>moves.
     let plan = \<lparr>pl_mine = mine, pl_theirs = theirs, pl_offered = offered, pl_requested = requested, pl_moves = moves\<rparr> in
     and_then (ensure (case expires_at plan of None \<Rightarrow> False | Some t \<Rightarrow> now < t) Too_Late) (\<lambda>_.
     Inr plan)))))))))))"

subsection \<open>The life of a request\<close>

definition expire_stale :: "timestamp \<Rightarrow> (exchange \<Rightarrow> bool) \<Rightarrow> 'z exchange_db_scheme \<Rightarrow> 'z exchange_db_scheme" where
  "expire_stale now P db = db\<lparr>ex_requests := map (\<lambda>r.
     if P r \<and> er_status r = EX_PENDING \<and> er_expires r \<le> now
     then r\<lparr>er_status := EX_EXPIRED, er_responded := Some now\<rparr> else r) (ex_requests db)\<rparr>"

definition duplicate_request :: "user \<Rightarrow> ident list \<Rightarrow> exchange \<Rightarrow> bool" where
  "duplicate_request requester ids r =
     (er_requester r = u_id requester \<and> er_status r = EX_PENDING \<and> list_ex (\<lambda>i. i \<in> set ids) (er_requested r))"

definition new_request :: "user \<Rightarrow> exchange_plan \<Rightarrow> string \<Rightarrow> timestamp \<Rightarrow> 'z exchange_db_scheme \<Rightarrow> exchange" where
  "new_request requester plan message expires db =
     \<lparr>er_id = fresh_pk er_id (ex_requests db), er_requester = u_id requester,
      er_responder = bo_user (pl_theirs plan), er_requester_booking = bo_id (pl_mine plan),
      er_responder_booking = bo_id (pl_theirs plan), er_offered = map ds_id (pl_offered plan),
      er_requested = map ds_id (pl_requested plan), er_offered_summary = map slot_summary (pl_offered plan),
      er_requested_summary = map slot_summary (pl_requested plan), er_status = EX_PENDING,
      er_message = message, er_note = [], er_failure = None, er_expires = expires, er_responded = None\<rparr>"

definition create_exchange ::
  "target_lookup \<Rightarrow> user \<Rightarrow> ident list \<Rightarrow> ident list \<Rightarrow> string \<Rightarrow> timestamp \<Rightarrow> 'z exchange_db_scheme \<Rightarrow>
   'z exchange_db_scheme \<times> (exchange_error + exchange)" where
  "create_exchange info requester offered_ids requested_ids message now db =
     (if max_message_length < length (strip message) then (db, Inl Message_Too_Long) else
      case plan_exchange info requester offered_ids requested_ids now db of
        Inl e \<Rightarrow> (db, Inl e)
      | Inr plan \<Rightarrow>
          (let db1 = expire_stale now (\<lambda>_. True) db in
           if list_ex (duplicate_request requester (map ds_id (pl_requested plan))) (ex_requests db1)
           then (db1, Inl Duplicate)
           else case expires_at plan of None \<Rightarrow> (db1, Inl Too_Late) | Some expires \<Rightarrow>
             (let r = new_request requester plan (strip message) expires db1
              in (db1\<lparr>ex_requests := ex_requests db1 @ [r]\<rparr>, Inr r))))"

text \<open>
  A request is looked up for the one who has to answer it; \<open>clock\<close> is read when it is looked up. The
  marking as expired stays when the answer then fails.
\<close>

definition pending_for ::
  "timestamp \<Rightarrow> ident \<Rightarrow> user \<Rightarrow> (exchange \<Rightarrow> ident) \<Rightarrow> 'z exchange_db_scheme \<Rightarrow>
   'z exchange_db_scheme \<times> (exchange_error + exchange)" where
  "pending_for clock i user role db = (case row_of er_id i (ex_requests db) of
     None \<Rightarrow> (db, Inl Not_Found)
   | Some r \<Rightarrow> if role r \<noteq> u_id user then (db, Inl Not_Found) else
       (let db1 = expire_stale clock (\<lambda>x. er_id x = i) db in
        case row_of er_id i (ex_requests db1) of None \<Rightarrow> (db1, Inl Not_Found)
        | Some r1 \<Rightarrow> if er_status r1 = EX_PENDING then (db1, Inr r1) else (db1, Inl (Not_Pending (er_status r1)))))"

definition save_exchange :: "exchange \<Rightarrow> 'z exchange_db_scheme \<Rightarrow> 'z exchange_db_scheme" where
  "save_exchange r db = db\<lparr>ex_requests := update_row er_id (er_id r) (\<lambda>_. r) (ex_requests db)\<rparr>"

subsection \<open>The swap\<close>

definition hand_to :: "ident \<Rightarrow> slot_update" where
  "hand_to b = \<lparr>up_status = None, up_label = None, up_reference = None, up_booking = Some (Some b),
     up_released = None\<rparr>"

definition move_booking :: "bookable \<times> target_info \<Rightarrow> booking \<Rightarrow> booking" where
  "move_booking m b = (case m of (target, t) \<Rightarrow>
     b\<lparr>bo_equipment := eq_id target,
       bo_profile := (case ti_profile t of None \<Rightarrow> bo_profile b | Some p \<Rightarrow> p),
       bo_inputs := (if ti_inputs t = [] then bo_inputs b else ti_inputs t)\<rparr>)"

definition save_booking :: "booking \<Rightarrow> 'z booking_db_scheme \<Rightarrow> 'z booking_db_scheme" where
  "save_booking b db = db\<lparr>bd_bookings := update_row bo_id (bo_id b)
     (\<lambda>r. r\<lparr>bo_equipment := bo_equipment b, bo_profile := bo_profile b, bo_inputs := bo_inputs b\<rparr>) (bd_bookings db)\<rparr>"

definition swap :: "timestamp \<Rightarrow> exchange_plan \<Rightarrow> 'z booking_db_scheme \<Rightarrow> 'z booking_db_scheme" where
  "swap now plan db =
     (let offered = map ds_id (pl_offered plan); requested = map ds_id (pl_requested plan);
          db1 = update_slots now (\<lambda>s. ds_id s \<in> set offered) (hand_to (bo_id (pl_theirs plan))) db;
          db2 = update_slots now (\<lambda>s. ds_id s \<in> set requested) (hand_to (bo_id (pl_mine plan))) db1
      in case pl_moves plan of
           None \<Rightarrow> db2
         | Some (my_move, their_move) \<Rightarrow>
             save_booking (move_booking their_move (pl_theirs plan))
               (save_booking (move_booking my_move (pl_mine plan)) db2))"

text \<open>Other pending requests that name a slot which has changed hands fail.\<close>

definition close_overlapping :: "exchange \<Rightarrow> timestamp \<Rightarrow> 'z exchange_db_scheme \<Rightarrow> 'z exchange_db_scheme" where
  "close_overlapping done_request now db =
     (let moved = er_offered done_request @ er_requested done_request in
      db\<lparr>ex_requests := map (\<lambda>r.
        if er_status r = EX_PENDING \<and> er_id r \<noteq> er_id done_request \<and>
           list_ex (\<lambda>i. i \<in> set moved) (er_offered r @ er_requested r)
        then r\<lparr>er_status := EX_FAILED, er_failure := Some Exchanged_Elsewhere, er_responded := Some now\<rparr>
        else r) (ex_requests db)\<rparr>)"

definition accept_locked ::
  "target_lookup \<Rightarrow> exchange \<Rightarrow> timestamp \<Rightarrow> 'z exchange_db_scheme \<Rightarrow>
   exchange_error + 'z exchange_db_scheme \<times> exchange" where
  "accept_locked info r now db =
     (case row_of er_id (er_id r) (ex_requests db) of None \<Rightarrow> Inl Row_Missing | Some locked \<Rightarrow>
      and_then (ensure (er_status locked = EX_PENDING) Answered_Meanwhile) (\<lambda>_.
      case row_of u_id (er_requester locked) (bd_users db) of None \<Rightarrow> Inl Row_Missing | Some requester \<Rightarrow>
      and_then (plan_exchange info requester (er_offered r) (er_requested r) now db) (\<lambda>plan.
      and_then (ensure (bo_id (pl_mine plan) = er_requester_booking locked \<and>
          bo_id (pl_theirs plan) = er_responder_booking locked) Slots_Changed) (\<lambda>_.
      let answered = locked\<lparr>er_status := EX_ACCEPTED, er_responded := Some now\<rparr>
      in Inr (close_overlapping answered now (save_exchange answered (swap now plan db)), answered)))))"

text \<open>
  An acceptance that is no longer possible marks the request as failed and goes on with the error,
  which the view turns into its answer; any other exception undoes the whole request.
\<close>

definition accept_request ::
  "target_lookup \<Rightarrow> ident \<Rightarrow> user \<Rightarrow> timestamp \<Rightarrow> timestamp \<Rightarrow> 'z exchange_db_scheme \<Rightarrow>
   'z exchange_db_scheme \<times> (exchange_error + exchange)" where
  "accept_request info i responder now clock db = (case pending_for clock i responder er_responder db of
     (db1, Inl e) \<Rightarrow> (db1, Inl e)
   | (db1, Inr r) \<Rightarrow> (case accept_locked info r now db1 of
       Inr (db2, answered) \<Rightarrow> (db2, Inr answered)
     | Inl e \<Rightarrow> if e = Row_Missing then (db, Inl e)
         else (db1\<lparr>ex_requests := map (\<lambda>x. if er_id x = er_id r \<and> er_status x = EX_PENDING
             then x\<lparr>er_status := EX_FAILED, er_failure := Some (Not_Possible e), er_responded := Some now\<rparr> else x)
             (ex_requests db1)\<rparr>, Inl e)))"

definition answer_request ::
  "(exchange \<Rightarrow> ident) \<Rightarrow> (exchange \<Rightarrow> exchange) \<Rightarrow> ident \<Rightarrow> user \<Rightarrow> timestamp \<Rightarrow> 'z exchange_db_scheme \<Rightarrow>
   'z exchange_db_scheme \<times> (exchange_error + exchange)" where
  "answer_request role change i user clock db = (case pending_for clock i user role db of
     (db1, Inl e) \<Rightarrow> (db1, Inl e)
   | (db1, Inr r) \<Rightarrow> (save_exchange (change r) db1, Inr (change r)))"

definition decline_request ::
  "ident \<Rightarrow> user \<Rightarrow> string \<Rightarrow> timestamp \<Rightarrow> timestamp \<Rightarrow> 'z exchange_db_scheme \<Rightarrow>
   'z exchange_db_scheme \<times> (exchange_error + exchange)" where
  "decline_request i responder note now clock = answer_request er_responder
     (\<lambda>r. r\<lparr>er_status := EX_DECLINED, er_note := take max_message_length (strip note), er_responded := Some now\<rparr>)
     i responder clock"

definition cancel_request ::
  "ident \<Rightarrow> user \<Rightarrow> timestamp \<Rightarrow> timestamp \<Rightarrow> 'z exchange_db_scheme \<Rightarrow>
   'z exchange_db_scheme \<times> (exchange_error + exchange)" where
  "cancel_request i requester now clock = answer_request er_requester
     (\<lambda>r. r\<lparr>er_status := EX_CANCELLED, er_responded := Some now\<rparr>) i requester clock"

text \<open>
  The page of a viewer shows the newest 200 requests, after marking what has expired, and what can be
  done with each (\<^verbatim>\<open>serialize_request\<close>).
\<close>

definition list_requests :: "user \<Rightarrow> timestamp \<Rightarrow> 'z exchange_db_scheme \<Rightarrow> 'z exchange_db_scheme \<times> exchange list" where
  "list_requests user now db =
     (let mine = (\<lambda>r. er_requester r = u_id user \<or> er_responder r = u_id user);
          db1 = expire_stale now mine db
      in (db1, take 200 (rev (filter mine (ex_requests db1)))))"

definition can_respond :: "user \<Rightarrow> exchange \<Rightarrow> bool" where
  "can_respond viewer r = (er_responder r = u_id viewer \<and> er_status r = EX_PENDING)"

definition can_cancel :: "user \<Rightarrow> exchange \<Rightarrow> bool" where
  "can_cancel viewer r = (er_responder r \<noteq> u_id viewer \<and> er_status r = EX_PENDING)"

end
