(* ===== verification/Exchange_Runs.thy ===== *)
theory Exchange_Runs
  imports Slot_Exchange "HOL-Library.Multiset"
begin

text \<open>
  What slot exchange promises: an acceptance swaps exactly the slots of a pending request, runs of
  the service keep what every booking holds, and a request that was made can be accepted.
\<close>

subsection \<open>What a plan has checked\<close>

lemma mset_filter_split:
  "(\<And>x. x \<in> set xs \<Longrightarrow> P x \<longleftrightarrow> Q x \<or> R x) \<Longrightarrow> (\<And>x. x \<in> set xs \<Longrightarrow> \<not> (Q x \<and> R x)) \<Longrightarrow>
   mset (map f (filter P xs)) = mset (map f (filter Q xs)) + mset (map f (filter R xs))"
  by (induction xs) auto

lemma set_slots_by_id: "set (slots_by_id ids db) = {s \<in> set (sl_slots db). ds_id s \<in> set ids}"
  by (auto simp: slots_by_id_def)

lemma mset_slots_by_id:
  "mset (map f (slots_by_id ids db)) = mset (map f (filter (\<lambda>s. ds_id s \<in> set ids) (sl_slots db)))"
  by (simp add: slots_by_id_def)

lemma chosen_slotsD:
  assumes "chosen_slots u is js db = Inr ((off, req), (mine, theirs))"
  shows "off = slots_by_id is db" "req = slots_by_id js db"
    "length off = length (remdups is)" "length req = length (remdups js)"
    "is \<noteq> []" "js \<noteq> []" "set is \<inter> set js = {}" "internal_account (Some u)"
    "mine \<in> set (bd_bookings db)" "theirs \<in> set (bd_bookings db)"
    "\<And>s. s \<in> set off \<Longrightarrow> ds_booking s = Some (bo_id mine)"
    "\<And>s. s \<in> set req \<Longrightarrow> ds_booking s = Some (bo_id theirs)"
  using assms
  by (auto simp: chosen_slots_def result_simps Let_def list_ex_iff list_all_iff
      split: option.splits dest: row_of_SomeD)

text \<open>What makes an exchange admissible at a time, as far as it does not depend on the slots chosen.\<close>

definition fair_exchange :: "timestamp \<Rightarrow> 'z booking_db_scheme \<Rightarrow> exchange_plan \<Rightarrow> bool" where
  "fair_exchange now db plan \<longleftrightarrow>
     list_all (\<lambda>b. bo_status b = BO_BOOKED \<and> booking_is_internal db b \<and>
       list_all (\<lambda>s. now < ds_start s) (daily_slots db (bo_id b)) \<and> \<not> sample_accepted_by_lab db b)
       [pl_mine plan, pl_theirs plan] \<and>
     length (pl_offered plan) = length (pl_requested plan) \<and>
     mset (map slot_minutes (pl_offered plan)) = mset (map slot_minutes (pl_requested plan)) \<and>
     per_slot_charge (pl_mine plan) (length (daily_slots db (bo_id (pl_mine plan)))) =
       per_slot_charge (pl_theirs plan) (length (daily_slots db (bo_id (pl_theirs plan)))) \<and>
     list_all (\<lambda>s. now < ds_start s - 300) (pl_offered plan @ pl_requested plan)"

lemma plan_exchangeD:
  assumes "plan_exchange info u is js now db = Inr plan"
  shows "chosen_slots u is js db = Inr ((pl_offered plan, pl_requested plan), (pl_mine plan, pl_theirs plan))"
    "bo_user (pl_mine plan) = u_id u" "bo_user (pl_theirs plan) \<noteq> u_id u"
    "pl_moves plan = None \<longleftrightarrow> bo_equipment (pl_mine plan) = bo_equipment (pl_theirs plan)"
    "pl_moves plan = Some moves \<Longrightarrow> plan_cross_equipment info u (pl_mine plan) (pl_theirs plan)
       (length (pl_offered plan), length (pl_requested plan))
       (length (daily_slots db (bo_id (pl_mine plan))), length (daily_slots db (bo_id (pl_theirs plan)))) db = Inr moves"
  using assms
  by (auto simp: plan_exchange_def result_simps Let_def split: if_splits)

lemma booking_problem_ok:
  "booking_problem now w db b = Inr () \<longleftrightarrow> bo_status b = BO_BOOKED \<and> booking_is_internal db b \<and>
     (\<exists>e. booked_equipment db b = Some e \<and> be_exchange e) \<and>
     list_all (\<lambda>s. now < ds_start s) (daily_slots db (bo_id b)) \<and> \<not> sample_accepted_by_lab db b"
  by (auto simp: booking_problem_def result_simps list_ex_iff list_all_iff not_le split: option.splits)

lemma before_deadline:
  assumes "pl_offered plan \<noteq> []"
  shows "(case expires_at plan of None \<Rightarrow> False | Some t \<Rightarrow> now < t) \<longleftrightarrow>
    list_all (\<lambda>s. now < ds_start s - 300) (pl_offered plan @ pl_requested plan)"
proof -
  let ?starts = "set (map ds_start (pl_offered plan @ pl_requested plan))"
  have "finite ?starts" "?starts \<noteq> {}" using assms by auto
  then have "now < Min ?starts - 300 \<longleftrightarrow> (\<forall>t\<in>?starts. now + 300 < t)"
    using Min_gr_iff [of ?starts "now + 300"] by linarith
  then show ?thesis
    using assms by (auto simp: expires_at_def deadline_for_def cutoff_def list_all_iff less_diff_eq)
qed

lemma plan_fair:
  assumes "plan_exchange info u is js now db = Inr plan"
  shows "fair_exchange now db plan"
proof -
  note chosen = chosen_slotsD [OF plan_exchangeD(1) [OF assms]]
  have "pl_offered plan \<noteq> []" using chosen(3,5) by auto
  then have "(case expires_at plan of None \<Rightarrow> False | Some t \<Rightarrow> now < t) \<longleftrightarrow>
      list_all (\<lambda>s. now < ds_start s - 300) (pl_offered plan @ pl_requested plan)"
    by (rule before_deadline)
  moreover have "sort xs = sort ys \<longleftrightarrow> mset xs = mset ys" for xs ys :: "int list"
    by (metis mset_sort properties_for_sort sorted_sort)
  ultimately show ?thesis
    using assms unfolding fair_exchange_def
    by (auto simp: plan_exchange_def result_simps Let_def booking_problem_ok split: if_splits)
qed

subsection \<open>The swap\<close>

definition swapped :: "ident list \<Rightarrow> ident \<Rightarrow> ident list \<Rightarrow> ident \<Rightarrow> daily_slot \<Rightarrow> daily_slot" where
  "swapped is b js c s = (if ds_id s \<in> set is then s\<lparr>ds_booking := Some c\<rparr>
     else if ds_id s \<in> set js then s\<lparr>ds_booking := Some b\<rparr> else s)"

lemma swapped_frame [simp]:
  "ds_id (swapped is b js c s) = ds_id s" "ds_master (swapped is b js c s) = ds_master s"
  "slot_minutes (swapped is b js c s) = slot_minutes s"
  "swapped is b js c s\<lparr>ds_booking := x\<rparr> = s\<lparr>ds_booking := x\<rparr>"
  by (simp_all add: swapped_def slot_minutes_def)

lemma update_slot_hand_to [simp]: "update_slot now (hand_to b) s = s\<lparr>ds_booking := Some b\<rparr>"
  by (simp add: update_slot_def hand_to_def)

lemma update_slots_hand_to [simp]:
  "update_slots now P (hand_to b) db =
     db\<lparr>sl_slots := map (\<lambda>s. if P s then s\<lparr>ds_booking := Some b\<rparr> else s) (sl_slots db)\<rparr>"
proof -
  have "up_booking (hand_to b) \<noteq> Some None" by (simp add: hand_to_def)
  then show ?thesis by (simp add: update_slots_def)
qed

lemma swap_slots:
  assumes "ds_id ` set (pl_offered plan) \<inter> ds_id ` set (pl_requested plan) = {}"
  shows "sl_slots (swap now plan db) = map (swapped (map ds_id (pl_offered plan)) (bo_id (pl_mine plan))
    (map ds_id (pl_requested plan)) (bo_id (pl_theirs plan))) (sl_slots db)"
proof -
  have "sl_slots (swap now plan db) =
      map (\<lambda>s. if ds_id s \<in> set (map ds_id (pl_requested plan)) then s\<lparr>ds_booking := Some (bo_id (pl_mine plan))\<rparr> else s)
       (map (\<lambda>s. if ds_id s \<in> set (map ds_id (pl_offered plan)) then s\<lparr>ds_booking := Some (bo_id (pl_theirs plan))\<rparr> else s)
         (sl_slots db))"
    by (simp add: swap_def Let_def save_booking_def split: option.split)
  then show ?thesis
    using assms by (auto simp: swapped_def)
qed

lemma swap_requests [simp]: "ex_requests (swap now plan db) = ex_requests db"
  by (simp add: swap_def Let_def save_booking_def split: option.split)

lemma swap_tables [simp]:
  "sl_masters (swap now plan db) = sl_masters db" "bd_users (swap now plan db) = bd_users db"
  "bd_equipment (swap now plan db) = bd_equipment db"
  by (simp_all add: swap_def Let_def save_booking_def split: option.split)

lemma swapped_holdings:
  fixes rows :: "daily_slot list"
  assumes "\<And>s. s \<in> set rows \<Longrightarrow> ds_id s \<in> set is \<Longrightarrow> ds_booking s = Some b"
    and "\<And>s. s \<in> set rows \<Longrightarrow> ds_id s \<in> set js \<Longrightarrow> ds_booking s = Some c"
    and "set is \<inter> set js = {}" "b \<noteq> c"
    and same: "mset (map slot_minutes (filter (\<lambda>s. ds_id s \<in> set is) rows)) =
      mset (map slot_minutes (filter (\<lambda>s. ds_id s \<in> set js) rows))"
  shows "mset (map slot_minutes (filter (\<lambda>s. ds_booking s = Some x) (map (swapped is b js c) rows))) =
    mset (map slot_minutes (filter (\<lambda>s. ds_booking s = Some x) rows))"
proof -
  let ?sel = "\<lambda>P. mset (map slot_minutes (filter P rows))"
  let ?rest = "\<lambda>s. ds_booking s = Some x \<and> ds_id s \<notin> set is \<union> set js"
  have after: "mset (map slot_minutes (filter (\<lambda>s. ds_booking s = Some x) (map (swapped is b js c) rows))) =
      ?sel (\<lambda>s. ds_booking (swapped is b js c s) = Some x)"
    by (simp add: filter_map comp_def)
  have "?sel (\<lambda>s. ds_booking (swapped is b js c s) = Some x) =
      ?sel (\<lambda>s. x = c \<and> ds_id s \<in> set is \<or> x = b \<and> ds_id s \<in> set js) + ?sel ?rest"
    by (rule mset_filter_split) (use assms(1-4) in \<open>auto simp: swapped_def\<close>)
  moreover have "?sel (\<lambda>s. ds_booking s = Some x) =
      ?sel (\<lambda>s. x = b \<and> ds_id s \<in> set is \<or> x = c \<and> ds_id s \<in> set js) + ?sel ?rest"
    by (rule mset_filter_split) (use assms(1-4) in auto)
  ultimately show ?thesis
    using same assms(4) unfolding after by (cases "x = b"; cases "x = c") simp_all
qed

lemma chosen_ids:
  assumes "unique_keys ds_id (sl_slots db)" "length (slots_by_id is db) = length (remdups is)"
  shows "ds_id ` set (slots_by_id is db) = set is"
proof (rule card_subset_eq)
  have "distinct (map ds_id (slots_by_id is db))"
    using assms(1) by (simp add: slots_by_id_def unique_keys_def distinct_map inj_on_def)
  then show "card (ds_id ` set (slots_by_id is db)) = card (set is)"
    using assms(2) by (metis distinct_card length_map length_remdups_card_conv set_map)
qed (auto simp: set_slots_by_id)

lemma whole_booking:
  assumes "unique_keys ds_id (sl_slots db)" "\<And>s. s \<in> set (slots_by_id is db) \<Longrightarrow> ds_booking s = Some b"
    and "length (slots_by_id is db) = length (daily_slots db b)"
  shows "set (slots_by_id is db) = set (daily_slots db b)"
proof (rule card_subset_eq)
  have "distinct (sl_slots db)" using assms(1) by (simp add: unique_keys_def distinct_map)
  then have "distinct (slots_by_id is db)" "distinct (daily_slots db b)"
    by (simp_all add: slots_by_id_def daily_slots_def)
  then show "card (set (slots_by_id is db)) = card (set (daily_slots db b))"
    using assms(3) by (simp add: distinct_card)
qed (use assms(2) in \<open>auto simp: set_slots_by_id daily_slots_def\<close>)

lemma saved_booking:
  assumes "b' \<in> set (bd_bookings (save_booking c db))"
  obtains b where "b \<in> set (bd_bookings db)" "bo_id b' = bo_id b"
    "bo_equipment b' = (if bo_id b = bo_id c then bo_equipment c else bo_equipment b)"
  using assms by (auto simp: save_booking_def update_row_def split: if_splits)

lemma move_booking_fields [simp]:
  "bo_id (move_booking m b) = bo_id b" "bo_equipment (move_booking m b) = eq_id (fst m)"
  by (simp_all add: move_booking_def split: prod.split)

lemma swap_booking:
  assumes "b' \<in> set (bd_bookings (swap now plan db))"
  obtains b where "b \<in> set (bd_bookings db)" "bo_id b' = bo_id b"
    "bo_equipment b' = (case pl_moves plan of None \<Rightarrow> bo_equipment b
     | Some ((t, _), (u, _)) \<Rightarrow> if bo_id b = bo_id (pl_theirs plan) then eq_id u
         else if bo_id b = bo_id (pl_mine plan) then eq_id t else bo_equipment b)"
proof (cases "pl_moves plan")
  case None
  then show thesis using that assms by (simp add: swap_def Let_def)
next
  case (Some moves)
  obtain t ti v vi where moves: "moves = ((t, ti), (v, vi))" by (metis surj_pair)
  let ?db = "update_slots now (\<lambda>s. ds_id s \<in> set (map ds_id (pl_requested plan))) (hand_to (bo_id (pl_mine plan)))
    (update_slots now (\<lambda>s. ds_id s \<in> set (map ds_id (pl_offered plan))) (hand_to (bo_id (pl_theirs plan))) db)"
  have "b' \<in> set (bd_bookings (save_booking (move_booking (v, vi) (pl_theirs plan))
      (save_booking (move_booking (t, ti) (pl_mine plan)) ?db)))"
    using assms by (simp add: swap_def Let_def Some moves)
  then obtain c where c: "c \<in> set (bd_bookings (save_booking (move_booking (t, ti) (pl_mine plan)) ?db))"
    "bo_id b' = bo_id c" "bo_equipment b' = (if bo_id c = bo_id (move_booking (v, vi) (pl_theirs plan))
       then bo_equipment (move_booking (v, vi) (pl_theirs plan)) else bo_equipment c)"
    by (rule saved_booking)
  from c(1) obtain b where b: "b \<in> set (bd_bookings ?db)" "bo_id c = bo_id b"
    "bo_equipment c = (if bo_id b = bo_id (move_booking (t, ti) (pl_mine plan))
       then bo_equipment (move_booking (t, ti) (pl_mine plan)) else bo_equipment b)"
    by (rule saved_booking)
  show thesis
  proof (rule that)
    show "b \<in> set (bd_bookings db)" using b(1) by simp
  qed (use b(2,3) c(2,3) in \<open>simp_all only: Some moves option.case prod.case move_booking_fields fst_conv\<close>)
qed

definition booking_core :: "booking \<Rightarrow> booking" where
  "booking_core b = b\<lparr>bo_equipment := 0, bo_profile := 0, bo_inputs := []\<rparr>"

lemma swap_booking_core: "map booking_core (bd_bookings (swap now plan db)) = map booking_core (bd_bookings db)"
  by (auto simp: swap_def Let_def save_booking_def update_row_def booking_core_def split: option.split)

subsection \<open>What is kept\<close>

definition names_slots :: "'z slot_db_scheme \<Rightarrow> ident list \<Rightarrow> ident \<Rightarrow> bool" where
  "names_slots db ids b \<longleftrightarrow> (\<forall>i\<in>set ids. \<exists>s\<in>set (sl_slots db). ds_id s = i \<and> ds_booking s = Some b)"

definition on_equipment :: "'z booking_db_scheme \<Rightarrow> bool" where
  "on_equipment db \<longleftrightarrow> (\<forall>b\<in>set (bd_bookings db). \<forall>s\<in>set (daily_slots db (bo_id b)).
     slot_equipment db s = Some (bo_equipment b))"

definition exchange_ok :: "'z slot_db_scheme \<Rightarrow> exchange \<Rightarrow> bool" where
  "exchange_ok db r \<longleftrightarrow> (er_status r = EX_PENDING \<longrightarrow>
     er_requester_booking r \<noteq> er_responder_booking r \<and>
     names_slots db (er_offered r) (er_requester_booking r) \<and>
     names_slots db (er_requested r) (er_responder_booking r))"

definition exchange_wf :: "exchange_db \<Rightarrow> bool" where
  "exchange_wf db \<longleftrightarrow> unique_keys ds_id (sl_slots db) \<and> unique_keys bo_id (bd_bookings db) \<and>
     unique_keys er_id (ex_requests db) \<and> on_equipment db \<and> list_all (exchange_ok db) (ex_requests db)"

text \<open>The holdings of the bookings, and everything of the slots and bookings an exchange never touches.\<close>

definition same_holdings :: "exchange_db \<Rightarrow> exchange_db \<Rightarrow> bool" where
  "same_holdings db db' \<longleftrightarrow>
     (\<forall>b. mset (map slot_minutes (daily_slots db' b)) = mset (map slot_minutes (daily_slots db b))) \<and>
     map (\<lambda>s. s\<lparr>ds_booking := None\<rparr>) (sl_slots db') = map (\<lambda>s. s\<lparr>ds_booking := None\<rparr>) (sl_slots db) \<and>
     map booking_core (bd_bookings db') = map booking_core (bd_bookings db)"

definition request_core :: "exchange \<Rightarrow> exchange" where
  "request_core r = r\<lparr>er_status := EX_PENDING, er_note := [], er_failure := None, er_responded := None\<rparr>"

definition requests_follow :: "exchange_db \<Rightarrow> exchange_db \<Rightarrow> bool" where
  "requests_follow db db' \<longleftrightarrow> (\<forall>r\<in>set (ex_requests db). \<exists>r'\<in>set (ex_requests db').
     request_core r' = request_core r \<and> (er_status r \<noteq> EX_PENDING \<longrightarrow> r' = r))"

text \<open>A request changes only from pending to an answer.\<close>

definition answers :: "(exchange \<Rightarrow> exchange) \<Rightarrow> exchange \<Rightarrow> bool" where
  "answers f r \<longleftrightarrow> f r = r \<or> er_status r = EX_PENDING \<and> er_status (f r) \<noteq> EX_PENDING \<and>
     request_core (f r) = request_core r"

lemma request_core_parts:
  "request_core r' = request_core r \<Longrightarrow> er_id r' = er_id r \<and> er_requester_booking r' = er_requester_booking r \<and>
     er_responder_booking r' = er_responder_booking r \<and> er_offered r' = er_offered r \<and> er_requested r' = er_requested r"
  by (cases r; cases r') (simp add: request_core_def)

lemma same_holdings_refl: "same_holdings db db"
  by (simp add: same_holdings_def)

lemma same_holdings_trans: "same_holdings a b \<Longrightarrow> same_holdings b c \<Longrightarrow> same_holdings a c"
  by (simp add: same_holdings_def)

lemma requests_follow_refl: "requests_follow db db"
  by (auto simp: requests_follow_def)

lemma requests_follow_trans:
  assumes "requests_follow a b" "requests_follow b c"
  shows "requests_follow a c"
  unfolding requests_follow_def
proof (rule ballI)
  fix r assume "r \<in> set (ex_requests a)"
  from bspec [OF assms(1) [unfolded requests_follow_def] this]
  obtain r1 where r1: "r1 \<in> set (ex_requests b)" "request_core r1 = request_core r" "er_status r \<noteq> EX_PENDING \<longrightarrow> r1 = r"
    by blast
  from bspec [OF assms(2) [unfolded requests_follow_def] r1(1)]
  obtain r2 where "r2 \<in> set (ex_requests c)" "request_core r2 = request_core r1" "er_status r1 \<noteq> EX_PENDING \<longrightarrow> r2 = r1"
    by blast
  then show "\<exists>r'\<in>set (ex_requests c). request_core r' = request_core r \<and> (er_status r \<noteq> EX_PENDING \<longrightarrow> r' = r)"
    using r1 by auto
qed

text \<open>Everything a step has to keep, gathered so that it composes.\<close>

definition exchange_kept :: "exchange_db \<Rightarrow> exchange_db \<Rightarrow> bool" where
  "exchange_kept db db' \<longleftrightarrow> (exchange_wf db \<longrightarrow> exchange_wf db' \<and> same_holdings db db' \<and> requests_follow db db')"

lemma exchange_kept_refl: "exchange_kept db db"
  by (simp add: exchange_kept_def same_holdings_refl requests_follow_refl)

lemma exchange_kept_trans: "exchange_kept a b \<Longrightarrow> exchange_kept b c \<Longrightarrow> exchange_kept a c"
  unfolding exchange_kept_def using same_holdings_trans requests_follow_trans by blast

lemma table_views [simp]:
  "daily_slots (db\<lparr>ex_requests := rs\<rparr>) = daily_slots (db :: 'z exchange_db_scheme)"
  "slot_equipment (db\<lparr>ex_requests := rs\<rparr>) = slot_equipment db"
  "names_slots (db\<lparr>ex_requests := rs\<rparr>) = names_slots db"
  "exchange_ok (db\<lparr>ex_requests := rs\<rparr>) = exchange_ok db"
  "on_equipment (db\<lparr>ex_requests := rs\<rparr>) = on_equipment db"
  by (auto simp: fun_eq_iff daily_slots_def slot_equipment_def names_slots_def exchange_ok_def on_equipment_def)

lemma answered_ok: "answers f r \<Longrightarrow> exchange_ok db r \<Longrightarrow> exchange_ok db (f r)"
  by (auto simp: answers_def exchange_ok_def)

lemma answers_kept:
  assumes "\<And>r. r \<in> set (ex_requests db) \<Longrightarrow> answers f r"
  shows "exchange_kept db (db\<lparr>ex_requests := map f (ex_requests db)\<rparr>)"
proof -
  have core: "request_core (f r) = request_core r" if "r \<in> set (ex_requests db)" for r
    using assms [OF that] by (auto simp: answers_def)
  have "er_id (f r) = er_id r" if "r \<in> set (ex_requests db)" for r
    using request_core_parts [OF core [OF that]] by blast
  then have "map er_id (map f (ex_requests db)) = map er_id (ex_requests db)" by simp
  then have "unique_keys er_id (map f (ex_requests db)) = unique_keys er_id (ex_requests db)"
    by (simp only: unique_keys_def)
  moreover have "list_all (exchange_ok db) (map f (ex_requests db))" if "list_all (exchange_ok db) (ex_requests db)"
    using that assms by (simp add: list_all_iff answered_ok)
  moreover have "requests_follow db (db\<lparr>ex_requests := map f (ex_requests db)\<rparr>)"
    unfolding requests_follow_def
  proof
    fix r assume "r \<in> set (ex_requests db)"
    moreover from assms [OF this] have "request_core (f r) = request_core r \<and> (er_status r \<noteq> EX_PENDING \<longrightarrow> f r = r)"
      by (auto simp: answers_def)
    ultimately show "\<exists>r'\<in>set (ex_requests (db\<lparr>ex_requests := map f (ex_requests db)\<rparr>)).
        request_core r' = request_core r \<and> (er_status r \<noteq> EX_PENDING \<longrightarrow> r' = r)" by auto
  qed
  ultimately show ?thesis
    by (simp add: exchange_kept_def exchange_wf_def same_holdings_def)
qed

lemma expire_kept: "exchange_kept db (expire_stale now P db)"
  unfolding expire_stale_def by (rule answers_kept) (simp add: answers_def request_core_def)

lemma save_exchange_kept:
  assumes "exchange_wf db \<Longrightarrow> r \<in> set (ex_requests db) \<and> answers (\<lambda>_. r') r \<and> er_id r' = er_id r"
  shows "exchange_kept db (save_exchange r' db)"
proof (cases "exchange_wf db")
  case True
  then have unique: "unique_keys er_id (ex_requests db)" by (simp add: exchange_wf_def)
  show ?thesis
    unfolding save_exchange_def update_row_def
  proof (rule answers_kept)
    fix x assume x: "x \<in> set (ex_requests db)"
    have "x = r" if "er_id x = er_id r'"
      using that x assms [OF True] unique by (auto simp: unique_keys_def distinct_map inj_on_def)
    then show "answers (\<lambda>x. if er_id x = er_id r' then r' else x) x"
      using assms [OF True] by (auto simp: answers_def)
  qed
qed (simp add: exchange_kept_def)

lemma append_request_kept:
  assumes "exchange_ok db r" "er_id r = fresh_pk er_id (ex_requests db)"
  shows "exchange_kept db (db\<lparr>ex_requests := ex_requests db @ [r]\<rparr>)"
proof -
  have "unique_keys er_id (ex_requests db @ [r])" if "unique_keys er_id (ex_requests db)"
    using that fresh_pk_notin [of er_id "ex_requests db"] assms(2) by (intro unique_keys_append) simp_all
  moreover have "requests_follow db (db\<lparr>ex_requests := ex_requests db @ [r]\<rparr>)"
    by (auto simp: requests_follow_def)
  ultimately show ?thesis
    using assms(1) by (simp add: exchange_kept_def exchange_wf_def same_holdings_def)
qed

subsection \<open>The swap keeps the books\<close>

lemma plan_bookings_differ:
  assumes "unique_keys bo_id (bd_bookings db)" "plan_exchange info u is js now db = Inr plan"
  shows "bo_id (pl_mine plan) \<noteq> bo_id (pl_theirs plan)"
proof
  assume "bo_id (pl_mine plan) = bo_id (pl_theirs plan)"
  then have "pl_mine plan = pl_theirs plan"
    using assms(1) chosen_slotsD(9,10) [OF plan_exchangeD(1) [OF assms(2)]]
    by (auto simp: unique_keys_def distinct_map dest: inj_onD)
  then show False using plan_exchangeD(2,3) [OF assms(2)] by simp
qed

lemma plan_ids:
  assumes "unique_keys ds_id (sl_slots db)" "plan_exchange info u is js now db = Inr plan"
  shows "ds_id ` set (pl_offered plan) = set is" "ds_id ` set (pl_requested plan) = set js"
  using chosen_slotsD(1-4) [OF plan_exchangeD(1) [OF assms(2)]] chosen_ids [OF assms(1)] by simp_all

lemma plan_owners:
  assumes "plan_exchange info u is js now db = Inr plan" "s \<in> set (sl_slots db)"
  shows "ds_id s \<in> set is \<Longrightarrow> ds_booking s = Some (bo_id (pl_mine plan))"
    "ds_id s \<in> set js \<Longrightarrow> ds_booking s = Some (bo_id (pl_theirs plan))"
  using chosen_slotsD(1,2,11,12) [OF plan_exchangeD(1) [OF assms(1)]] assms(2) by (simp_all add: set_slots_by_id)

lemma plan_swaps:
  assumes "unique_keys ds_id (sl_slots db)" "plan_exchange info u is js now db = Inr plan"
  shows "sl_slots (swap now plan db) = map (swapped is (bo_id (pl_mine plan)) js (bo_id (pl_theirs plan))) (sl_slots db)"
  using swap_slots [of plan now db] chosen_slotsD(7) [OF plan_exchangeD(1) [OF assms(2)]]
  by (simp add: plan_ids [OF assms] swapped_def [abs_def])

lemma plan_holdings:
  assumes "unique_keys ds_id (sl_slots db)" "unique_keys bo_id (bd_bookings db)"
    and plan: "plan_exchange info u is js now db = Inr plan"
  shows "mset (map slot_minutes (daily_slots (swap now plan db) b)) = mset (map slot_minutes (daily_slots db b))"
proof -
  note chosen = chosen_slotsD [OF plan_exchangeD(1) [OF plan]]
  have "mset (map slot_minutes (slots_by_id is db)) = mset (map slot_minutes (slots_by_id js db))"
    using plan_fair [OF plan] chosen(1,2) by (simp add: fair_exchange_def)
  then show ?thesis
    unfolding daily_slots_def plan_swaps [OF assms(1) plan] mset_slots_by_id
    by (intro swapped_holdings plan_owners [OF plan] chosen(7) plan_bookings_differ [OF assms(2) plan]) auto
qed

lemma plan_on_equipment:
  assumes "unique_keys ds_id (sl_slots db)" "unique_keys bo_id (bd_bookings db)" "on_equipment db"
    and plan: "plan_exchange info u is js now db = Inr plan"
  shows "on_equipment (swap now plan db)"
  unfolding on_equipment_def
proof (intro ballI)
  let ?m = "pl_mine plan" and ?t = "pl_theirs plan" and ?db = "swap now plan db"
  note chosen = chosen_slotsD [OF plan_exchangeD(1) [OF plan]]
  fix b' s' assume b': "b' \<in> set (bd_bookings ?db)" and s': "s' \<in> set (daily_slots ?db (bo_id b'))"
  obtain b where b: "b \<in> set (bd_bookings db)" "bo_id b' = bo_id b"
    "bo_equipment b' = (case pl_moves plan of None \<Rightarrow> bo_equipment b
     | Some ((t, _), (u, _)) \<Rightarrow> if bo_id b = bo_id ?t then eq_id u
         else if bo_id b = bo_id ?m then eq_id t else bo_equipment b)"
    using swap_booking [OF b'] by metis
  obtain s where s: "s \<in> set (sl_slots db)" "s' = swapped is (bo_id ?m) js (bo_id ?t) s" "ds_booking s' = Some (bo_id b)"
    using s' b(2) plan_swaps [OF assms(1) plan] by (auto simp: daily_slots_def)
  have differ: "bo_id ?m \<noteq> bo_id ?t" by (rule plan_bookings_differ [OF assms(2) plan])
  have row: "b = x" if "x \<in> set (bd_bookings db)" "bo_id b = bo_id x" for x
    using that b(1) assms(2) by (auto simp: unique_keys_def distinct_map dest: inj_onD)
  have place: "slot_equipment db s = Some (bo_equipment x)" if "x \<in> set (bd_bookings db)" "ds_booking s = Some (bo_id x)" for x
    using assms(3) that s(1) by (simp add: on_equipment_def daily_slots_def)
  have same: "slot_equipment ?db s' = slot_equipment db s" using s(2) by (simp add: slot_equipment_def)
  have owner: "ds_id s \<in> set is \<Longrightarrow> b = ?t \<and> slot_equipment db s = Some (bo_equipment ?m)"
    "ds_id s \<notin> set is \<Longrightarrow> ds_id s \<in> set js \<Longrightarrow> b = ?m \<and> slot_equipment db s = Some (bo_equipment ?t)"
    "ds_id s \<notin> set is \<Longrightarrow> ds_id s \<notin> set js \<Longrightarrow> ds_booking s = Some (bo_id b)"
    using s(2,3) row chosen(9,10) place plan_owners [OF plan s(1)] by (simp_all add: swapped_def)
  show "slot_equipment ?db s' = Some (bo_equipment b')"
  proof (cases "pl_moves plan")
    case None
    then have "bo_equipment ?m = bo_equipment ?t" using plan_exchangeD(4) [OF plan] by simp
    then show ?thesis
      using owner place [OF b(1)] b(3) None unfolding same by (cases "ds_id s \<in> set is"; cases "ds_id s \<in> set js") auto
  next
    case (Some moves)
    obtain e f where moves: "fst (fst moves) = f" "fst (snd moves) = e"
      "eq_id e = bo_equipment ?m" "eq_id f = bo_equipment ?t"
      and whole: "length (pl_offered plan) = length (daily_slots db (bo_id ?m))"
        "length (pl_requested plan) = length (daily_slots db (bo_id ?t))"
      using plan_exchangeD(5) [OF plan Some]
      by (auto simp: plan_cross_equipment_def result_simps booked_equipment_def split: option.splits dest!: row_of_SomeD)
    have "set (pl_offered plan) = set (daily_slots db (bo_id ?m))" "set (pl_requested plan) = set (daily_slots db (bo_id ?t))"
      using whole_booking [OF assms(1)] chosen(1,2,11,12) whole by metis+
    then have "(ds_booking s = Some (bo_id ?m) \<longrightarrow> ds_id s \<in> set is) \<and> (ds_booking s = Some (bo_id ?t) \<longrightarrow> ds_id s \<in> set js)"
      using s(1) plan_ids [OF assms(1) plan] by (auto simp: daily_slots_def)
    then have "b \<noteq> ?m \<and> b \<noteq> ?t" if "ds_id s \<notin> set is" "ds_id s \<notin> set js"
      using owner(3) that by auto
    then show ?thesis
      using owner place [OF b(1)] b(1,3) row chosen(9,10) differ moves unfolding same Some
      by (cases "ds_id s \<in> set is"; cases "ds_id s \<in> set js") (auto split: prod.splits)
  qed
qed

lemma plan_names:
  assumes "unique_keys ds_id (sl_slots db)" and plan: "plan_exchange info u is js now db = Inr plan"
    and "names_slots db ids b" "set ids \<inter> (set is \<union> set js) = {}"
  shows "names_slots (swap now plan db) ids b"
  unfolding names_slots_def plan_swaps [OF assms(1) plan]
proof (intro ballI)
  fix i assume i: "i \<in> set ids"
  then obtain s where "s \<in> set (sl_slots db)" "ds_id s = i" "ds_booking s = Some b"
    using assms(3) by (auto simp: names_slots_def)
  then show "\<exists>s\<in>set (map (swapped is (bo_id (pl_mine plan)) js (bo_id (pl_theirs plan))) (sl_slots db)).
      ds_id s = i \<and> ds_booking s = Some b"
    using i assms(4) by (auto simp: swapped_def intro!: bexI [of _ s])
qed

text \<open>The tables after a successful acceptance; the answered request and those closed with it.\<close>

definition accepted :: "timestamp \<Rightarrow> exchange \<Rightarrow> exchange \<Rightarrow> exchange" where
  "accepted now r x =
     (if er_id x = er_id r then r\<lparr>er_status := EX_ACCEPTED, er_responded := Some now\<rparr>
      else if er_status x = EX_PENDING \<and> list_ex (\<lambda>i. i \<in> set (er_offered r @ er_requested r)) (er_offered x @ er_requested x)
      then x\<lparr>er_status := EX_FAILED, er_failure := Some Exchanged_Elsewhere, er_responded := Some now\<rparr> else x)"

lemma accept_lockedD:
  fixes db :: exchange_db
  assumes "accept_locked info r now db = Inr (db', r')" "unique_keys er_id (ex_requests db)" "r \<in> set (ex_requests db)"
  obtains u plan where "er_status r = EX_PENDING" "row_of u_id (er_requester r) (bd_users db) = Some u"
    "plan_exchange info u (er_offered r) (er_requested r) now db = Inr plan"
    "bo_id (pl_mine plan) = er_requester_booking r" "bo_id (pl_theirs plan) = er_responder_booking r"
    "r' = r\<lparr>er_status := EX_ACCEPTED, er_responded := Some now\<rparr>"
    "db' = (swap now plan db)\<lparr>ex_requests := map (accepted now r) (ex_requests db)\<rparr>"
proof -
  have row: "row_of er_id (er_id r) (ex_requests db) = Some r" by (rule row_of_unique [OF assms(2,3)])
  obtain u plan where facts: "er_status r = EX_PENDING" "row_of u_id (er_requester r) (bd_users db) = Some u"
    "plan_exchange info u (er_offered r) (er_requested r) now db = Inr plan"
    "bo_id (pl_mine plan) = er_requester_booking r" "bo_id (pl_theirs plan) = er_responder_booking r"
    and result: "r' = r\<lparr>er_status := EX_ACCEPTED, er_responded := Some now\<rparr>"
    "db' = close_overlapping r' now (save_exchange r' (swap now plan db))"
    using assms(1) by (auto simp: accept_locked_def row result_simps Let_def split: option.splits)
  have "map (accepted now r) (ex_requests db) = map (\<lambda>x. if er_status x = EX_PENDING \<and> er_id x \<noteq> er_id r' \<and>
      list_ex (\<lambda>i. i \<in> set (er_offered r' @ er_requested r')) (er_offered x @ er_requested x)
      then x\<lparr>er_status := EX_FAILED, er_failure := Some Exchanged_Elsewhere, er_responded := Some now\<rparr> else x)
      (update_row er_id (er_id r') (\<lambda>_. r') (ex_requests db))"
    by (auto simp: update_row_def accepted_def result(1))
  then have "db' = (swap now plan db)\<lparr>ex_requests := map (accepted now r) (ex_requests db)\<rparr>"
    unfolding result(2) close_overlapping_def save_exchange_def Let_def by simp
  with facts result(1) show thesis by (rule that)
qed

lemma swap_views [simp]:
  "booking_core ` set (bd_bookings (swap now plan db)) = booking_core ` set (bd_bookings db)"
  "names_slots (db\<lparr>ex_requests := rs\<rparr>) ids b = names_slots (db :: exchange_db) ids b"
  by (metis set_map swap_booking_core) (simp add: names_slots_def)

lemma accepted_answers: "x \<in> set rows \<Longrightarrow> unique_keys er_id rows \<Longrightarrow> r \<in> set rows \<Longrightarrow> er_status r = EX_PENDING \<Longrightarrow>
   answers (accepted now r) x"
  by (auto simp: answers_def accepted_def request_core_def unique_keys_def distinct_map dest: inj_onD)

lemma accept_locked_kept:
  fixes db :: exchange_db
  assumes accept: "accept_locked info r now db = Inr (db', r')" and r: "r \<in> set (ex_requests db)"
  shows "exchange_kept db db'"
  unfolding exchange_kept_def
proof
  assume wf: "exchange_wf db"
  then have keys: "unique_keys ds_id (sl_slots db)" "unique_keys bo_id (bd_bookings db)" "unique_keys er_id (ex_requests db)"
    and place: "on_equipment db" and ok: "list_all (exchange_ok db) (ex_requests db)"
    by (simp_all add: exchange_wf_def)
  obtain u plan where pending: "er_status r = EX_PENDING"
    and plan: "plan_exchange info u (er_offered r) (er_requested r) now db = Inr plan"
    and db': "db' = (swap now plan db)\<lparr>ex_requests := map (accepted now r) (ex_requests db)\<rparr>"
    using accept_lockedD [OF accept keys(3) r] by metis
  let ?swapped = "swap now plan db"
  have slots: "map ds_id (sl_slots ?swapped) = map ds_id (sl_slots db)"
    unfolding plan_swaps [OF keys(1) plan] by simp
  have "map bo_id (bd_bookings ?swapped) = map bo_id (bd_bookings db)"
    using arg_cong [OF swap_booking_core [of now plan db], of "map bo_id"] by (simp add: booking_core_def comp_def)
  moreover have "exchange_ok ?swapped (accepted now r x)" if "x \<in> set (ex_requests db)" for x
    using that ok plan_names [OF keys(1) plan] unfolding accepted_def
    by (auto simp: exchange_ok_def list_all_iff list_ex_iff)
  moreover have answers: "answers (accepted now r) x" if "x \<in> set (ex_requests db)" for x
    by (rule accepted_answers [OF that keys(3) r pending])
  moreover have "exchange_wf (db\<lparr>ex_requests := map (accepted now r) (ex_requests db)\<rparr>)"
    "requests_follow db (db\<lparr>ex_requests := map (accepted now r) (ex_requests db)\<rparr>)"
    using answers_kept [of db "accepted now r"] answers wf by (simp_all add: exchange_kept_def)
  ultimately have "exchange_wf db'"
    using keys slots plan_on_equipment [OF keys(1,2) place plan]
    by (simp add: exchange_wf_def db' unique_keys_def list_all_iff)
  moreover have "same_holdings db db'"
    using plan_holdings [OF keys(1,2) plan] swap_booking_core [of now plan db] unfolding same_holdings_def db'
    by (simp add: plan_swaps [OF keys(1) plan])
  moreover have "requests_follow db db'"
    using \<open>requests_follow db (db\<lparr>ex_requests := map (accepted now r) (ex_requests db)\<rparr>)\<close>
    by (simp add: requests_follow_def db')
  ultimately show "exchange_wf db' \<and> same_holdings db db' \<and> requests_follow db db'" by blast
qed

subsection \<open>Every operation\<close>

lemma expire_row:
  "row_of er_id i (ex_requests (expire_stale now (\<lambda>x. er_id x = i) db)) = map_option
     (\<lambda>r. if er_status r = EX_PENDING \<and> er_expires r \<le> now then r\<lparr>er_status := EX_EXPIRED, er_responded := Some now\<rparr> else r)
     (row_of er_id i (ex_requests db))"
proof -
  have "row_of er_id i (map (\<lambda>r. if er_id r = i \<and> er_status r = EX_PENDING \<and> er_expires r \<le> now
      then r\<lparr>er_status := EX_EXPIRED, er_responded := Some now\<rparr> else r) rows) = map_option
     (\<lambda>r. if er_status r = EX_PENDING \<and> er_expires r \<le> now then r\<lparr>er_status := EX_EXPIRED, er_responded := Some now\<rparr> else r)
     (row_of er_id i rows)" for rows
    by (induction rows) auto
  then show ?thesis by (simp add: expire_stale_def)
qed

lemma pending_for_kept: "exchange_kept db (fst (pending_for clock i user role db))"
  by (auto simp: pending_for_def Let_def exchange_kept_refl expire_kept split: option.split)

lemma pending_for_Inr:
  assumes "pending_for clock i user role db = (db1, Inr r)"
  shows "db1 = expire_stale clock (\<lambda>x. er_id x = i) db" "row_of er_id i (ex_requests db) = Some r"
    "r \<in> set (ex_requests db1)" "er_id r = i" "er_status r = EX_PENDING" "role r = u_id user" "clock < er_expires r"
proof -
  obtain r0 where r0: "row_of er_id i (ex_requests db) = Some r0" "role r0 = u_id user"
    and db1: "db1 = expire_stale clock (\<lambda>x. er_id x = i) db"
    and row: "row_of er_id i (ex_requests db1) = Some r" "er_status r = EX_PENDING"
    using assms by (auto simp: pending_for_def Let_def split: option.splits if_splits)
  then have "r = r0 \<and> clock < er_expires r" by (auto simp: expire_row split: if_splits)
  with r0 db1 row show "db1 = expire_stale clock (\<lambda>x. er_id x = i) db" "row_of er_id i (ex_requests db) = Some r"
    "r \<in> set (ex_requests db1)" "er_id r = i" "er_status r = EX_PENDING" "role r = u_id user" "clock < er_expires r"
    by (auto dest: row_of_SomeD)
qed

lemma answer_request_kept:
  assumes "\<And>r. er_status r = EX_PENDING \<Longrightarrow> er_status (change r) \<noteq> EX_PENDING \<and> request_core (change r) = request_core r"
  shows "exchange_kept db (fst (answer_request role change i user clock db))"
proof (cases "pending_for clock i user role db")
  case (Pair db1 res)
  have before: "exchange_kept db db1" using pending_for_kept [of db clock i user role] by (simp add: Pair)
  show ?thesis
  proof (cases res)
    case (Inr r)
    note r = pending_for_Inr [OF Pair [unfolded Inr]]
    have "exchange_kept db1 (save_exchange (change r) db1)"
      by (rule save_exchange_kept [of db1 r])
        (use r assms [OF r(5)] request_core_parts [of "change r" r] in \<open>auto simp: answers_def\<close>)
    with before show ?thesis by (simp add: answer_request_def Pair Inr exchange_kept_trans)
  qed (simp add: answer_request_def Pair before)
qed

lemma accept_request_kept: "exchange_kept db (fst (accept_request info i user now clock db))"
proof (cases "pending_for clock i user er_responder db")
  case (Pair db1 res)
  have before: "exchange_kept db db1" using pending_for_kept [of db clock i user er_responder] by (simp add: Pair)
  show ?thesis
  proof (cases res)
    case (Inr r)
    note r = pending_for_Inr [OF Pair [unfolded Inr]]
    show ?thesis
    proof (cases "accept_locked info r now db1")
      case (Inl e)
      have "exchange_kept db1 (db1\<lparr>ex_requests := map (\<lambda>x. if er_id x = er_id r \<and> er_status x = EX_PENDING
          then x\<lparr>er_status := EX_FAILED, er_failure := Some (Not_Possible e), er_responded := Some now\<rparr> else x)
          (ex_requests db1)\<rparr>)"
        by (rule answers_kept) (simp add: answers_def request_core_def)
      with before show ?thesis
        by (auto simp: accept_request_def Pair Inr Inl exchange_kept_refl intro: exchange_kept_trans)
    next
      case (Inr answered)
      then show ?thesis
        using before accept_locked_kept [of info r now db1 "fst answered" "snd answered"] r(3)
        by (auto simp: accept_request_def Pair \<open>res = Inr r\<close> intro: exchange_kept_trans split: prod.split)
    qed
  qed (simp add: accept_request_def Pair before)
qed

lemma new_request_ok:
  assumes "unique_keys ds_id (sl_slots db)" "unique_keys bo_id (bd_bookings db)"
    and plan: "plan_exchange info u is js now db = Inr plan"
  shows "exchange_ok db (new_request u plan message expires db')"
  using plan_bookings_differ [OF assms(2) plan] chosen_slotsD(1,2,11,12) [OF plan_exchangeD(1) [OF plan]]
  by (auto simp: exchange_ok_def new_request_def names_slots_def set_slots_by_id)

lemma create_exchange_kept: "exchange_kept db (fst (create_exchange info u is js message now db))"
proof (cases "plan_exchange info u is js now db")
  case (Inr plan)
  let ?db = "expire_stale now (\<lambda>_. True) db"
  have same: "exchange_ok ?db = exchange_ok db" by (simp add: expire_stale_def)
  have "exchange_kept db (?db\<lparr>ex_requests := ex_requests ?db @ [new_request u plan (strip message) expires ?db]\<rparr>)" for expires
  proof (cases "exchange_wf db")
    case True
    then have "exchange_ok ?db (new_request u plan (strip message) expires ?db)"
      unfolding same by (intro new_request_ok [OF _ _ Inr]) (simp_all add: exchange_wf_def)
    then have "exchange_kept ?db (?db\<lparr>ex_requests := ex_requests ?db @ [new_request u plan (strip message) expires ?db]\<rparr>)"
      by (rule append_request_kept) (simp add: new_request_def)
    then show ?thesis by (rule exchange_kept_trans [OF expire_kept])
  qed (simp add: exchange_kept_def)
  then show ?thesis
    by (auto simp: create_exchange_def Inr Let_def exchange_kept_refl expire_kept split: option.split)
qed (auto simp: create_exchange_def exchange_kept_refl)

inductive exchange_step :: "exchange_db \<Rightarrow> exchange_db \<Rightarrow> bool" where
  Ask: "exchange_step db (fst (create_exchange info u is js message now db))"
| Accept: "exchange_step db (fst (accept_request info i u now clock db))"
| Decline: "exchange_step db (fst (decline_request i u note now clock db))"
| Cancel: "exchange_step db (fst (cancel_request i u now clock db))"
| List: "exchange_step db (fst (list_requests u now db))"

lemma exchange_step_kept: "exchange_step db db' \<Longrightarrow> exchange_kept db db'"
proof (induction rule: exchange_step.induct)
  case (Decline db i u words now clock)
  show ?case unfolding decline_request_def by (rule answer_request_kept) (simp add: request_core_def)
next
  case (Cancel db i u now clock)
  show ?case unfolding cancel_request_def by (rule answer_request_kept) (simp add: request_core_def)
qed (simp_all add: create_exchange_kept accept_request_kept list_requests_def Let_def expire_kept)

interpretation exchanges: machine exchange_step "\<lambda>db. exchange_wf db \<and> same_holdings start db \<and> requests_follow start db"
  for start
proof
  fix db db' assume "exchange_wf db \<and> same_holdings start db \<and> requests_follow start db" "exchange_step db db'"
  then show "exchange_wf db' \<and> same_holdings start db' \<and> requests_follow start db'"
    using exchange_step_kept [of db db'] unfolding exchange_kept_def
    using same_holdings_trans requests_follow_trans by blast
qed


lemma reads_no_requests [simp]:
  fixes db :: exchange_db
  shows "booker (db\<lparr>ex_requests := rs\<rparr>) = booker db" "booked_equipment (db\<lparr>ex_requests := rs\<rparr>) = booked_equipment db"
    "booking_is_internal (db\<lparr>ex_requests := rs\<rparr>) = booking_is_internal db"
    "sample_accepted_by_lab (db\<lparr>ex_requests := rs\<rparr>) = sample_accepted_by_lab db"
    "slots_by_id ids (db\<lparr>ex_requests := rs\<rparr>) = slots_by_id ids db"
  by (auto simp: fun_eq_iff booker_def booked_equipment_def booking_is_internal_def sample_accepted_by_lab_def
      slots_by_id_def split: option.split)

lemma plan_reads_no_requests [simp]:
  fixes db :: exchange_db
  shows "fair_exchange now (db\<lparr>ex_requests := rs\<rparr>) = fair_exchange now db"
    "chosen_slots u is js (db\<lparr>ex_requests := rs\<rparr>) = chosen_slots u is js db"
    "booking_problem now w (db\<lparr>ex_requests := rs\<rparr>) = booking_problem now w db"
    "plan_cross_equipment info u m t c n (db\<lparr>ex_requests := rs\<rparr>) = plan_cross_equipment info u m t c n db"
    "plan_exchange info u is js now (db\<lparr>ex_requests := rs\<rparr>) = plan_exchange info u is js now db"
proof -
  have rows: "bd_bookings (db\<lparr>ex_requests := rs\<rparr>) = bd_bookings db" "sl_slots (db\<lparr>ex_requests := rs\<rparr>) = sl_slots db"
    by simp_all
  show a: "chosen_slots u is js (db\<lparr>ex_requests := rs\<rparr>) = chosen_slots u is js db"
    unfolding chosen_slots_def reads_no_requests rows by (rule refl)
  show b: "booking_problem now w (db\<lparr>ex_requests := rs\<rparr>) = booking_problem now w db" for w
    unfolding booking_problem_def reads_no_requests table_views by (rule refl)
  show c: "plan_cross_equipment info u m t c n (db\<lparr>ex_requests := rs\<rparr>) = plan_cross_equipment info u m t c n db"
    for m t c n unfolding plan_cross_equipment_def reads_no_requests by (rule refl)
  show "plan_exchange info u is js now (db\<lparr>ex_requests := rs\<rparr>) = plan_exchange info u is js now db"
    unfolding plan_exchange_def a b c reads_no_requests table_views by (rule refl)
  show "fair_exchange now (db\<lparr>ex_requests := rs\<rparr>) = fair_exchange now db"
    unfolding fair_exchange_def reads_no_requests table_views by (rule refl)
qed

lemma accept_requestD:
  fixes db :: exchange_db
  assumes wf: "exchange_wf db" and accept: "accept_request info i u now clock db = (db', Inr r)"
  obtains r0 v plan db1 where "r0 \<in> set (ex_requests db)" "er_id r0 = i" "er_status r0 = EX_PENDING"
    "er_responder r0 = u_id u" "clock < er_expires r0" "r = r0\<lparr>er_status := EX_ACCEPTED, er_responded := Some now\<rparr>"
    "plan_exchange info v (er_offered r) (er_requested r) now db = Inr plan" "er_requester r = u_id v"
    "bo_id (pl_mine plan) = er_requester_booking r" "bo_id (pl_theirs plan) = er_responder_booking r"
    "db' = (swap now plan db1)\<lparr>ex_requests := map (accepted now r0) (ex_requests db1)\<rparr>"
    "sl_slots db1 = sl_slots db"
proof (cases "pending_for clock i u er_responder db")
  case (Pair db1 res)
  obtain r0 where r0: "res = Inr r0" and locked: "accept_locked info r0 now db1 = Inr (db', r)"
    using accept by (auto simp: accept_request_def Pair split: sum.splits if_splits)
  note pending = pending_for_Inr [OF Pair [unfolded r0]]
  have "unique_keys er_id (ex_requests db1)"
    using expire_kept [of db clock "\<lambda>x. er_id x = i"] wf unfolding pending(1) exchange_kept_def exchange_wf_def by blast
  from accept_lockedD [OF locked this pending(3)] obtain v plan where plan:
    "row_of u_id (er_requester r0) (bd_users db1) = Some v"
    "plan_exchange info v (er_offered r0) (er_requested r0) now db1 = Inr plan"
    "bo_id (pl_mine plan) = er_requester_booking r0" "bo_id (pl_theirs plan) = er_responder_booking r0"
    "r = r0\<lparr>er_status := EX_ACCEPTED, er_responded := Some now\<rparr>"
    "db' = (swap now plan db1)\<lparr>ex_requests := map (accepted now r0) (ex_requests db1)\<rparr>" by metis
  show thesis
  proof (rule that)
    show "r0 \<in> set (ex_requests db)" using pending(2) by (auto dest: row_of_SomeD)
    show "plan_exchange info v (er_offered r) (er_requested r) now db = Inr plan"
      using plan(2) by (simp add: plan(5) pending(1) expire_stale_def)
    show "er_requester r = u_id v" using plan(1,5) by (auto dest: row_of_SomeD)
    show "sl_slots db1 = sl_slots db" by (simp add: pending(1) expire_stale_def)
  qed (use pending plan in simp_all)
qed


lemma chosen_slots_sets:
  assumes "set is' = set is" "set js' = set js"
  shows "chosen_slots u is' js' db = chosen_slots u is js db"
proof -
  have "slots_by_id is' db = slots_by_id is db" "slots_by_id js' db = slots_by_id js db"
    by (simp_all add: slots_by_id_def assms)
  moreover have "is' = [] \<longleftrightarrow> is = []" "js' = [] \<longleftrightarrow> js = []" "length (remdups is') = length (remdups is)"
    "length (remdups js') = length (remdups js)"
    "list_ex (\<lambda>i. i \<in> set js') is' = list_ex (\<lambda>i. i \<in> set js) is"
    using assms by (auto simp: length_remdups_card_conv list_ex_iff)
  ultimately show ?thesis unfolding chosen_slots_def by simp
qed

lemma plan_later:
  assumes plan: "plan_exchange info u is js t0 db = Inr plan"
    and sets: "set is' = set is" "set js' = set js"
    and time: "expires_at plan = Some t" "t1 < t"
      "\<And>s. s \<in> set (sl_slots db) \<Longrightarrow> ds_booking s = Some (bo_id (pl_mine plan)) \<or> ds_booking s = Some (bo_id (pl_theirs plan)) \<Longrightarrow> t1 < ds_start s"
  shows "plan_exchange info u is' js' t1 db = Inr plan"
proof -
  have "list_all (\<lambda>s. t1 < ds_start s) (daily_slots db (bo_id (pl_mine plan)))"
    "list_all (\<lambda>s. t1 < ds_start s) (daily_slots db (bo_id (pl_theirs plan)))"
    using time(3) by (auto simp: list_all_iff daily_slots_def)
  moreover have "booking_problem t0 w db b = Inr () \<Longrightarrow> list_all (\<lambda>s. t1 < ds_start s) (daily_slots db (bo_id b)) \<Longrightarrow>
      booking_problem t1 w db b = Inr ()" for w b
    by (simp add: booking_problem_ok)
  moreover obtain moves where "plan = \<lparr>pl_mine = pl_mine plan, pl_theirs = pl_theirs plan, pl_offered = pl_offered plan,
      pl_requested = pl_requested plan, pl_moves = moves\<rparr>" by (metis exchange_plan.surjective exchange_plan.cases unit.exhaust)
  ultimately show ?thesis
    using plan time(1,2) unfolding plan_exchange_def chosen_slots_sets [OF sets] plan_exchangeD(1) [OF plan]
    by (cases "bo_equipment (pl_mine plan) = bo_equipment (pl_theirs plan)") (auto simp: result_simps Let_def)
qed

lemma create_requestD:
  assumes "create_exchange info u is js message now db = (db', Inr r)"
  obtains plan expires where "plan_exchange info u is js now db = Inr plan" "expires_at plan = Some expires"
    "r = new_request u plan (strip message) expires (expire_stale now (\<lambda>_. True) db)"
    "db' = expire_stale now (\<lambda>_. True) db\<lparr>ex_requests := ex_requests (expire_stale now (\<lambda>_. True) db) @ [r]\<rparr>"
  using assms by (auto simp: create_exchange_def Let_def split: if_splits sum.splits option.splits)


text \<open>
  Alice holds two slots of a microscope, Bob one; Bob asks for Alice's second slot and she accepts.
\<close>

definition exchange_demo :: exchange_db where
  "exchange_demo =
     \<lparr>sl_masters = [\<lparr>sm_id = 1, sm_equipment = Some 5, sm_number = 1, sm_name = [], sm_open = 36000, sm_close = 39600, sm_active = True\<rparr>,
        \<lparr>sm_id = 2, sm_equipment = Some 5, sm_number = 2, sm_name = [], sm_open = 39600, sm_close = 43200, sm_active = True\<rparr>],
      sl_slots = map (\<lambda>(i, m, d, b). \<lparr>ds_id = i, ds_master = m, ds_date = int d, ds_start = local_instant (int d) (if m = 1 then 36000 else 39600),
          ds_end = local_instant (int d) (if m = 1 then 39600 else 43200), ds_status = SL_BOOKED, ds_label = None,
          ds_reference = None, ds_booking = Some b, ds_released = None\<rparr>) [(1, 1, 3, 10), (2, 2, 3, 10), (3, 1, 4, 11)],
      sl_holidays = [], sl_rules = [], sl_links = [], sl_ranges = Map.empty,
      bd_users = map (\<lambda>i. \<lparr>u_id = i, u_name = ''student'', u_email = ''s@x.in'', u_type = Some STUDENT, u_is_active = True,
          u_department = None, u_joining_date = None, u_force_inactive = False, u_degree = None, u_is_superuser = False\<rparr>) [1, 2],
      bd_bookings = map (\<lambda>(b, u, c). \<lparr>bo_id = b, bo_user = u, bo_equipment = 5, bo_profile = 1, bo_user_type = Some STUDENT,
          bo_charge = c, bo_inputs = [], bo_status = BO_BOOKED, bo_source = None, bo_minutes = 60, bo_applied = 0, bo_due = 0,
          bo_pending = None, bo_deadline = None, bo_snapshot = None, bo_disrupted = False, bo_disruption = None, bo_release = None,
          bo_rejected = None, bo_rescheduled = None\<rparr>) [(10, 1, 20000), (11, 2, 10000)],
      bd_equipment = [\<lparr>eq_id = 5, eq_status = EQ_ACTIVE, eq_external_percent = 0, be_exchange = True, be_group = None,
          be_weekday = None, be_time = None, be_department = None, be_profile = None, be_duration = 60,
     be_tolerance = 0, be_threshold = 48\<rparr>],
      bd_traces = [(10, TR_SAMPLE_SENT)], ex_requests = []\<rparr>"

definition no_targets :: target_lookup where
  "no_targets = (\<lambda>_ _ _. \<lparr>ti_ok = False, ti_code = ''DIFFERENT_GROUP'', ti_charge_differs = False, ti_required_slots = 0,
     ti_drops_fields = False, ti_profile = None, ti_inputs = []\<rparr>)"

abbreviation alice :: user where "alice \<equiv> hd (bd_users exchange_demo)"
abbreviation bob :: user where "bob \<equiv> last (bd_users exchange_demo)"

abbreviation asked :: "exchange_db \<times> (exchange_error + exchange)" where
  "asked \<equiv> create_exchange no_targets bob [3] [2] ''Swap?'' 0 exchange_demo"

abbreviation swapped_demo :: "exchange_db \<times> (exchange_error + exchange)" where
  "swapped_demo \<equiv> accept_request no_targets 1 alice 9 9 (fst asked)"

lemma exchange_demo_wf: "exchange_wf exchange_demo"
  by code_simp

lemma asked_ok: "\<not> isl (snd asked)" "er_id (projr (snd asked)) = 1" "er_responder (projr (snd asked)) = 1"
  "er_expires (projr (snd asked)) = 278700" "er_requester_booking (projr (snd asked)) = 11"
  "er_responder_booking (projr (snd asked)) = 10"
  by code_simp+

lemma swapped_demo_ok: "\<not> isl (snd swapped_demo)" "map ds_booking (sl_slots (fst swapped_demo)) = [Some 10, Some 11, Some 10]"
  "er_offered (projr (snd swapped_demo)) = [3]" "er_requested (projr (snd swapped_demo)) = [2]"
  "er_requester_booking (projr (snd swapped_demo)) = 11" "er_responder_booking (projr (snd swapped_demo)) = 10"
  by code_simp+




end
