(* ===== verification/Booking_Windows.thy ===== *)
theory Booking_Windows
  imports Bookings "HOL-Library.Product_Lexorder"
begin

text \<open>
  When slots can be booked: the weekly opening of an equipment and the range of days it opens
  (\<^verbatim>\<open>equipment/api_views.py\<close>, \<^verbatim>\<open>equipment/external_slot_quota.py\<close>), the deadlines counted from it, and the
  peak window around the openings (\<^verbatim>\<open>equipment/peak_window.py\<close>). The caches of settings and schedules
  are not modelled: both are read as they are. A weekday is 0 for Monday to 6.
\<close>

subsection \<open>The weekly opening\<close>

type_synonym weekly_opening = "int \<times> time_of_day"

text \<open>The first row of the portal's own setting, if there is one.\<close>

type_synonym window_setting = "(int option \<times> time_of_day option) option"

definition internal_slot_window_setting :: "window_setting \<Rightarrow> weekly_opening option" where
  "internal_slot_window_setting setting = (case setting of Some (Some w, Some t) \<Rightarrow> Some (w, t) | _ \<Rightarrow> None)"

definition reference_config :: "window_setting \<Rightarrow> bookable \<Rightarrow> weekly_opening option" where
  "reference_config setting e = (case (be_weekday e, be_time e) of
     (Some w, Some t) \<Rightarrow> Some (w, t) | _ \<Rightarrow> internal_slot_window_setting setting)"

definition local_date :: "timestamp \<Rightarrow> day" where
  "local_date now = (now + zone_offset) div 86400"

definition local_time :: "timestamp \<Rightarrow> time_of_day" where
  "local_time now = (now + zone_offset) mod 86400"

definition week_monday :: "day \<Rightarrow> day" where
  "week_monday d = d - weekday d"

definition reference_of_week :: "timestamp \<Rightarrow> weekly_opening \<Rightarrow> timestamp" where
  "reference_of_week now op = local_instant (week_monday (local_date now) + fst op) (snd op)"

text \<open>The first day, the last day, and whether the opening of this week is still to come.\<close>

definition internal_window_bounds :: "window_setting \<Rightarrow> bookable \<Rightarrow> timestamp \<Rightarrow> (day \<times> day \<times> bool) option" where
  "internal_window_bounds setting e now = (case reference_config setting e of
     None \<Rightarrow> None
   | Some op \<Rightarrow> (let monday = week_monday (local_date now) in
       if now < reference_of_week now op then Some (monday, monday + 6, True) else Some (monday, monday + 13, False)))"

definition external_window_bounds :: "window_setting \<Rightarrow> bookable \<Rightarrow> timestamp \<Rightarrow> (day \<times> day \<times> bool) option" where
  "external_window_bounds setting e now = (case reference_config setting e of
     None \<Rightarrow> None
   | Some op \<Rightarrow> (let monday = week_monday (local_date now) in
       if now < reference_of_week now op then Some (monday + 7, monday + 7 + 6, True)
       else Some (monday + 7, monday + 14 + 6, False)))"

definition peak_waitlist_period :: "window_setting \<Rightarrow> bookable \<Rightarrow> timestamp \<Rightarrow> bool" where
  "peak_waitlist_period setting e now = (case reference_config setting e of
     None \<Rightarrow> False
   | Some op \<Rightarrow> reference_of_week now op \<le> now \<and> now < reference_of_week now op + 30 * 60)"

subsection \<open>Deadlines\<close>

definition next_opening :: "timestamp \<Rightarrow> weekly_opening \<Rightarrow> timestamp" where
  "next_opening now op =
     (let d = local_date now; ahead = (fst op - weekday d) mod 7;
          days_ahead = (if ahead = 0 \<and> snd op \<le> local_time now then 7 else ahead)
      in local_instant (d + days_ahead) (snd op))"

definition slot_window_deadline :: "window_setting \<Rightarrow> bookable \<Rightarrow> timestamp \<Rightarrow> timestamp option" where
  "slot_window_deadline setting e requested_at =
     map_option (\<lambda>op. next_opening requested_at op - 15 * 60) (reference_config setting e)"

definition disruption_choice_deadline :: "window_setting \<Rightarrow> bookable \<Rightarrow> timestamp \<Rightarrow> timestamp option" where
  "disruption_choice_deadline setting e requested_at =
     map_option (\<lambda>op. next_opening requested_at op + 3600) (reference_config setting e)"

definition effective_expiry :: "window_setting \<Rightarrow> bookable \<Rightarrow> timestamp option \<Rightarrow> int \<Rightarrow> timestamp option" where
  "effective_expiry setting e requested_at validity_days = (case requested_at of
     None \<Rightarrow> None
   | Some now \<Rightarrow> (let validity_end = now + validity_days * 86400 in
       case slot_window_deadline setting e now of None \<Rightarrow> Some validity_end
       | Some deadline \<Rightarrow> Some (min validity_end deadline)))"

subsection \<open>The peak window\<close>

record peak_settings =
  ps_enabled :: bool
  ps_lead :: int
  ps_trail :: int
  ps_block :: bool
  ps_notice :: int
  ps_defer :: bool

record peak_window =
  pw_opening :: timestamp
  pw_starts :: timestamp
  pw_ends :: timestamp

definition default_peak_settings :: peak_settings where
  "default_peak_settings = \<lparr>ps_enabled = True, ps_lead = 5, ps_trail = 15, ps_block = True, ps_notice = 30, ps_defer = True\<rparr>"

definition load_settings :: "peak_settings option \<Rightarrow> peak_settings" where
  "load_settings row = (case row of None \<Rightarrow> default_peak_settings | Some s \<Rightarrow> s)"

definition load_schedules :: "window_setting \<Rightarrow> bookable list \<Rightarrow> weekly_opening list" where
  "load_schedules setting rows =
     (let active = filter (\<lambda>e. eq_status e = EQ_ACTIVE) rows;
          own = (\<lambda>e. case (be_weekday e, be_time e) of (Some w, Some t) \<Rightarrow> Some (w, t) | _ \<Rightarrow> None);
          global = (if list_ex (\<lambda>e. own e = None) active
                    then (case internal_slot_window_setting setting of None \<Rightarrow> [] | Some op \<Rightarrow> [op]) else [])
      in sort (remdups (List.map_filter own active @ global)))"

definition window_contains :: "peak_window \<Rightarrow> timestamp \<Rightarrow> bool" where
  "window_contains w now = (pw_starts w \<le> now \<and> now < pw_ends w)"

definition window_of_opening :: "peak_settings \<Rightarrow> timestamp \<Rightarrow> peak_window" where
  "window_of_opening st opening =
     \<lparr>pw_opening = opening, pw_starts = opening - ps_lead st * 60, pw_ends = opening + ps_trail st * 60\<rparr>"

definition windows_around :: "timestamp \<Rightarrow> weekly_opening list \<Rightarrow> peak_settings \<Rightarrow> peak_window list" where
  "windows_around now schedules st =
     (let monday = week_monday (local_date now) in
      sort_key (\<lambda>w. (pw_starts w, pw_ends w)) (concat (map (\<lambda>(weekday, t).
        map (\<lambda>week. window_of_opening st (local_instant (monday + (7 * week + weekday)) t)) [-1, 0, 1]) schedules)))"

text \<open>
  One pass of the loop over the windows, with the flag that something has changed, and the loop
  until nothing changes.
\<close>

definition sticks_out :: "peak_window \<Rightarrow> timestamp \<times> timestamp \<Rightarrow> bool" where
  "sticks_out w r = (pw_starts w < snd r \<and> fst r < pw_ends w \<and> (pw_starts w < fst r \<or> snd r < pw_ends w))"

fun merge_pass :: "peak_window list \<Rightarrow> (timestamp \<times> timestamp) \<times> bool \<Rightarrow> (timestamp \<times> timestamp) \<times> bool" where
  "merge_pass [] s = s"
| "merge_pass (w # ws) (r, changed) = merge_pass ws
     (if sticks_out w r then ((min (fst r) (pw_starts w), max (snd r) (pw_ends w)), True) else (r, changed))"

definition inside :: "peak_window \<Rightarrow> timestamp \<times> timestamp \<Rightarrow> bool" where
  "inside w r = (fst r \<le> pw_starts w \<and> pw_ends w \<le> snd r)"

definition wider :: "timestamp \<times> timestamp \<Rightarrow> timestamp \<times> timestamp \<Rightarrow> bool" where
  "wider r r' = (fst r' \<le> fst r \<and> snd r \<le> snd r')"

lemma wider_refl [simp]: "wider r r"
  by (simp add: wider_def)

lemma wider_trans: "wider a b \<Longrightarrow> wider b c \<Longrightarrow> wider a c"
  by (simp add: wider_def)

lemma inside_wider: "inside w r \<Longrightarrow> wider r r' \<Longrightarrow> inside w r'"
  by (simp add: inside_def wider_def)

lemma merge_pass_wider: "wider r (fst (merge_pass ws (r, c)))"
proof (induction ws arbitrary: r c)
  case (Cons w ws)
  have "wider r (min (fst r) (pw_starts w), max (snd r) (pw_ends w))" by (simp add: wider_def)
  with Cons.IH show ?case by (auto intro: wider_trans)
qed simp

lemma merge_pass_changed:
  "snd (merge_pass ws (r, c)) \<Longrightarrow> \<not> c \<Longrightarrow> \<exists>w\<in>set ws. \<not> inside w r \<and> inside w (fst (merge_pass ws (r, c)))"
proof (induction ws arbitrary: r c)
  case (Cons w ws)
  show ?case
  proof (cases "sticks_out w r")
    case True
    let ?r = "(min (fst r) (pw_starts w), max (snd r) (pw_ends w))"
    have "\<not> inside w r" "inside w ?r" using True by (auto simp: sticks_out_def inside_def)
    then show ?thesis using True inside_wider [OF _ merge_pass_wider, of w ?r ws True] by auto
  next
    case False
    then show ?thesis using Cons by auto
  qed
qed simp

lemma length_filter_less_filter:
  "w \<in> set ws \<Longrightarrow> P w \<Longrightarrow> \<not> Q w \<Longrightarrow> (\<And>x. Q x \<Longrightarrow> P x) \<Longrightarrow> length (filter Q ws) < length (filter P ws)"
proof (induction ws)
  case (Cons x xs)
  have "length (filter Q xs) \<le> length (filter P xs)" using Cons.prems(4) by (induction xs) auto
  with Cons show ?case by auto
qed simp

function merge_loop :: "peak_window list \<Rightarrow> timestamp \<times> timestamp \<Rightarrow> timestamp \<times> timestamp" where
  "merge_loop ws r = (let s = merge_pass ws (r, False) in if snd s then merge_loop ws (fst s) else fst s)"
  by pat_completeness auto

termination
proof (relation "measure (\<lambda>(ws, r). length (filter (\<lambda>w. \<not> inside w r) ws))", goal_cases)
  case (2 ws r s)
  then obtain w where "w \<in> set ws" "\<not> inside w r" "inside w (fst s)"
    using merge_pass_changed [of ws r False] by auto
  moreover have "wider r (fst s)" using 2(1) merge_pass_wider by simp
  ultimately have "length (filter (\<lambda>w. \<not> inside w (fst s)) ws) < length (filter (\<lambda>w. \<not> inside w r) ws)"
    using inside_wider by (intro length_filter_less_filter [of w]) blast+
  then show ?case by simp
qed simp

declare merge_loop.simps [simp del]

definition merge_containing :: "peak_window list \<Rightarrow> timestamp \<Rightarrow> peak_window option" where
  "merge_containing windows now =
     (let current = filter (\<lambda>w. window_contains w now) windows in
      if current = [] then None else
      (let r = merge_loop windows (Min (set (map pw_starts current)), Max (set (map pw_ends current)))
       in Some \<lparr>pw_opening = Min (set (map pw_opening (filter (\<lambda>w. inside w r) windows))),
               pw_starts = fst r, pw_ends = snd r\<rparr>))"

record peak_state =
  pt_current :: "peak_window option"
  pt_next :: "peak_window option"
  pt_paused :: bool
  pt_notice_starts :: "timestamp option"
  pt_notice :: bool

definition peak_active :: "peak_state \<Rightarrow> bool" where
  "peak_active state = (pt_current state \<noteq> None)"

definition compute_peak_state :: "timestamp \<Rightarrow> weekly_opening list \<Rightarrow> peak_settings \<Rightarrow> peak_state" where
  "compute_peak_state now schedules st =
     (if \<not> ps_enabled st \<or> schedules = []
      then \<lparr>pt_current = None, pt_next = None, pt_paused = False, pt_notice_starts = None, pt_notice = False\<rparr> else
      (let windows = windows_around now schedules st;
           current = merge_containing windows now;
           after = (case current of None \<Rightarrow> now | Some w \<Rightarrow> pw_ends w);
           upcoming = filter (\<lambda>w. after \<le> pw_starts w \<and> now < pw_starts w) windows;
           following = (case upcoming of [] \<Rightarrow> None | w # _ \<Rightarrow>
             (case merge_containing windows (pw_starts w) of None \<Rightarrow> Some w | Some m \<Rightarrow> Some m));
           notice = (case following of None \<Rightarrow> None | Some w \<Rightarrow>
             if ps_block st \<and> 0 < ps_notice st \<and> current = None then Some (pw_starts w - ps_notice st * 60) else None)
       in \<lparr>pt_current = current, pt_next = following, pt_paused = (current \<noteq> None \<and> ps_block st),
           pt_notice_starts = notice,
           pt_notice = (case (notice, following) of (Some t, Some w) \<Rightarrow> t \<le> now \<and> now < pw_starts w | _ \<Rightarrow> False)\<rparr>))"

text \<open>Who is paused: external users that are signed in, never staff.\<close>

definition is_peak_blockable_user :: "bool \<Rightarrow> user option \<Rightarrow> bool" where
  "is_peak_blockable_user is_staff u = (case u of None \<Rightarrow> False
   | Some u \<Rightarrow> \<not> is_staff \<and> \<not> u_is_superuser u \<and>
       (case u_type u of None \<Rightarrow> False | Some t \<Rightarrow> t \<in> get_external_user_codes))"

definition external_user_paused_window ::
  "timestamp \<Rightarrow> weekly_opening list \<Rightarrow> peak_settings \<Rightarrow> bool \<Rightarrow> user option \<Rightarrow> peak_window option" where
  "external_user_paused_window now schedules st is_staff u =
     (if is_peak_blockable_user is_staff u
      then (let state = compute_peak_state now schedules st in if pt_paused state then pt_current state else None)
      else None)"

definition seconds_until_peak_end :: "timestamp \<Rightarrow> weekly_opening list \<Rightarrow> peak_settings \<Rightarrow> int" where
  "seconds_until_peak_end now schedules st =
     (if \<not> ps_defer st then 0 else
      case pt_current (compute_peak_state now schedules st) of None \<Rightarrow> 0 | Some w \<Rightarrow> max 1 (pw_ends w - now))"

end
