(* ===== verification/External_Quota.thy ===== *)
theory External_Quota
  imports Booking_Windows
begin

text \<open>
  The weekly quota of external users, \<^verbatim>\<open>equipment/external_slot_quota.py\<close>: snapshots of the quota of
  an equipment for a week, the count of the slots external bookings hold, and the check a booking has
  to pass. Week and equipment identify a snapshot, so its own key is left out.
\<close>

record quota_snapshot =
  qs_equipment :: ident
  qs_week_start :: day
  qs_week_end :: day
  qs_total :: nat
  qs_percent :: int
  qs_max :: int

record quota_db = booking_db +
  qt_snapshots :: "quota_snapshot list"

definition bookable_slot_statuses :: "slot_status list" where
  "bookable_slot_statuses = [SL_AVAILABLE, SL_BOOKED]"

definition external_usage_statuses :: "booking_status list" where
  "external_usage_statuses = [BO_BOOKED, BO_COMPLETED]"

definition week_bounds_for_date :: "day \<Rightarrow> day \<times> day" where
  "week_bounds_for_date d = (week_monday d, week_monday d + 6)"

definition count_bookable_slots :: "ident \<Rightarrow> day \<Rightarrow> day \<Rightarrow> 'z slot_db_scheme \<Rightarrow> nat" where
  "count_bookable_slots e week_start week_end db = length (filter (\<lambda>s. slot_equipment db s = Some e \<and>
     week_start \<le> ds_date s \<and> ds_date s \<le> week_end \<and> ds_status s \<in> set bookable_slot_statuses) (sl_slots db))"

definition clamp_percent :: "int \<Rightarrow> int" where
  "clamp_percent p = max 0 (min 100 p)"

definition compute_max_external_slots :: "nat \<Rightarrow> int \<Rightarrow> int" where
  "compute_max_external_slots n percent = (int n * clamp_percent percent) div 100"

definition snapshot_of :: "ident \<Rightarrow> day \<Rightarrow> 'z quota_db_scheme \<Rightarrow> quota_snapshot option" where
  "snapshot_of e week_start db = find (\<lambda>q. qs_equipment q = e \<and> qs_week_start q = week_start) (qt_snapshots db)"

definition new_snapshot :: "ident \<Rightarrow> day \<Rightarrow> int \<Rightarrow> 'z quota_db_scheme \<Rightarrow> quota_snapshot" where
  "new_snapshot e week_start percent db =
     (let n = count_bookable_slots e week_start (week_start + 6) db in
      \<lparr>qs_equipment = e, qs_week_start = week_start, qs_week_end = week_start + 6, qs_total = n,
       qs_percent = percent, qs_max = compute_max_external_slots n percent\<rparr>)"

text \<open>A snapshot that exists is never overwritten.\<close>

definition ensure_snapshot :: "bookable \<Rightarrow> day \<Rightarrow> int option \<Rightarrow> 'z quota_db_scheme \<Rightarrow> 'z quota_db_scheme \<times> quota_snapshot" where
  "ensure_snapshot e d percent_override db =
     (let week_start = fst (week_bounds_for_date d) in
      case snapshot_of (eq_id e) week_start db of
        Some q \<Rightarrow> (db, q)
      | None \<Rightarrow>
          (let percent = clamp_percent (case percent_override of Some p \<Rightarrow> p | None \<Rightarrow> eq_external_percent e);
               q = new_snapshot (eq_id e) week_start percent db
           in (db\<lparr>qt_snapshots := qt_snapshots db @ [q]\<rparr>, q)))"

text \<open>
  In the quarter of an hour before the opening of an equipment's week, the snapshot of the week after
  next is taken; the number of new snapshots is returned.
\<close>

definition snapshot_due :: "timestamp \<Rightarrow> window_setting \<Rightarrow> bookable \<Rightarrow> bool" where
  "snapshot_due now setting e = (case reference_config setting e of
     None \<Rightarrow> False
   | Some op \<Rightarrow> reference_of_week now op - 15 * 60 \<le> now \<and> now < reference_of_week now op)"

definition generate_due_snapshots :: "timestamp \<Rightarrow> window_setting \<Rightarrow> 'z quota_db_scheme \<Rightarrow> 'z quota_db_scheme \<times> nat" where
  "generate_due_snapshots now setting db =
     foldl (\<lambda>(db, created) e.
       if snapshot_due now setting e
       then (let w2_start = week_monday (local_date now) + 14
             in (fst (ensure_snapshot e w2_start None db),
                 if snapshot_of (eq_id e) w2_start db = None then Suc created else created))
       else (db, created)) (db, 0) (bd_equipment db)"

definition external_booking :: "'z booking_db_scheme \<Rightarrow> booking \<Rightarrow> bool" where
  "external_booking db b = (case bo_user_type b of
     Some t \<Rightarrow> t \<in> get_external_user_codes
   | None \<Rightarrow> (case Option.bind (booker db b) u_type of None \<Rightarrow> False | Some t \<Rightarrow> t \<in> get_external_user_codes))"

text \<open>Whether a slot counts: booked by an external booking that is booked or completed and repeats no sample.\<close>

definition counts_as_external :: "'z booking_db_scheme \<Rightarrow> ident option \<Rightarrow> daily_slot \<Rightarrow> bool" where
  "counts_as_external db exclude s = (ds_status s = SL_BOOKED \<and>
     (case ds_booking s of None \<Rightarrow> False | Some i \<Rightarrow> exclude \<noteq> Some i \<and>
       (case row_of bo_id i (bd_bookings db) of None \<Rightarrow> False
        | Some b \<Rightarrow> bo_status b \<in> set external_usage_statuses \<and> bo_source b = None \<and> external_booking db b)))"

definition count_external_usage :: "ident \<Rightarrow> day \<Rightarrow> day \<Rightarrow> ident option \<Rightarrow> 'z booking_db_scheme \<Rightarrow> nat" where
  "count_external_usage e week_start week_end exclude db = length (filter (\<lambda>s. slot_equipment db s = Some e \<and>
     week_start \<le> ds_date s \<and> ds_date s \<le> week_end \<and> counts_as_external db exclude s) (sl_slots db))"

text \<open>The reason of a refusal stands for its message.\<close>

datatype quota_refusal = No_Booking_Dates | Several_Weeks | Quota_Exceeded

record quota_answer =
  qa_allowed :: bool
  qa_refusal :: "quota_refusal option"
  qa_week :: "(day \<times> day) option"
  qa_snapshot :: "quota_snapshot option"
  qa_consumed :: "nat option"
  qa_requested :: "nat option"
  qa_remaining :: "int option"

definition unrestricted :: quota_answer where
  "unrestricted = \<lparr>qa_allowed = True, qa_refusal = None, qa_week = None, qa_snapshot = None, qa_consumed = None,
     qa_requested = None, qa_remaining = None\<rparr>"

definition validate_external_booking ::
  "user \<Rightarrow> bookable \<Rightarrow> day list \<Rightarrow> nat \<Rightarrow> ident option \<Rightarrow> bool \<Rightarrow> 'z quota_db_scheme \<Rightarrow> 'z quota_db_scheme \<times> quota_answer" where
  "validate_external_booking u e slot_dates slots_requested exclude bypass db =
     (if (case u_type u of None \<Rightarrow> True | Some t \<Rightarrow> \<not> is_external_user t) \<or> bypass \<or> slots_requested = 0 then (db, unrestricted)
      else if slot_dates = [] then (db, unrestricted\<lparr>qa_allowed := False, qa_refusal := Some No_Booking_Dates,
        qa_requested := Some slots_requested\<rparr>)
      else
      (let week = week_bounds_for_date (Min (set slot_dates)) in
       if list_ex (\<lambda>d. fst (week_bounds_for_date d) \<noteq> fst week) slot_dates
       then (db, unrestricted\<lparr>qa_allowed := False, qa_refusal := Some Several_Weeks, qa_week := Some week,
         qa_requested := Some slots_requested\<rparr>)
       else
       (let (db1, q) = (case snapshot_of (eq_id e) (fst week) db of
              Some q \<Rightarrow> (db, q)
            | None \<Rightarrow> (let q = new_snapshot (eq_id e) (fst week) (clamp_percent (eq_external_percent e)) db
                in (db\<lparr>qt_snapshots := qt_snapshots db @ [q]\<rparr>, q)));
            consumed = count_external_usage (eq_id e) (fst week) (snd week) exclude db1;
            remaining = max 0 (qs_max q - int consumed);
            answer = \<lparr>qa_allowed = True, qa_refusal = None, qa_week = Some week, qa_snapshot = Some q,
              qa_consumed = Some consumed, qa_requested = Some slots_requested,
              qa_remaining = Some (remaining - int slots_requested)\<rparr>
        in if qs_max q \<le> 0 \<or> qs_max q < int (consumed + slots_requested)
           then (db1, answer\<lparr>qa_allowed := False, qa_refusal := Some Quota_Exceeded, qa_remaining := Some remaining\<rparr>)
           else (db1, answer))))"

end
