(* ===== verification/Window_Promises.thy ===== *)
theory Window_Promises
  imports Booking_Windows
begin

text \<open>
  What the booking windows promise: the peak window is the time around the weekly openings, the
  ranges of days only move forward, and the deadlines follow the first opening after a request.
\<close>

subsection \<open>Weeks and openings\<close>

definition valid_opening :: "weekly_opening \<Rightarrow> bool" where
  "valid_opening op \<longleftrightarrow> 0 \<le> fst op \<and> fst op \<le> 6 \<and> 0 \<le> snd op \<and> snd op < 86400"

text \<open>The instants at which a weekly opening takes place.\<close>

definition opens :: "weekly_opening \<Rightarrow> timestamp \<Rightarrow> bool" where
  "opens op x \<longleftrightarrow> (\<exists>d. weekday d = fst op \<and> x = local_instant d (snd op))"

lemma weekday_range: "0 \<le> weekday d" "weekday d \<le> 6"
  by (simp_all add: weekday_def)

lemma week_monday_eq: "week_monday d = 7 * ((d + 3) div 7) - 3"
  using div_mult_mod_eq [of "d + 3" 7] unfolding week_monday_def weekday_def by linarith

lemma weekday_in_week:
  assumes "0 \<le> w" "w \<le> 6"
  shows "weekday (week_monday d + (7 * k + w)) = w"
proof -
  have "week_monday d + (7 * k + w) + 3 = w + 7 * ((d + 3) div 7 + k)"
    by (simp add: week_monday_eq algebra_simps)
  then show ?thesis using assms unfolding weekday_def by (simp only: mod_mult_self2) simp
qed

lemma day_in_week: "d = week_monday d + weekday d"
  by (simp add: week_monday_def)

lemma near_weeks: "\<bar>d - e\<bar> \<le> 1 \<Longrightarrow> \<exists>k\<in>{-1, 0, 1}. week_monday d = week_monday e + 7 * k"
proof -
  assume near: "\<bar>d - e\<bar> \<le> 1"
  have "(e + 3 - 7) div 7 \<le> (d + 3) div 7" "(d + 3) div 7 \<le> (e + 3 + 7) div 7"
    using near by (intro zdiv_mono1; linarith)+
  moreover have "(e + 3 - 7) div 7 = (e + 3) div 7 - 1" "(e + 3 + 7) div 7 = (e + 3) div 7 + 1"
    using div_mult_self1 [of 7 "e + 3" "-1"] div_mult_self1 [of 7 "e + 3" 1] by simp_all
  ultimately have "(d + 3) div 7 - (e + 3) div 7 \<in> {-1, 0, 1}" by auto
  moreover have "week_monday d = week_monday e + 7 * ((d + 3) div 7 - (e + 3) div 7)"
    unfolding week_monday_eq by (simp add: algebra_simps)
  ultimately show ?thesis by blast
qed

lemma windows_around_iff:
  "w \<in> set (windows_around now schedules st) \<longleftrightarrow> (\<exists>op\<in>set schedules. \<exists>k\<in>{-1, 0, 1}.
     w = window_of_opening st (local_instant (week_monday (local_date now) + (7 * k + fst op)) (snd op)))"
  unfolding windows_around_def Let_def set_sort set_concat set_map list.set image_image split_beta by blast

lemma set_windows_around:
  assumes "list_all valid_opening schedules" "w \<in> set (windows_around now schedules st)"
  shows "\<exists>op\<in>set schedules. \<exists>x. opens op x \<and> w = window_of_opening st x"
proof -
  obtain op k where op: "op \<in> set schedules"
    "w = window_of_opening st (local_instant (week_monday (local_date now) + (7 * k + fst op)) (snd op))"
    using assms(2) unfolding windows_around_iff by blast
  from op(1) have "weekday (week_monday (local_date now) + (7 * k + fst op)) = fst op"
    using assms(1) by (intro weekday_in_week) (auto simp: list_all_iff valid_opening_def)
  with op show ?thesis unfolding opens_def by blast
qed

lemma windows_around_complete:
  assumes "list_all valid_opening schedules" "0 \<le> ps_lead st" "ps_lead st \<le> 120" "0 \<le> ps_trail st" "ps_trail st \<le> 240"
    and op: "op \<in> set schedules" "opens op x" "window_contains (window_of_opening st x) now"
  shows "window_of_opening st x \<in> set (windows_around now schedules st)"
proof -
  obtain d where d: "weekday d = fst op" "x = local_instant d (snd op)" using op(2) by (auto simp: opens_def)
  have "0 \<le> snd op" "snd op < 86400" using assms(1) op(1) by (auto simp: list_all_iff valid_opening_def)
  moreover have "x - 7200 \<le> now" "now < x + 14400"
    using op(3) assms(2-5) by (simp_all add: window_contains_def window_of_opening_def)
  ultimately have "\<bar>d - local_date now\<bar> \<le> 1"
    unfolding d(2) local_instant_def local_date_def by linarith
  from near_weeks [OF this] obtain k where k: "k \<in> {-1, 0, 1}" "week_monday d = week_monday (local_date now) + 7 * k" by blast
  have "d = week_monday (local_date now) + (7 * k + fst op)"
    using day_in_week [of d] k(2) d(1) by linarith
  then have "x = local_instant (week_monday (local_date now) + (7 * k + fst op)) (snd op)" using d(2) by simp
  then show ?thesis
    using op(1) k(1) unfolding windows_around_iff by blast
qed

subsection \<open>Merging\<close>

definition covered :: "peak_window list \<Rightarrow> timestamp \<times> timestamp \<Rightarrow> bool" where
  "covered ws r \<longleftrightarrow> (\<forall>x. fst r \<le> x \<and> x < snd r \<longrightarrow> (\<exists>w\<in>set ws. window_contains w x))"

lemma covered_grow:
  assumes "covered ws r" "w \<in> set ws" "sticks_out w r"
  shows "covered ws (min (fst r) (pw_starts w), max (snd r) (pw_ends w))"
  unfolding covered_def
proof (intro allI impI)
  fix x assume x: "fst (min (fst r) (pw_starts w), max (snd r) (pw_ends w)) \<le> x \<and>
    x < snd (min (fst r) (pw_starts w), max (snd r) (pw_ends w))"
  show "\<exists>w\<in>set ws. window_contains w x"
  proof (cases "fst r \<le> x \<and> x < snd r")
    case True
    then show ?thesis using assms(1) by (simp add: covered_def)
  next
    case False
    then have "window_contains w x" using x assms(3) by (auto simp: window_contains_def sticks_out_def)
    then show ?thesis using assms(2) by blast
  qed
qed

lemma merge_pass_covered: "set vs \<subseteq> set ws \<Longrightarrow> covered ws r \<Longrightarrow> covered ws (fst (merge_pass vs (r, c)))"
  by (induction vs arbitrary: r c) (auto intro: covered_grow)

lemma merge_pass_settled:
  "\<not> snd (merge_pass ws (r, c)) \<Longrightarrow> \<not> c \<and> fst (merge_pass ws (r, c)) = r \<and> (\<forall>w\<in>set ws. \<not> sticks_out w r)"
proof (induction ws arbitrary: r c)
  case (Cons w ws)
  show ?case
  proof (cases "sticks_out w r")
    case True
    then show ?thesis using Cons.IH [of "(min (fst r) (pw_starts w), max (snd r) (pw_ends w))" True] Cons.prems by simp
  next
    case False
    then show ?thesis using Cons.IH [of r c] Cons.prems by (cases c; simp)
  qed
qed simp

lemma merge_loop_result:
  "covered ws r \<Longrightarrow> covered ws (merge_loop ws r) \<and> wider r (merge_loop ws r) \<and>
     (\<forall>w\<in>set ws. \<not> sticks_out w (merge_loop ws r))"
proof (induction ws r rule: merge_loop.induct)
  case (1 ws r)
  show ?case
  proof (cases "snd (merge_pass ws (r, False))")
    case True
    have "covered ws (fst (merge_pass ws (r, False)))" by (rule merge_pass_covered [OF subset_refl "1.prems"])
    from "1.IH" [OF refl True this] show ?thesis
      using True merge_pass_wider [of r ws False] by (auto simp: merge_loop.simps [of ws r] Let_def intro: wider_trans)
  next
    case False
    then show ?thesis using "1.prems" merge_pass_settled [OF False] by (simp add: merge_loop.simps [of ws r] Let_def)
  qed
qed

lemma current_covered:
  assumes "vs = filter (\<lambda>w. window_contains w now) ws" "vs \<noteq> []"
  shows "covered ws (Min (set (map pw_starts vs)), Max (set (map pw_ends vs)))"
    and "Min (set (map pw_starts vs)) \<le> now" "now < Max (set (map pw_ends vs))"
proof -
  have "Min (set (map pw_starts vs)) \<in> set (map pw_starts vs)" "Max (set (map pw_ends vs)) \<in> set (map pw_ends vs)"
    using assms(2) by (intro Min_in Max_in; simp)+
  then obtain v v' where v: "v \<in> set vs" "pw_starts v = Min (set (map pw_starts vs))"
    and v': "v' \<in> set vs" "pw_ends v' = Max (set (map pw_ends vs))" unfolding set_map by (elim imageE) simp
  have now: "window_contains v now" "window_contains v' now" using v(1) v'(1) assms(1) by auto
  then show "Min (set (map pw_starts vs)) \<le> now" "now < Max (set (map pw_ends vs))"
    using v(2) v'(2) by (simp_all add: window_contains_def)
  have "window_contains v x \<or> window_contains v' x"
    if "Min (set (map pw_starts vs)) \<le> x" "x < Max (set (map pw_ends vs))" for x
    using that now v(2) v'(2) by (auto simp: window_contains_def)
  then show "covered ws (Min (set (map pw_starts vs)), Max (set (map pw_ends vs)))"
    using v(1) v'(1) assms(1) unfolding covered_def by fastforce
qed

lemma merge_containing_cases:
  "merge_containing ws now = None \<longleftrightarrow> (\<forall>w\<in>set ws. \<not> window_contains w now)"
  "merge_containing ws now = Some m \<Longrightarrow> window_contains m now \<and> covered ws (pw_starts m, pw_ends m) \<and>
     (\<forall>w\<in>set ws. \<not> sticks_out w (pw_starts m, pw_ends m))"
proof -
  show "merge_containing ws now = None \<longleftrightarrow> (\<forall>w\<in>set ws. \<not> window_contains w now)"
    by (simp add: merge_containing_def Let_def filter_empty_conv)
next
  let ?vs = "filter (\<lambda>w. window_contains w now) ws"
  assume m: "merge_containing ws now = Some m"
  then have some: "?vs \<noteq> []" by (auto simp: merge_containing_def)
  note current = current_covered [OF refl some]
  show "window_contains m now \<and> covered ws (pw_starts m, pw_ends m) \<and>
     (\<forall>w\<in>set ws. \<not> sticks_out w (pw_starts m, pw_ends m))"
    using m some merge_loop_result [OF current(1)] current(2,3)
    by (auto simp: merge_containing_def Let_def window_contains_def wider_def)
qed

subsection \<open>The peak window\<close>

definition peak_instant :: "weekly_opening list \<Rightarrow> peak_settings \<Rightarrow> timestamp \<Rightarrow> bool" where
  "peak_instant schedules st now \<longleftrightarrow>
     (\<exists>op\<in>set schedules. \<exists>x. opens op x \<and> x - ps_lead st * 60 \<le> now \<and> now < x + ps_trail st * 60)"

lemma contained_is_peak:
  assumes "list_all valid_opening schedules" "w \<in> set (windows_around now schedules st)" "window_contains w x"
  shows "peak_instant schedules st x"
proof -
  obtain op y where op: "op \<in> set schedules" "opens op y" "w = window_of_opening st y"
    using set_windows_around [OF assms(1,2)] by blast
  have "y - ps_lead st * 60 \<le> x" "x < y + ps_trail st * 60"
    using assms(3) by (simp_all add: op(3) window_contains_def window_of_opening_def)
  with op show ?thesis unfolding peak_instant_def by blast
qed

lemma contained_iff_peak:
  assumes "list_all valid_opening schedules" "0 \<le> ps_lead st" "ps_lead st \<le> 120" "0 \<le> ps_trail st" "ps_trail st \<le> 240"
  shows "(\<exists>w\<in>set (windows_around now schedules st). window_contains w now) \<longleftrightarrow> peak_instant schedules st now"
proof
  assume "\<exists>w\<in>set (windows_around now schedules st). window_contains w now"
  then show "peak_instant schedules st now" using contained_is_peak [OF assms(1)] by blast
next
  assume "peak_instant schedules st now"
  then obtain op x where op: "op \<in> set schedules" "opens op x" "window_contains (window_of_opening st x) now"
    by (auto simp: peak_instant_def window_contains_def window_of_opening_def)
  then show "\<exists>w\<in>set (windows_around now schedules st). window_contains w now"
    using windows_around_complete [OF assms op] by blast
qed

lemma peak_current:
  assumes "ps_enabled st" "schedules \<noteq> []"
  shows "pt_current (compute_peak_state now schedules st) = merge_containing (windows_around now schedules st) now"
  using assms by (simp add: compute_peak_state_def Let_def)

text \<open>
  C32: The peak window is the time around the weekly openings. For schedules on proper days and
  times and settings within the limits of the form, the portal is in its peak window exactly when it
  is enabled and some opening, of whatever week, is at most the lead time ahead or less than the
  trail time ago. The window it reports contains the instant, is peak time from its start to its end,
  and is not overlapped by an opening's window that reaches out of it; the search for it always ends.
\<close>

theorem peak_window_is_around_openings:
  assumes "list_all valid_opening schedules" "0 \<le> ps_lead st" "ps_lead st \<le> 120" "0 \<le> ps_trail st" "ps_trail st \<le> 240"
  shows "(peak_active (compute_peak_state now schedules st) \<longleftrightarrow> ps_enabled st \<and> peak_instant schedules st now) \<and>
    (\<forall>w. pt_current (compute_peak_state now schedules st) = Some w \<longrightarrow> window_contains w now \<and>
      (\<forall>x. window_contains w x \<longrightarrow> peak_active (compute_peak_state x schedules st)) \<and>
      (\<forall>v\<in>set (windows_around now schedules st). pw_starts v < pw_ends w \<longrightarrow> pw_starts w < pw_ends v \<longrightarrow>
        pw_starts w \<le> pw_starts v \<and> pw_ends v \<le> pw_ends w))"
proof (cases "ps_enabled st \<and> schedules \<noteq> []")
  case True
  note current = peak_current [OF conjunct1 [OF True] conjunct2 [OF True]]
  have active: "peak_active (compute_peak_state x schedules st) \<longleftrightarrow> peak_instant schedules st x" for x
    using contained_iff_peak [OF assms] merge_containing_cases(1) by (simp add: peak_active_def current)
  have "window_contains w now \<and> (\<forall>x. window_contains w x \<longrightarrow> peak_instant schedules st x) \<and>
      (\<forall>v\<in>set (windows_around now schedules st). pw_starts v < pw_ends w \<longrightarrow> pw_starts w < pw_ends v \<longrightarrow>
        pw_starts w \<le> pw_starts v \<and> pw_ends v \<le> pw_ends w)"
    if "pt_current (compute_peak_state now schedules st) = Some w" for w
  proof (intro conjI allI ballI impI)
    note w = merge_containing_cases(2) [OF that [unfolded current]]
    show "window_contains w now" using w by blast
    fix v assume "v \<in> set (windows_around now schedules st)" "pw_starts v < pw_ends w" "pw_starts w < pw_ends v"
    then show "pw_starts w \<le> pw_starts v" "pw_ends v \<le> pw_ends w"
      using w by (force simp: sticks_out_def)+
  next
    note w = merge_containing_cases(2) [OF that [unfolded current]]
    fix x assume "window_contains w x"
    then obtain v where "v \<in> set (windows_around now schedules st)" "window_contains v x"
      using w by (auto simp: covered_def window_contains_def)
    then show "peak_instant schedules st x" by (rule contained_is_peak [OF assms(1)])
  qed
  then show ?thesis
    using True by (simp add: active)
next
  case False
  then have "pt_current (compute_peak_state x schedules st) = None" for x
    by (auto simp: compute_peak_state_def)
  then show ?thesis
    using False by (auto simp: peak_active_def peak_instant_def)
qed

subsection \<open>Ranges and deadlines\<close>

lemma local_instant_of_now: "now = local_instant (local_date now) (local_time now)"
  by (simp add: local_instant_def local_date_def local_time_def)

lemma local_time_range: "0 \<le> local_time now" "local_time now < 86400"
  by (simp_all add: local_time_def)

lemma next_opening_first:
  assumes "valid_opening op"
  shows "opens op (next_opening now op)" "now < next_opening now op" "next_opening now op \<le> now + 7 * 86400"
    "opens op x \<Longrightarrow> now < x \<Longrightarrow> next_opening now op \<le> x"
proof -
  let ?d = "local_date now" and ?t = "local_time now"
  let ?ahead = "(fst op - weekday ?d) mod 7"
  define k where "k = (if ?ahead = 0 \<and> snd op \<le> ?t then 7 else ?ahead)"
  have start: "next_opening now op = local_instant (?d + k) (snd op)"
    by (simp add: next_opening_def Let_def k_def)
  have t: "0 \<le> snd op" "snd op < 86400" using assms by (simp_all add: valid_opening_def)
  have ahead: "0 \<le> ?ahead" "?ahead < 7" by simp_all
  have now: "now = local_instant ?d ?t" by (rule local_instant_of_now)
  have weekday_mod: "weekday e = (e + 3) mod 7" for e by (simp add: weekday_def)
  have fst_op: "fst op mod 7 = fst op" using assms by (simp add: valid_opening_def)
  have "(?d + 3 + k) mod 7 = (?d + 3 + ?ahead) mod 7"
    using mod_add_self2 [of "?d + 3" 7] by (simp add: k_def del: mod_add_self2)
  also have "\<dots> = fst op mod 7"
    by (simp add: weekday_mod mod_simps)
  finally have "weekday (?d + k) = fst op"
    unfolding weekday_mod fst_op by (simp add: ac_simps)
  then show "opens op (next_opening now op)" unfolding opens_def start by blast
  show "now < next_opening now op"
    using local_time_range [of now] ahead t unfolding start k_def
    by (subst now) (auto simp: local_instant_def)
  show "next_opening now op \<le> now + 7 * 86400"
    using local_time_range [of now] ahead t unfolding start k_def
    by (subst (2) now) (auto simp: local_instant_def)
  assume "opens op x" "now < x"
  then obtain e where e: "weekday e = fst op" "x = local_instant e (snd op)" by (auto simp: opens_def)
  have "86400 * ?d + ?t < 86400 * e + snd op"
    using \<open>now < x\<close> unfolding e(2) by (subst (asm) now) (simp add: local_instant_def)
  then have "?d \<le> e" "e = ?d \<Longrightarrow> ?t < snd op" using local_time_range [of now] t by linarith+
  have "?ahead = ((e + 3) mod 7 - (?d + 3) mod 7) mod 7" unfolding e(1) [symmetric] weekday_mod by (rule refl)
  also have "\<dots> = (e - ?d) mod 7" by (simp add: mod_diff_eq)
  finally have "(e - ?d) mod 7 = ?ahead" by simp
  then have "?ahead \<le> e - ?d"
    using \<open>?d \<le> e\<close> zmod_le_nonneg_dividend [of "e - ?d" 7] by simp
  moreover have "7 \<le> e - ?d" if "?ahead = 0" "snd op \<le> ?t"
  proof -
    have "7 dvd e - ?d" "e \<noteq> ?d"
      using that \<open>(e - ?d) mod 7 = ?ahead\<close> \<open>e = ?d \<Longrightarrow> ?t < snd op\<close> by (auto simp: mod_eq_0_iff_dvd)
    then show ?thesis using \<open>?d \<le> e\<close> by (auto intro: zdvd_imp_le)
  qed
  ultimately have "k \<le> e - ?d" by (simp add: k_def)
  then show "next_opening now op \<le> x"
    unfolding start e(2) local_instant_def by simp
qed


lemma monday_mono: "now \<le> later \<Longrightarrow> week_monday (local_date now) \<le> week_monday (local_date later)"
  unfolding week_monday_eq local_date_def by (simp add: zdiv_mono1)

lemma same_or_later_week:
  assumes "now \<le> later" "week_monday (local_date now) \<noteq> week_monday (local_date later)"
  shows "week_monday (local_date now) + 7 \<le> week_monday (local_date later)"
proof -
  define q q' where "q = (local_date now + 3) div 7" and "q' = (local_date later + 3) div 7"
  have "q \<le> q'" "q \<noteq> q'"
    using monday_mono [OF assms(1)] assms(2) unfolding week_monday_eq q_def q'_def by auto
  then show ?thesis unfolding week_monday_eq q_def [symmetric] q'_def [symmetric] by simp
qed

text \<open>
  The bookable range of days only moves forward. As time goes on neither end of the range of an
  equipment for internal users ever moves back; the range of external users is the same a week later,
  and begins after the present week.
\<close>

theorem bookable_range_moves_forward:
  assumes "internal_window_bounds setting e now = Some (lo, hi, before)"
    and "internal_window_bounds setting e later = Some (lo', hi', before')" "now \<le> later"
  shows "lo \<le> local_date now \<and> local_date now \<le> hi \<and> lo \<le> lo' \<and> hi \<le> hi' \<and>
    external_window_bounds setting e now = Some (lo + 7, hi + 7, before) \<and> local_date now < lo + 7"
proof -
  obtain op where op: "reference_config setting e = Some op"
    using assms(1) by (auto simp: internal_window_bounds_def split: option.splits)
  let ?m = "week_monday (local_date now)" and ?m' = "week_monday (local_date later)"
  have now: "lo = ?m" "hi = (if now < reference_of_week now op then ?m + 6 else ?m + 13)"
    and later: "lo' = ?m'" "hi' = (if later < reference_of_week later op then ?m' + 6 else ?m' + 13)"
    and ext: "external_window_bounds setting e now = Some (lo + 7, hi + 7, before)"
    using assms(1,2) by (auto simp: internal_window_bounds_def external_window_bounds_def op Let_def split: if_splits)
  have today: "?m \<le> local_date now" "local_date now \<le> ?m + 6"
    using weekday_range [of "local_date now"] by (simp_all add: week_monday_def)
  have "hi \<le> hi'"
  proof (cases "?m = ?m'")
    case True
    then have "reference_of_week now op = reference_of_week later op" by (simp add: reference_of_week_def)
    then show ?thesis using now later True assms(3) by auto
  next
    case False
    then show ?thesis using same_or_later_week [OF assms(3)] now later by auto
  qed
  then show ?thesis using now later ext today monday_mono [OF assms(3)] by (auto split: if_splits)
qed

text \<open>
  Two laboratories open their week on Wednesday at 21:00 and at 21:10, with 5 minutes before and 15
  after; on 7 January 1970, a Wednesday, the peak runs from 20:55 to 21:25.
\<close>

definition two_labs :: "weekly_opening list" where
  "two_labs = [(2, 75600), (2, 76200)]"

definition wednesday :: timestamp where
  "wednesday = local_instant 6 76000"

theorem peak_window_is_around_openings_witness:
  "peak_active (compute_peak_state wednesday two_labs default_peak_settings) \<and>
   peak_active (compute_peak_state (local_instant 6 75300) two_labs default_peak_settings)"
proof -
  have now: "pt_current (compute_peak_state wednesday two_labs default_peak_settings) =
      Some \<lparr>pw_opening = local_instant 6 75600, pw_starts = local_instant 6 75300, pw_ends = local_instant 6 77100\<rparr>"
    by code_simp
  have "list_all valid_opening two_labs" "0 \<le> ps_lead default_peak_settings" "ps_lead default_peak_settings \<le> 120"
    "0 \<le> ps_trail default_peak_settings" "ps_trail default_peak_settings \<le> 240" by code_simp+
  note promise = peak_window_is_around_openings [OF this, of wednesday]
  have "window_contains \<lparr>pw_opening = local_instant 6 75600, pw_starts = local_instant 6 75300, pw_ends = local_instant 6 77100\<rparr>
      (local_instant 6 75300)" by code_simp
  with promise now show ?thesis unfolding peak_active_def by blast
qed

definition xrd :: bookable where
  "xrd = \<lparr>eq_id = 5, eq_status = EQ_ACTIVE, eq_external_percent = 20, be_exchange = False, be_group = None,
     be_weekday = Some 2, be_time = Some 75600, be_department = None, be_profile = None, be_duration = 60,
     be_tolerance = 0, be_threshold = 48\<rparr>"


theorem bookable_range_moves_forward_witness:
  "external_window_bounds None xrd (local_instant 6 75000) = Some (11, 17, True)"
proof -
  have "internal_window_bounds None xrd (local_instant 6 75000) = Some (4, 10, True)"
    "internal_window_bounds None xrd (local_instant 6 76000) = Some (4, 17, False)"
    "local_instant 6 75000 \<le> local_instant 6 76000" by code_simp+
  from bookable_range_moves_forward [OF this] show ?thesis by simp
qed

end
