(* ===== verification/Quota_Promises.thy ===== *)
theory Quota_Promises
  imports External_Quota Window_Promises
begin

text \<open>
  What the quota of external users promises: along runs of the portal the slots external bookings
  hold in a week stay within the snapshot of that week, and where the promise ends.
\<close>

subsection \<open>Making a booking\<close>

text \<open>
  How the views use the check, as far as it concerns the quota: a booking that has passed it gets its
  row and its slots. The status is \<open>BO_BOOKED\<close>, or \<open>BO_PENDING_PAYMENT\<close> when an external user has
  not paid in full yet.
\<close>

abbreviation booking_update :: "ident \<Rightarrow> slot_update" where
  "booking_update i \<equiv> \<lparr>up_status = Some SL_BOOKED, up_label = None, up_reference = None, up_booking = Some (Some i),
     up_released = None\<rparr>"

abbreviation handed_back :: slot_update where
  "handed_back \<equiv> \<lparr>up_status = Some SL_AVAILABLE, up_label = None, up_reference = None, up_booking = Some None,
     up_released = None\<rparr>"

definition slots_chosen :: "ident list \<Rightarrow> 'z slot_db_scheme \<Rightarrow> daily_slot list" where
  "slots_chosen ids db = filter (\<lambda>s. ds_id s \<in> set ids) (sl_slots db)"

definition free_on :: "ident \<Rightarrow> ident list \<Rightarrow> 'z slot_db_scheme \<Rightarrow> bool" where
  "free_on e ids db = list_all (\<lambda>s. ds_booking s = None \<and> slot_equipment db s = Some e) (slots_chosen ids db)"

definition book_slots :: "timestamp \<Rightarrow> booking \<Rightarrow> ident list \<Rightarrow> 'z booking_db_scheme \<Rightarrow> 'z booking_db_scheme" where
  "book_slots now b ids db =
     (let i = fresh_pk bo_id (bd_bookings db)
      in update_slots now (\<lambda>s. ds_id s \<in> set ids) (booking_update i)
           (db\<lparr>bd_bookings := bd_bookings db @ [b\<lparr>bo_id := i\<rparr>]\<rparr>))"

definition set_booking_status :: "ident \<Rightarrow> booking_status \<Rightarrow> 'z booking_db_scheme \<Rightarrow> 'z booking_db_scheme" where
  "set_booking_status i st db = db\<lparr>bd_bookings := update_row bo_id i (\<lambda>b. b\<lparr>bo_status := st\<rparr>) (bd_bookings db)\<rparr>"

inductive quota_step :: "quota_db \<Rightarrow> quota_db \<Rightarrow> bool" where
  Due: "quota_step db (fst (generate_due_snapshots now setting db))"
| Ensure: "quota_step db (fst (ensure_snapshot e d percent db))"
| Book: "validate_external_booking u e (map ds_date (slots_chosen ids db)) (length (slots_chosen ids db)) None False db = (db1, answer) \<Longrightarrow>
    qa_allowed answer \<Longrightarrow> free_on (eq_id e) ids db \<Longrightarrow> u_type u = Some t \<Longrightarrow> bo_user_type b = Some t \<Longrightarrow>
    bo_equipment b = eq_id e \<Longrightarrow> bo_status b = BO_BOOKED \<Longrightarrow> quota_step db (book_slots now b ids db1)"
| Give_Back: "quota_step db (update_slots now P handed_back db)"
| Close: "st \<notin> set external_usage_statuses \<Longrightarrow> quota_step db (set_booking_status i st db)"
| Complete: "row_of bo_id i (bd_bookings db) = Some b \<Longrightarrow> bo_status b = BO_BOOKED \<Longrightarrow> quota_step db (set_booking_status i BO_COMPLETED db)"

subsection \<open>The cap\<close>

definition usage :: "ident \<Rightarrow> day \<Rightarrow> 'z booking_db_scheme \<Rightarrow> nat" where
  "usage e monday db = count_external_usage e monday (monday + 6) None db"

definition cap :: "ident \<Rightarrow> day \<Rightarrow> 'z quota_db_scheme \<Rightarrow> int" where
  "cap e monday db = (case snapshot_of e monday db of None \<Rightarrow> 0 | Some q \<Rightarrow> qs_max q)"

definition linked_bookings :: "'z booking_db_scheme \<Rightarrow> bool" where
  "linked_bookings db \<longleftrightarrow> (\<forall>s\<in>set (sl_slots db). \<forall>i. ds_booking s = Some i \<longrightarrow> i \<in> bo_id ` set (bd_bookings db))"

definition snapshots_sane :: "'z quota_db_scheme \<Rightarrow> bool" where
  "snapshots_sane db \<longleftrightarrow> list_all (\<lambda>q. 0 \<le> qs_max q \<and> qs_max q \<le> int (qs_total q)) (qt_snapshots db)"

definition quota_inv :: "quota_db \<Rightarrow> bool" where
  "quota_inv db \<longleftrightarrow> linked_bookings db \<and> snapshots_sane db \<and> (\<forall>e d. int (usage e (week_monday d) db) \<le> cap e (week_monday d) db)"

lemma compute_max_range: "0 \<le> compute_max_external_slots n p \<and> compute_max_external_slots n p \<le> int n"
proof -
  have c: "0 \<le> clamp_percent p" "clamp_percent p \<le> 100" by (simp_all add: clamp_percent_def)
  then have "int n * clamp_percent p \<le> int n * 100" by (intro mult_left_mono) simp_all
  then have "(int n * clamp_percent p) div 100 \<le> (int n * 100) div 100" by (rule zdiv_mono1) simp
  then show ?thesis using c by (simp add: compute_max_external_slots_def pos_imp_zdiv_nonneg_iff)
qed

definition counted :: "ident \<Rightarrow> day \<Rightarrow> 'z booking_db_scheme \<Rightarrow> daily_slot \<Rightarrow> bool" where
  "counted e d db s \<longleftrightarrow> slot_equipment db s = Some e \<and> d \<le> ds_date s \<and> ds_date s \<le> d + 6 \<and> counts_as_external db None s"

lemma usage_counted: "usage e d db = length (filter (counted e d db) (sl_slots db))"
  by (simp add: usage_def count_external_usage_def counted_def [abs_def])

lemma usage_mono:
  assumes "sl_slots db' = map f (sl_slots db)" "\<And>s. s \<in> set (sl_slots db) \<Longrightarrow> counted e d db' (f s) \<Longrightarrow> counted e d db s"
  shows "usage e d db' \<le> usage e d db"
proof -
  have "length (filter P' (map f xs)) \<le> length (filter P xs)" if "\<And>x. x \<in> set xs \<Longrightarrow> P' (f x) \<Longrightarrow> P x"
    for P P' :: "daily_slot \<Rightarrow> bool" and xs
    using that by (induction xs) auto
  then show ?thesis unfolding usage_counted assms(1) using assms(2) by blast
qed

lemma cap_append:
  "cap e d (db\<lparr>qt_snapshots := qt_snapshots db @ [q]\<rparr>) =
     (if snapshot_of e d db = None \<and> qs_equipment q = e \<and> qs_week_start q = d then qs_max q else cap e d db)"
  by (simp add: cap_def snapshot_of_def find_append_case split: option.split)

lemma reads_no_snapshots [simp]:
  fixes db :: "'z quota_db_scheme"
  shows "usage e d (db\<lparr>qt_snapshots := qs\<rparr>) = usage e d db" "linked_bookings (db\<lparr>qt_snapshots := qs\<rparr>) = linked_bookings db"
    "slot_equipment (db\<lparr>qt_snapshots := qs\<rparr>) = slot_equipment db"
    "count_external_usage e a b x (db\<lparr>qt_snapshots := qs\<rparr>) = count_external_usage e a b x db"
proof -
  have rows: "bd_bookings (db\<lparr>qt_snapshots := qs\<rparr>) = bd_bookings db" "bd_users (db\<lparr>qt_snapshots := qs\<rparr>) = bd_users db"
    by simp_all
  have "counts_as_external (db\<lparr>qt_snapshots := qs\<rparr>) x s = counts_as_external db x s" for x s
    unfolding counts_as_external_def external_booking_def booker_def rows by (rule refl)
  then show "count_external_usage e a b x (db\<lparr>qt_snapshots := qs\<rparr>) = count_external_usage e a b x db" for a b x
    by (simp add: count_external_usage_def slot_equipment_def)
  then show "usage e d (db\<lparr>qt_snapshots := qs\<rparr>) = usage e d db" by (simp add: usage_def)
qed (simp_all add: linked_bookings_def slot_equipment_def fun_eq_iff)

lemma append_snapshot_inv:
  assumes "quota_inv db" "snapshot_of (qs_equipment q) (qs_week_start q) db = None" "0 \<le> qs_max q" "qs_max q \<le> int (qs_total q)"
  shows "quota_inv (db\<lparr>qt_snapshots := qt_snapshots db @ [q]\<rparr>)"
proof -
  have "cap e d db \<le> cap e d (db\<lparr>qt_snapshots := qt_snapshots db @ [q]\<rparr>)" for e d
    unfolding cap_append using assms(2,3) by (simp add: cap_def)
  then show ?thesis
    using assms order_trans unfolding quota_inv_def snapshots_sane_def by (auto, blast)
qed

lemma new_snapshot_fields [simp]:
  "qs_equipment (new_snapshot e d p db) = e" "qs_week_start (new_snapshot e d p db) = d"
  "0 \<le> qs_max (new_snapshot e d p db)" "qs_max (new_snapshot e d p db) \<le> int (qs_total (new_snapshot e d p db))"
  using compute_max_range by (simp_all add: new_snapshot_def Let_def)

lemma ensure_snapshot_inv: "quota_inv db \<Longrightarrow> quota_inv (fst (ensure_snapshot e d p db))"
  by (auto simp: ensure_snapshot_def Let_def split: option.split intro!: append_snapshot_inv)

lemma filter_one_or_other:
  "(\<And>x. x \<in> set xs \<Longrightarrow> P x \<longleftrightarrow> Q x \<or> R x) \<Longrightarrow> (\<And>x. x \<in> set xs \<Longrightarrow> \<not> (Q x \<and> R x)) \<Longrightarrow>
   length (filter P xs) = length (filter Q xs) + length (filter R xs)"
  by (induction xs) auto

definition counted_status :: "booking \<Rightarrow> user_type \<Rightarrow> bool" where
  "counted_status b t \<longleftrightarrow> bo_status b \<in> set external_usage_statuses \<and> bo_source b = None \<and> t \<in> get_external_user_codes"

lemma book_slots_rows:
  "sl_slots (book_slots now b ids db) = map (\<lambda>s. if ds_id s \<in> set ids
     then update_slot now (booking_update (fresh_pk bo_id (bd_bookings db))) s else s) (sl_slots db)"
  "bd_bookings (book_slots now b ids db) = bd_bookings db @ [b\<lparr>bo_id := fresh_pk bo_id (bd_bookings db)\<rparr>]"
  "sl_masters (book_slots now b ids db) = sl_masters db" "bd_users (book_slots now b ids db) = bd_users db"
  by (simp_all add: book_slots_def update_slots_def Let_def)

lemma qt_book_slots [simp]: "qt_snapshots (book_slots now b ids db) = qt_snapshots (db :: 'z quota_db_scheme)"
  by (simp add: book_slots_def update_slots_def Let_def)

lemma update_slot_frame [simp]:
  "ds_id (update_slot now u s) = ds_id s" "ds_date (update_slot now u s) = ds_date s"
  "ds_master (update_slot now u s) = ds_master s"
  by (simp_all add: update_slot_def Let_def)

lemma book_usage:
  assumes linked: "linked_bookings db" and free: "free_on e ids db" and t: "bo_user_type b = Some t"
  shows "usage e' m (book_slots now b ids db) = usage e' m db + (if counted_status b t
    then length (filter (\<lambda>s. slot_equipment db s = Some e' \<and> m \<le> ds_date s \<and> ds_date s \<le> m + 6) (slots_chosen ids db)) else 0)"
proof -
  let ?i = "fresh_pk bo_id (bd_bookings db)" and ?db = "book_slots now b ids db"
  let ?f = "\<lambda>s. if ds_id s \<in> set ids then update_slot now (booking_update ?i) s else s"
  let ?here = "\<lambda>s. slot_equipment db s = Some e' \<and> m \<le> ds_date s \<and> ds_date s \<le> m + 6"
  have place: "slot_equipment ?db (?f s) = slot_equipment db s" for s
    by (simp add: slot_equipment_def book_slots_rows)
  have old: "row_of bo_id j (bd_bookings ?db) = row_of bo_id j (bd_bookings db)" if "j \<in> bo_id ` set (bd_bookings db)" for j
    using that by (auto simp: book_slots_rows row_of_append row_of_None fresh_pk_notin split: option.split)
  have new: "row_of bo_id ?i (bd_bookings ?db) = Some (b\<lparr>bo_id := ?i\<rparr>)"
    by (simp add: book_slots_rows row_of_append row_of_fresh)
  have ext: "external_booking ?db x = external_booking db x" for x
    unfolding external_booking_def booker_def book_slots_rows by (rule refl)
  have taken: "counts_as_external ?db None (?f s) \<longleftrightarrow> counted_status b t" if "ds_id s \<in> set ids" for s
    using that t by (simp add: counts_as_external_def update_slot_def new counted_status_def external_booking_def)
  have others: "counts_as_external ?db None (?f s) = counts_as_external db None s"
    if "s \<in> set (sl_slots db)" "ds_id s \<notin> set ids" for s
    using that linked by (auto simp: counts_as_external_def linked_bookings_def old ext split: option.split)
  have untouched: "\<not> counts_as_external db None s" if "s \<in> set (sl_slots db)" "ds_id s \<in> set ids" for s
    using that free by (auto simp: free_on_def slots_chosen_def list_all_iff counts_as_external_def)
  have "usage e' m ?db = length (filter (\<lambda>s. counted e' m ?db (?f s)) (sl_slots db))"
    unfolding usage_counted book_slots_rows(1) by (simp add: filter_map comp_def)
  also have "\<dots> = length (filter (counted e' m db) (sl_slots db)) +
      length (filter (\<lambda>s. ds_id s \<in> set ids \<and> counted_status b t \<and> ?here s) (sl_slots db))"
  proof (rule filter_one_or_other)
    fix s assume s: "s \<in> set (sl_slots db)"
    show "counted e' m ?db (?f s) \<longleftrightarrow> counted e' m db s \<or> ds_id s \<in> set ids \<and> counted_status b t \<and> ?here s"
      using taken [of s] others [OF s] untouched [OF s] place [of s] by (cases "ds_id s \<in> set ids") (auto simp: counted_def)
    show "\<not> (counted e' m db s \<and> ds_id s \<in> set ids \<and> counted_status b t \<and> ?here s)"
      using untouched [OF s] by (auto simp: counted_def)
  qed
  also have "length (filter (\<lambda>s. ds_id s \<in> set ids \<and> counted_status b t \<and> ?here s) (sl_slots db)) =
      (if counted_status b t then length (filter ?here (slots_chosen ids db)) else 0)"
    by (simp add: slots_chosen_def conj_commute conj_left_commute)
  finally show ?thesis by (simp add: usage_counted)
qed

lemma week_of_day:
  assumes "week_monday x \<le> d" "d \<le> week_monday x + 6"
  shows "week_monday d = week_monday x"
proof -
  have "7 * ((x + 3) div 7) \<le> d + 3" "d + 3 < 7 * ((x + 3) div 7) + 7"
    using assms by (simp_all add: week_monday_eq)
  moreover have "d + 3 = 7 * ((d + 3) div 7) + (d + 3) mod 7" "0 \<le> (d + 3) mod 7" "(d + 3) mod 7 < 7" by simp_all
  ultimately have "(d + 3) div 7 = (x + 3) div 7" by linarith
  then show ?thesis by (simp add: week_monday_eq)
qed

subsection \<open>Every operation\<close>

lemma validate_result:
  fixes db :: quota_db
  assumes "validate_external_booking u e dates n None False db = (db1, answer)" "qa_allowed answer"
  shows "(\<exists>q. db1 = db \<or> snapshot_of (qs_equipment q) (qs_week_start q) db = None \<and> 0 \<le> qs_max q \<and>
      qs_max q \<le> int (qs_total q) \<and> db1 = db\<lparr>qt_snapshots := qt_snapshots db @ [q]\<rparr>)"
    and "u_type u = Some t \<Longrightarrow> t \<in> get_external_user_codes \<Longrightarrow> n \<noteq> 0 \<Longrightarrow>
      \<exists>x. (\<forall>d\<in>set dates. week_monday d = week_monday x) \<and>
        int (usage (eq_id e) (week_monday x) db + n) \<le> cap (eq_id e) (week_monday x) db1 \<and>
        qa_consumed answer = Some (usage (eq_id e) (week_monday x) db) \<and>
        snapshot_of (eq_id e) (week_monday x) db1 \<noteq> None"
proof -
  let ?x = "Min (set dates)"
  let ?new = "new_snapshot (eq_id e) (week_monday ?x) (clamp_percent (eq_external_percent e)) db"
  show "\<exists>q. db1 = db \<or> snapshot_of (qs_equipment q) (qs_week_start q) db = None \<and> 0 \<le> qs_max q \<and>
      qs_max q \<le> int (qs_total q) \<and> db1 = db\<lparr>qt_snapshots := qt_snapshots db @ [q]\<rparr>"
    using assms(1) by (intro exI [of _ ?new])
      (auto simp: validate_external_booking_def Let_def week_bounds_for_date_def split: if_splits option.splits)
  assume t: "u_type u = Some t" "t \<in> get_external_user_codes" "n \<noteq> 0"
  have checked: "\<not> ((case u_type u of None \<Rightarrow> True | Some t \<Rightarrow> \<not> is_external_user t) \<or> False \<or> n = 0)"
    using t by (simp add: is_external_user_def)
  note answer = assms(1) [unfolded validate_external_booking_def if_not_P [OF checked]]
  have "dates \<noteq> []" using answer assms(2) by (auto simp: unrestricted_def)
  note answer = answer [unfolded if_not_P [OF this] Let_def week_bounds_for_date_def fst_conv snd_conv]
  have one: "\<not> list_ex (\<lambda>d. week_monday d \<noteq> week_monday ?x) dates" using answer assms(2) by (auto simp: unrestricted_def)
  note answer = answer [unfolded if_not_P [OF this]]
  define r where "r = (case snapshot_of (eq_id e) (week_monday ?x) db of Some q \<Rightarrow> (db, q)
    | None \<Rightarrow> (db\<lparr>qt_snapshots := qt_snapshots db @ [?new]\<rparr>, ?new))"
  have r: "snapshot_of (eq_id e) (week_monday ?x) (fst r) = Some (snd r)"
    "count_external_usage (eq_id e) a b None (fst r) = count_external_usage (eq_id e) a b None db" for a b
    by (auto simp: r_def snapshot_of_def find_append_case split: option.split)
  note answer = answer [folded r_def]
  have db1: "db1 = fst r" and used: "\<not> (qs_max (snd r) \<le> 0 \<or> qs_max (snd r) <
      int (usage (eq_id e) (week_monday ?x) db + n))"
    and consumed: "qa_consumed answer = Some (usage (eq_id e) (week_monday ?x) db)"
    using answer assms(2) by (auto simp: case_prod_beta r(2) usage_def split: if_splits)
  show "\<exists>x. (\<forall>d\<in>set dates. week_monday d = week_monday x) \<and>
        int (usage (eq_id e) (week_monday x) db + n) \<le> cap (eq_id e) (week_monday x) db1 \<and>
        qa_consumed answer = Some (usage (eq_id e) (week_monday x) db) \<and>
        snapshot_of (eq_id e) (week_monday x) db1 \<noteq> None"
    using one used consumed r(1) unfolding db1 by (intro exI [of _ ?x]) (simp add: cap_def list_ex_iff)
qed

definition snapshots_kept :: "quota_db \<Rightarrow> quota_db \<Rightarrow> bool" where
  "snapshots_kept db db' \<longleftrightarrow> (\<exists>new. qt_snapshots db' = qt_snapshots db @ new)"

lemma snapshots_kept_refl: "snapshots_kept db db"
  by (simp add: snapshots_kept_def)

lemma snapshots_kept_trans: "snapshots_kept a b \<Longrightarrow> snapshots_kept b c \<Longrightarrow> snapshots_kept a c"
  by (auto simp: snapshots_kept_def)

lemma ensure_snapshot_kept: "snapshots_kept db (fst (ensure_snapshot e d p db))"
  by (auto simp: ensure_snapshot_def Let_def snapshots_kept_def split: option.split)

lemma generate_due_inv:
  assumes "quota_inv db"
  shows "quota_inv (fst (generate_due_snapshots now setting db)) \<and> snapshots_kept db (fst (generate_due_snapshots now setting db))"
proof -
  let ?step = "\<lambda>(db, created) e. if snapshot_due now setting e
       then (let w2_start = week_monday (local_date now) + 14
             in (fst (ensure_snapshot e w2_start None db),
                 if snapshot_of (eq_id e) w2_start db = None then Suc created else created))
       else (db, created)"
  have "quota_inv (fst (foldl ?step (db', n) es)) \<and> snapshots_kept db (fst (foldl ?step (db', n) es))"
    if "quota_inv db'" "snapshots_kept db db'" for es db' n
    using that
  proof (induction es arbitrary: db' n)
    case (Cons e es)
    then show ?case
      using ensure_snapshot_inv snapshots_kept_trans [OF _ ensure_snapshot_kept] by (simp add: Let_def)
  qed simp
  from this [OF assms snapshots_kept_refl] show ?thesis by (simp add: generate_due_snapshots_def)
qed

lemma linked_book_slots:
  assumes "linked_bookings db"
  shows "linked_bookings (book_slots now b ids db)"
  using assms by (auto simp: linked_bookings_def book_slots_rows update_slot_def split: if_splits)

lemma book_within_cap:
  fixes db :: quota_db
  assumes inv: "quota_inv db"
    and check: "validate_external_booking u e (map ds_date (slots_chosen ids db)) (length (slots_chosen ids db)) None False db = (db1, answer)"
      "qa_allowed answer"
    and free: "free_on (eq_id e) ids db" and t: "u_type u = Some t" "bo_user_type b = Some t"
  shows "quota_inv (book_slots now b ids db1)" "snapshots_kept db (book_slots now b ids db1)"
proof -
  let ?db = "book_slots now b ids db1"
  obtain q where q: "db1 = db \<or> snapshot_of (qs_equipment q) (qs_week_start q) db = None \<and> 0 \<le> qs_max q \<and>
      qs_max q \<le> int (qs_total q) \<and> db1 = db\<lparr>qt_snapshots := qt_snapshots db @ [q]\<rparr>"
    using validate_result(1) [OF check] by blast
  then have inv1: "quota_inv db1" using inv append_snapshot_inv by blast
  have same: "slots_chosen ids db1 = slots_chosen ids db" "slot_equipment db1 = slot_equipment db" "usage e' m db1 = usage e' m db" for e' m
    using q by (auto simp: slots_chosen_def)
  have free1: "free_on (eq_id e) ids db1" using free by (simp add: free_on_def same)
  have linked: "linked_bookings db1" using inv1 by (simp add: quota_inv_def)
  let ?new = "\<lambda>e' m. filter (\<lambda>s. slot_equipment db1 s = Some e' \<and> m \<le> ds_date s \<and> ds_date s \<le> m + 6) (slots_chosen ids db1)"
  have "int (usage e' (week_monday d) ?db) \<le> cap e' (week_monday d) ?db" for e' d
  proof -
    have old: "int (usage e' (week_monday d) db1) \<le> cap e' (week_monday d) db1" using inv1 by (simp add: quota_inv_def)
    have cap: "cap e' (week_monday d) ?db = cap e' (week_monday d) db1" by (simp add: cap_def snapshot_of_def)
    show ?thesis
    proof (cases "counted_status b t \<and> ?new e' (week_monday d) \<noteq> []")
      case False
      then show ?thesis using old cap book_usage [OF linked free1 t(2)] by (auto split: if_splits)
    next
      case True
      then obtain s where s: "s \<in> set (slots_chosen ids db)" "slot_equipment db s = Some e'"
        "week_monday d \<le> ds_date s" "ds_date s \<le> week_monday d + 6"
        unfolding same by (auto simp: filter_empty_conv)
      have e': "e' = eq_id e" using s(1,2) free by (simp add: free_on_def list_all_iff)
      have "t \<in> get_external_user_codes" "length (slots_chosen ids db) \<noteq> 0" using True s(1) by (auto simp: counted_status_def)
      from validate_result(2) [OF check t(1) this] obtain x where x:
        "\<forall>d\<in>set (map ds_date (slots_chosen ids db)). week_monday d = week_monday x"
        "int (usage (eq_id e) (week_monday x) db + length (slots_chosen ids db)) \<le> cap (eq_id e) (week_monday x) db1" by blast
      have "week_monday d = week_monday x" using week_of_day [OF s(3,4)] x(1) s(1) by simp
      moreover have "usage e' (week_monday d) ?db = usage e' (week_monday d) db + length (?new e' (week_monday d))"
        using book_usage [OF linked free1 t(2)] True by (simp add: same)
      moreover have "length (?new e' (week_monday d)) \<le> length (slots_chosen ids db)"
        unfolding same by (rule length_filter_le)
      ultimately show ?thesis using x(2) unfolding cap unfolding e' by simp
    qed
  qed
  then show "quota_inv ?db"
    using inv1 linked_book_slots [OF linked] by (simp add: quota_inv_def snapshots_sane_def)
  show "snapshots_kept db ?db" using q by (auto simp: snapshots_kept_def)
qed

lemma counts_of_row:
  "counts_as_external db None s \<longleftrightarrow> ds_status s = SL_BOOKED \<and> (\<exists>i b. ds_booking s = Some i \<and>
     row_of bo_id i (bd_bookings db) = Some b \<and> bo_status b \<in> set external_usage_statuses \<and> bo_source b = None \<and> external_booking db b)"
  by (auto simp: counts_as_external_def split: option.split)

lemma shrinking_inv:
  assumes "quota_inv db" "linked_bookings db'" "qt_snapshots db' = qt_snapshots db" "\<And>e d. usage e d db' \<le> usage e d db"
  shows "quota_inv db' \<and> snapshots_kept db db'"
proof -
  have "int (usage e (week_monday d) db') \<le> cap e (week_monday d) db'" for e d
  proof -
    have "int (usage e (week_monday d) db') \<le> int (usage e (week_monday d) db)" using assms(4) by simp
    also have "\<dots> \<le> cap e (week_monday d) db" using assms(1) by (simp add: quota_inv_def)
    finally show ?thesis by (simp add: cap_def snapshot_of_def assms(3))
  qed
  then show ?thesis
    using assms(1-3) by (simp add: quota_inv_def snapshots_sane_def snapshots_kept_def)
qed

lemma give_back_inv:
  assumes "quota_inv db"
  shows "quota_inv (update_slots now P handed_back db) \<and> snapshots_kept db (update_slots now P handed_back db)"
proof -
  let ?db = "update_slots now P handed_back db"
  let ?f = "\<lambda>s. if P s then update_slot now handed_back s else s"
  have slots: "sl_slots ?db = map ?f (sl_slots db)"
    by (simp add: update_slots_def remember_booking_slot_ranges_def Let_def)
  have tables: "bd_bookings ?db = bd_bookings db" "bd_users ?db = bd_users db" "sl_masters ?db = sl_masters db"
    "qt_snapshots ?db = qt_snapshots db"
    by (simp_all add: update_slots_def remember_booking_slot_ranges_def Let_def)
  have "counts_as_external ?db None (?f s) \<Longrightarrow> counts_as_external db None s" for s
    unfolding counts_of_row external_booking_def booker_def tables by (auto simp: update_slot_def split: if_splits)
  then have "usage e d ?db \<le> usage e d db" for e d
    by (intro usage_mono [OF slots]) (auto simp: counted_def slot_equipment_def tables split: if_splits)
  moreover have "linked_bookings ?db"
    using assms by (auto simp: quota_inv_def linked_bookings_def slots tables update_slot_def split: if_splits)
  ultimately show ?thesis by (intro shrinking_inv [OF assms]) (simp_all add: tables)
qed

lemma set_status_inv:
  assumes "quota_inv db"
    and "st \<in> set external_usage_statuses \<Longrightarrow> \<exists>b. row_of bo_id i (bd_bookings db) = Some b \<and> bo_status b \<in> set external_usage_statuses"
  shows "quota_inv (set_booking_status i st db) \<and> snapshots_kept db (set_booking_status i st db)"
proof -
  let ?db = "set_booking_status i st db"
  have slots: "sl_slots ?db = map id (sl_slots db)" by (simp add: set_booking_status_def)
  have row: "row_of bo_id j (bd_bookings ?db) = (if i = j then map_option (\<lambda>b. b\<lparr>bo_status := st\<rparr>) (row_of bo_id j (bd_bookings db))
      else row_of bo_id j (bd_bookings db))" for j
    by (simp add: set_booking_status_def row_of_update_row)
  have ext: "external_booking ?db (b\<lparr>bo_status := st\<rparr>) = external_booking db b" "external_booking ?db b = external_booking db b"
    "external_booking db (b\<lparr>bo_status := st\<rparr>) = external_booking db b" for b
    by (simp_all add: external_booking_def booker_def set_booking_status_def split: option.split)
  have "counts_as_external db None s" if "counts_as_external ?db None s" for s
  proof -
    obtain j b where b: "ds_booking s = Some j" "row_of bo_id j (bd_bookings db) = Some b" "ds_status s = SL_BOOKED"
      and new: "bo_status (if i = j then b\<lparr>bo_status := st\<rparr> else b) \<in> set external_usage_statuses"
        "bo_source b = None" "external_booking db b"
      using \<open>counts_as_external ?db None s\<close> unfolding counts_of_row row by (auto simp: ext split: if_splits)
    have "bo_status b \<in> set external_usage_statuses"
      using new(1) assms(2) b(2) by (auto split: if_splits)
    then show ?thesis using b new unfolding counts_of_row by blast
  qed
  then have "usage e d ?db \<le> usage e d db" for e d
    by (intro usage_mono [OF slots]) (auto simp: counted_def slot_equipment_def set_booking_status_def)
  moreover have "linked_bookings ?db"
  proof -
    have "bo_id ` set (bd_bookings ?db) = bo_id ` set (bd_bookings db)"
      using update_row_keys [of bo_id "\<lambda>b. b\<lparr>bo_status := st\<rparr>" i "bd_bookings db", THEN arg_cong [of _ _ set]]
      by (simp add: set_booking_status_def)
    then show ?thesis using assms(1) by (simp add: quota_inv_def linked_bookings_def set_booking_status_def)
  qed
  moreover have "qt_snapshots ?db = qt_snapshots db" by (simp add: set_booking_status_def)
  ultimately show ?thesis by (intro shrinking_inv [OF assms(1)])
qed

interpretation quota: machine quota_step "\<lambda>db. quota_inv db \<and> snapshots_kept start db" for start
proof
  fix db db' assume inv: "quota_inv db \<and> snapshots_kept start db" and "quota_step db db'"
  from this(2) have "quota_inv db' \<and> snapshots_kept db db'"
  proof cases
    case (Book u e ids db1 answer t b now)
    then show ?thesis using book_within_cap [OF conjunct1 [OF inv] Book(2-6)] by simp
  next
    case (Close st i)
    then show ?thesis using set_status_inv [OF conjunct1 [OF inv], of st i] by simp
  next
    case (Complete i b)
    then show ?thesis
      using set_status_inv [OF conjunct1 [OF inv], of BO_COMPLETED i] by (simp add: external_usage_statuses_def)
  qed (use inv generate_due_inv ensure_snapshot_inv ensure_snapshot_kept give_back_inv set_status_inv in auto)
  then show "quota_inv db' \<and> snapshots_kept start db'" using inv snapshots_kept_trans by blast
qed

text \<open>
  C34: External users stay within their weekly quota. Start with slots linked to stored bookings and no
  external booking beyond its week's snapshot; then along any run in which every new booking has
  passed the check for its slots and is booked at once, and in which snapshots are taken and bookings are
  released, closed or completed in any order, the slots that external bookings hold in a week never
  exceed the maximum of its snapshot, and are none without one. A snapshot taken is never changed, and no
  maximum exceeds the slots that could be booked when it was taken.
\<close>

theorem external_quota_holds:
  assumes "quota_inv db" "quota_step\<^sup>*\<^sup>* db db'"
  shows "int (count_external_usage e (week_monday d) (week_monday d + 6) None db') \<le>
      (case snapshot_of e (week_monday d) db' of None \<Rightarrow> 0 | Some q \<Rightarrow> qs_max q) \<and>
    (\<exists>new. qt_snapshots db' = qt_snapshots db @ new) \<and>
    list_all (\<lambda>q. 0 \<le> qs_max q \<and> qs_max q \<le> int (qs_total q)) (qt_snapshots db')"
proof -
  have "quota_inv db' \<and> snapshots_kept db db'"
    using quota.run_inv [OF assms(2), of db] assms(1) snapshots_kept_refl by blast
  then show ?thesis
    by (simp add: quota_inv_def usage_def cap_def snapshots_kept_def snapshots_sane_def)
qed

lemma pay_booking:
  "set_booking_status (fresh_pk bo_id (bd_bookings db)) st (book_slots now b ids db) = book_slots now (b\<lparr>bo_status := st\<rparr>) ids db"
proof -
  let ?i = "fresh_pk bo_id (bd_bookings db)"
  have "bo_id r \<noteq> ?i" if "r \<in> set (bd_bookings db)" for r
    using that fresh_pk_notin [of bo_id "bd_bookings db"] by (metis imageI)
  then have "update_row bo_id ?i (\<lambda>b. b\<lparr>bo_status := st\<rparr>) (bd_bookings db @ [b\<lparr>bo_id := ?i\<rparr>]) =
      bd_bookings db @ [b\<lparr>bo_status := st, bo_id := ?i\<rparr>]"
    by (simp add: update_row_def map_idI)
  then show ?thesis
    by (cases db) (simp add: book_slots_def update_slots_def Let_def set_booking_status_def)
qed

lemma validate_passes:
  assumes "dates \<noteq> []" "\<forall>d\<in>set dates. week_monday d = m" "snapshot_of (eq_id e) m db = Some q"
    and "0 < qs_max q" "int (usage (eq_id e) m db + n) \<le> qs_max q"
  shows "qa_allowed (snd (validate_external_booking u e dates n None False db))"
proof (cases "(case u_type u of None \<Rightarrow> True | Some t \<Rightarrow> \<not> is_external_user t) \<or> False \<or> n = 0")
  case True
  then show ?thesis unfolding validate_external_booking_def if_P [OF True] by (simp add: unrestricted_def)
next
  case False
  have "week_monday (Min (set dates)) = m" using assms(1,2) by simp
  moreover from this have "\<not> list_ex (\<lambda>d. week_monday d \<noteq> week_monday (Min (set dates))) dates"
    using assms(2) by (simp add: list_ex_iff)
  ultimately show ?thesis
    using assms(3-5) unfolding validate_external_booking_def if_not_P [OF False] if_not_P [OF assms(1)] Let_def
      week_bounds_for_date_def fst_conv snd_conv by (simp add: usage_def)
qed

text \<open>
  C35: A booking that waits for its payment escapes the quota. After the check has let an external
  user book, and the booking has taken its slots with the status of an unpaid one, the same check for as
  many slots of that week is passed again, however often: the unpaid booking is not counted. Once it is
  paid its slots count on top of the others, and the quota can be exceeded.
\<close>

theorem unpaid_bookings_escape_quota:
  fixes db :: quota_db
  assumes linked: "linked_bookings db"
    and check: "validate_external_booking u e (map ds_date (slots_chosen ids db)) (length (slots_chosen ids db)) None False db = (db1, answer)"
      "qa_allowed answer"
    and t: "u_type u = Some t" "t \<in> get_external_user_codes" and some: "s \<in> set (slots_chosen ids db)"
    and free: "free_on (eq_id e) ids db"
    and unpaid: "bo_user_type b = Some t" "bo_status b = BO_PENDING_PAYMENT" "bo_source b = None"
    and again: "dates \<noteq> []" "\<forall>d\<in>set dates. week_monday d = week_monday (ds_date s)" "n \<le> length (slots_chosen ids db)"
  shows "qa_allowed (snd (validate_external_booking u e dates n None False (book_slots now b ids db1))) \<and>
    (\<exists>consumed. qa_consumed answer = Some consumed \<and>
      count_external_usage (eq_id e) (week_monday (ds_date s)) (week_monday (ds_date s) + 6) None
        (set_booking_status (fresh_pk bo_id (bd_bookings db1)) BO_BOOKED (book_slots now b ids db1)) =
      consumed + length (slots_chosen ids db))"
proof -
  let ?m = "week_monday (ds_date s)" and ?db = "book_slots now b ids db1"
  obtain q where q: "db1 = db \<or> db1 = db\<lparr>qt_snapshots := qt_snapshots db @ [q]\<rparr>"
    using validate_result(1) [OF check] by blast
  have same: "slots_chosen ids db1 = slots_chosen ids db" "slot_equipment db1 = slot_equipment db" "usage e' m db1 = usage e' m db"
    "linked_bookings db1" for e' m using q linked by (auto simp: slots_chosen_def)
  have free1: "free_on (eq_id e) ids db1" using free by (simp add: free_on_def same)
  have "length (slots_chosen ids db) \<noteq> 0" using some by auto
  from validate_result(2) [OF check t this] obtain x where x:
    "\<forall>d\<in>set (map ds_date (slots_chosen ids db)). week_monday d = week_monday x"
    "int (usage (eq_id e) (week_monday x) db + length (slots_chosen ids db)) \<le> cap (eq_id e) (week_monday x) db1"
    "qa_consumed answer = Some (usage (eq_id e) (week_monday x) db)" "snapshot_of (eq_id e) (week_monday x) db1 \<noteq> None" by blast
  have week: "week_monday x = ?m" using x(1) some by simp
  note x = x [unfolded week]
  obtain q where snap: "snapshot_of (eq_id e) ?m db1 = Some q" using x(4) by blast
  then have snap': "snapshot_of (eq_id e) ?m ?db = Some q" by (simp add: snapshot_of_def)
  have "\<not> counted_status b t" using unpaid(2) by (simp add: counted_status_def external_usage_statuses_def)
  then have uncounted: "usage (eq_id e) ?m ?db = usage (eq_id e) ?m db"
    using book_usage [OF same(4) free1 unpaid(1)] by (simp add: same(3))
  have room: "int (usage (eq_id e) ?m db + length (slots_chosen ids db)) \<le> qs_max q" "0 < length (slots_chosen ids db)"
    using x(2) snap some by (auto simp: cap_def)
  have "qa_allowed (snd (validate_external_booking u e dates n None False ?db))"
  proof (rule validate_passes [OF again(1,2) snap'])
    show "0 < qs_max q" using room by linarith
    show "int (usage (eq_id e) ?m ?db + n) \<le> qs_max q" using room(1) again(3) uncounted by linarith
  qed
  moreover have "usage (eq_id e) ?m (set_booking_status (fresh_pk bo_id (bd_bookings db1)) BO_BOOKED ?db) =
      usage (eq_id e) ?m db + length (slots_chosen ids db)"
  proof -
    have "?m \<le> ds_date r \<and> ds_date r \<le> ?m + 6 \<and> slot_equipment db r = Some (eq_id e)" if "r \<in> set (slots_chosen ids db)" for r
      using that x(1) free weekday_range [of "ds_date r"]
      by (auto simp: free_on_def list_all_iff week_monday_def [of "ds_date r"])
    then have "filter (\<lambda>r. slot_equipment db r = Some (eq_id e) \<and> ?m \<le> ds_date r \<and> ds_date r \<le> ?m + 6) (slots_chosen ids db) = slots_chosen ids db"
      by (simp add: filter_id_conv)
    moreover have "counted_status (b\<lparr>bo_status := BO_BOOKED\<rparr>) t"
      using t unpaid(3) by (simp add: counted_status_def external_usage_statuses_def)
    moreover have "bo_user_type (b\<lparr>bo_status := BO_BOOKED\<rparr>) = Some t" by (simp add: unpaid(1))
    ultimately show ?thesis
      using book_usage [OF same(4) free1, of "b\<lparr>bo_status := BO_BOOKED\<rparr>" t "eq_id e" ?m now]
      by (simp add: pay_booking same)
  qed
  ultimately show ?thesis using x(3) by (simp add: usage_def)
qed

text \<open>An instrument with four free slots in a week, half of which external users may book.\<close>

definition nmr :: bookable where
  "nmr = \<lparr>eq_id = 5, eq_status = EQ_ACTIVE, eq_external_percent = 50, be_exchange = False, be_group = None,
     be_weekday = Some 2, be_time = Some 75600, be_department = None, be_profile = None, be_duration = 60,
     be_tolerance = 0, be_threshold = 48\<rparr>"

definition company :: user where
  "company = \<lparr>u_id = 3, u_name = ''Company'', u_email = ''c@x.com'', u_type = Some RND, u_is_active = True,
     u_department = None, u_joining_date = None, u_force_inactive = False, u_degree = None, u_is_superuser = False\<rparr>"

definition quota_demo :: quota_db where
  "quota_demo =
     \<lparr>sl_masters = [\<lparr>sm_id = 1, sm_equipment = Some 5, sm_number = 1, sm_name = [], sm_open = 36000, sm_close = 39600, sm_active = True\<rparr>],
      sl_slots = map (\<lambda>(i, d). \<lparr>ds_id = i, ds_master = 1, ds_date = int d, ds_start = local_instant (int d) 36000,
          ds_end = local_instant (int d) 39600, ds_status = SL_AVAILABLE, ds_label = None, ds_reference = None,
          ds_booking = None, ds_released = None\<rparr>) [(1, 11), (2, 12), (3, 13), (4, 14)],
      sl_holidays = [], sl_rules = [], sl_links = [], sl_ranges = Map.empty, bd_users = [company], bd_bookings = [],
      bd_equipment = [nmr], bd_traces = [], qt_snapshots = []\<rparr>"

definition measurement :: "booking_status \<Rightarrow> booking" where
  "measurement st = \<lparr>bo_id = 0, bo_user = 3, bo_equipment = 5, bo_profile = 1, bo_user_type = Some RND, bo_charge = 500000,
     bo_inputs = [], bo_status = st, bo_source = None, bo_minutes = 60, bo_applied = 0, bo_due = 0,
          bo_pending = None, bo_deadline = None, bo_snapshot = None, bo_disrupted = False, bo_disruption = None, bo_release = None,
          bo_rejected = None, bo_rescheduled = None\<rparr>"

abbreviation checked :: "quota_db \<times> quota_answer" where
  "checked \<equiv> validate_external_booking company nmr (map ds_date (slots_chosen [1, 2] quota_demo))
     (length (slots_chosen [1, 2] quota_demo)) None False quota_demo"

lemma quota_demo_ok:
  "list_all (\<lambda>s. ds_booking s = None) (sl_slots quota_demo)" "free_on (eq_id nmr) [1, 2] quota_demo" "qa_allowed (snd checked)"
  "u_type company = Some RND" "RND \<in> get_external_user_codes" "bo_user_type (measurement st) = Some RND"
  "length (slots_chosen [1, 2] quota_demo) = 2" "qa_consumed (snd checked) = Some 0"
  "map_option qs_max (snapshot_of 5 11 (fst checked)) = Some 2" "week_monday 11 = 11" "ds_date (hd (slots_chosen [1, 2] quota_demo)) = 11"
  by code_simp+

lemma quota_demo_linked: "linked_bookings quota_demo"
  using quota_demo_ok(1) by (simp add: linked_bookings_def list_all_iff)

lemma quota_demo_inv: "quota_inv quota_demo"
proof -
  have "usage e d quota_demo = 0" for e d
    using quota_demo_ok(1) by (simp add: usage_counted counted_def counts_as_external_def filter_empty_conv list_all_iff)
  then show ?thesis
    using quota_demo_linked by (simp add: quota_inv_def snapshots_sane_def cap_def snapshot_of_def quota_demo_def)
qed

theorem external_quota_holds_witness:
  "count_external_usage 5 11 17 None (book_slots 7 (measurement BO_BOOKED) [1, 2] (fst checked)) \<le> 2"
proof -
  have "quota_step quota_demo (book_slots 7 (measurement BO_BOOKED) [1, 2] (fst checked))"
    by (rule quota_step.Book [OF prod.collapse [symmetric] quota_demo_ok(3,2,4,6)])
      (simp_all add: measurement_def nmr_def)
  then have run: "quota_step\<^sup>*\<^sup>* quota_demo (book_slots 7 (measurement BO_BOOKED) [1, 2] (fst checked))" by blast
  have "snapshot_of 5 11 (book_slots 7 (measurement BO_BOOKED) [1, 2] (fst checked)) = snapshot_of 5 11 (fst checked)"
    by (simp add: snapshot_of_def)
  moreover obtain q where "snapshot_of 5 11 (fst checked) = Some q" "qs_max q = 2" using quota_demo_ok(9) by auto
  ultimately show ?thesis
    using external_quota_holds [OF quota_demo_inv run, of 5 11] quota_demo_ok(10) by simp
qed

theorem unpaid_bookings_escape_quota_witness:
  "qa_allowed (snd (validate_external_booking company nmr [13, 14] 2 None False
     (book_slots 7 (measurement BO_PENDING_PAYMENT) [1, 2] (fst checked))))"
proof -
  have s: "hd (slots_chosen [1, 2] quota_demo) \<in> set (slots_chosen [1, 2] quota_demo)"
    using quota_demo_ok(7) by (cases "slots_chosen [1, 2] quota_demo") auto
  have weeks: "\<forall>d\<in>set [13, 14]. week_monday d = week_monday (ds_date (hd (slots_chosen [1, 2] quota_demo)))"
    unfolding quota_demo_ok(11) by code_simp
  show ?thesis
    using unpaid_bookings_escape_quota [OF quota_demo_linked prod.collapse [symmetric] quota_demo_ok(3-5) s quota_demo_ok(2,6)
        _ _ _ weeks, of BO_PENDING_PAYMENT 2 7] quota_demo_ok(7) by (simp add: measurement_def)
qed

end
