(* ===== verification/Booking_Cancel.thy ===== *)
theory Booking_Cancel
  imports Sub_Wallets Numbering Bookings "HOL-Library.AList"
begin

text \<open>
  Cancelling a booking, in full or in part, with or without a refund:
  \<^verbatim>\<open>equipment/booking_cancellation.py\<close>, the amounts of \<^verbatim>\<open>equipment/booking_paid_amount.py\<close>, the payment
  window of unpaid edits (\<^verbatim>\<open>equipment/input_edit_payment_window.py\<close>) and the two views
  \<^verbatim>\<open>cancel_booking\<close> and \<^verbatim>\<open>user_cancel_booking\<close>. A cancellation works on the slots and bookings and on
  the wallets, whose tables are a field of the database here. What the calculators answer about
  reduced inputs is the parameter \<open>pricing\<close>; notes, events, mails and the reward points given back are
  not modelled.
\<close>

record desk_db = booking_db +
  dk_wallets :: wallet_db

datatype cancel_error =
    No_Slots_Booked | Foreign_Slot | Slots_Not_A_List | Nothing_Selected | Slot_Started | Invalid_Selection
  | Select_Fewer | Use_Reduction | Not_Sample_Based | Bad_Field_Key | Not_Whole_Number | Not_Reduced
  | Below_One | Time_Unknown | No_Time_Left | More_Slots_Needed | Charge_Unknown | Not_Printing
  | Print_Ids_Only | Print_Refused | Both_Given | Laser_In_Full | Partial_Disrupted | Extra_Not_Settled
  | Booking_Unknown | Out_Of_Scope | Not_Own_Booking | Repeat_Sample | Already booking_status
  | Wrong_Status booking_status | Sample_Locked | Start_Unknown | Cutoff_Passed | Broken_Reference
  | Raised exn

subsection \<open>What was paid\<close>

definition pending_charge_difference :: "booking \<Rightarrow> paise option" where
  "pending_charge_difference b = (case bo_pending b of None \<Rightarrow> None | Some p \<Rightarrow> if p = 0 then None else Some p)"

definition booking_paid_charge :: "booking \<Rightarrow> paise" where
  "booking_paid_charge b = (case pending_charge_difference b of
     None \<Rightarrow> bo_charge b
   | Some p \<Rightarrow> max 0 (bo_charge b - p))"

definition has_payment_window :: "booking \<Rightarrow> bool" where
  "has_payment_window b = (bo_deadline b \<noteq> None \<and> bo_snapshot b \<noteq> None)"

definition clear_payment_window :: "booking \<Rightarrow> booking" where
  "clear_payment_window b = b\<lparr>bo_deadline := None, bo_snapshot := None\<rparr>"

definition clear_pending_charge_difference :: "booking \<Rightarrow> booking" where
  "clear_pending_charge_difference b = clear_payment_window (b\<lparr>bo_pending := None\<rparr>)"

definition drop_unpaid_extra :: "booking \<Rightarrow> booking" where
  "drop_unpaid_extra b = (case pending_charge_difference b of
     None \<Rightarrow> b
   | Some p \<Rightarrow> if p < 0 then b else clear_pending_charge_difference b)"

definition net_refund_against_unpaid_extra :: "booking \<Rightarrow> paise \<Rightarrow> paise \<times> paise option" where
  "net_refund_against_unpaid_extra b amount =
     (let refund = max 0 amount in
      case pending_charge_difference b of
        None \<Rightarrow> (refund, None)
      | Some p \<Rightarrow> if p < 0 then (refund, Some p)
          else let offset = min refund p in (refund - offset, if 0 < p - offset then Some (p - offset) else None))"

subsection \<open>Unpaid edits\<close>

text \<open>
  An edit of the inputs that raises the charge keeps the state before it until the extra amount is
  paid; when the payment window is over the booking is set back to that state. The design files that
  are put back with it are not modelled. \<open>recharged\<close> is the part of
  \<^verbatim>\<open>_recalculate_booking_charge_and_adjust_wallet\<close> that writes the booking: what was paid is the charge less the
  difference still open, rounded to the rupee.
\<close>

definition snapshot_booking_charge_state :: "booking \<Rightarrow> charge_state" where
  "snapshot_booking_charge_state b =
     \<lparr>cs_inputs = bo_inputs b, cs_charge = bo_charge b, cs_minutes = bo_minutes b, cs_pending = bo_pending b\<rparr>"

definition payment_window_expired :: "timestamp \<Rightarrow> booking \<Rightarrow> bool" where
  "payment_window_expired now b = (bo_snapshot b \<noteq> None \<and>
     (case bo_deadline b of None \<Rightarrow> False | Some t \<Rightarrow> t + 5 < now))"

definition quantize_rupees :: "paise \<Rightarrow> paise" where
  "quantize_rupees a = 100 * round_half_up (of_int a / 100)"

text \<open>The amount a new charge is compared with.\<close>

definition charge_so_far :: "booking \<Rightarrow> paise" where
  "charge_so_far b = (case bo_pending b of None \<Rightarrow> bo_charge b | Some p \<Rightarrow> quantize_rupees (bo_charge b - p))"

definition recharged ::
  "timestamp \<Rightarrow> charge_state option \<Rightarrow> paise \<Rightarrow> int \<Rightarrow> booking \<Rightarrow> booking" where
  "recharged now window new_charge new_minutes b =
     (let diff = new_charge - charge_so_far b;
          b1 = b\<lparr>bo_minutes := new_minutes, bo_charge := new_charge,
                 bo_pending := (if diff = 0 then None else Some diff)\<rparr>
      in if window \<noteq> None \<and> 0 < diff
         then b1\<lparr>bo_snapshot := (case bo_snapshot b of None \<Rightarrow> window | Some s \<Rightarrow> Some s), bo_deadline := Some (now + 60)\<rparr>
         else clear_payment_window b1)"

text \<open>An edit by the user who made the booking.\<close>

definition edit_inputs :: "timestamp \<Rightarrow> booking_inputs \<Rightarrow> paise \<Rightarrow> int \<Rightarrow> booking \<Rightarrow> booking" where
  "edit_inputs now inputs new_charge new_minutes b =
     recharged now (Some (snapshot_booking_charge_state b)) new_charge new_minutes (b\<lparr>bo_inputs := inputs\<rparr>)"

definition reverted :: "booking \<Rightarrow> booking" where
  "reverted b = (case bo_snapshot b of None \<Rightarrow> b | Some s \<Rightarrow>
     clear_payment_window (b\<lparr>bo_inputs := cs_inputs s, bo_charge := cs_charge s, bo_minutes := cs_minutes s,
       bo_pending := cs_pending s\<rparr>))"

definition revert_unpaid_input_edit :: "timestamp \<Rightarrow> bool \<Rightarrow> ident \<Rightarrow> 'z booking_db_scheme \<Rightarrow> 'z booking_db_scheme" where
  "revert_unpaid_input_edit now only_expired i db = (case row_of bo_id i (bd_bookings db) of
     None \<Rightarrow> db
   | Some b \<Rightarrow>
       if \<not> has_payment_window b \<or> only_expired \<and> \<not> payment_window_expired now b then db
       else db\<lparr>bd_bookings := update_row bo_id i (\<lambda>_.
         if (case bo_pending b of None \<Rightarrow> True | Some p \<Rightarrow> p \<le> 0) then clear_payment_window b else reverted b)
         (bd_bookings db)\<rparr>)"

definition expire_unpaid_input_edits :: "timestamp \<Rightarrow> timestamp \<Rightarrow> 'z booking_db_scheme \<Rightarrow> 'z booking_db_scheme" where
  "expire_unpaid_input_edits now clock db =
     (let overdue = filter (\<lambda>b. case bo_deadline b of None \<Rightarrow> False | Some t \<Rightarrow> t < now - 5) (bd_bookings db)
      in fold (\<lambda>b. revert_unpaid_input_edit clock True (bo_id b)) (take 500 overdue) db)"


subsection \<open>The plan of a partial cancellation\<close>

text \<open>
  What the calculators answer: the inputs cut to the linked tables and made safe for the formulas, a
  field as a whole number, the minutes and the charge (with taxes and material) of given inputs, and
  the plan of dropping files of a printing job.
\<close>

record cancel_plan =
  cp_keep :: "daily_slot list"
  cp_release :: "daily_slot list"
  cp_inputs :: booking_inputs
  cp_minutes :: int
  cp_charge :: paise
  cp_refund :: paise
  cp_pending :: "paise option"

record pricing =
  pc_trim :: "booking \<Rightarrow> booking_inputs \<Rightarrow> booking_inputs"
  pc_safe :: "bookable \<Rightarrow> booking_inputs \<Rightarrow> booking_inputs"
  pc_number :: "string \<Rightarrow> int option"
  pc_time :: "booking \<Rightarrow> booking_inputs \<Rightarrow> int \<Rightarrow> int option"
  pc_charge :: "booking \<Rightarrow> booking_inputs \<Rightarrow> int \<Rightarrow> paise option"
  pc_print :: "booking \<Rightarrow> string list \<Rightarrow> cancel_plan option"

definition slots_needed_for_analysis_time :: "int \<Rightarrow> int \<Rightarrow> int \<Rightarrow> nat" where
  "slots_needed_for_analysis_time analysis duration tolerance =
     (let adjusted = max 0 analysis - max 0 tolerance in
      if max 0 analysis \<le> 0 then 0 else if max 0 duration \<le> 0 then 1 else if adjusted \<le> 0 then 1
      else nat (max 1 (- ((- adjusted) div duration))))"

definition partial_cancel_uses_input_reduction :: "profile_type option \<Rightarrow> bool" where
  "partial_cancel_uses_input_reduction p = (p \<in> {Some Sample_Based, Some Sample_Element, Some Multi_Param})"

definition ordered_slots :: "'z booking_db_scheme \<Rightarrow> booking \<Rightarrow> daily_slot list" where
  "ordered_slots db b = sort_key ds_start (daily_slots db (bo_id b))"

definition booking_slot_duration :: "'z booking_db_scheme \<Rightarrow> bookable \<Rightarrow> booking \<Rightarrow> int" where
  "booking_slot_duration db e b =
     (if 0 < be_duration e then be_duration e
      else case ordered_slots db b of [] \<Rightarrow> 60 | s # _ \<Rightarrow> slot_minutes s)"

text \<open>The keys of the fields are ASCII.\<close>

definition field_key :: "string \<Rightarrow> bool" where
  "field_key k = (case k of [c] \<Rightarrow> (let n = (of_char c :: nat) in 65 \<le> n \<and> n \<le> 90 \<or> 97 \<le> n \<and> n \<le> 122) | _ \<Rightarrow> False)"

definition upper_key :: "string \<Rightarrow> string" where
  "upper_key k = map (\<lambda>c. let n = (of_char c :: nat) in if 97 \<le> n \<and> n \<le> 122 then char_of (n - 32) else c) k"

definition merge_reduced_input_values :: "pricing \<Rightarrow> booking \<Rightarrow> booking_inputs \<Rightarrow> cancel_error + booking_inputs" where
  "merge_reduced_input_values pc b reduced =
     and_then (ensure (list_all (\<lambda>(k, v). field_key k) reduced) Bad_Field_Key) (\<lambda>_.
     Inr (pc_trim pc b (fold (\<lambda>(k, v). AList.update (upper_key k) v) reduced (bo_inputs b))))"

definition field_number :: "pricing \<Rightarrow> booking_inputs \<Rightarrow> int option" where
  "field_number pc inputs = (case map_of inputs ''A'' of None \<Rightarrow> Some 0 | Some v \<Rightarrow> pc_number pc v)"

text \<open>The revised charge, and what is given back after settling an extra amount not paid yet.\<close>

definition priced_plan ::
  "pricing \<Rightarrow> bookable \<Rightarrow> booking \<Rightarrow> daily_slot list \<times> daily_slot list \<Rightarrow> booking_inputs \<Rightarrow> int \<Rightarrow>
   cancel_error + cancel_plan" where
  "priced_plan pc e b slots inputs minutes = (case pc_charge pc b (pc_safe pc e inputs) minutes of
     None \<Rightarrow> Inl Charge_Unknown
   | Some new_charge \<Rightarrow>
       (let (refund, pending) = net_refund_against_unpaid_extra b (max 0 (bo_charge b - new_charge))
        in Inr \<lparr>cp_keep = fst slots, cp_release = snd slots, cp_inputs = inputs, cp_minutes = minutes,
          cp_charge = new_charge, cp_refund = refund, cp_pending = pending\<rparr>))"

definition reduction_plan ::
  "pricing \<Rightarrow> bookable \<Rightarrow> booking \<Rightarrow> booking_inputs \<Rightarrow> 'z booking_db_scheme \<Rightarrow> cancel_error + cancel_plan" where
  "reduction_plan pc e b reduced db =
     (let all_slots = ordered_slots db b; duration = booking_slot_duration db e b in
     and_then (ensure (all_slots \<noteq> []) No_Slots_Booked) (\<lambda>_.
     and_then (ensure (partial_cancel_uses_input_reduction (be_profile e)) Not_Sample_Based) (\<lambda>_.
     and_then (merge_reduced_input_values pc b reduced) (\<lambda>merged.
     let safe = pc_safe pc e merged in
     case (field_number pc (bo_inputs b), field_number pc safe) of
       (Some current_val, Some new_val) \<Rightarrow>
         and_then (ensure (new_val < current_val) Not_Reduced) (\<lambda>_.
         and_then (ensure (1 \<le> new_val) Below_One) (\<lambda>_.
         case pc_time pc b safe duration of None \<Rightarrow> Inl Time_Unknown | Some new_time \<Rightarrow>
         and_then (ensure (0 < new_time) No_Time_Left) (\<lambda>_.
         let needed = slots_needed_for_analysis_time new_time duration (be_tolerance e) in
         and_then (ensure (needed \<le> length all_slots) More_Slots_Needed) (\<lambda>_.
         priced_plan pc e b (take needed all_slots, drop needed all_slots)
           (case map_of safe ''A'' of None \<Rightarrow> bo_inputs b | Some v \<Rightarrow> AList.update ''A'' v (bo_inputs b)) new_time))))
     | _ \<Rightarrow> Inl Not_Whole_Number))))"

definition slots_plan ::
  "pricing \<Rightarrow> bookable \<Rightarrow> booking \<Rightarrow> ident list \<Rightarrow> 'z booking_db_scheme \<Rightarrow> cancel_error + cancel_plan" where
  "slots_plan pc e b ids db =
     (let all_slots = ordered_slots db b; keep = filter (\<lambda>s. ds_id s \<notin> set ids) all_slots;
          keep_time = sum_list (map slot_minutes keep);
          counted = AList.update ''B'' (decimal (length keep)) (bo_inputs b) in
     and_then (ensure (all_slots \<noteq> []) No_Slots_Booked) (\<lambda>_.
     and_then (ensure (\<not> partial_cancel_uses_input_reduction (be_profile e)) Use_Reduction) (\<lambda>_.
     and_then (ensure (ids \<noteq> [] \<and> set ids \<subseteq> set (map ds_id all_slots)) Invalid_Selection) (\<lambda>_.
     and_then (ensure (length (remdups ids) < length all_slots) Select_Fewer) (\<lambda>_.
     let slots = (keep, filter (\<lambda>s. ds_id s \<in> set ids) all_slots) in
     if be_profile e = Some Hour_Based
     then priced_plan pc e b slots counted (case pc_time pc b (pc_safe pc e counted) (booking_slot_duration db e b) of
       None \<Rightarrow> keep_time | Some t \<Rightarrow> t)
     else priced_plan pc e b slots (bo_inputs b) keep_time)))))"

subsection \<open>The request\<close>

datatype slots_field = No_List | Bad_Items | Ids "ident list"

record cancel_data =
  rq_files :: "string list option"
  rq_reduced :: "booking_inputs option"
  rq_slots :: "slots_field option"

definition parse_cancellation_slot_ids :: "slots_field \<Rightarrow> booking \<Rightarrow> 'z booking_db_scheme \<Rightarrow> cancel_error + ident list" where
  "parse_cancellation_slot_ids raw b db =
     (let all_ids = map ds_id (daily_slots db (bo_id b)) in
      case raw of
        No_List \<Rightarrow> Inl Slots_Not_A_List
      | Bad_Items \<Rightarrow> Inl Slots_Not_A_List
      | Ids ids \<Rightarrow> and_then (ensure (ids \<noteq> []) Nothing_Selected) (\<lambda>_.
          and_then (ensure (list_all (\<lambda>i. i \<in> set all_ids) ids) Foreign_Slot) (\<lambda>_. Inr ids)))"

definition parse_cancellation_request ::
  "pricing \<Rightarrow> bookable \<Rightarrow> cancel_data \<Rightarrow> booking \<Rightarrow> 'z booking_db_scheme \<Rightarrow>
   cancel_error + ident list \<times> cancel_plan option" where
  "parse_cancellation_request pc e data b db =
     (let all_ids = map ds_id (daily_slots db (bo_id b)) in
     and_then (ensure (all_ids \<noteq> []) No_Slots_Booked) (\<lambda>_.
     case rq_files data of
       Some files \<Rightarrow>
         and_then (ensure (be_profile e = Some Print_3D) Not_Printing) (\<lambda>_.
         and_then (ensure (rq_slots data = None \<and> rq_reduced data = None) Print_Ids_Only) (\<lambda>_.
         case pc_print pc b files of None \<Rightarrow> Inl Print_Refused
         | Some plan \<Rightarrow> Inr (map ds_id (cp_release plan), Some plan)))
     | None \<Rightarrow> (case rq_reduced data of
       Some reduced \<Rightarrow>
         and_then (ensure (rq_slots data = None) Both_Given) (\<lambda>_.
         and_then (reduction_plan pc e b reduced db) (\<lambda>plan.
         Inr (if cp_keep plan = [] then (all_ids, None) else (map ds_id (cp_release plan), Some plan))))
     | None \<Rightarrow> (case rq_slots data of
       None \<Rightarrow> Inr (all_ids, None)
     | Some raw \<Rightarrow>
         and_then (parse_cancellation_slot_ids raw b db) (\<lambda>ids.
         if set ids = set all_ids then Inr (ids, None) else
         and_then (ensure (be_profile e \<noteq> Some Laser_Cut_2D) Laser_In_Full) (\<lambda>_.
         and_then (ensure (\<not> partial_cancel_uses_input_reduction (be_profile e)) Use_Reduction) (\<lambda>_.
         and_then (slots_plan pc e b ids db) (\<lambda>plan. Inr (ids, Some plan)))))))))"

definition validate_slots_for_cancellation ::
  "timestamp \<Rightarrow> bool \<Rightarrow> ident list \<Rightarrow> booking \<Rightarrow> 'z booking_db_scheme \<Rightarrow> cancel_error + daily_slot list" where
  "validate_slots_for_cancellation now allow_started ids b db =
     (let slots = filter (\<lambda>s. ds_id s \<in> set ids) (ordered_slots db b) in
     and_then (ensure (length slots = length (remdups ids)) Foreign_Slot) (\<lambda>_.
     and_then (ensure (allow_started \<or> \<not> list_ex (\<lambda>s. ds_start s \<le> now) slots) Slot_Started) (\<lambda>_.
     Inr slots)))"

text \<open>
  \<^verbatim>\<open>calculate_refund_for_cancelled_slots\<close> where \<^verbatim>\<open>perform_booking_cancellation\<close> asks it: all slots are
  cancelled, or none; the equal shares of a part are never asked for.
\<close>

definition calculate_refund_for_cancelled_slots :: "booking \<Rightarrow> daily_slot list \<Rightarrow> 'z booking_db_scheme \<Rightarrow> paise" where
  "calculate_refund_for_cancelled_slots b cancelled db =
     (if daily_slots db (bo_id b) = [] \<or> cancelled = [] then 0 else bo_charge b)"

subsection \<open>Releasing and paying back\<close>

definition released_slot_status_after_booking_freed :: "bookable \<Rightarrow> slot_status" where
  "released_slot_status_after_booking_freed e =
     (if eq_status e \<in> {EQ_REPAIR, EQ_INACTIVE, EQ_MAINTENANCE} then SL_UNDER_MAINTENANCE else SL_AVAILABLE)"

definition effective_slot_status_when_freeing :: "bookable \<Rightarrow> booking \<Rightarrow> slot_status" where
  "effective_slot_status_when_freeing e b =
     (if bo_release b = Some SL_UNDER_MAINTENANCE then SL_UNDER_MAINTENANCE
      else if bo_release b = Some SL_OPERATOR_ABSENT then SL_OPERATOR_ABSENT
      else released_slot_status_after_booking_freed e)"

definition lab_disruption_active :: "booking \<Rightarrow> bool" where
  "lab_disruption_active b = (bo_status b = BO_DISRUPTION_PENDING \<or> bo_disrupted b)"

definition free_slots ::
  "timestamp \<Rightarrow> slot_status \<Rightarrow> ident list \<Rightarrow> booking \<Rightarrow> 'z booking_db_scheme \<Rightarrow> 'z booking_db_scheme" where
  "free_slots now status ids b db =
     (if ids = [] then db else update_slots now (\<lambda>s. ds_id s \<in> set ids \<and> ds_booking s = Some (bo_id b))
       \<lparr>up_status = Some status, up_label = None, up_reference = None, up_booking = Some None, up_released = None\<rparr> db)"

text \<open>The sub-wallet that pays for the bookings of a user on an equipment; it is created when it is missing.\<close>

definition wallet_target :: "user \<Rightarrow> bookable \<Rightarrow> 'z desk_db_scheme \<Rightarrow> 'z desk_db_scheme \<times> sub_wallet option" where
  "wallet_target u e db =
     (let (w, t) = get_booking_wallet_target u (be_department e) (dk_wallets db) in (db\<lparr>dk_wallets := w\<rparr>, t))"

definition pay_back ::
  "timestamp \<Rightarrow> user \<Rightarrow> string \<Rightarrow> sub_wallet \<Rightarrow> paise \<Rightarrow> 'z desk_db_scheme \<Rightarrow> cancel_error + 'z desk_db_scheme \<times> bool" where
  "pay_back now u description target amount db =
     (if amount \<le> 0 then Inr (db, False) else
      case credit now (sw_id target) amount description (Some (u_id u)) (dk_wallets db) of
        Inl x \<Rightarrow> Inl (Raised x)
      | Inr (w, t) \<Rightarrow> Inr (db\<lparr>dk_wallets := w\<rparr>, True))"

text \<open>Minutes and charge of what is left, cut to the slots still held.\<close>

definition remaining_slot_minutes :: "'z booking_db_scheme \<Rightarrow> booking \<Rightarrow> int" where
  "remaining_slot_minutes db b = max 0 (sum_list (map slot_minutes (daily_slots db (bo_id b))))"

definition sync_booking_quota_fields :: "'z booking_db_scheme \<Rightarrow> int \<Rightarrow> paise \<Rightarrow> booking \<Rightarrow> booking" where
  "sync_booking_quota_fields db planned_minutes planned_charge b =
     (let before_cap = max 0 planned_minutes; charge = max 0 planned_charge;
          slot_mins = remaining_slot_minutes db b;
          after_cap = (if 0 < slot_mins then min before_cap slot_mins else before_cap)
      in b\<lparr>bo_minutes := after_cap,
           bo_charge := (if 0 < before_cap \<and> after_cap < before_cap
             then round_half_even (of_int charge * of_int after_cap / of_int before_cap) else charge)\<rparr>)"

subsection \<open>The cancellation\<close>

record cancel_result =
  cr_full :: bool
  cr_slots :: "ident list"
  cr_refund :: paise
  cr_credited :: bool
  cr_status :: booking_status

definition refunded_status :: "booking \<Rightarrow> booking_status" where
  "refunded_status b =
     (if bo_status b \<noteq> BO_DISRUPTION_PENDING then BO_REFUNDED
      else if bo_disruption b = Some DK_OPERATOR_ABSENT then BO_ABSENT
      else if bo_disruption b = Some DK_OTHER_DISRUPTION then BO_OTHER_DISRUPTION else BO_UNDER_MAINTENANCE)"

definition clear_disruption_policy_fields :: "booking \<Rightarrow> booking" where
  "clear_disruption_policy_fields b = b\<lparr>bo_disrupted := False, bo_disruption := None, bo_release := None\<rparr>"

text \<open>
  The partial cancellation saves the columns it has changed, after the slots are released;
  the full one saves the whole row. \<open>description\<close> is the text of the wallet transaction.
\<close>

definition revise_booking :: "bool \<Rightarrow> cancel_plan \<Rightarrow> booking \<Rightarrow> 'z booking_db_scheme \<Rightarrow> booking" where
  "revise_booking should_refund plan b db =
     (let b1 = sync_booking_quota_fields db (cp_minutes plan) (cp_charge plan) (b\<lparr>bo_inputs := cp_inputs plan\<rparr>)
      in if \<not> should_refund then b1
         else case cp_pending plan of None \<Rightarrow> clear_pending_charge_difference b1 | Some p \<Rightarrow> b1\<lparr>bo_pending := Some p\<rparr>)"

definition save_booking_row :: "booking \<Rightarrow> 'z booking_db_scheme \<Rightarrow> 'z booking_db_scheme" where
  "save_booking_row b db = db\<lparr>bd_bookings := update_row bo_id (bo_id b) (\<lambda>_. b) (bd_bookings db)\<rparr>"

definition cancel_part ::
  "timestamp \<Rightarrow> bool \<Rightarrow> string \<Rightarrow> user \<Rightarrow> bookable \<Rightarrow> booking \<Rightarrow> ident list \<Rightarrow> cancel_plan \<Rightarrow> 'z desk_db_scheme \<Rightarrow>
   cancel_error + 'z desk_db_scheme \<times> cancel_result" where
  "cancel_part now should_refund description u e b ids plan db =
     (let db1 = save_booking_row (revise_booking should_refund plan b db) db;
          refund = (if should_refund then cp_refund plan else 0);
          result = \<lparr>cr_full = False, cr_slots = ids, cr_refund = refund, cr_credited = False, cr_status = bo_status b\<rparr>
      in if refund \<le> 0 then Inr (db1, result)
         else case wallet_target u e db1 of
           (db2, None) \<Rightarrow> Inr (db2, result)
         | (db2, Some target) \<Rightarrow> and_then (pay_back now u description target refund db2) (\<lambda>(db3, credited).
             Inr (db3, result\<lparr>cr_credited := credited\<rparr>)))"

definition closed_booking :: "booking \<Rightarrow> booking_status \<Rightarrow> booking \<Rightarrow> booking" where
  "closed_booking loaded status b =
     (let b1 = b\<lparr>bo_status := status\<rparr>; b2 = (if status = BO_CANCELLED then drop_unpaid_extra b1 else b1)
      in if lab_disruption_active loaded then clear_disruption_policy_fields b2 else b2)"

definition cancel_whole ::
  "timestamp \<Rightarrow> bool \<Rightarrow> string \<Rightarrow> user \<Rightarrow> bookable \<Rightarrow> booking \<Rightarrow> ident list \<Rightarrow> paise \<Rightarrow> 'z desk_db_scheme \<Rightarrow>
   cancel_error + 'z desk_db_scheme \<times> cancel_result" where
  "cancel_whole now should_refund description u e b ids full_charge db =
     (let result = \<lparr>cr_full = True, cr_slots = ids, cr_refund = 0, cr_credited = False, cr_status = BO_CANCELLED\<rparr>;
          cancelled = save_booking_row (closed_booking b BO_CANCELLED b)
      in if \<not> should_refund then Inr (cancelled db, result)
         else case wallet_target u e db of
           (db1, None) \<Rightarrow> Inr (cancelled db1, result\<lparr>cr_refund := full_charge\<rparr>)
         | (db1, Some target) \<Rightarrow>
             and_then (pay_back now u description target (booking_paid_charge b) db1) (\<lambda>(db2, credited).
             Inr (save_booking_row (closed_booking b (refunded_status b) (clear_pending_charge_difference b)) db2,
               result\<lparr>cr_refund := booking_paid_charge b, cr_credited := credited, cr_status := refunded_status b\<rparr>)))"

definition perform_booking_cancellation ::
  "pricing \<Rightarrow> timestamp \<Rightarrow> bool \<Rightarrow> bool \<Rightarrow> string \<Rightarrow> booking \<Rightarrow> ident list \<Rightarrow> cancel_plan option \<Rightarrow> 'z desk_db_scheme \<Rightarrow>
   cancel_error + 'z desk_db_scheme \<times> cancel_result" where
  "perform_booking_cancellation pc now should_refund allow_started description b ids plan db =
     (case (booker db b, booked_equipment db b) of
        (Some u, Some e) \<Rightarrow>
          (let full = (set ids = set (map ds_id (daily_slots db (bo_id b))) \<and> plan = None);
               partial = (\<not> full \<and> (ids \<noteq> [] \<or> plan \<noteq> None)) in
          and_then (if ids = [] then Inr [] else validate_slots_for_cancellation now allow_started ids b db) (\<lambda>cancelled.
          and_then (ensure (full \<or> \<not> lab_disruption_active b) Partial_Disrupted) (\<lambda>_.
          and_then (ensure (\<not> (partial \<and> has_payment_window b)) Extra_Not_Settled) (\<lambda>_.
          let freed = free_slots now (if lab_disruption_active b then effective_slot_status_when_freeing e b
                        else released_slot_status_after_booking_freed e) ids b db in
          if partial
          then and_then (case plan of Some p \<Rightarrow> Inr p | None \<Rightarrow> slots_plan pc e b ids db) (\<lambda>p.
                 cancel_part now should_refund description u e b ids p freed)
          else cancel_whole now should_refund description u e b ids
                 (if should_refund then calculate_refund_for_cancelled_slots b cancelled db else 0) freed))))
      | _ \<Rightarrow> Inl Broken_Reference)"

subsection \<open>The two views\<close>

definition user_may_cancel_started_slots :: "user \<Rightarrow> bool" where
  "user_may_cancel_started_slots u = (u_type u \<in> {Some ADMIN, Some DEPT_ADMIN, Some MANAGER})"

text \<open>\<open>managed\<close> lists the equipment a user is officer in charge of, also as a substitute.\<close>

definition actor_may_cancel_booking :: "(ident \<Rightarrow> ident list) \<Rightarrow> user \<Rightarrow> booking \<Rightarrow> 'z booking_db_scheme \<Rightarrow> bool" where
  "actor_may_cancel_booking managed actor b db =
     (u_is_superuser actor \<or> u_type actor = Some ADMIN \<or>
      u_type actor = Some DEPT_ADMIN \<and> u_department actor \<noteq> None \<and>
        (case booked_equipment db b of None \<Rightarrow> False | Some e \<Rightarrow> be_department e = u_department actor) \<or>
      u_type actor = Some MANAGER \<and> bo_equipment b \<in> set (managed (u_id actor)))"

definition cancel_booking ::
  "pricing \<Rightarrow> (ident \<Rightarrow> ident list) \<Rightarrow> timestamp \<Rightarrow> user \<Rightarrow> cancel_data \<Rightarrow> bool \<Rightarrow> string \<Rightarrow> ident \<Rightarrow> 'z desk_db_scheme \<Rightarrow>
   'z desk_db_scheme \<times> (cancel_error + cancel_result)" where
  "cancel_booking pc managed now actor data should_refund description i db =
     (case row_of bo_id i (bd_bookings db) of
        None \<Rightarrow> (db, Inl Booking_Unknown)
      | Some b \<Rightarrow>
          if \<not> actor_may_cancel_booking managed actor b db then (db, Inl Out_Of_Scope)
          else if bo_status b \<in> {BO_CANCELLED, BO_REFUNDED, BO_NOT_UTILIZED} then (db, Inl (Already (bo_status b)))
          else case booked_equipment db b of None \<Rightarrow> (db, Inl Broken_Reference) | Some e \<Rightarrow>
         (case and_then (parse_cancellation_request pc e data b db) (\<lambda>(ids, plan).
            perform_booking_cancellation pc now should_refund True description b ids plan db) of
            Inl x \<Rightarrow> (db, Inl x)
          | Inr (db1, result) \<Rightarrow> (db1, Inr result)))"

text \<open>
  The view of the user who made the booking. \<open>lab_staff\<close> says who may manage the bookings of a
  department (\<^verbatim>\<open>check_operator_permission\<close>), \<open>grace\<close> is the number of hours of grace after the laboratory
  has moved a booking; \<open>refund\<close> is the flag of the request, if it was sent.
\<close>

definition user_changes_locked_for :: "(user \<Rightarrow> bool) \<Rightarrow> user \<Rightarrow> booking \<Rightarrow> 'z booking_db_scheme \<Rightarrow> bool" where
  "user_changes_locked_for lab_staff u b db =
     (\<not> (u_is_superuser u \<or> lab_staff u \<or> lab_disruption_active b) \<and> sample_accepted_by_lab db b)"

definition is_rejection_active :: "booking \<Rightarrow> bool" where
  "is_rejection_active b = (bo_status b = BO_BOOKED \<and> bo_rejected b \<noteq> None)"

definition first_start :: "booking \<Rightarrow> 'z booking_db_scheme \<Rightarrow> timestamp option" where
  "first_start b db = (case ordered_slots db b of [] \<Rightarrow> None | s # _ \<Rightarrow> Some (ds_start s))"

definition threshold_hours :: "bookable \<Rightarrow> int" where
  "threshold_hours e = (if be_threshold e = 0 then 48 else be_threshold e)"

definition cancel_full_refund_until :: "int \<Rightarrow> bookable \<Rightarrow> booking \<Rightarrow> 'z booking_db_scheme \<Rightarrow> timestamp option" where
  "cancel_full_refund_until grace e b db = (case (bo_rescheduled b, first_start b db) of
     (Some moved_at, Some start) \<Rightarrow>
       Some (min (max (start - threshold_hours e * 3600) (moved_at + grace * 3600)) start)
   | _ \<Rightarrow> None)"

definition user_cancel_allowed ::
  "(user \<Rightarrow> bool) \<Rightarrow> int \<Rightarrow> timestamp \<Rightarrow> user \<Rightarrow> bookable \<Rightarrow> booking \<Rightarrow> 'z booking_db_scheme \<Rightarrow> cancel_error + unit" where
  "user_cancel_allowed lab_staff grace now u e b db =
     and_then (ensure (bo_user b = u_id u) Not_Own_Booking) (\<lambda>_.
     and_then (ensure (bo_source b = None \<or> lab_disruption_active b) Repeat_Sample) (\<lambda>_.
     and_then (ensure (bo_status b \<notin> {BO_CANCELLED, BO_COMPLETED, BO_REFUNDED, BO_NOT_UTILIZED}) (Already (bo_status b))) (\<lambda>_.
     and_then (ensure (bo_status b \<in> {BO_PENDING, BO_BOOKED, BO_DISRUPTION_PENDING}) (Wrong_Status (bo_status b))) (\<lambda>_.
     and_then (ensure (is_rejection_active b \<or> \<not> user_changes_locked_for lab_staff u b db) Sample_Locked) (\<lambda>_.
     if is_rejection_active b \<or> lab_disruption_active b then Inr ()
     else case first_start b db of None \<Rightarrow> Inl Start_Unknown
     | Some start \<Rightarrow> ensure (now \<le> (case cancel_full_refund_until grace e b db of
           None \<Rightarrow> start - threshold_hours e * 3600
         | Some t \<Rightarrow> max (start - threshold_hours e * 3600) t)) Cutoff_Passed)))))"

definition user_cancel_booking ::
  "pricing \<Rightarrow> (user \<Rightarrow> bool) \<Rightarrow> int \<Rightarrow> timestamp \<Rightarrow> user \<Rightarrow> cancel_data \<Rightarrow> bool option \<Rightarrow> string \<Rightarrow> ident \<Rightarrow> 'z desk_db_scheme \<Rightarrow>
   'z desk_db_scheme \<times> (cancel_error + cancel_result)" where
  "user_cancel_booking pc lab_staff grace now u data refund description i db =
     (case row_of bo_id i (bd_bookings db) of
        None \<Rightarrow> (db, Inl Booking_Unknown)
      | Some b \<Rightarrow> (case booked_equipment db b of None \<Rightarrow> (db, Inl Broken_Reference) | Some e \<Rightarrow>
          (let rejected = is_rejection_active b;
               in_grace = (case cancel_full_refund_until grace e b db of None \<Rightarrow> False | Some t \<Rightarrow> now \<le> t);
               should_refund = (rejected \<or> in_grace \<or> (case refund of Some r \<Rightarrow> r | None \<Rightarrow> bo_status b = BO_DISRUPTION_PENDING));
               request = (if rejected then \<lparr>rq_files = None, rq_reduced = None, rq_slots = None\<rparr> else data);
               allow_started = (user_may_cancel_started_slots u \<or> lab_disruption_active b \<or> rejected)
           in case and_then (user_cancel_allowed lab_staff grace now u e b db) (\<lambda>_.
                and_then (parse_cancellation_request pc e request b db) (\<lambda>(ids, plan).
                perform_booking_cancellation pc now should_refund allow_started description b ids plan db)) of
                Inl x \<Rightarrow> (db, Inl x)
              | Inr (db1, result) \<Rightarrow> (db1, Inr result))))"

end
