(* ===== verification/Refund_Promises.thy ===== *)
theory Refund_Promises
  imports Booking_Cancel
begin

text \<open>
  What cancelling promises: no cancellation creates money, a whole one pays back exactly what was
  paid and leaves no slot to be refunded again, a partial one settles the difference, and an unpaid
  edit is undone without a trace. \<open>desk_money\<close> is the money of the wallets together with what was paid
  for the bookings that still hold slots.
\<close>

subsection \<open>Amounts\<close>

definition paid_of :: "paise \<Rightarrow> paise option \<Rightarrow> paise" where
  "paid_of charge pending = (case pending of None \<Rightarrow> charge | Some p \<Rightarrow> if p = 0 then charge else max 0 (charge - p))"

lemma booking_paid_charge_paid_of: "booking_paid_charge b = paid_of (bo_charge b) (bo_pending b)"
  by (simp add: booking_paid_charge_def pending_charge_difference_def paid_of_def split: option.split)

lemma paid_of_nonneg: "0 \<le> c \<Longrightarrow> 0 \<le> paid_of c p"
  by (simp add: paid_of_def split: option.split)

lemma paid_of_mono: "c \<le> d \<Longrightarrow> paid_of c p \<le> paid_of d p"
  by (auto simp: paid_of_def max_def split: option.split)

lemma net_refund_settles:
  assumes "net_refund_against_unpaid_extra b (max 0 (bo_charge b - c)) = (refund, pending)" "0 \<le> c" "c \<le> bo_charge b"
  shows "0 \<le> refund" "refund + paid_of c pending = booking_paid_charge b"
  using assms
  by (auto simp: net_refund_against_unpaid_extra_def booking_paid_charge_paid_of paid_of_def Let_def
      pending_charge_difference_def max_def min_def split: option.splits if_splits)

lemma round_half_even_within:
  assumes "0 \<le> x" "x \<le> of_int n"
  shows "0 \<le> round_half_even x \<and> round_half_even x \<le> n"
proof -
  have "of_int (round_half_even x) \<ge> x - 1/2" "of_int (round_half_even x) \<le> x + 1/2"
    using round_half_even_error [of x] by linarith+
  with assms have "(of_int (round_half_even x) :: rat) \<ge> - (1/2)" "(of_int (round_half_even x) :: rat) \<le> of_int n + 1/2"
    by linarith+
  then show ?thesis by linarith
qed

lemma share_within:
  assumes "0 \<le> c" "0 \<le> a" "a < m"
  shows "0 \<le> round_half_even (of_int c * of_int a / of_int m) \<and> round_half_even (of_int c * of_int a / of_int m) \<le> c"
proof (rule round_half_even_within)
  have m: "0 < m" using assms by linarith
  show "(0 :: rat) \<le> of_int c * of_int a / of_int m" using assms m by simp
  have "of_int c * of_int a \<le> (of_int c * of_int m :: rat)" using assms by (intro mult_left_mono) simp_all
  then show "of_int c * of_int a / of_int m \<le> (of_int c :: rat)" using m by (simp add: divide_le_eq)
qed

definition minutes_fit :: "'z booking_db_scheme \<Rightarrow> booking \<Rightarrow> int \<Rightarrow> bool" where
  "minutes_fit db b minutes \<longleftrightarrow> minutes \<le> remaining_slot_minutes db b \<or> remaining_slot_minutes db b = 0"

lemma sync_charge:
  assumes "0 \<le> c"
  shows "0 \<le> bo_charge (sync_booking_quota_fields db m c b)" "bo_charge (sync_booking_quota_fields db m c b) \<le> c"
    "minutes_fit db b m \<Longrightarrow> bo_charge (sync_booking_quota_fields db m c b) = c"
proof -
  have "0 \<le> remaining_slot_minutes db b" by (simp add: remaining_slot_minutes_def)
  then show "0 \<le> bo_charge (sync_booking_quota_fields db m c b)" "bo_charge (sync_booking_quota_fields db m c b) \<le> c"
    using assms share_within [OF assms, of "remaining_slot_minutes db b" "max 0 m"]
    by (auto simp: sync_booking_quota_fields_def Let_def min_def)
  show "bo_charge (sync_booking_quota_fields db m c b) = c" if "minutes_fit db b m"
    using that assms by (auto simp: sync_booking_quota_fields_def minutes_fit_def Let_def min_def)
qed

lemma revised_paid:
  assumes "0 \<le> cp_charge p"
  shows "booking_paid_charge (revise_booking True p b db) \<le> paid_of (cp_charge p) (cp_pending p)"
    and "minutes_fit db b (cp_minutes p) \<Longrightarrow> booking_paid_charge (revise_booking True p b db) = paid_of (cp_charge p) (cp_pending p)"
    and "booking_paid_charge (revise_booking False p b db) \<le> paid_of (cp_charge p) (bo_pending b)"
    and "0 \<le> bo_charge (revise_booking r p b db)"
proof -
  let ?s = "sync_booking_quota_fields db (cp_minutes p) (cp_charge p) (b\<lparr>bo_inputs := cp_inputs p\<rparr>)"
  have fit: "minutes_fit db (b\<lparr>bo_inputs := cp_inputs p\<rparr>) m = minutes_fit db b m" for m
    by (simp add: minutes_fit_def remaining_slot_minutes_def)
  have paid: "booking_paid_charge (revise_booking True p b db) = paid_of (bo_charge ?s) (cp_pending p)"
    by (simp add: revise_booking_def Let_def booking_paid_charge_paid_of clear_pending_charge_difference_def
        clear_payment_window_def split: option.split)
  show "booking_paid_charge (revise_booking True p b db) \<le> paid_of (cp_charge p) (cp_pending p)"
    unfolding paid by (intro paid_of_mono sync_charge assms)
  show "booking_paid_charge (revise_booking True p b db) = paid_of (cp_charge p) (cp_pending p)" if "minutes_fit db b (cp_minutes p)"
    unfolding paid sync_charge(3) [OF assms fit [THEN iffD2, OF that]] by (rule refl)
  have "bo_pending ?s = bo_pending b" by (simp add: sync_booking_quota_fields_def Let_def)
  then have "booking_paid_charge (revise_booking False p b db) = paid_of (bo_charge ?s) (bo_pending b)"
    by (simp add: revise_booking_def Let_def booking_paid_charge_paid_of)
  then show "booking_paid_charge (revise_booking False p b db) \<le> paid_of (cp_charge p) (bo_pending b)"
    by (simp add: paid_of_mono sync_charge assms)
  show "0 \<le> bo_charge (revise_booking r p b db)"
    using sync_charge(1) [OF assms, of db "cp_minutes p" "b\<lparr>bo_inputs := cp_inputs p\<rparr>"]
    by (simp add: revise_booking_def Let_def clear_pending_charge_difference_def clear_payment_window_def split: option.split)
qed

subsection \<open>Wallets\<close>

lemma moved_held:
  assumes "moved i delta t db db'" "unique_keys sw_id (sub_wallets db)"
  shows "held db' = held db + delta" "unique_keys sw_id (sub_wallets db')"
proof -
  have rows: "sub_wallets db' = update_row sw_id i (\<lambda>sw. sw\<lparr>sw_balance := sw_balance sw + delta\<rparr>) (sub_wallets db)"
    and "i \<in> sw_id ` set (sub_wallets db)"
    using assms(1) row_of_None [of sw_id i "sub_wallets db"] by (simp_all add: moved_def)
  moreover have "i \<in> sw_id ` set xs \<Longrightarrow> unique_keys sw_id xs \<Longrightarrow>
      sum_list (map sw_balance (update_row sw_id i (\<lambda>sw. sw\<lparr>sw_balance := sw_balance sw + delta\<rparr>) xs)) =
      sum_list (map sw_balance xs) + delta" for xs
    by (induction xs) (auto simp: unique_keys_def update_row_absent)
  ultimately show "held db' = held db + delta" using assms(2) by (simp add: held_def)
  show "unique_keys sw_id (sub_wallets db')" using assms(2) unfolding rows unique_keys_def by simp
qed

lemma own_wallets: "dk_wallets db = w \<Longrightarrow> db\<lparr>dk_wallets := w\<rparr> = db"
  by auto

text \<open>The same money: balances and log, but for new empty sub-wallets.\<close>

definition same_accounts :: "wallet_db \<Rightarrow> wallet_db \<Rightarrow> bool" where
  "same_accounts w w' \<longleftrightarrow> balance_of w' = balance_of w \<and> postings w' = postings w \<and> held w' = held w \<and>
     (unique_keys sw_id (sub_wallets w) \<longrightarrow> unique_keys sw_id (sub_wallets w'))"

lemma subwallet_same_accounts:
  assumes "subwallet_get_or_create i d w = (w', sw)"
  shows "same_accounts w w'"
proof (cases "sub_wallet_for w i d")
  case None
  then have "sw_balance sw = 0" "sw_id sw = fresh_pk sw_id (sub_wallets w)" "w' = w\<lparr>sub_wallets := sub_wallets w @ [sw]\<rparr>"
    using assms by (auto simp: subwallet_get_or_create_def Let_def)
  then show ?thesis
    using subwallet_get_or_create_balances [OF assms] fresh_pk_notin [of sw_id "sub_wallets w"]
    by (auto simp: same_accounts_def held_def intro!: unique_keys_append) (metis imageI)
next
  case (Some s)
  then show ?thesis using assms by (simp add: same_accounts_def subwallet_get_or_create_def)
qed

lemma booking_wallet_target:
  assumes "get_booking_wallet_target u d w = (w', t)"
  shows "same_accounts w w'" "\<And>sw. t = Some sw \<Longrightarrow> sw \<in> set (sub_wallets w')"
    "t = None \<longleftrightarrow> get_accessible_wallet w u = None"
proof -
  have general: "same_accounts w w1" if "general_department w = (w1, i)" for w1 i
    using that by (auto simp: same_accounts_def general_department_def Let_def held_def balance_of_def postings_def
        fun_eq_iff split: option.splits)
  have trans: "same_accounts a b \<Longrightarrow> same_accounts b c \<Longrightarrow> same_accounts a c" for a b c
    by (auto simp: same_accounts_def)
  have "same_accounts w w" by (simp add: same_accounts_def)
  then show "same_accounts w w'" "\<And>sw. t = Some sw \<Longrightarrow> sw \<in> set (sub_wallets w')"
      "t = None \<longleftrightarrow> get_accessible_wallet w u = None"
    using assms by (auto simp: get_booking_wallet_target_def split: option.splits prod.splits
        dest: subwallet_same_accounts subwallet_get_or_create_in general intro: trans)
qed

lemma wallet_targetD:
  assumes "wallet_target u e db = (db', t)"
  shows "db' = db\<lparr>dk_wallets := dk_wallets db'\<rparr>" "same_accounts (dk_wallets db) (dk_wallets db')"
    "\<And>sw. t = Some sw \<Longrightarrow> sw \<in> set (sub_wallets (dk_wallets db'))"
    "t = None \<longleftrightarrow> get_accessible_wallet (dk_wallets db) u = None" "\<And>w. db'\<lparr>dk_wallets := w\<rparr> = db\<lparr>dk_wallets := w\<rparr>"
proof -
  obtain w where "get_booking_wallet_target u (be_department e) (dk_wallets db) = (w, t)" and db': "db' = db\<lparr>dk_wallets := w\<rparr>"
    using assms by (auto simp: wallet_target_def split: prod.splits)
  note t = booking_wallet_target [OF this(1)]
  show "db' = db\<lparr>dk_wallets := dk_wallets db'\<rparr>" "\<And>w. db'\<lparr>dk_wallets := w\<rparr> = db\<lparr>dk_wallets := w\<rparr>" unfolding db' by simp_all
  show "same_accounts (dk_wallets db) (dk_wallets db')" "t = None \<longleftrightarrow> get_accessible_wallet (dk_wallets db) u = None"
    "\<And>sw. t = Some sw \<Longrightarrow> sw \<in> set (sub_wallets (dk_wallets db'))" using t unfolding db' by simp_all
qed

lemma pay_back_result:
  assumes "sw \<in> set (sub_wallets (dk_wallets db))" "0 \<le> amount" "unique_keys sw_id (sub_wallets (dk_wallets db))"
  shows "\<exists>w. pay_back now u description sw amount db = Inr (db\<lparr>dk_wallets := w\<rparr>, 0 < amount) \<and>
    balance_of w = (balance_of (dk_wallets db))(sw_id sw := balance_of (dk_wallets db) (sw_id sw) + amount) \<and>
    held w = held (dk_wallets db) + amount \<and> unique_keys sw_id (sub_wallets w) \<and>
    (reconciled (dk_wallets db) \<longrightarrow> reconciled w)"
proof (cases "0 < amount")
  case True
  have "row_of sw_id (sw_id sw) (sub_wallets (dk_wallets db)) \<noteq> None" using assms(1) by (auto simp: row_of_None)
  then obtain w t where c: "credit now (sw_id sw) amount description (Some (u_id u)) (dk_wallets db) = Inr (w, t)"
    using True by (fastforce simp: credit_def Let_def split: prod.splits)
  note m = credit_result [OF c, THEN conjunct2, THEN conjunct1]
  have "pay_back now u description sw amount db = Inr (db\<lparr>dk_wallets := w\<rparr>, 0 < amount)"
    using True c by (simp add: pay_back_def)
  with moved_balance [OF m] moved_held [OF m assms(3)] moved_reconciled [OF m] show ?thesis by blast
next
  case False
  then have "amount = 0" using assms(2) by simp
  then show ?thesis using assms(3) by (intro exI [of _ "dk_wallets db"]) (simp add: pay_back_def)
qed

lemma pay_back_ok:
  assumes "pay_back now u description sw amount db = Inr (db', credited)" "sw \<in> set (sub_wallets (dk_wallets db))"
    "0 \<le> amount" "unique_keys sw_id (sub_wallets (dk_wallets db))"
  shows "db' = db\<lparr>dk_wallets := dk_wallets db'\<rparr>" "held (dk_wallets db') = held (dk_wallets db) + amount"
    "balance_of (dk_wallets db') = (balance_of (dk_wallets db))(sw_id sw := balance_of (dk_wallets db) (sw_id sw) + amount)"
    "unique_keys sw_id (sub_wallets (dk_wallets db'))" "reconciled (dk_wallets db) \<longrightarrow> reconciled (dk_wallets db')"
  using pay_back_result [OF assms(2-4), of now u description] assms(1) by auto

subsection \<open>Slots and bookings\<close>

definition desk_wf :: "desk_db \<Rightarrow> bool" where
  "desk_wf db \<longleftrightarrow> unique_keys bo_id (bd_bookings db) \<and> unique_keys ds_id (sl_slots db) \<and>
     unique_keys sw_id (sub_wallets (dk_wallets db)) \<and> list_all (\<lambda>b. 0 \<le> bo_charge b) (bd_bookings db)"

definition open_paid :: "'z booking_db_scheme \<Rightarrow> paise" where
  "open_paid db = sum_list (map (\<lambda>b. if daily_slots db (bo_id b) = [] then 0 else booking_paid_charge b) (bd_bookings db))"

definition desk_money :: "desk_db \<Rightarrow> paise" where
  "desk_money db = held (dk_wallets db) + open_paid db"

lemma daily_slots_more [simp]:
  fixes db :: "'z desk_db_scheme"
  shows "daily_slots (db\<lparr>dk_wallets := w\<rparr>) = daily_slots db"
    "daily_slots (save_booking_row b db) = daily_slots db"
    "sl_slots (save_booking_row b db) = sl_slots db" "dk_wallets (save_booking_row b db) = dk_wallets db"
    "bd_bookings (save_booking_row b db) = update_row bo_id (bo_id b) (\<lambda>_. b) (bd_bookings db)"
  by (simp_all add: fun_eq_iff daily_slots_def save_booking_row_def)

lemma free_slots_frame [simp]:
  fixes db :: "'z desk_db_scheme"
  shows "bd_bookings (free_slots now st ids b db) = bd_bookings db" "bd_users (free_slots now st ids b db) = bd_users db"
    "bd_equipment (free_slots now st ids b db) = bd_equipment db" "dk_wallets (free_slots now st ids b db) = dk_wallets db"
  by (simp_all add: free_slots_def update_slots_def remember_booking_slot_ranges_def Let_def)

definition freed_slot :: "timestamp \<Rightarrow> slot_status \<Rightarrow> daily_slot \<Rightarrow> daily_slot" where
  "freed_slot now st s = s\<lparr>ds_status := (if st = SL_AVAILABLE then released_status s else st),
     ds_booking := None, ds_released := Some now\<rparr>"

lemma free_slots_slots:
  fixes db :: "'z desk_db_scheme"
  shows "sl_slots (free_slots now st ids b db) = map (\<lambda>s. if ds_id s \<in> set ids \<and> ds_booking s = Some (bo_id b)
     then freed_slot now st s else s) (sl_slots db)"
  by (cases "ids = []") (auto simp: free_slots_def update_slots_def remember_booking_slot_ranges_def Let_def
      update_slot_def freed_slot_def released_by_booking_at_def map_idI)

lemma freed_daily_slots:
  fixes db :: "'z desk_db_scheme"
  shows "daily_slots (free_slots now st ids b db) j =
     (if j = bo_id b then filter (\<lambda>s. ds_id s \<notin> set ids) (daily_slots db j) else daily_slots db j)"
proof -
  have "filter (\<lambda>s. ds_booking s = Some j) (map (\<lambda>s. if ds_id s \<in> set ids \<and> ds_booking s = Some (bo_id b)
      then freed_slot now st s else s) ss) =
    (if j = bo_id b then filter (\<lambda>s. ds_id s \<notin> set ids) (filter (\<lambda>s. ds_booking s = Some j) ss)
     else filter (\<lambda>s. ds_booking s = Some j) ss)" for ss
    by (induction ss) (auto simp: freed_slot_def)
  then show ?thesis by (simp add: daily_slots_def free_slots_slots)
qed

text \<open>Saving one booking changes its own share only.\<close>

lemma open_paid_save:
  assumes keys: "unique_keys bo_id (bd_bookings db)" and b: "b \<in> set (bd_bookings db)" "bo_id b' = bo_id b"
    and rows: "bd_bookings db' = update_row bo_id (bo_id b) (\<lambda>_. b') (bd_bookings db)"
    and slots: "\<And>j. j \<noteq> bo_id b \<Longrightarrow> daily_slots db' j = daily_slots db j"
  shows "open_paid db' = open_paid db
    - (if daily_slots db (bo_id b) = [] then 0 else booking_paid_charge b)
    + (if daily_slots db' (bo_id b) = [] then 0 else booking_paid_charge b')"
proof -
  obtain xs ys where bs: "bd_bookings db = xs @ b # ys" and rows': "bd_bookings db' = xs @ b' # ys"
    unfolding rows by (rule update_row_const [OF keys b(1), of b']) blast
  have others: "bo_id x \<noteq> bo_id b" if "x \<in> set xs \<union> set ys" for x
    using that keys unfolding bs unique_keys_def by auto (metis imageI)+
  have same: "(\<Sum>x\<leftarrow>zs. if daily_slots db' (bo_id x) = [] then 0 else booking_paid_charge x) =
      (\<Sum>x\<leftarrow>zs. if daily_slots db (bo_id x) = [] then 0 else booking_paid_charge x)"
    if "set zs \<subseteq> set xs \<union> set ys" for zs
    using that others slots by (intro arg_cong [of _ _ sum_list] map_cong) (auto simp: subset_iff)
  show ?thesis unfolding open_paid_def rows' bs using same [of xs] same [of ys] b(2) by simp
qed

text \<open>
  What a cancellation leaves: the booking \<open>b\<close> is replaced by \<open>b'\<close>, its slots \<open>ids\<close> are freed, and
  \<open>amount\<close> has been credited to one sub-wallet.
\<close>

definition cancelled_to ::
  "timestamp \<Rightarrow> slot_status \<Rightarrow> ident list \<Rightarrow> booking \<Rightarrow> booking \<Rightarrow> paise \<Rightarrow> desk_db \<Rightarrow> desk_db \<Rightarrow> bool" where
  "cancelled_to now st ids b b' amount db db' \<longleftrightarrow>
     bo_id b' = bo_id b \<and> 0 \<le> bo_charge b' \<and>
     bd_bookings db' = update_row bo_id (bo_id b) (\<lambda>_. b') (bd_bookings db) \<and>
     sl_slots db' = sl_slots (free_slots now st ids b db) \<and> bd_users db' = bd_users db \<and> bd_equipment db' = bd_equipment db \<and>
     held (dk_wallets db') = held (dk_wallets db) + amount \<and> unique_keys sw_id (sub_wallets (dk_wallets db')) \<and>
     (reconciled (dk_wallets db) \<longrightarrow> reconciled (dk_wallets db'))"

lemma outcome_daily_slots:
  "cancelled_to now st ids b b' amount db db' \<Longrightarrow>
   daily_slots db' j = (if j = bo_id b then filter (\<lambda>s. ds_id s \<notin> set ids) (daily_slots db j) else daily_slots db j)"
  using freed_daily_slots [of now st ids b db j] by (simp add: cancelled_to_def daily_slots_def)

lemma outcome_wf:
  assumes "cancelled_to now st ids b b' amount db db'" "desk_wf db"
  shows "desk_wf db'"
proof -
  have "map ds_id (sl_slots (free_slots now st ids b db)) = map ds_id (sl_slots db)"
    by (auto simp: free_slots_slots freed_slot_def)
  then have "unique_keys ds_id (sl_slots db')" using assms by (simp add: cancelled_to_def desk_wf_def unique_keys_def)
  moreover have "map bo_id (update_row bo_id (bo_id b) (\<lambda>_. b') rows) = map bo_id rows" for rows
    using assms(1) by (induction rows) (auto simp: cancelled_to_def)
  then have "unique_keys bo_id (bd_bookings db')" using assms by (simp add: cancelled_to_def desk_wf_def unique_keys_def)
  moreover have "list_all (\<lambda>b. 0 \<le> bo_charge b) (bd_bookings db')"
    using assms by (auto simp: cancelled_to_def desk_wf_def list_all_iff update_row_def)
  ultimately show ?thesis using assms by (simp add: cancelled_to_def desk_wf_def)
qed

lemma outcome_money:
  assumes o: "cancelled_to now st ids b b' amount db db'" and wf: "desk_wf db" "b \<in> set (bd_bookings db)"
    and slots: "daily_slots db (bo_id b) \<noteq> []"
  shows "desk_money db' = desk_money db + amount - booking_paid_charge b
    + (if daily_slots db' (bo_id b) = [] then 0 else booking_paid_charge b')"
proof -
  have "open_paid db' = open_paid db - (if daily_slots db (bo_id b) = [] then 0 else booking_paid_charge b)
      + (if daily_slots db' (bo_id b) = [] then 0 else booking_paid_charge b')"
    using o wf outcome_daily_slots [OF o] by (intro open_paid_save) (auto simp: cancelled_to_def desk_wf_def)
  with o slots show ?thesis by (simp add: desk_money_def cancelled_to_def)
qed

lemma closed_booking_same [simp]:
  "bo_id (closed_booking l st b) = bo_id b" "bo_charge (closed_booking l st b) = bo_charge b"
  "bo_status (closed_booking l st b) = st"
  "bo_id (clear_pending_charge_difference b) = bo_id b" "bo_charge (clear_pending_charge_difference b) = bo_charge b"
  by (auto simp: closed_booking_def Let_def drop_unpaid_extra_def clear_pending_charge_difference_def
      clear_payment_window_def clear_disruption_policy_fields_def split: option.split)

lemma paid_nonneg: "desk_wf db \<Longrightarrow> b \<in> set (bd_bookings db) \<Longrightarrow> 0 \<le> bo_charge b \<and> 0 \<le> booking_paid_charge b"
  by (auto simp: desk_wf_def list_all_iff booking_paid_charge_paid_of intro: paid_of_nonneg)

lemma saved_outcome:
  fixes w :: wallet_db
  assumes "desk_wf db" "bo_id b' = bo_id b" "0 \<le> bo_charge b'" "held w = held (dk_wallets db) + amount"
    "unique_keys sw_id (sub_wallets w)" "reconciled (dk_wallets db) \<longrightarrow> reconciled w"
  shows "cancelled_to now st ids b b' amount db (save_booking_row b' (free_slots now st ids b db\<lparr>dk_wallets := w\<rparr>))"
    "cancelled_to now st ids b b' amount db (save_booking_row b' (free_slots now st ids b db)\<lparr>dk_wallets := w\<rparr>)"
  using assms by (simp_all add: cancelled_to_def) (simp_all add: save_booking_row_def)

lemma same_accounts_held:
  "same_accounts w w' \<Longrightarrow> unique_keys sw_id (sub_wallets w) \<Longrightarrow>
   held w' = held w + 0 \<and> unique_keys sw_id (sub_wallets w') \<and> (reconciled w \<longrightarrow> reconciled w')"
  by (auto simp: same_accounts_def reconciled_def)

lemma whole_refunded:
  assumes wf: "desk_wf db" "b \<in> set (bd_bookings db)" and wallet: "get_accessible_wallet (dk_wallets db) u \<noteq> None"
  obtains db' sw where
    "cancel_whole now True description u e b ids c (free_slots now st ids b db) =
       Inr (db', \<lparr>cr_full = True, cr_slots = ids, cr_refund = booking_paid_charge b, cr_credited = 0 < booking_paid_charge b,
         cr_status = refunded_status b\<rparr>)"
    "cancelled_to now st ids b (closed_booking b (refunded_status b) (clear_pending_charge_difference b)) (booking_paid_charge b) db db'"
    "balance_of (dk_wallets db') = (balance_of (dk_wallets db))(sw_id sw := balance_of (dk_wallets db) (sw_id sw) + booking_paid_charge b)"
    "snd (wallet_target u e db) = Some sw"
proof -
  let ?freed = "free_slots now st ids b db"
  obtain db1 t where t: "wallet_target u e ?freed = (db1, t)" by fastforce
  note target = wallet_targetD [OF t, unfolded free_slots_frame]
  from wallet target(4) obtain sw where sw: "t = Some sw" by auto
  have keys: "unique_keys sw_id (sub_wallets (dk_wallets db))" using wf by (simp add: desk_wf_def)
  note same = same_accounts_held [OF target(2) keys]
  note paid = paid_nonneg [OF wf]
  obtain w where pay: "pay_back now u description sw (booking_paid_charge b) db1 =
      Inr (db1\<lparr>dk_wallets := w\<rparr>, 0 < booking_paid_charge b)"
    and bal: "balance_of w = (balance_of (dk_wallets db1))(sw_id sw := balance_of (dk_wallets db1) (sw_id sw) + booking_paid_charge b)"
    and w: "held w = held (dk_wallets db1) + booking_paid_charge b" "unique_keys sw_id (sub_wallets w)"
      "reconciled (dk_wallets db1) \<longrightarrow> reconciled w"
    using pay_back_result [OF target(3) [OF sw], of "booking_paid_charge b" now u description] same paid by blast
  let ?b = "closed_booking b (refunded_status b) (clear_pending_charge_difference b)"
  show thesis
  proof (rule that)
    show "cancel_whole now True description u e b ids c ?freed = Inr (save_booking_row ?b (?freed\<lparr>dk_wallets := w\<rparr>),
        \<lparr>cr_full = True, cr_slots = ids, cr_refund = booking_paid_charge b, cr_credited = 0 < booking_paid_charge b,
         cr_status = refunded_status b\<rparr>)"
      by (simp add: cancel_whole_def t sw pay target(5) Let_def)
    show "cancelled_to now st ids b ?b (booking_paid_charge b) db (save_booking_row ?b (?freed\<lparr>dk_wallets := w\<rparr>))"
      using same w paid wf by (intro saved_outcome) simp_all
    show "balance_of (dk_wallets (save_booking_row ?b (?freed\<lparr>dk_wallets := w\<rparr>))) =
        (balance_of (dk_wallets db))(sw_id sw := balance_of (dk_wallets db) (sw_id sw) + booking_paid_charge b)"
      using bal target(2) by (simp add: same_accounts_def)
    show "snd (wallet_target u e db) = Some sw"
      using t sw by (simp add: wallet_target_def split: prod.splits)
  qed
qed

lemma whole_outcome:
  assumes wf: "desk_wf db" "b \<in> set (bd_bookings db)"
    and cancel: "cancel_whole now r description u e b ids c (free_slots now st ids b db) = Inr (db', res)"
  shows "\<exists>b' amount. cancelled_to now st ids b b' amount db db' \<and> amount \<le> booking_paid_charge b"
proof -
  let ?freed = "free_slots now st ids b db"
  note paid = paid_nonneg [OF wf]
  have keys: "unique_keys sw_id (sub_wallets (dk_wallets db))" using wf by (simp add: desk_wf_def)
  obtain db1 t where t: "wallet_target u e ?freed = (db1, t)" by fastforce
  note target = wallet_targetD [OF t, unfolded free_slots_frame]
  note same = same_accounts_held [OF target(2) keys]
  let ?b = "closed_booking b BO_CANCELLED b"
  consider "\<not> r" | "r" "get_accessible_wallet (dk_wallets db) u = None" | "r" "get_accessible_wallet (dk_wallets db) u \<noteq> None"
    by blast
  then show ?thesis
  proof cases
    case 1
    then have "db' = save_booking_row ?b (?freed\<lparr>dk_wallets := dk_wallets db\<rparr>)"
      using cancel by (simp add: cancel_whole_def own_wallets)
    then have "cancelled_to now st ids b ?b 0 db db'" using keys paid wf by (simp add: saved_outcome(1))
    then show ?thesis using paid by blast
  next
    case 2
    then have "db' = save_booking_row ?b db1" using cancel target(4) by (simp add: cancel_whole_def t)
    then have "db' = save_booking_row ?b (?freed\<lparr>dk_wallets := dk_wallets db1\<rparr>)"
      by (rule trans [OF _ arg_cong [OF target(1)]])
    then have "cancelled_to now st ids b ?b 0 db db'" using same paid wf by (simp add: saved_outcome(1))
    then show ?thesis using paid by blast
  next
    case 3
    obtain db'' where "cancel_whole now r description u e b ids c ?freed = Inr (db'', \<lparr>cr_full = True, cr_slots = ids,
        cr_refund = booking_paid_charge b, cr_credited = 0 < booking_paid_charge b, cr_status = refunded_status b\<rparr>)"
      "cancelled_to now st ids b (closed_booking b (refunded_status b) (clear_pending_charge_difference b)) (booking_paid_charge b) db db''"
      using whole_refunded [OF wf 3(2), of now description e ids c st] 3(1) by metis
    with cancel show ?thesis by auto
  qed
qed

lemma revise_booking_id: "bo_id (revise_booking r p b db) = bo_id b"
  by (auto simp: revise_booking_def Let_def sync_booking_quota_fields_def clear_pending_charge_difference_def
      clear_payment_window_def split: option.split)

lemma part_outcome:
  assumes wf: "desk_wf db" "b \<in> set (bd_bookings db)" and price: "0 \<le> cp_charge p" "cp_charge p \<le> bo_charge b"
    and refund: "(cp_refund p, cp_pending p) = net_refund_against_unpaid_extra b (max 0 (bo_charge b - cp_charge p))"
    and cancel: "cancel_part now r description u e b ids p (free_slots now st ids b db) = Inr (db', res)"
  shows "\<exists>amount. cancelled_to now st ids b (revise_booking r p b (free_slots now st ids b db)) amount db db' \<and>
    amount \<le> (if r then cp_refund p else 0) \<and>
    (get_accessible_wallet (dk_wallets db) u \<noteq> None \<longrightarrow> amount = (if r then cp_refund p else 0))"
proof -
  let ?freed = "free_slots now st ids b db" let ?b = "revise_booking r p b ?freed"
  let ?refund = "if r then cp_refund p else 0"
  have b': "bo_id ?b = bo_id b" "0 \<le> bo_charge ?b"
    by (rule revise_booking_id, rule revised_paid(4) [OF price(1)])
  have nonneg: "0 \<le> ?refund" using net_refund_settles(1) [OF refund [symmetric] price] by simp
  have keys: "unique_keys sw_id (sub_wallets (dk_wallets db))" using wf by (simp add: desk_wf_def)
  obtain db1 t where t: "wallet_target u e (save_booking_row ?b ?freed) = (db1, t)" by fastforce
  note target = wallet_targetD [OF t, unfolded daily_slots_more free_slots_frame]
  note same = same_accounts_held [OF target(2) keys]
  note out = saved_outcome(2) [where st = st and now = now and ids = ids and b = b, OF wf(1) b']
  show ?thesis
  proof (cases "0 < ?refund")
    case False
    then have "?refund = 0" using nonneg by simp
    moreover have "db' = save_booking_row ?b ?freed" using cancel False by (simp add: cancel_part_def Let_def)
    then have "db' = save_booking_row ?b ?freed\<lparr>dk_wallets := dk_wallets db\<rparr>"
      by (rule trans [OF _ own_wallets [symmetric]]) simp
    ultimately show ?thesis using out [of "dk_wallets db" 0] keys by auto
  next
    case True
    show ?thesis
    proof (cases t)
      case None
      then have "db' = db1" using cancel True by (simp add: cancel_part_def Let_def t)
      then have "db' = save_booking_row ?b ?freed\<lparr>dk_wallets := dk_wallets db1\<rparr>"
        by (rule trans [OF _ target(1)])
      then show ?thesis using out [of "dk_wallets db1" 0] same target(4) None True by auto
    next
      case (Some sw)
      then obtain credited where pay: "pay_back now u description sw ?refund db1 = Inr (db', credited)"
        using cancel True by (auto simp: cancel_part_def Let_def t and_then_eq_Inr)
      note paid = pay_back_ok [OF pay target(3) [OF Some] nonneg]
      have "db' = save_booking_row ?b ?freed\<lparr>dk_wallets := dk_wallets db'\<rparr>"
        using paid(1) same target(5) by metis
      then show ?thesis using out [of "dk_wallets db'" ?refund] paid same by auto
    qed
  qed
qed

subsection \<open>One cancellation\<close>

definition settled_plan :: "booking \<Rightarrow> cancel_plan \<Rightarrow> bool" where
  "settled_plan b p \<longleftrightarrow>
     (cp_refund p, cp_pending p) = net_refund_against_unpaid_extra b (max 0 (bo_charge b - cp_charge p))"

definition fair_plan :: "booking \<Rightarrow> cancel_plan \<Rightarrow> bool" where
  "fair_plan b p \<longleftrightarrow> settled_plan b p \<and> 0 \<le> cp_charge p \<and> cp_charge p \<le> bo_charge b"

lemma priced_plan_settled: "priced_plan pc e b slots inputs t = Inr p \<Longrightarrow> settled_plan b p"
  by (auto simp: priced_plan_def settled_plan_def Let_def split: option.splits prod.splits)

lemma reduction_plan_settled: "reduction_plan pc e b reduced db = Inr p \<Longrightarrow> settled_plan b p"
  by (auto simp: reduction_plan_def and_then_eq_Inr Let_def split: option.splits dest!: priced_plan_settled)

lemma slots_plan_settled: "slots_plan pc e b ids db = Inr p \<Longrightarrow> settled_plan b p"
  by (auto simp: slots_plan_def and_then_eq_Inr Let_def split: if_splits dest!: priced_plan_settled)

lemma parse_requestD:
  assumes "parse_cancellation_request pc e data b db = Inr (ids, plan)"
  shows "daily_slots db (bo_id b) \<noteq> []"
    and "plan = None \<Longrightarrow> set ids = set (map ds_id (daily_slots db (bo_id b)))"
    and "plan = Some p \<Longrightarrow> rq_files data = None \<Longrightarrow> settled_plan b p"
  using assms
  by (auto simp: parse_cancellation_request_def and_then_eq_Inr Let_def split: option.splits if_splits
      dest: reduction_plan_settled slots_plan_settled)

lemma perform_outcome:
  assumes wf: "desk_wf db" "b \<in> set (bd_bookings db)" and slots: "daily_slots db (bo_id b) \<noteq> []"
    and plan: "case plan of None \<Rightarrow> set ids = set (map ds_id (daily_slots db (bo_id b))) | Some p \<Rightarrow> fair_plan b p"
    and perform: "perform_booking_cancellation pc now r allow description b ids plan db = Inr (db', res)"
  shows "\<exists>st b' amount. cancelled_to now st ids b b' amount db db' \<and>
    amount + (if daily_slots db' (bo_id b) = [] then 0 else booking_paid_charge b') \<le> booking_paid_charge b"
proof -
  obtain u e where rows: "booker db b = Some u" "booked_equipment db b = Some e"
    using perform by (auto simp: perform_booking_cancellation_def split: option.splits)
  define st where "st = (if lab_disruption_active b then effective_slot_status_when_freeing e b
    else released_slot_status_after_booking_freed e)"
  show ?thesis
  proof (cases plan)
    case None
    then have all: "set ids = set (map ds_id (daily_slots db (bo_id b)))" using plan by simp
    obtain c where "cancel_whole now r description u e b ids c (free_slots now st ids b db) = Inr (db', res)"
      using perform None all rows by (auto simp: perform_booking_cancellation_def and_then_eq_Inr Let_def st_def)
    from whole_outcome [OF wf this] obtain b' amount where o: "cancelled_to now st ids b b' amount db db'"
      and "amount \<le> booking_paid_charge b" by blast
    moreover have "daily_slots db' (bo_id b) = []"
      using outcome_daily_slots [OF o, of "bo_id b"] all by (auto simp: filter_empty_conv)
    ultimately show ?thesis by auto
  next
    case (Some p)
    then have p: "settled_plan b p" "0 \<le> cp_charge p" "cp_charge p \<le> bo_charge b" using plan by (simp_all add: fair_plan_def)
    note settle = p(1) [unfolded settled_plan_def]
    note net = net_refund_settles [OF settle [symmetric] p(2,3)]
    have "cancel_part now r description u e b ids p (free_slots now st ids b db) = Inr (db', res)"
      using perform Some rows by (auto simp: perform_booking_cancellation_def and_then_eq_Inr Let_def st_def)
    from part_outcome [OF wf p(2,3) settle this] obtain amount where
      o: "cancelled_to now st ids b (revise_booking r p b (free_slots now st ids b db)) amount db db'"
      and amount: "amount \<le> (if r then cp_refund p else 0)" by blast
    have "amount + booking_paid_charge (revise_booking r p b (free_slots now st ids b db)) \<le> booking_paid_charge b"
    proof (cases r)
      case True
      then show ?thesis using amount net(2) revised_paid(1) [OF p(2), of b "free_slots now st ids b db"] by simp
    next
      case False
      then show ?thesis
        using amount revised_paid(3) [OF p(2), of b "free_slots now st ids b db"] paid_of_mono [OF p(3), of "bo_pending b"]
        by (simp add: booking_paid_charge_paid_of)
    qed
    moreover have "0 \<le> booking_paid_charge (revise_booking r p b (free_slots now st ids b db))"
      using paid_of_nonneg [OF revised_paid(4) [OF p(2)]] by (simp add: booking_paid_charge_paid_of)
    ultimately show ?thesis using o by (intro exI conjI) auto
  qed
qed

lemma perform_money:
  assumes "desk_wf db" "b \<in> set (bd_bookings db)" "daily_slots db (bo_id b) \<noteq> []"
    "case plan of None \<Rightarrow> set ids = set (map ds_id (daily_slots db (bo_id b))) | Some p \<Rightarrow> fair_plan b p"
    "perform_booking_cancellation pc now r allow description b ids plan db = Inr (db', res)"
  shows "desk_wf db' \<and> desk_money db' \<le> desk_money db \<and> (reconciled (dk_wallets db) \<longrightarrow> reconciled (dk_wallets db')) \<and>
    (\<forall>j. set (daily_slots db' j) \<subseteq> set (daily_slots db j))"
proof -
  obtain st b' amount where o: "cancelled_to now st ids b b' amount db db'"
    and le: "amount + (if daily_slots db' (bo_id b) = [] then 0 else booking_paid_charge b') \<le> booking_paid_charge b"
    using perform_outcome [OF assms] by blast
  show ?thesis
    using outcome_wf [OF o assms(1)] outcome_money [OF o assms(1-3)] le o outcome_daily_slots [OF o]
    by (auto simp: cancelled_to_def)
qed

subsection \<open>Runs of cancellations\<close>

text \<open>
  Whoever cancels, a part must not be priced above the whole, and its refund must have been settled
  against what is still open: the plans of this module are, those of printing jobs are given.
\<close>

definition priced_fairly :: "pricing \<Rightarrow> cancel_data \<Rightarrow> ident \<Rightarrow> desk_db \<Rightarrow> bool" where
  "priced_fairly pc data i db = (case row_of bo_id i (bd_bookings db) of None \<Rightarrow> True | Some b \<Rightarrow>
     (case booked_equipment db b of None \<Rightarrow> True | Some e \<Rightarrow>
     (case parse_cancellation_request pc e data b db of
        Inr (ids, Some p) \<Rightarrow> 0 \<le> cp_charge p \<and> cp_charge p \<le> bo_charge b \<and> (rq_files data \<noteq> None \<longrightarrow> settled_plan b p)
      | _ \<Rightarrow> True)))"

inductive desk_step :: "desk_db \<Rightarrow> desk_db \<Rightarrow> bool" where
  Staff_Cancels: "cancel_booking pc managed now actor data r description i db = (db', res) \<Longrightarrow>
    priced_fairly pc data i db \<Longrightarrow> desk_step db db'"
| User_Cancels: "user_cancel_booking pc lab_staff grace now u data refund description i db = (db', res) \<Longrightarrow>
    priced_fairly pc data i db \<Longrightarrow> desk_step db db'"

definition kept_money :: "desk_db \<Rightarrow> desk_db \<Rightarrow> bool" where
  "kept_money db db' \<longleftrightarrow> desk_wf db' \<and> desk_money db' \<le> desk_money db \<and>
     (reconciled (dk_wallets db) \<longrightarrow> reconciled (dk_wallets db')) \<and> (\<forall>j. set (daily_slots db' j) \<subseteq> set (daily_slots db j))"

lemma kept_money_refl: "desk_wf db \<Longrightarrow> kept_money db db"
  by (simp add: kept_money_def)

lemma parsed_perform_money:
  assumes wf: "desk_wf db" and rows: "row_of bo_id i (bd_bookings db) = Some b" "booked_equipment db b = Some e"
    and run: "and_then (parse_cancellation_request pc e data b db) (\<lambda>(ids, plan).
      perform_booking_cancellation pc now r allow description b ids plan db) = Inr (db', res)"
    and fair: "\<And>ids p. parse_cancellation_request pc e data b db = Inr (ids, Some p) \<Longrightarrow> fair_plan b p"
  shows "kept_money db db'"
proof -
  obtain ids plan where parse: "parse_cancellation_request pc e data b db = Inr (ids, plan)"
    and perform: "perform_booking_cancellation pc now r allow description b ids plan db = Inr (db', res)"
    using run by (auto simp: and_then_eq_Inr)
  have "b \<in> set (bd_bookings db)" using rows(1) by (auto dest: row_of_SomeD)
  moreover have "case plan of None \<Rightarrow> set ids = set (map ds_id (daily_slots db (bo_id b))) | Some p \<Rightarrow> fair_plan b p"
    using parse_requestD(2) [OF parse] fair parse by (cases plan) auto
  ultimately show ?thesis
    unfolding kept_money_def using perform_money wf parse_requestD(1) [OF parse] perform by blast
qed

lemma fair_of_priced:
  assumes "priced_fairly pc data i db" "row_of bo_id i (bd_bookings db) = Some b" "booked_equipment db b = Some e"
    "parse_cancellation_request pc e data b db = Inr (ids, Some p)"
  shows "fair_plan b p"
  using assms parse_requestD(3) [OF assms(4) refl] by (cases "rq_files data") (auto simp: priced_fairly_def fair_plan_def)

lemma desk_step_kept:
  assumes "desk_wf db" "desk_step db db'"
  shows "kept_money db db'"
  using assms(2)
proof cases
  case (Staff_Cancels pc managed now actor data r description i res)
  show ?thesis
  proof (cases "db' = db")
    case True
    then show ?thesis using assms(1) by (simp add: kept_money_refl)
  next
    case False
    then obtain b e where rows: "row_of bo_id i (bd_bookings db) = Some b" "booked_equipment db b = Some e"
      and "and_then (parse_cancellation_request pc e data b db) (\<lambda>(ids, plan).
        perform_booking_cancellation pc now r True description b ids plan db) = Inr (db', projr res)"
      using Staff_Cancels(1) by (auto simp: cancel_booking_def split: option.splits if_splits sum.splits)
    then show ?thesis
      using fair_of_priced [OF Staff_Cancels(2) rows] by (intro parsed_perform_money [OF assms(1) rows])
  qed
next
  case (User_Cancels pc lab_staff grace now u data refund description i res)
  show ?thesis
  proof (cases "db' = db")
    case True
    then show ?thesis using assms(1) by (simp add: kept_money_refl)
  next
    case False
    define request where "request b = (if is_rejection_active b
      then \<lparr>rq_files = None, rq_reduced = None, rq_slots = None\<rparr> else data)" for b
    from False obtain b e r allow where rows: "row_of bo_id i (bd_bookings db) = Some b" "booked_equipment db b = Some e"
      and run: "and_then (parse_cancellation_request pc e (request b) b db) (\<lambda>(ids, plan).
        perform_booking_cancellation pc now r allow description b ids plan db) = Inr (db', projr res)"
      using User_Cancels(1) by (auto simp: user_cancel_booking_def Let_def request_def and_then_eq_Inr split: option.splits sum.splits)
    have "fair_plan b p" if "parse_cancellation_request pc e (request b) b db = Inr (ids, Some p)" for ids p
      using that fair_of_priced [OF User_Cancels(2) rows] by (cases "is_rejection_active b")
        (auto simp: request_def parse_cancellation_request_def Let_def and_then_eq_Inr)
    with run show ?thesis by (intro parsed_perform_money [OF assms(1) rows])
  qed
qed

lemma kept_money_trans: "kept_money a b \<Longrightarrow> kept_money b c \<Longrightarrow> kept_money a c"
  by (auto simp: kept_money_def)

interpretation desk: machine desk_step "kept_money db0" for db0
proof unfold_locales
  fix s t
  assume "kept_money db0 s" "desk_step s t"
  moreover from this have "kept_money s t" by (intro desk_step_kept) (simp_all add: kept_money_def)
  ultimately show "kept_money db0 t" by (blast intro: kept_money_trans)
qed


subsection \<open>A whole cancellation\<close>

lemma nothing_left_to_cancel:
  assumes "daily_slots db i = []"
  shows "\<exists>x. cancel_booking pc managed now actor data r description i db = (db, Inl x)"
    and "\<exists>x. user_cancel_booking pc lab_staff grace now u data refund description i db = (db, Inl x)"
proof -
  have parse: "parse_cancellation_request pc e rq b db = Inl No_Slots_Booked" if "row_of bo_id i (bd_bookings db) = Some b" for e rq b
    using that assms by (auto simp: parse_cancellation_request_def dest: row_of_SomeD)
  show "\<exists>x. cancel_booking pc managed now actor data r description i db = (db, Inl x)"
    by (auto simp: cancel_booking_def parse split: option.split)
  show "\<exists>x. user_cancel_booking pc lab_staff grace now u data refund description i db = (db, Inl x)"
    by (auto simp: user_cancel_booking_def Let_def and_then_def parse split: option.split sum.split)
qed

lemma all_slots_valid:
  fixes db :: "'z desk_db_scheme"
  assumes "unique_keys ds_id (sl_slots db)"
  shows "validate_slots_for_cancellation now True (map ds_id (daily_slots db (bo_id b))) b db = Inr (ordered_slots db b)"
proof -
  have "distinct (map ds_id (daily_slots db (bo_id b)))"
    using assms by (simp add: unique_keys_def daily_slots_def distinct_map_filter)
  then have "length (ordered_slots db b) = length (remdups (map ds_id (daily_slots db (bo_id b))))"
    by (simp add: ordered_slots_def distinct_remdups_id)
  moreover have "filter (\<lambda>s. ds_id s \<in> set (map ds_id (daily_slots db (bo_id b)))) (ordered_slots db b) = ordered_slots db b"
    by (rule filter_True) (simp add: ordered_slots_def)
  ultimately show ?thesis by (simp add: validate_slots_for_cancellation_def)
qed

definition whole_request :: cancel_data where
  "whole_request = \<lparr>rq_files = None, rq_reduced = None, rq_slots = None\<rparr>"

lemma cancel_whole_booking:
  assumes wf: "desk_wf db" and rows: "row_of bo_id i (bd_bookings db) = Some b" "booked_equipment db b = Some e" "booker db b = Some u"
    and may: "actor_may_cancel_booking managed actor b db" "bo_status b \<notin> {BO_CANCELLED, BO_REFUNDED, BO_NOT_UTILIZED}"
    and slots: "daily_slots db i \<noteq> []" and wallet: "get_accessible_wallet (dk_wallets db) u \<noteq> None"
  obtains db' sw where
    "cancel_booking pc managed now actor whole_request True description i db =
       (db', Inr \<lparr>cr_full = True, cr_slots = map ds_id (daily_slots db i), cr_refund = booking_paid_charge b,
          cr_credited = 0 < booking_paid_charge b, cr_status = refunded_status b\<rparr>)"
    "cancelled_to now (if lab_disruption_active b then effective_slot_status_when_freeing e b
        else released_slot_status_after_booking_freed e) (map ds_id (daily_slots db i)) b
       (closed_booking b (refunded_status b) (clear_pending_charge_difference b)) (booking_paid_charge b) db db'"
    "balance_of (dk_wallets db') = (balance_of (dk_wallets db))(sw_id sw := balance_of (dk_wallets db) (sw_id sw) + booking_paid_charge b)"
    "snd (wallet_target u e db) = Some sw"
proof -
  define st where "st = (if lab_disruption_active b then effective_slot_status_when_freeing e b
    else released_slot_status_after_booking_freed e)"
  have b: "b \<in> set (bd_bookings db)" "bo_id b = i" using rows(1) by (auto dest: row_of_SomeD)
  let ?ids = "map ds_id (daily_slots db i)"
  let ?c = "calculate_refund_for_cancelled_slots b (ordered_slots db b) db"
  obtain db' sw where whole:
    "cancel_whole now True description u e b ?ids ?c (free_slots now st ?ids b db) =
       Inr (db', \<lparr>cr_full = True, cr_slots = ?ids, cr_refund = booking_paid_charge b, cr_credited = 0 < booking_paid_charge b,
         cr_status = refunded_status b\<rparr>)"
    "cancelled_to now st ?ids b (closed_booking b (refunded_status b) (clear_pending_charge_difference b)) (booking_paid_charge b) db db'"
    "balance_of (dk_wallets db') = (balance_of (dk_wallets db))(sw_id sw := balance_of (dk_wallets db) (sw_id sw) + booking_paid_charge b)"
    "snd (wallet_target u e db) = Some sw"
    by (rule whole_refunded [OF wf b(1) wallet, of now description e ?ids ?c st])
  have "unique_keys ds_id (sl_slots db)" using wf by (simp add: desk_wf_def)
  from all_slots_valid [OF this, of now b] have valid: "validate_slots_for_cancellation now True ?ids b db = Inr (ordered_slots db b)"
    unfolding b(2) .
  have "parse_cancellation_request pc e whole_request b db = Inr (?ids, None)"
    using slots by (simp add: parse_cancellation_request_def whole_request_def b(2))
  moreover have "perform_booking_cancellation pc now True True description b ?ids None db =
      cancel_whole now True description u e b ?ids ?c (free_slots now st ?ids b db)"
    using slots valid rows by (simp add: perform_booking_cancellation_def b(2) Let_def st_def)
  ultimately have "cancel_booking pc managed now actor whole_request True description i db =
       (db', Inr \<lparr>cr_full = True, cr_slots = ?ids, cr_refund = booking_paid_charge b,
          cr_credited = 0 < booking_paid_charge b, cr_status = refunded_status b\<rparr>)"
    using rows(1,2) may whole(1) by (simp add: cancel_booking_def)
  with that whole(2-4) show thesis unfolding st_def by blast
qed


text \<open>
  C40: An unpaid charge is paid out. A booking that still waits for its payment, of which only the part
  \<open>bo_applied\<close> came from the wallet, is refunded by staff like a paid one: the sub-wallet of the booker
  gets the whole charge, the part that was never paid included.
\<close>

theorem unpaid_charge_is_paid_out:
  assumes "desk_wf db" "row_of bo_id i (bd_bookings db) = Some b" "booked_equipment db b = Some e" "booker db b = Some u"
    "actor_may_cancel_booking managed actor b db" "bo_status b = BO_PENDING_PAYMENT" "bo_pending b = None"
    "bo_charge b = bo_applied b + bo_due b" "daily_slots db i \<noteq> []" "get_accessible_wallet (dk_wallets db) u \<noteq> None"
  shows "\<exists>db' res. cancel_booking pc managed now actor whole_request True description i db = (db', Inr res) \<and>
    held (dk_wallets db') = held (dk_wallets db) + bo_applied b + bo_due b"
proof -
  have "bo_status b \<notin> {BO_CANCELLED, BO_REFUNDED, BO_NOT_UTILIZED}" using assms(6) by simp
  from cancel_whole_booking [OF assms(1-5) this assms(9,10), of pc now description] obtain db' res where
    res: "cancel_booking pc managed now actor whole_request True description i db = (db', Inr res)"
    and o: "cancelled_to now (if lab_disruption_active b then effective_slot_status_when_freeing e b
        else released_slot_status_after_booking_freed e) (map ds_id (daily_slots db i)) b
       (closed_booking b (refunded_status b) (clear_pending_charge_difference b)) (booking_paid_charge b) db db'" by metis
  have "booking_paid_charge b = bo_applied b + bo_due b" using assms(7,8) by (simp add: booking_paid_charge_paid_of paid_of_def)
  with o have "held (dk_wallets db') = held (dk_wallets db) + bo_applied b + bo_due b" by (simp add: cancelled_to_def)
  with res show ?thesis by blast
qed

subsection \<open>A part of a booking\<close>


subsection \<open>Unpaid edits\<close>

type_synonym charge_edit = "timestamp \<times> booking_inputs \<times> paise \<times> int"

definition user_edit :: "charge_edit \<Rightarrow> booking \<Rightarrow> booking" where
  "user_edit ed b = (case ed of (now, inputs, charge, minutes) \<Rightarrow> edit_inputs now inputs charge minutes b)"

text \<open>Each edit raises the charge, and none of them is paid.\<close>

fun unpaid_edits :: "charge_edit list \<Rightarrow> booking \<Rightarrow> bool" where
  "unpaid_edits [] b = True"
| "unpaid_edits (ed # eds) b = (charge_so_far b < fst (snd (snd ed)) \<and> unpaid_edits eds (user_edit ed b))"

definition edited_from :: "booking \<Rightarrow> timestamp \<Rightarrow> booking \<Rightarrow> bool" where
  "edited_from b t b1 \<longleftrightarrow> reverted b1 = b \<and> bo_snapshot b1 \<noteq> None \<and> bo_deadline b1 = Some (t + 60) \<and>
     (case bo_pending b1 of None \<Rightarrow> False | Some d \<Rightarrow> 0 < d)"

lemma charge_so_far_inputs [simp]: "charge_so_far (b\<lparr>bo_inputs := x\<rparr>) = charge_so_far b"
  by (simp add: charge_so_far_def split: option.split)

lemma first_edit:
  assumes "bo_deadline b = None" "bo_snapshot b = None" "charge_so_far b < fst (snd (snd ed))"
  shows "edited_from b (fst ed) (user_edit ed b)"
  using assms by (cases ed) (simp add: edited_from_def user_edit_def edit_inputs_def recharged_def
      reverted_def snapshot_booking_charge_state_def clear_payment_window_def Let_def)

lemma next_edit:
  assumes "edited_from b t b1" "charge_so_far b1 < fst (snd (snd ed))"
  shows "edited_from b (fst ed) (user_edit ed b1)"
  using assms by (cases ed) (auto simp: edited_from_def user_edit_def edit_inputs_def recharged_def
      reverted_def snapshot_booking_charge_state_def clear_payment_window_def Let_def)

lemma edits_from:
  "edited_from b t b1 \<Longrightarrow> unpaid_edits eds b1 \<Longrightarrow> edited_from b (if eds = [] then t else fst (last eds)) (fold user_edit eds b1)"
  by (induction eds arbitrary: t b1) (auto dest: next_edit)

lemma whole_rupees [simp]: "100 dvd a \<Longrightarrow> quantize_rupees a = a"
  by (auto simp: quantize_rupees_def)

lemma edit_keeps_paid:
  assumes "bo_pending b = None \<or> bo_pending b = Some (bo_charge b - paid)" "100 dvd paid" "charge_so_far b = paid" "0 \<le> paid"
    "paid < fst (snd (snd ed))"
  shows "bo_pending (user_edit ed b) = Some (bo_charge (user_edit ed b) - paid) \<and> charge_so_far (user_edit ed b) = paid \<and>
    booking_paid_charge (user_edit ed b) = paid"
  using assms by (cases ed) (auto simp: user_edit_def edit_inputs_def recharged_def Let_def charge_so_far_def
      booking_paid_charge_paid_of paid_of_def clear_payment_window_def split: option.splits)

lemma edits_keep_paid:
  assumes "unpaid_edits eds b" "bo_pending b = None \<or> bo_pending b = Some (bo_charge b - paid)" "100 dvd paid"
    "charge_so_far b = paid" "0 \<le> paid" "booking_paid_charge b = paid"
  shows "booking_paid_charge (fold user_edit eds b) = paid"
  using assms
proof (induction eds arbitrary: b)
  case (Cons ed eds)
  then show ?case using edit_keeps_paid [of b paid ed] by simp
qed simp

text \<open>
  C39: Unpaid edits are undone. Let the user of a booking change its inputs any number of times, each
  time raising the charge, and pay nothing. Until five seconds after the minute of payment that follows
  the last edit the sweep leaves the booking alone; after them, or at once when the edit is given up, it
  is exactly as it was before the first edit and no other booking has changed. Meanwhile a charge of
  whole rupees counts as paid with what was really paid.
\<close>

theorem unpaid_edits_are_undone:
  assumes row: "unique_keys bo_id (bd_bookings db)" "b \<in> set (bd_bookings db)" "bo_deadline b = None" "bo_snapshot b = None"
    and edits: "eds \<noteq> []" "unpaid_edits eds b"
    and db1: "db1 = db\<lparr>bd_bookings := update_row bo_id (bo_id b) (\<lambda>_. fold user_edit eds b) (bd_bookings db)\<rparr>"
  shows "revert_unpaid_input_edit now True (bo_id b) db1 = (if fst (last eds) + 65 < now then db else db1) \<and>
    revert_unpaid_input_edit now False (bo_id b) db1 = db \<and>
    (bo_pending b = None \<and> 0 \<le> bo_charge b \<and> 100 dvd bo_charge b \<longrightarrow>
       booking_paid_charge (fold user_edit eds b) = bo_charge b)"
proof -
  let ?b = "fold user_edit eds b"
  obtain ed es where eds: "eds = ed # es" using edits(1) by (cases eds) auto
  have ed: "edited_from b (fst (last eds)) ?b"
    using edits_from [OF first_edit [OF row(3,4), of ed], of es] edits(2) by (cases "es = []") (simp_all add: eds)
  have ids: "bo_id (user_edit x y) = bo_id y" for x y
    by (cases x) (simp add: user_edit_def edit_inputs_def recharged_def Let_def clear_payment_window_def)
  have id: "bo_id (fold user_edit xs y) = bo_id y" for xs y by (induction xs arbitrary: y) (simp_all add: ids)
  obtain xs ys where rows: "bd_bookings db = xs @ b # ys"
    and upd: "update_row bo_id (bo_id b) (\<lambda>_. ?b) (bd_bookings db) = xs @ ?b # ys"
    by (rule update_row_const [OF row(1,2), of ?b]) blast
  have absent: "bo_id b \<notin> bo_id ` set xs" "bo_id b \<notin> bo_id ` set ys" using row(1) by (auto simp: rows unique_keys_def)
  then have found: "row_of bo_id (bo_id b) (bd_bookings db1) = Some ?b"
    by (simp add: db1 upd row_of_append row_of_None [THEN iffD2] id)
  have "update_row bo_id (bo_id b) (\<lambda>_. b) (xs @ ?b # ys) = xs @ b # ys"
    using absent [THEN update_row_absent] by (simp add: update_row_def id)
  then have restored: "db1\<lparr>bd_bookings := update_row bo_id (bo_id b) (\<lambda>_. b) (bd_bookings db1)\<rparr> = db"
    by (simp add: db1 upd rows [symmetric])
  have "booking_paid_charge ?b = bo_charge b" if "bo_pending b = None" "0 \<le> bo_charge b" "100 dvd bo_charge b"
    using that by (intro edits_keep_paid [OF edits(2)]) (simp_all add: charge_so_far_def booking_paid_charge_paid_of paid_of_def)
  moreover have "revert_unpaid_input_edit now True (bo_id b) db1 = (if fst (last eds) + 65 < now then db else db1)"
    "revert_unpaid_input_edit now False (bo_id b) db1 = db"
    using ed restored by (auto simp: revert_unpaid_input_edit_def found edited_from_def has_payment_window_def
        payment_window_expired_def split: option.splits)
  ultimately show ?thesis by blast
qed

subsection \<open>A desk\<close>

text \<open>
  A faculty member holds two hours on a sample-based instrument whose slots may be overrun by ten
  minutes; a minute costs a rupee and a sample takes 65 minutes.
\<close>

definition demo_booking :: "booking_status \<Rightarrow> booking" where
  "demo_booking st = \<lparr>bo_id = 10, bo_user = 1, bo_equipment = 5, bo_profile = 1, bo_user_type = Some FACULTY,
     bo_charge = 20000, bo_inputs = [(''A'', ''2'')], bo_status = st, bo_source = None, bo_minutes = 120,
     bo_applied = 5000, bo_due = 15000, bo_pending = None, bo_deadline = None, bo_snapshot = None, bo_disrupted = False,
     bo_disruption = None, bo_release = None, bo_rejected = None, bo_rescheduled = None\<rparr>"

definition demo_user :: "ident \<Rightarrow> user_type \<Rightarrow> user" where
  "demo_user i t = \<lparr>u_id = i, u_name = ''user'', u_email = ''u@x.in'', u_type = Some t, u_is_active = True,
     u_department = None, u_joining_date = None, u_force_inactive = False, u_degree = None, u_is_superuser = False\<rparr>"

definition demo_instrument :: bookable where
  "demo_instrument = \<lparr>eq_id = 5, eq_status = EQ_ACTIVE, eq_external_percent = 0, be_exchange = False, be_group = None,
     be_weekday = None, be_time = None, be_department = Some 7, be_profile = Some Sample_Based, be_duration = 60,
     be_tolerance = 10, be_threshold = 48\<rparr>"

definition demo_wallets :: wallet_db where
  "demo_wallets = \<lparr>users = [demo_user 1 FACULTY], departments = [], sric_grant_code = [],
     wallets = [\<lparr>w_id = 3, w_user = 1\<rparr>], sub_wallets = [\<lparr>sw_id = 4, sw_wallet = 3, sw_department = 7, sw_balance = 0\<rparr>],
     sub_wallet_txns = [], join_requests = [], dept_settings = [], dept_facilities = [], dept_audit = []\<rparr>"

definition demo_desk :: "booking_status \<Rightarrow> desk_db" where
  "demo_desk st = \<lparr>sl_masters = [], sl_slots = map (\<lambda>(i, t). \<lparr>ds_id = i, ds_master = i, ds_date = 3, ds_start = t,
       ds_end = t + 3600, ds_status = SL_BOOKED, ds_label = None, ds_reference = None, ds_booking = Some 10,
       ds_released = None\<rparr>) [(1, 300000), (2, 303600)],
     sl_holidays = [], sl_rules = [], sl_links = [], sl_ranges = Map.empty, bd_users = [demo_user 1 FACULTY],
     bd_bookings = [demo_booking st], bd_equipment = [demo_instrument], bd_traces = [], dk_wallets = demo_wallets\<rparr>"

definition demo_pricing :: pricing where
  "demo_pricing = \<lparr>pc_trim = (\<lambda>_ x. x), pc_safe = (\<lambda>_ x. x),
     pc_number = (\<lambda>s. if s = ''1'' then Some 1 else if s = ''2'' then Some 2 else None),
     pc_time = (\<lambda>_ x _. if map_of x ''A'' = Some ''1'' then Some 65 else Some 120),
     pc_charge = (\<lambda>_ _ t. Some (100 * t)), pc_print = (\<lambda>_ _. None)\<rparr>"

abbreviation admin :: user where "admin \<equiv> demo_user 2 ADMIN"

abbreviation one_sample :: cancel_data where
  "one_sample \<equiv> \<lparr>rq_files = None, rq_reduced = Some [(''a'', ''1'')], rq_slots = None\<rparr>"

abbreviation cut_desk :: "desk_db \<times> (cancel_error + cancel_result)" where
  "cut_desk \<equiv> cancel_booking demo_pricing (\<lambda>_. []) 9 admin one_sample True ''refund'' 10 (demo_desk BO_BOOKED)"

lemma demo_desk_wf: "desk_wf (demo_desk BO_BOOKED)" "desk_wf (demo_desk BO_PENDING_PAYMENT)"
  by code_simp+

lemma demo_rows:
  "row_of bo_id 10 (bd_bookings (demo_desk st)) = Some (demo_booking st)"
  "booked_equipment (demo_desk st) (demo_booking st) = Some demo_instrument"
  "booker (demo_desk st) (demo_booking st) = Some (demo_user 1 FACULTY)"
  "actor_may_cancel_booking managed admin (demo_booking st) (demo_desk st)"
  "daily_slots (demo_desk st) 10 \<noteq> []" "get_accessible_wallet (dk_wallets (demo_desk st)) (demo_user 1 FACULTY) \<noteq> None"
proof -
  show "row_of bo_id 10 (bd_bookings (demo_desk st)) = Some (demo_booking st)" by (simp add: demo_desk_def demo_booking_def)
  show "booked_equipment (demo_desk st) (demo_booking st) = Some demo_instrument"
    by (simp add: booked_equipment_def demo_desk_def demo_booking_def demo_instrument_def)
  show "booker (demo_desk st) (demo_booking st) = Some (demo_user 1 FACULTY)"
    by (simp add: booker_def demo_desk_def demo_booking_def demo_user_def)
  show "actor_may_cancel_booking managed admin (demo_booking st) (demo_desk st)"
    by (simp add: actor_may_cancel_booking_def demo_user_def)
  show "daily_slots (demo_desk st) 10 \<noteq> []" by (simp add: daily_slots_def demo_desk_def)
  show "get_accessible_wallet (dk_wallets (demo_desk st)) (demo_user 1 FACULTY) \<noteq> None"
    by (simp add: demo_desk_def demo_wallets_def demo_user_def own_wallet wallet_by_user_def)
qed

lemma cut_desk_ok: "\<not> isl (snd cut_desk)" "sw_balance (hd (sub_wallets (dk_wallets (fst cut_desk)))) = 13500"
  "booking_paid_charge (hd (bd_bookings (fst cut_desk))) = 6000"
  by code_simp+



theorem unpaid_charge_is_paid_out_witness:
  "\<exists>db' res. cancel_booking demo_pricing (\<lambda>_. []) 9 admin whole_request True ''refund'' 10 (demo_desk BO_PENDING_PAYMENT) = (db', Inr res) \<and>
     held (dk_wallets db') = 0 + 5000 + 15000"
proof -
  have "bo_status (demo_booking BO_PENDING_PAYMENT) = BO_PENDING_PAYMENT" "bo_pending (demo_booking BO_PENDING_PAYMENT) = None"
    "bo_charge (demo_booking BO_PENDING_PAYMENT) = bo_applied (demo_booking BO_PENDING_PAYMENT) + bo_due (demo_booking BO_PENDING_PAYMENT)"
    "bo_applied (demo_booking BO_PENDING_PAYMENT) = 5000" "bo_due (demo_booking BO_PENDING_PAYMENT) = 15000"
    by (simp_all add: demo_booking_def)
  moreover have "held (dk_wallets (demo_desk BO_PENDING_PAYMENT)) = 0" by code_simp
  ultimately show ?thesis
    using unpaid_charge_is_paid_out [where managed = "\<lambda>_. []" and pc = demo_pricing and now = 9 and description = "''refund''",
      OF demo_desk_wf(2) demo_rows(1-4) _ _ _ demo_rows(5,6)]
    by simp
qed

abbreviation cut_plan :: cancel_plan where
  "cut_plan \<equiv> the (snd (projr (parse_cancellation_request demo_pricing demo_instrument one_sample (demo_booking BO_BOOKED) (demo_desk BO_BOOKED))))"


theorem unpaid_edits_are_undone_witness:
  "revert_unpaid_input_edit 166 True 10 (demo_desk BO_BOOKED\<lparr>bd_bookings := [edit_inputs 100 [(''A'', ''3'')] 30000 180 (demo_booking BO_BOOKED)]\<rparr>) =
     demo_desk BO_BOOKED"
proof -
  let ?b = "demo_booking BO_BOOKED" let ?eds = "[(100, [(''A'', ''3'')], 30000, 180)]"
  let ?db1 = "demo_desk BO_BOOKED\<lparr>bd_bookings := [edit_inputs 100 [(''A'', ''3'')] 30000 180 ?b]\<rparr>"
  have "unique_keys bo_id (bd_bookings (demo_desk BO_BOOKED))" "?b \<in> set (bd_bookings (demo_desk BO_BOOKED))"
    "bo_deadline ?b = None" "bo_snapshot ?b = None" "bo_id ?b = 10"
    by (simp_all add: demo_desk_def demo_booking_def unique_keys_def)
  moreover have "unpaid_edits ?eds ?b" by code_simp
  moreover have "?db1 = demo_desk BO_BOOKED\<lparr>bd_bookings := update_row bo_id (bo_id ?b) (\<lambda>_. fold user_edit ?eds ?b)
      (bd_bookings (demo_desk BO_BOOKED))\<rparr>"
    by (simp add: demo_desk_def user_edit_def)
  ultimately show ?thesis
    using unpaid_edits_are_undone [of "demo_desk BO_BOOKED" ?b ?eds ?db1 166] by simp
qed

end
